(* ===== verification/C_Prelude.thy ===== *)
theory C_Prelude
  imports Main "HOL-Library.Word" "HOL-Library.Monad_Syntax"
begin

text \<open>
  Shared vocabulary of the development: the fixed-width unsigned integer types of the
  sources, byte order conversions of \<open>netinet/in.h\<close> on a little-endian host, results
  that may be undefined behaviour, and generic facts on words and lists that the
  component theories use.

  The data model is LP64 and little-endian: \<open>int\<close> has 32 bits, \<open>size_t\<close> has 64 bits.
  An \<open>int\<close> whose value cannot leave its range is modelled by the type \<^typ>\<open>int\<close>;
  conversions from unsigned words to \<open>int\<close> are \<^const>\<open>sint\<close>, and conversions
  from \<^typ>\<open>int\<close> to unsigned words are \<^const>\<open>word_of_int\<close>.
\<close>

unbundle bit_operations_syntax

type_synonym u8 = "8 word"
type_synonym u16 = "16 word"
type_synonym u32 = "32 word"
type_synonym u64 = "64 word"

text \<open>A result \<^const>\<open>None\<close> means that the C expression has no defined behaviour
  (an access outside an array, for example).\<close>

type_synonym 'a defined = "'a option"

named_theorems word_bits \<open>bitwise characterisations of the word operations of the model\<close>
named_theorems srtp_inv \<open>preservation lemmas of the invariants\<close>

section \<open>Facts on words\<close>

lemma word_eqI_lt:
  fixes x y :: "'a::len word"
  assumes "\<And>n. n < LENGTH('a) \<Longrightarrow> bit x n = bit y n"
  shows "x = y"
  by (rule bit_word_eqI) (use assms in simp)

lemma xor_xor_cancel [simp]:
  fixes a k :: "'a::len word"
  shows "(a XOR k) XOR k = a"
  by (simp add: xor.assoc)

lemma xor_word_left_cancel:
  fixes k a b :: "'a::len word"
  shows "k XOR a = k XOR b \<longleftrightarrow> a = b"
  by (rule iffI) (metis xor.assoc xor_self_eq xor.left_neutral, simp)

lemma xor_eq_0_conv: "(a :: 'a::len word) XOR b = 0 \<longleftrightarrow> a = b"
  by (metis xor_xor_cancel xor.left_neutral xor_self_eq)

lemma sint_word_of_int32:
  "- (2 ^ 31) \<le> d \<Longrightarrow> d < 2 ^ 31 \<Longrightarrow> sint (word_of_int d :: u32) = d"
  by (simp add: signed_of_int signed_take_bit_int_eq_self)

section \<open>Facts on lists\<close>

lemma length4_conv:
  "length xs = 4 \<longleftrightarrow> (\<exists>a b c d. xs = [a, b, c, d])"
  by (auto simp: length_Suc_conv numeral_eq_Suc)

lemma map2_xor_cancel:
  fixes xs ks :: "'a::len word list"
  shows "length xs \<le> length ks \<Longrightarrow> map2 (XOR) (map2 (XOR) xs ks) ks = xs"
  by (rule nth_equalityI) (simp_all add: min_def)

text \<open>Evaluation of the four-element arrays that hold a 128-bit vector.\<close>

lemma list4_update:
  "[a, b, c, d][0 := v] = [v, b, c, d]" "[a, b, c, d][1 := v] = [a, v, c, d]"
  "[a, b, c, d][2 := v] = [a, b, v, d]" "[a, b, c, d][3 := v] = [a, b, c, v]"
  by (simp_all add: numeral_eq_Suc)

lemma list4_nth:
  "[a, b, c, d] ! 0 = a" "[a, b, c, d] ! 1 = b" "[a, b, c, d] ! 2 = c" "[a, b, c, d] ! 3 = d"
  by (simp_all add: numeral_eq_Suc)

lemma upt4:
  "[0..<1] = [0]" "[0..<2] = [0, 1]" "[0..<3] = [0, 1, 2]" "[0..<4] = [0, 1, 2, 3]"
  "[1..<4] = [1, 2, 3]" "[2..<4] = [2, 3]" "[3..<4] = [3]" "[4..<4] = []" "[Suc 0..<4] = [1, 2, 3]"
  "[Suc (Suc 0)..<4] = [2, 3]" "[Suc 0..<5] = [1, 2, 3, 4]" "[Suc (Suc 0)..<5] = [2, 3, 4]"
  "[1..<5] = [1, 2, 3, 4]" "[2..<5] = [2, 3, 4]" "[3..<5] = [3, 4]" "[4..<5] = [4]"
  by (simp_all add: upt_rec)

lemma upt_split: "i \<le> j \<Longrightarrow> j \<le> k \<Longrightarrow> [i..<k] = [i..<j] @ [j..<k]"
  by (metis le_Suc_ex upt_add_eq_append)

lemmas list4_eval = list4_update list4_nth upt4

lemma less4_cases:
  assumes "(n::nat) < 4"
  obtains "n = 0" | "n = 1" | "n = 2" | "n = 3"
  using assms by linarith

section \<open>Byte order and memory\<close>

text \<open>An integer object in memory, lowest octet first.\<close>

definition le16 :: "u16 \<Rightarrow> u8 list" where
  "le16 w = [ucast w, ucast (drop_bit 8 w)]"

definition le32 :: "u32 \<Rightarrow> u8 list" where
  "le32 w = [ucast w, ucast (drop_bit 8 w), ucast (drop_bit 16 w), ucast (drop_bit 24 w)]"

definition of_le16 :: "u8 list \<Rightarrow> u16" where
  "of_le16 bs = ucast (bs ! 0) OR push_bit 8 (ucast (bs ! 1))"

definition of_le32 :: "u8 list \<Rightarrow> u32" where
  "of_le32 bs = ucast (bs ! 0) OR push_bit 8 (ucast (bs ! 1))
     OR push_bit 16 (ucast (bs ! 2)) OR push_bit 24 (ucast (bs ! 3))"

text \<open>\<open>htons\<close>, \<open>ntohs\<close>, \<open>htonl\<close> and \<open>ntohl\<close> on a little-endian host: both
  directions reverse the octets.\<close>

definition htons :: "u16 \<Rightarrow> u16" where
  "htons x = of_le16 (rev (le16 x))"

definition htonl :: "u32 \<Rightarrow> u32" where
  "htonl x = of_le32 (rev (le32 x))"

abbreviation ntohs :: "u16 \<Rightarrow> u16" where "ntohs \<equiv> htons"
abbreviation ntohl :: "u32 \<Rightarrow> u32" where "ntohl \<equiv> htonl"

text \<open>Reads and writes of a memory block at a byte offset; outside the block they are undefined.\<close>

definition peek :: "u8 list \<Rightarrow> int \<Rightarrow> nat \<Rightarrow> u8 list option" where
  "peek buf off n =
     (if 0 \<le> off \<and> off + int n \<le> int (length buf) then Some (take n (drop (nat off) buf)) else None)"

definition poke :: "u8 list \<Rightarrow> nat \<Rightarrow> u8 list \<Rightarrow> u8 list option" where
  "poke buf off bs =
     (if off + length bs \<le> length buf
      then Some (take off buf @ bs @ drop (off + length bs) buf) else None)"

text \<open>The characters of a C string up to its terminating zero, and \<open>strcpy\<close>.\<close>

definition c_str :: "u8 list \<Rightarrow> u8 list" where
  "c_str s = takeWhile (\<lambda>c. c \<noteq> 0) s"

definition strcpy :: "u8 list \<Rightarrow> nat \<Rightarrow> u8 list \<Rightarrow> u8 list option" where
  "strcpy buf off s = poke buf off (c_str s @ [0])"

text \<open>The octets of the region \<open>old\<close> of the length of \<open>s\<close> after \<open>strcpy\<close> of \<open>s\<close>: what follows the
  first zero of \<open>s\<close> is what the region held before.\<close>

definition str_region :: "u8 list \<Rightarrow> u8 list \<Rightarrow> u8 list" where
  "str_region s old = take (length s) (c_str s @ [0] @ drop (length (c_str s) + 1) old)"

lemma length_le16 [simp]: "length (le16 w) = 2" by (simp add: le16_def)
lemma length_le32 [simp]: "length (le32 w) = 4" by (simp add: le32_def)

lemma u16_octets [simp]: "ucast (ucast w :: u8) OR push_bit 8 (ucast (ucast (drop_bit 8 w) :: u8)) = (w :: u16)"
  by (rule word_eqI_lt) (auto simp: bit_simps dest: bit_imp_le_length)

lemma u32_octets [simp]:
  "ucast (ucast w :: u8) OR push_bit 8 (ucast (ucast (drop_bit 8 w) :: u8))
     OR push_bit 16 (ucast (ucast (drop_bit 16 w) :: u8)) OR push_bit 24 (ucast (ucast (drop_bit 24 w) :: u8))
   = (w :: u32)"
proof (rule word_eqI_lt)
  fix n assume "n < LENGTH(32)"
  then consider "n < 8" | "8 \<le> n" "n < 16" | "16 \<le> n" "n < 24" | "24 \<le> n" "n < 32" by fastforce
  then show "bit (ucast (ucast w :: u8) OR push_bit 8 (ucast (ucast (drop_bit 8 w) :: u8))
     OR push_bit 16 (ucast (ucast (drop_bit 16 w) :: u8))
     OR push_bit 24 (ucast (ucast (drop_bit 24 w) :: u8)) :: u32) n = bit w n"
    by cases (auto simp: bit_simps)
qed

lemma of_le16_le16 [simp]: "of_le16 (le16 w) = w"
  by (simp add: of_le16_def le16_def)

lemma of_le32_le32 [simp]: "of_le32 (le32 w) = w"
  by (simp add: of_le32_def le32_def numeral_eq_Suc[of "num.Bit1 num.One"] numeral_eq_Suc[of "num.Bit0 num.One"])

lemma le16_of_le16 [simp]: "length bs = 2 \<Longrightarrow> le16 (of_le16 bs) = bs"
  by (auto simp: length_Suc_conv numeral_eq_Suc[of "num.Bit0 num.One"] le16_def of_le16_def
      intro!: word_eqI_lt) (auto simp: bit_simps dest: bit_imp_le_length)

lemma u8_high_bit [simp]: "8 \<le> k \<Longrightarrow> \<not> bit (x :: u8) (k + n)"
  by (auto dest: bit_imp_le_length)

lemma le32_of_le32 [simp]:
  assumes "length bs = 4"
  shows "le32 (of_le32 bs) = bs"
proof -
  obtain a b c d where bs: "bs = [a, b, c, d]" using assms by (auto simp: length4_conv)
  have "ucast (of_le32 bs) = a" "ucast (drop_bit 8 (of_le32 bs)) = b"
    "ucast (drop_bit 16 (of_le32 bs)) = c" "ucast (drop_bit 24 (of_le32 bs)) = d"
    by (rule word_eqI_lt, simp add: bs of_le32_def list4_nth bit_simps)+
  then show ?thesis by (simp add: le32_def bs)
qed

lemma htons_htons [simp]: "htons (htons x) = x"
  by (simp add: htons_def)

lemma htonl_htonl [simp]: "htonl (htonl x) = x"
  by (simp add: htonl_def)

lemma peek_append:
  "off = int (length a) \<Longrightarrow> n = length b \<Longrightarrow> peek (a @ b @ c) off n = Some b"
  by (simp add: peek_def)

lemma length_poke: "poke buf off bs = Some b \<Longrightarrow> length b = length buf"
  by (auto simp: poke_def split: if_splits)

lemma peek_at:
  "w = a @ b @ c \<Longrightarrow> off = int (length a) \<Longrightarrow> n = length b \<Longrightarrow> peek w off n = Some b"
  by (simp add: peek_def)

lemma of_le16_le16_append [simp]: "of_le16 (le16 w @ r) = w"
  by (simp add: of_le16_def le16_def)

lemma of_le32_le32_append [simp]: "of_le32 (le32 w @ r) = w"
proof -
  have "of_le32 (le32 w @ r) = of_le32 (le32 w)"
    by (simp add: of_le32_def le32_def numeral_eq_Suc)
  then show ?thesis by simp
qed

lemma poke_exact:
  "off = length a \<Longrightarrow> length b = length bs \<Longrightarrow> poke (a @ b @ c) off bs = Some (a @ bs @ c)"
  by (simp add: poke_def)

lemma c_str_id: "0 \<notin> set s \<Longrightarrow> c_str s = s"
  by (auto simp: c_str_def takeWhile_eq_all_conv)

lemma c_str_shorter: "0 \<in> set s \<Longrightarrow> length (c_str s) < length s"
  by (induction s) (auto simp: c_str_def)

lemma str_region_id: "0 \<notin> set s \<Longrightarrow> str_region s old = s"
  by (simp add: str_region_def c_str_id)

lemma length_str_region [simp]: "length old = length s \<Longrightarrow> length (str_region s old) = length s"
  using c_str_shorter[of s] c_str_id[of s] by (cases "0 \<in> set s") (auto simp: str_region_def)

lemma str_region_cong: "s \<noteq> [] \<Longrightarrow> str_region s (x # b) = str_region s (y # b)"
  by (simp add: str_region_def)

lemma strcpy_region:
  assumes "off = length a" "length b = length s"
  shows "strcpy (a @ b @ x # c) off s = Some (a @ str_region s b @ (if 0 \<in> set s then x else 0) # c)"
proof (cases "0 \<in> set s")
  case True
  let ?n = "length (c_str s)"
  have n: "?n < length b" using c_str_shorter[OF True] assms by simp
  have "a @ b @ x # c = a @ take (?n + 1) b @ drop (?n + 1) b @ x # c"
    by (metis append_assoc append_take_drop_id)
  moreover have "poke (a @ take (?n + 1) b @ drop (?n + 1) b @ x # c) off (c_str s @ [0])
      = Some (a @ (c_str s @ [0]) @ drop (?n + 1) b @ x # c)"
    by (rule poke_exact) (use n assms in simp_all)
  ultimately have "strcpy (a @ b @ x # c) off s = Some (a @ (c_str s @ [0]) @ drop (?n + 1) b @ x # c)"
    unfolding strcpy_def by presburger
  then show ?thesis using True n assms by (simp add: str_region_def)
next
  case False
  then have "strcpy (a @ b @ x # c) off s = Some (a @ (s @ [0]) @ c)"
    using poke_exact[of off a "b @ [x]" "s @ [0]" c] assms by (simp add: strcpy_def c_str_id)
  then show ?thesis using False by (simp add: str_region_id)
qed

lemma strcpy_region_nonempty:
  assumes "off = length a" "length b = length s" "c \<noteq> []"
  shows "strcpy (a @ b @ c) off s
    = Some (a @ str_region s b @ (if 0 \<in> set s then hd c else 0) # tl c)"
  using strcpy_region[OF assms(1,2), of "hd c" "tl c"] assms(3) by simp

lemma bit_31_big: "bit (w :: u32) 31 \<Longrightarrow> 2 ^ 31 \<le> unat w"
proof -
  assume "bit w 31"
  then have "bit (unat w) 31" by (simp add: bit_unsigned_iff)
  then have "odd (unat w div 2 ^ 31)" by (simp add: bit_iff_odd)
  then show ?thesis by (metis div_less even_zero not_less)
qed

section \<open>Floating point\<close>

text \<open>A quotient of naturals rounded to the nearest integer, ties to even, and the number of binary digits: what the
  models of floating point operations need.\<close>

definition round_even :: "nat \<Rightarrow> nat \<Rightarrow> nat" where
  "round_even a b = (let q = a div b; r = a mod b in
     if 2 * r < b \<or> (2 * r = b \<and> even q) then q else q + 1)"

fun binary_digits :: "nat \<Rightarrow> nat" where
  "binary_digits n = (if n = 0 then 0 else Suc (binary_digits (n div 2)))"

declare binary_digits.simps [simp del]

lemma round_even_ge: "a div b \<le> round_even a b"
  by (simp add: round_even_def Let_def)

lemma round_even_le: "round_even a b \<le> a div b + 1"
  by (simp add: round_even_def Let_def)

lemma binary_digits_le: "n < 2 ^ k \<Longrightarrow> binary_digits n \<le> k"
proof (induction k arbitrary: n)
  case (Suc k)
  then show ?case by (subst binary_digits.simps) auto
qed (simp add: binary_digits.simps)

end
