(* ===== verification/Srtp_Aes.thy ===== *)
theory Srtp_Aes
  imports Srtp_Aes_Tables
begin

text \<open>
  The AES block cipher of libSRTP, \<open>crypto/cipher/aes.c\<close>, in its table-driven form (\<open>CPU_CISC\<close>,
  little-endian): key expansion for both directions, the rounds, encryption and decryption.

  A \<open>v128_t\<close> is the list of its sixteen octets \<open>v8\<close>; its word \<open>v32[i]\<close> is read and written in the
  byte order of the host. An expanded key is the list of its eleven round keys.

  Encryption is shown to be the cipher of FIPS 197, with its four byte-oriented transformations, and
  decryption with the transformed key schedule to be its inverse.
\<close>

type_synonym block = "u8 list"

section \<open>The implementation\<close>

definition v32 :: "block \<Rightarrow> nat \<Rightarrow> u32" where
  "v32 b i = of_le32 (drop (4 * i) b)"

definition of_v32 :: "u32 \<Rightarrow> u32 \<Rightarrow> u32 \<Rightarrow> u32 \<Rightarrow> block" where
  "of_v32 a b c d = le32 a @ le32 b @ le32 c @ le32 d"

definition v128_xor_eq :: "block \<Rightarrow> block \<Rightarrow> block" where
  "v128_xor_eq x y = of_v32 (v32 x 0 XOR v32 y 0) (v32 x 1 XOR v32 y 1) (v32 x 2 XOR v32 y 2) (v32 x 3 XOR v32 y 3)"

text \<open>One turn of the loop of the key expansion: the next round key from the last one.\<close>

definition aes_next_round_key :: "u8 \<Rightarrow> block \<Rightarrow> block" where
  "aes_next_round_key rc k =
    (let w = of_le32 [aes_sbox ! unat (k ! 13) XOR rc, aes_sbox ! unat (k ! 14), aes_sbox ! unat (k ! 15),
                      aes_sbox ! unat (k ! 12)];
         w0 = w XOR v32 k 0; w1 = w0 XOR v32 k 1; w2 = w1 XOR v32 k 2; w3 = w2 XOR v32 k 3
     in of_v32 w0 w1 w2 w3)"

fun aes_expand_loop :: "nat \<Rightarrow> u8 \<Rightarrow> block \<Rightarrow> block list" where
  "aes_expand_loop 0 rc k = [k]"
| "aes_expand_loop (Suc n) rc k = k # aes_expand_loop n (gf2_8_shift rc) (aes_next_round_key rc k)"

definition aes_expand_encryption_key :: "block \<Rightarrow> block list" where
  "aes_expand_encryption_key key = aes_expand_loop 10 1 (of_v32 (v32 key 0) (v32 key 1) (v32 key 2) (v32 key 3))"

text \<open>The inverse column transformation of a round key by table lookups.\<close>

definition aes_inv_mix_key :: "block \<Rightarrow> block" where
  "aes_inv_mix_key k =
    (let s = (\<lambda>j. unat (aes_sbox ! unat (k ! j)));
         c = (\<lambda>j. ((U0 ! s j XOR U1 ! s (j + 1)) XOR U2 ! s (j + 2)) XOR U3 ! s (j + 3))
     in of_v32 (c 0) (c 4) (c 8) (c 12))"

text \<open>Exchanging the round keys \<open>10 - i\<close> and \<open>i\<close>.\<close>

definition swap_keys :: "nat \<Rightarrow> block list \<Rightarrow> block list" where
  "swap_keys i ks = ks[10 - i := ks ! i, i := ks ! (10 - i)]"

definition aes_expand_decryption_key :: "block \<Rightarrow> block list" where
  "aes_expand_decryption_key key =
    (let ks = aes_expand_encryption_key key;
         ks = fold swap_keys [0..<5] ks
     in fold (\<lambda>i ks. ks[i := aes_inv_mix_key (ks ! i)]) [1..<10] ks)"

definition aes_round :: "block \<Rightarrow> block \<Rightarrow> block" where
  "aes_round s k =
    (let t = (\<lambda>a b c d. ((T0 ! unat (s ! a) XOR T1 ! unat (s ! b)) XOR T2 ! unat (s ! c)) XOR T3 ! unat (s ! d));
         column0 = t 0 5 10 15; column1 = t 4 9 14 3; column2 = t 8 13 2 7; column3 = t 12 1 6 11
     in of_v32 (column0 XOR v32 k 0) (column1 XOR v32 k 1) (column2 XOR v32 k 2) (column3 XOR v32 k 3))"

definition aes_inv_round :: "block \<Rightarrow> block \<Rightarrow> block" where
  "aes_inv_round s k =
    (let u = (\<lambda>a b c d. ((U0 ! unat (s ! a) XOR U1 ! unat (s ! b)) XOR U2 ! unat (s ! c)) XOR U3 ! unat (s ! d));
         column0 = u 0 13 10 7; column1 = u 4 1 14 11; column2 = u 8 5 2 15; column3 = u 12 9 6 3
     in of_v32 (column0 XOR v32 k 0) (column1 XOR v32 k 1) (column2 XOR v32 k 2) (column3 XOR v32 k 3))"

definition aes_final_round :: "block \<Rightarrow> block \<Rightarrow> block" where
  "aes_final_round s k =
    (let f = (\<lambda>x. aes_sbox ! unat x);
         s = s[0 := f (s ! 0)]; s = s[4 := f (s ! 4)]; s = s[8 := f (s ! 8)]; s = s[12 := f (s ! 12)];
         tmp = f (s ! 1); s = s[1 := f (s ! 5)]; s = s[5 := f (s ! 9)]; s = s[9 := f (s ! 13)]; s = s[13 := tmp];
         tmp = f (s ! 10); s = s[10 := f (s ! 2)]; s = s[2 := tmp];
         tmp = f (s ! 14); s = s[14 := f (s ! 6)]; s = s[6 := tmp];
         tmp = f (s ! 15); s = s[15 := f (s ! 11)]; s = s[11 := f (s ! 7)]; s = s[7 := f (s ! 3)]; s = s[3 := tmp]
     in v128_xor_eq s k)"

definition aes_inv_final_round :: "block \<Rightarrow> block \<Rightarrow> block" where
  "aes_inv_final_round s k =
    (let f = (\<lambda>x. aes_inv_sbox ! unat x);
         s = s[0 := f (s ! 0)]; s = s[4 := f (s ! 4)]; s = s[8 := f (s ! 8)]; s = s[12 := f (s ! 12)];
         tmp = f (s ! 13); s = s[13 := f (s ! 9)]; s = s[9 := f (s ! 5)]; s = s[5 := f (s ! 1)]; s = s[1 := tmp];
         tmp = f (s ! 2); s = s[2 := f (s ! 10)]; s = s[10 := tmp];
         tmp = f (s ! 6); s = s[6 := f (s ! 14)]; s = s[14 := tmp];
         tmp = f (s ! 3); s = s[3 := f (s ! 7)]; s = s[7 := f (s ! 11)]; s = s[11 := f (s ! 15)]; s = s[15 := tmp]
     in v128_xor_eq s k)"

definition aes_encrypt :: "block \<Rightarrow> block list \<Rightarrow> block" where
  "aes_encrypt plaintext exp_key =
    aes_final_round
      (fold (\<lambda>i s. aes_round s (exp_key ! i)) [1..<10] (v128_xor_eq plaintext (exp_key ! 0))) (exp_key ! 10)"

definition aes_decrypt :: "block \<Rightarrow> block list \<Rightarrow> block" where
  "aes_decrypt ciphertext exp_key =
    aes_inv_final_round
      (fold (\<lambda>i s. aes_inv_round s (exp_key ! i)) [1..<10] (v128_xor_eq ciphertext (exp_key ! 0))) (exp_key ! 10)"

section \<open>The specification of FIPS 197\<close>

text \<open>The state is the list of its octets, column after column.\<close>

definition AddRoundKey :: "block \<Rightarrow> block \<Rightarrow> block" where
  "AddRoundKey s k = map2 (XOR) s k"

definition SubBytes :: "block \<Rightarrow> block" where
  "SubBytes s = map sub s"

definition ShiftRows :: "block \<Rightarrow> block" where
  "ShiftRows s = map (\<lambda>i. s ! ((i + 4 * (i mod 4)) mod 16)) [0..<16]"

fun MixColumns :: "block \<Rightarrow> block" where
  "MixColumns (a # b # c # d # r) =
     (((mul2 a XOR mul3 b) XOR c) XOR d) # (((a XOR mul2 b) XOR mul3 c) XOR d) #
     (((a XOR b) XOR mul2 c) XOR mul3 d) # (((mul3 a XOR b) XOR c) XOR mul2 d) # MixColumns r"
| "MixColumns _ = []"

definition InvSubBytes :: "block \<Rightarrow> block" where
  "InvSubBytes s = map inv_sub s"

definition InvShiftRows :: "block \<Rightarrow> block" where
  "InvShiftRows s = map (\<lambda>i. s ! ((i + 16 - 4 * (i mod 4)) mod 16)) [0..<16]"

fun InvMixColumns :: "block \<Rightarrow> block" where
  "InvMixColumns (a # b # c # d # r) =
     (((mul14 a XOR mul11 b) XOR mul13 c) XOR mul9 d) # (((mul9 a XOR mul14 b) XOR mul11 c) XOR mul13 d) #
     (((mul13 a XOR mul9 b) XOR mul14 c) XOR mul11 d) # (((mul11 a XOR mul13 b) XOR mul9 c) XOR mul14 d) # InvMixColumns r"
| "InvMixColumns _ = []"

definition Cipher :: "block \<Rightarrow> block list \<Rightarrow> block" where
  "Cipher p w =
    AddRoundKey (ShiftRows (SubBytes
      (fold (\<lambda>i s. AddRoundKey (MixColumns (ShiftRows (SubBytes s))) (w ! i)) [1..<10] (AddRoundKey p (w ! 0)))))
      (w ! 10)"

section \<open>Blocks\<close>

lemma block_cases:
  assumes "length b = 16"
  obtains b0 b1 b2 b3 b4 b5 b6 b7 b8 b9 b10 b11 b12 b13 b14 b15
  where "b = [b0, b1, b2, b3, b4, b5, b6, b7, b8, b9, b10, b11, b12, b13, b14, b15]"
proof -
  obtain w x y z r where 1: "b = w # x # y # z # r" "length r = 12"
    using assms by (auto simp: length_Suc_conv numeral_eq_Suc)
  obtain w' x' y' z' r' where 2: "r = w' # x' # y' # z' # r'" "length r' = 8"
    using 1(2) by (auto simp: length_Suc_conv numeral_eq_Suc)
  obtain w2 x2 y2 z2 r2 where 3: "r' = w2 # x2 # y2 # z2 # r2" "length r2 = 4"
    using 2(2) by (auto simp: length_Suc_conv numeral_eq_Suc)
  obtain w3 x3 y3 z3 where 4: "r2 = [w3, x3, y3, z3]"
    using 3(2) by (auto simp: length4_conv)
  show thesis using that 1(1) 2(1) 3(1) 4 by simp
qed

lemma bit_mix4:
  "n < 32 \<Longrightarrow> bit (mix4 a b c d) n =
    (if n < 8 then bit a n else if n < 16 then bit b (n - 8) else if n < 24 then bit c (n - 16) else bit d (n - 24))"
  by (auto simp: mix4_def of_le32_def list4_nth bit_simps dest: bit_imp_le_length)

lemma mix4_xor: "mix4 a b c d XOR mix4 a' b' c' d' = mix4 (a XOR a') (b XOR b') (c XOR c') (d XOR d')"
  by (rule word_eqI_lt) (simp add: bit_mix4 bit_xor_iff)

lemma le32_mix4 [simp]: "le32 (mix4 a b c d) = [a, b, c, d]"
  by (simp add: mix4_def)

lemma of_le32_mix4: "of_le32 (a # b # c # d # r) = mix4 a b c d"
  by (simp add: mix4_def of_le32_def numeral_eq_Suc)

lemma v32_block:
  "v32 [b0, b1, b2, b3, b4, b5, b6, b7, b8, b9, b10, b11, b12, b13, b14, b15] 0 = mix4 b0 b1 b2 b3"
  "v32 [b0, b1, b2, b3, b4, b5, b6, b7, b8, b9, b10, b11, b12, b13, b14, b15] (Suc 0) = mix4 b4 b5 b6 b7"
  "v32 [b0, b1, b2, b3, b4, b5, b6, b7, b8, b9, b10, b11, b12, b13, b14, b15] 2 = mix4 b8 b9 b10 b11"
  "v32 [b0, b1, b2, b3, b4, b5, b6, b7, b8, b9, b10, b11, b12, b13, b14, b15] 3 = mix4 b12 b13 b14 b15"
  by (simp_all add: v32_def of_le32_mix4)

lemma v128_xor_eq_AddRoundKey:
  "length s = 16 \<Longrightarrow> length k = 16 \<Longrightarrow> v128_xor_eq s k = AddRoundKey s k"
  by (elim block_cases) (simp add: v128_xor_eq_def of_v32_def AddRoundKey_def v32_block mix4_xor)

lemma ShiftRows_block:
  "ShiftRows [b0, b1, b2, b3, b4, b5, b6, b7, b8, b9, b10, b11, b12, b13, b14, b15]
   = [b0, b5, b10, b15, b4, b9, b14, b3, b8, b13, b2, b7, b12, b1, b6, b11]"
  by (simp add: ShiftRows_def upt_rec)

lemma InvShiftRows_block:
  "InvShiftRows [b0, b1, b2, b3, b4, b5, b6, b7, b8, b9, b10, b11, b12, b13, b14, b15]
   = [b0, b13, b10, b7, b4, b1, b14, b11, b8, b5, b2, b15, b12, b9, b6, b3]"
  by (simp add: InvShiftRows_def upt_rec)

lemma aes_round_spec:
  "length s = 16 \<Longrightarrow> length k = 16 \<Longrightarrow>
   aes_round s k = AddRoundKey (MixColumns (ShiftRows (SubBytes s))) k"
  by (elim block_cases)
    (simp add: aes_round_def of_v32_def AddRoundKey_def SubBytes_def ShiftRows_block v32_block T_nth mix4_xor)

lemma aes_inv_round_spec:
  "length s = 16 \<Longrightarrow> length k = 16 \<Longrightarrow>
   aes_inv_round s k = AddRoundKey (InvMixColumns (InvShiftRows (InvSubBytes s))) k"
  by (elim block_cases)
    (simp add: aes_inv_round_def of_v32_def AddRoundKey_def InvSubBytes_def InvShiftRows_block v32_block U_nth mix4_xor)

lemma aes_final_round_spec:
  "length s = 16 \<Longrightarrow> length k = 16 \<Longrightarrow> aes_final_round s k = AddRoundKey (ShiftRows (SubBytes s)) k"
  by (elim block_cases)
    (simp add: aes_final_round_def v128_xor_eq_AddRoundKey SubBytes_def ShiftRows_block)

lemma aes_inv_final_round_spec:
  "length s = 16 \<Longrightarrow> length k = 16 \<Longrightarrow> aes_inv_final_round s k = AddRoundKey (InvShiftRows (InvSubBytes s)) k"
  by (elim block_cases)
    (simp add: aes_inv_final_round_def v128_xor_eq_AddRoundKey InvSubBytes_def InvShiftRows_block)

lemma aes_inv_mix_key_spec: "length k = 16 \<Longrightarrow> aes_inv_mix_key k = InvMixColumns k"
  by (elim block_cases) (simp add: aes_inv_mix_key_def of_v32_def U_nth mix4_xor)

lemma mix_lengths [simp]:
  "length s = 16 \<Longrightarrow> length (MixColumns s) = 16" "length s = 16 \<Longrightarrow> length (InvMixColumns s) = 16"
  by (elim block_cases, simp)+

lemma block_lengths [simp]:
  "length (ShiftRows s) = 16" "length (InvShiftRows s) = 16" "length (SubBytes s) = length s"
  "length (InvSubBytes s) = length s" "length (of_v32 a b c d) = 16"
  "length s = 16 \<Longrightarrow> length k = 16 \<Longrightarrow> length (AddRoundKey s k) = 16"
  by (simp_all add: ShiftRows_def InvShiftRows_def SubBytes_def InvSubBytes_def of_v32_def AddRoundKey_def)

section \<open>The inverse transformations\<close>

lemma AddRoundKey_twice: "length s = 16 \<Longrightarrow> length k = 16 \<Longrightarrow> AddRoundKey (AddRoundKey s k) k = s"
  unfolding AddRoundKey_def by (rule map2_xor_cancel) simp

lemma InvShiftRows_ShiftRows: "length s = 16 \<Longrightarrow> InvShiftRows (ShiftRows s) = s"
  by (elim block_cases) (simp add: ShiftRows_block InvShiftRows_block)

lemma InvSubBytes_ShiftRows: "length s = 16 \<Longrightarrow> InvSubBytes (ShiftRows s) = ShiftRows (InvSubBytes s)"
  by (elim block_cases) (simp add: ShiftRows_block InvSubBytes_def)

lemma InvSubBytes_SubBytes: "InvSubBytes (SubBytes s) = s"
  by (simp add: SubBytes_def InvSubBytes_def comp_def)

lemmas xor_norm = xor.assoc xor.commute xor.left_commute

lemma xor_cancel_left: "(a :: 'a::len word) XOR (a XOR b) = b"
  by (metis xor.assoc xor_self_eq xor.left_neutral)

lemma InvMixColumn_MixColumn:
  fixes a b c d :: u8
  defines "x \<equiv> ((mul2 a XOR mul3 b) XOR c) XOR d" and "y \<equiv> ((a XOR mul2 b) XOR mul3 c) XOR d"
    and "z \<equiv> ((a XOR b) XOR mul2 c) XOR mul3 d" and "w \<equiv> ((mul3 a XOR b) XOR c) XOR mul2 d"
  shows "((mul14 x XOR mul11 y) XOR mul13 z) XOR mul9 w = a" "((mul9 x XOR mul14 y) XOR mul11 z) XOR mul13 w = b"
    "((mul13 x XOR mul9 y) XOR mul14 z) XOR mul11 w = c" "((mul11 x XOR mul13 y) XOR mul9 z) XOR mul14 w = d"
  unfolding x_def y_def z_def w_def
  by (simp_all add: mul_defs gf2_8_shift_xor xor_norm xor_cancel_left)

lemma InvMixColumns_MixColumns: "length s = 16 \<Longrightarrow> InvMixColumns (MixColumns s) = s"
  by (elim block_cases) (simp add: InvMixColumn_MixColumn)

lemma InvMixColumn_xor:
  "mul9 (a XOR b) = mul9 a XOR mul9 b" "mul11 (a XOR b) = mul11 a XOR mul11 b"
  "mul13 (a XOR b) = mul13 a XOR mul13 b" "mul14 (a XOR b) = mul14 a XOR mul14 b"
  by (simp_all add: mul_defs gf2_8_shift_xor xor_norm)

lemma InvMixColumns_AddRoundKey:
  "length s = 16 \<Longrightarrow> length k = 16 \<Longrightarrow>
   InvMixColumns (AddRoundKey s k) = AddRoundKey (InvMixColumns s) (InvMixColumns k)"
  by (elim block_cases) (simp add: AddRoundKey_def InvMixColumn_xor xor_norm)

section \<open>Encryption and decryption\<close>

lemma aes_round_length [simp]: "length (aes_round s k) = 16"
  by (simp add: aes_round_def Let_def)

lemma xor_eq_length [simp]: "length (v128_xor_eq s k) = 16"
  by (simp add: v128_xor_eq_def)

lemma aes_rounds_spec:
  assumes "length s = 16" "\<And>i. i \<in> set is \<Longrightarrow> length (w ! i) = 16"
  shows "fold (\<lambda>i s. aes_round s (w ! i)) is s
    = fold (\<lambda>i s. AddRoundKey (MixColumns (ShiftRows (SubBytes s))) (w ! i)) is s
    \<and> length (fold (\<lambda>i s. AddRoundKey (MixColumns (ShiftRows (SubBytes s))) (w ! i)) is s) = 16"
  using assms
proof (induction "is" arbitrary: s)
  case (Cons a js)
  then have "aes_round s (w ! a) = AddRoundKey (MixColumns (ShiftRows (SubBytes s))) (w ! a)"
    by (simp add: aes_round_spec)
  then show ?case using Cons.IH[OF aes_round_length[of s "w ! a"]] Cons.prems(2) by simp
qed simp

text \<open>C26. The table-driven encryption computes the cipher of FIPS 197: for every block and every eleven round
  keys, \<open>aes_encrypt\<close> is the composition of SubBytes, ShiftRows, MixColumns and AddRoundKey.\<close>

theorem aes_encrypt_fips197:
  assumes "length p = 16" "length w = 11" "\<forall>k \<in> set w. length k = 16"
  shows "aes_encrypt p w = Cipher p w"
proof -
  have k: "length (w ! i) = 16" if "i < 11" for i using assms that by simp
  have 0: "v128_xor_eq p (w ! 0) = AddRoundKey p (w ! 0)" using assms(1) k by (simp add: v128_xor_eq_AddRoundKey)
  have "length (AddRoundKey p (w ! 0)) = 16" using assms(1) k by simp
  then have r: "fold (\<lambda>i s. aes_round s (w ! i)) [1..<10] (AddRoundKey p (w ! 0))
      = fold (\<lambda>i s. AddRoundKey (MixColumns (ShiftRows (SubBytes s))) (w ! i)) [1..<10] (AddRoundKey p (w ! 0))"
    "length (fold (\<lambda>i s. AddRoundKey (MixColumns (ShiftRows (SubBytes s))) (w ! i)) [1..<10] (AddRoundKey p (w ! 0))) = 16"
    using aes_rounds_spec[of "AddRoundKey p (w ! 0)" "[1..<10]" w] k by auto
  show ?thesis unfolding aes_encrypt_def Cipher_def 0 using k[of 10]
    by (simp only: r aes_final_round_spec)
qed

theorem aes_encrypt_fips197_witness:
  "aes_encrypt (replicate 16 7) (replicate 11 (replicate 16 3)) = Cipher (replicate 16 7) (replicate 11 (replicate 16 3))"
  by (rule aes_encrypt_fips197) simp_all

lemma inv_round_round:
  assumes "length s = 16" "length k = 16"
  shows "aes_inv_round (ShiftRows (SubBytes (aes_round s k))) (aes_inv_mix_key k) = ShiftRows (SubBytes s)"
proof -
  have "InvShiftRows (InvSubBytes (ShiftRows (SubBytes (aes_round s k)))) = aes_round s k"
    by (simp add: InvSubBytes_ShiftRows InvSubBytes_SubBytes InvShiftRows_ShiftRows)
  then show ?thesis using assms
    by (simp add: aes_inv_round_spec aes_inv_mix_key_spec)
      (simp add: aes_round_spec InvMixColumns_AddRoundKey InvMixColumns_MixColumns AddRoundKey_twice)
qed

lemma inv_start:
  assumes "length s = 16" "length k = 16"
  shows "v128_xor_eq (aes_final_round s k) k = ShiftRows (SubBytes s)"
  using assms by (simp add: aes_final_round_spec v128_xor_eq_AddRoundKey AddRoundKey_twice)

lemma inv_final:
  assumes "length p = 16" "length k = 16"
  shows "aes_inv_final_round (ShiftRows (SubBytes (v128_xor_eq p k))) k = p"
  using assms by (simp add: aes_inv_final_round_spec v128_xor_eq_AddRoundKey InvSubBytes_ShiftRows
      InvSubBytes_SubBytes InvShiftRows_ShiftRows AddRoundKey_twice)

lemma expand_loop_wf:
  "length k = 16 \<Longrightarrow> length (aes_expand_loop n rc k) = Suc n \<and> (\<forall>x \<in> set (aes_expand_loop n rc k). length x = 16)"
  by (induction n rc k rule: aes_expand_loop.induct) (simp_all add: aes_next_round_key_def Let_def)

lemma list11_cases:
  assumes "length ks = 11"
  obtains k0 k1 k2 k3 k4 k5 k6 k7 k8 k9 k10 where "ks = [k0, k1, k2, k3, k4, k5, k6, k7, k8, k9, k10]"
  using assms by (auto simp: length_Suc_conv numeral_eq_Suc)

lemma aes_inverse:
  assumes "length p = 16" "length key = 16"
  shows "aes_decrypt (aes_encrypt p (aes_expand_encryption_key key)) (aes_expand_decryption_key key) = p"
proof -
  have wf: "length (aes_expand_encryption_key key) = 11" "\<forall>k \<in> set (aes_expand_encryption_key key). length k = 16"
    using expand_loop_wf[of "of_v32 (v32 key 0) (v32 key 1) (v32 key 2) (v32 key 3)" 10 1]
    by (simp_all add: aes_expand_encryption_key_def)
  obtain k0 k1 k2 k3 k4 k5 k6 k7 k8 k9 k10 where
    ks: "aes_expand_encryption_key key = [k0, k1, k2, k3, k4, k5, k6, k7, k8, k9, k10]"
    using wf(1) by (rule list11_cases)
  have l: "length k0 = 16" "length k1 = 16" "length k2 = 16" "length k3 = 16" "length k4 = 16" "length k5 = 16"
    "length k6 = 16" "length k7 = 16" "length k8 = 16" "length k9 = 16" "length k10 = 16"
    using wf(2) by (simp_all add: ks)
  have i: "[0..<5] = [0, 1, 2, 3, 4]" "[Suc 0..<10] = [1, 2, 3, 4, 5, 6, 7, 8, 9]" by (simp_all add: upt_rec)
  have dk: "aes_expand_decryption_key key = [k10, aes_inv_mix_key k9, aes_inv_mix_key k8, aes_inv_mix_key k7,
      aes_inv_mix_key k6, aes_inv_mix_key k5, aes_inv_mix_key k4, aes_inv_mix_key k3, aes_inv_mix_key k2,
      aes_inv_mix_key k1, k0]"
    by (simp add: aes_expand_decryption_key_def Let_def ks swap_keys_def i del: upt_rec_numeral)
  show ?thesis
    by (simp add: aes_decrypt_def aes_encrypt_def ks dk i inv_start inv_round_round inv_final l assms del: upt_rec_numeral)
qed

text \<open>C12. Decryption inverts encryption: for every key and every block of sixteen octets, \<open>aes_decrypt\<close> with the
  schedule of \<open>aes_expand_decryption_key\<close> gives back what \<open>aes_encrypt\<close> was given with the schedule of
  \<open>aes_expand_encryption_key\<close>.\<close>

theorem aes_decrypt_encrypt:
  assumes "length p = 16" "length key = 16"
  shows "aes_decrypt (aes_encrypt p (aes_expand_encryption_key key)) (aes_expand_decryption_key key) = p"
  using assms by (rule aes_inverse)

theorem aes_decrypt_encrypt_witness:
  "aes_decrypt (aes_encrypt (replicate 16 9) (aes_expand_encryption_key (replicate 16 5)))
     (aes_expand_decryption_key (replicate 16 5)) = replicate 16 9"
  by (rule aes_decrypt_encrypt) simp_all

end
