(* ===== verification/Srtp_Datatypes.thy ===== *)
theory Srtp_Datatypes
  imports C_Prelude
begin

text \<open>
  The data types of libSRTP (\<open>3rd_party/srtp/crypto/math/datatypes.c\<close> and the macros
  of \<open>crypto/include/datatypes.h\<close>): the 128-bit vector used by the replay databases,
  octet strings, and the hexadecimal and base 64 conversions.

  A \<open>v128_t\<close> is the list of its four 32-bit words (the view \<open>v32\<close> of the union).
  Bit indices are C \<open>int\<close>s: an index outside \<open>0..127\<close> reads or writes outside the
  vector and has no defined behaviour. A buffer is the list of its octets, and
  \<^const>\<open>None\<close> again stands for an access outside it.
\<close>

type_synonym v128 = "u32 list"

definition v128_wf :: "v128 \<Rightarrow> bool" where
  "v128_wf x \<longleftrightarrow> length x = 4"

section \<open>Hamming weight\<close>

definition octet_weight :: "nat list" where
  "octet_weight =
    [0, 1, 1, 2, 1, 2, 2, 3, 1, 2, 2, 3, 2, 3, 3, 4,
     1, 2, 2, 3, 2, 3, 3, 4, 2, 3, 3, 4, 3, 4, 4, 5,
     1, 2, 2, 3, 2, 3, 3, 4, 2, 3, 3, 4, 3, 4, 4, 5,
     2, 3, 3, 4, 3, 4, 4, 5, 3, 4, 4, 5, 4, 5, 5, 6,
     1, 2, 2, 3, 2, 3, 3, 4, 2, 3, 3, 4, 3, 4, 4, 5,
     2, 3, 3, 4, 3, 4, 4, 5, 3, 4, 4, 5, 4, 5, 5, 6,
     2, 3, 3, 4, 3, 4, 4, 5, 3, 4, 4, 5, 4, 5, 5, 6,
     3, 4, 4, 5, 4, 5, 5, 6, 4, 5, 5, 6, 5, 6, 6, 7,
     1, 2, 2, 3, 2, 3, 3, 4, 2, 3, 3, 4, 3, 4, 4, 5,
     2, 3, 3, 4, 3, 4, 4, 5, 3, 4, 4, 5, 4, 5, 5, 6,
     2, 3, 3, 4, 3, 4, 4, 5, 3, 4, 4, 5, 4, 5, 5, 6,
     3, 4, 4, 5, 4, 5, 5, 6, 4, 5, 5, 6, 5, 6, 6, 7,
     2, 3, 3, 4, 3, 4, 4, 5, 3, 4, 4, 5, 4, 5, 5, 6,
     3, 4, 4, 5, 4, 5, 5, 6, 4, 5, 5, 6, 5, 6, 6, 7,
     3, 4, 4, 5, 4, 5, 5, 6, 4, 5, 5, 6, 5, 6, 6, 7,
     4, 5, 5, 6, 5, 6, 6, 7, 5, 6, 6, 7, 6, 7, 7, 8]"

definition octet_get_weight :: "u8 \<Rightarrow> nat" where
  "octet_get_weight x = octet_weight ! unat x"

section \<open>Hexadecimal strings\<close>

definition nibble_to_hex_char :: "u8 \<Rightarrow> u8" where
  "nibble_to_hex_char nibble =
    [48, 49, 50, 51, 52, 53, 54, 55, 56, 57, 97, 98, 99, 100, 101, 102] ! unat (nibble AND 0xF)"

definition MAX_PRINT_STRING_LEN :: int where
  "MAX_PRINT_STRING_LEN = 1024"

text \<open>The buffer \<open>bit_string\<close> is a global array; the functions below return the octets
  they leave in it, and \<^const>\<open>None\<close> when they write outside it or read outside \<open>s\<close>.\<close>

fun octet_string_hex_loop :: "u8 list \<Rightarrow> int \<Rightarrow> int \<Rightarrow> u8 list \<Rightarrow> u8 list option" where
  "octet_string_hex_loop str i len buf =
    (if i < len then
       (case str of
          [] \<Rightarrow> None
        | c # cs \<Rightarrow>
            (if i < 0 \<or> int (length buf) \<le> i + 1 then None
             else octet_string_hex_loop cs (i + 2) len
                    (buf[nat i := nibble_to_hex_char (drop_bit 4 c),
                         nat (i + 1) := nibble_to_hex_char (c AND 0xF)])))
     else if i < 0 \<or> int (length buf) \<le> i then None
     else Some (buf[nat i := 0]))"

definition octet_string_hex_string :: "u8 list \<Rightarrow> u8 list \<Rightarrow> int \<Rightarrow> u8 list option" where
  "octet_string_hex_string bit_string s length0 =
    (let len = 2 * length0;
         len = (if len > MAX_PRINT_STRING_LEN then MAX_PRINT_STRING_LEN - 1 else len)
     in octet_string_hex_loop s 0 len bit_string)"

definition hex_char_to_nibble :: "u8 \<Rightarrow> int" where
  "hex_char_to_nibble c =
    (if c = 48 then 0x0 else if c = 49 then 0x1 else if c = 50 then 0x2 else if c = 51 then 0x3
     else if c = 52 then 0x4 else if c = 53 then 0x5 else if c = 54 then 0x6 else if c = 55 then 0x7
     else if c = 56 then 0x8 else if c = 57 then 0x9
     else if c = 97 then 0xa else if c = 65 then 0xa
     else if c = 98 then 0xb else if c = 66 then 0xb
     else if c = 99 then 0xc else if c = 67 then 0xc
     else if c = 100 then 0xd else if c = 68 then 0xd
     else if c = 101 then 0xe else if c = 69 then 0xe
     else if c = 102 then 0xf else if c = 70 then 0xf
     else -1)"

text \<open>A string that ends before its terminating zero is read outside its buffer.\<close>

fun is_hex_string :: "u8 list \<Rightarrow> int option" where
  "is_hex_string [] = None"
| "is_hex_string (c # s) =
    (if c = 0 then Some 1
     else if hex_char_to_nibble c = -1 then Some 0
     else is_hex_string s)"

text \<open>\<open>hex_string_to_octet_string(raw, hex, len)\<close> returns the number of hexadecimal digits it
  consumed; the model also returns the octets it stored at \<open>raw\<close>.\<close>

fun hex_string_to_octet_loop :: "u8 list \<Rightarrow> int \<Rightarrow> int \<Rightarrow> u8 list \<Rightarrow> (int \<times> u8 list) option" where
  "hex_string_to_octet_loop hex len hex_len raw =
    (if hex_len < len then
       (case hex of
          [] \<Rightarrow> None
        | h0 # hs \<Rightarrow>
            (let tmp = hex_char_to_nibble h0 in
             if tmp = -1 then Some (hex_len, raw)
             else
               (let x = word_of_int (tmp * 16) :: u8 in
                case hs of
                  [] \<Rightarrow> None
                | h1 # hs' \<Rightarrow>
                    (let tmp = hex_char_to_nibble h1 in
                     if tmp = -1 then Some (hex_len + 1, raw)
                     else hex_string_to_octet_loop hs' len (hex_len + 2)
                            (raw @ [x OR (word_of_int tmp AND 0xff)])))))
     else Some (hex_len, raw))"

definition hex_string_to_octet_string :: "u8 list \<Rightarrow> int \<Rightarrow> (int \<times> u8 list) option" where
  "hex_string_to_octet_string hex len = hex_string_to_octet_loop hex len 0 []"

section \<open>128-bit vectors\<close>

text \<open>The view \<open>v8\<close> of a vector on a little-endian host.\<close>

definition word32_octets :: "u32 \<Rightarrow> u8 list" where
  "word32_octets w = [ucast w, ucast (drop_bit 8 w), ucast (drop_bit 16 w), ucast (drop_bit 24 w)]"

definition octets_word32 :: "u8 list \<Rightarrow> u32" where
  "octets_word32 bs = ucast (bs ! 0) OR push_bit 8 (ucast (bs ! 1))
     OR push_bit 16 (ucast (bs ! 2)) OR push_bit 24 (ucast (bs ! 3))"

definition v128_v8 :: "v128 \<Rightarrow> u8 list" where
  "v128_v8 x = concat (map word32_octets x)"

definition v128_hex_string :: "v128 \<Rightarrow> u8 list" where
  "v128_hex_string x =
     concat (map (\<lambda>b. [nibble_to_hex_char (drop_bit 4 b), nibble_to_hex_char (b AND 0xF)]) (v128_v8 x)) @ [0]"

definition v128_bit_string :: "v128 \<Rightarrow> u8 list" where
  "v128_bit_string x =
     concat (map (\<lambda>w. map (\<lambda>m. if w AND push_bit m 1 \<noteq> 0 then 49 else 48) (rev [0..<32])) x) @ [0]"

definition v128_copy_octet_string :: "u8 list \<Rightarrow> v128" where
  "v128_copy_octet_string s =
     map (\<lambda>i. octets_word32 [s ! (4*i), s ! (4*i+1), s ! (4*i+2), s ! (4*i+3)]) [0..<4]"

definition v128_set_to_zero :: v128 where
  "v128_set_to_zero = [0, 0, 0, 0]"

definition v128_xor :: "v128 \<Rightarrow> v128 \<Rightarrow> v128" where
  "v128_xor x y = map2 (XOR) x y"

definition v128_and :: "v128 \<Rightarrow> v128 \<Rightarrow> v128" where
  "v128_and x y = map2 (AND) x y"

definition v128_or :: "v128 \<Rightarrow> v128 \<Rightarrow> v128" where
  "v128_or x y = map2 (OR) x y"

definition v128_complement :: "v128 \<Rightarrow> v128" where
  "v128_complement x = map NOT x"

definition v128_is_eq :: "v128 \<Rightarrow> v128 \<Rightarrow> bool" where
  "v128_is_eq x y \<longleftrightarrow> (x ! 0 = y ! 0 \<and> x ! 1 = y ! 1) \<and> (x ! 2 = y ! 2 \<and> x ! 3 = y ! 3)"

definition v128_get_bit :: "v128 \<Rightarrow> int \<Rightarrow> int option" where
  "v128_get_bit x b =
     (if 0 \<le> b \<and> b < 128
      then Some (uint (drop_bit (nat (b mod 32)) (x ! nat (b div 32)) AND 1)) else None)"

definition v128_set_bit :: "v128 \<Rightarrow> int \<Rightarrow> v128 option" where
  "v128_set_bit x b =
     (if 0 \<le> b \<and> b < 128
      then Some (x[nat (b div 32) := x ! nat (b div 32) OR push_bit (nat (b mod 32)) 1]) else None)"

definition v128_clear_bit :: "v128 \<Rightarrow> int \<Rightarrow> v128 option" where
  "v128_clear_bit x b =
     (if 0 \<le> b \<and> b < 128
      then Some (x[nat (b div 32) := x ! nat (b div 32) AND NOT (push_bit (nat (b mod 32)) 1)]) else None)"

definition v128_set_bit_to :: "v128 \<Rightarrow> int \<Rightarrow> int \<Rightarrow> v128 option" where
  "v128_set_bit_to x b y = (if y \<noteq> 0 then v128_set_bit x b else v128_clear_bit x b)"

text \<open>The shifts work in place, one word at a time, in the order of the C loops.\<close>

definition v128_right_shift :: "v128 \<Rightarrow> int \<Rightarrow> v128 option" where
  "v128_right_shift x index =
    (if index < 0 then None
     else if index > 127 then Some v128_set_to_zero
     else
       (let base = nat (index div 32); k = nat (index mod 32);
            x = (if k = 0
                 then fold (\<lambda>i x. x[i - 1 := x ! (i - 1 - base)]) (rev [base + 1..<4])
                        (x[3 := x ! (3 - base)])
                 else fold (\<lambda>i x. let from = i - 1 - base;
                                      b = push_bit k (x ! from);
                                      b = (if from > 0 then b OR drop_bit (32 - k) (x ! (from - 1)) else b)
                                  in x[i - 1 := b]) (rev [base + 1..<5]) x)
        in Some (fold (\<lambda>i x. x[i := 0]) [0..<base] x)))"

definition v128_left_shift :: "v128 \<Rightarrow> int \<Rightarrow> v128 option" where
  "v128_left_shift x index =
    (if index < 0 then None
     else if index > 127 then Some v128_set_to_zero
     else
       (let base = nat (index div 32); k = nat (index mod 32);
            x = (if k = 0
                 then fold (\<lambda>i x. x[i := x ! (i + base)]) [0..<4 - base] x
                 else (let x = fold (\<lambda>i x. x[i := drop_bit k (x ! (i + base))
                                                    XOR push_bit (32 - k) (x ! (i + base + 1))])
                                 [0..<4 - base - 1] x
                       in x[4 - base - 1 := drop_bit k (x ! 3)]))
        in Some (fold (\<lambda>i x. x[i := 0]) [4 - base..<4] x)))"

section \<open>Octet strings\<close>

text \<open>The result is 1 when the strings differ and 0 when they are equal.\<close>

fun octet_string_is_eq :: "u8 list \<Rightarrow> u8 list \<Rightarrow> nat \<Rightarrow> int option" where
  "octet_string_is_eq a b 0 = Some 0"
| "octet_string_is_eq (x # a) (y # b) (Suc len) = (if x \<noteq> y then Some 1 else octet_string_is_eq a b len)"
| "octet_string_is_eq _ _ (Suc len) = None"

text \<open>The loop is a \<open>do \<dots> while\<close>: the first octet is written even for length 0.\<close>

definition octet_string_set_to_zero :: "u8 list \<Rightarrow> nat \<Rightarrow> u8 list option" where
  "octet_string_set_to_zero s len =
     (if max 1 len \<le> length s then Some (replicate (max 1 len) 0 @ drop (max 1 len) s) else None)"

section \<open>Base 64\<close>

definition base64_char_to_sextet :: "u8 \<Rightarrow> int" where
  "base64_char_to_sextet c =
    (if c = 65 then 0
     else if c = 66 then 1
     else if c = 67 then 2
     else if c = 68 then 3
     else if c = 69 then 4
     else if c = 70 then 5
     else if c = 71 then 6
     else if c = 72 then 7
     else if c = 73 then 8
     else if c = 74 then 9
     else if c = 75 then 10
     else if c = 76 then 11
     else if c = 77 then 12
     else if c = 78 then 13
     else if c = 79 then 14
     else if c = 80 then 15
     else if c = 81 then 16
     else if c = 82 then 17
     else if c = 83 then 18
     else if c = 84 then 19
     else if c = 85 then 20
     else if c = 86 then 21
     else if c = 87 then 22
     else if c = 88 then 23
     else if c = 89 then 24
     else if c = 90 then 25
     else if c = 97 then 26
     else if c = 98 then 27
     else if c = 99 then 28
     else if c = 100 then 29
     else if c = 101 then 30
     else if c = 102 then 31
     else if c = 103 then 32
     else if c = 104 then 33
     else if c = 105 then 34
     else if c = 106 then 35
     else if c = 107 then 36
     else if c = 108 then 37
     else if c = 109 then 38
     else if c = 110 then 39
     else if c = 111 then 40
     else if c = 112 then 41
     else if c = 113 then 42
     else if c = 114 then 43
     else if c = 115 then 44
     else if c = 116 then 45
     else if c = 117 then 46
     else if c = 118 then 47
     else if c = 119 then 48
     else if c = 120 then 49
     else if c = 121 then 50
     else if c = 122 then 51
     else if c = 48 then 52
     else if c = 49 then 53
     else if c = 50 then 54
     else if c = 51 then 55
     else if c = 52 then 56
     else if c = 53 then 57
     else if c = 54 then 58
     else if c = 55 then 59
     else if c = 56 then 60
     else if c = 57 then 61
     else if c = 43 then 62
     else if c = 47 then 63
     else if c = 61 then 64
     else -1)"

fun base64_string_to_octet_loop :: "u8 list \<Rightarrow> int \<Rightarrow> int \<Rightarrow> u8 list \<Rightarrow> (int \<times> u8 list) option" where
  "base64_string_to_octet_loop b64 len n raw =
    (if n < len then
       (case b64 of
          [] \<Rightarrow> None
        | c0 # cs \<Rightarrow>
            (let tmp = base64_char_to_sextet c0 in
             if tmp = -1 then Some (n, raw)
             else
               (let x = word_of_int (tmp * 64) :: u8 in
                case cs of
                  [] \<Rightarrow> None
                | c1 # cs' \<Rightarrow>
                    (let tmp = base64_char_to_sextet c1 in
                     if tmp = -1 then Some (n + 1, raw)
                     else base64_string_to_octet_loop cs' len (n + 2)
                            (raw @ [x OR word_of_int (take_bit 16 tmp)])))))
     else Some (n, raw))"

definition base64_string_to_octet_string :: "u8 list \<Rightarrow> int \<Rightarrow> (int \<times> u8 list) option" where
  "base64_string_to_octet_string b64 len = base64_string_to_octet_loop b64 len 0 []"

declare octet_string_hex_loop.simps [simp del]
declare hex_string_to_octet_loop.simps [simp del]
declare base64_string_to_octet_loop.simps [simp del]

section \<open>Facts on the 128-bit vector\<close>

text \<open>The bit-level reading of a vector, used to state what the operations do.\<close>

definition v128_bit :: "v128 \<Rightarrow> nat \<Rightarrow> bool" where
  "v128_bit x i \<longleftrightarrow> bit (x ! (i div 32)) (i mod 32)"

lemma v128_wf_zero [simp]: "v128_wf v128_set_to_zero"
  by (simp add: v128_wf_def v128_set_to_zero_def)

lemma v128_bit_zero [simp]: "i < 128 \<Longrightarrow> \<not> v128_bit v128_set_to_zero i"
proof -
  assume "i < 128"
  then have "i div 32 < 4" by simp
  then show ?thesis
    by (cases rule: less4_cases) (simp_all add: v128_bit_def v128_set_to_zero_def list4_nth)
qed

lemma drop_bit_and_1: "(drop_bit n w AND 1 :: u32) = of_bool (bit w n)"
  by (rule bit_word_eqI) (auto simp: bit_simps)

lemma v128_get_bit_eq:
  "0 \<le> b \<Longrightarrow> b < 128 \<Longrightarrow> v128_get_bit x b = Some (of_bool (v128_bit x (nat b)))"
  by (simp add: v128_get_bit_def v128_bit_def drop_bit_and_1 nat_div_distrib nat_mod_distrib)

lemma v128_set_bit_eq:
  assumes "v128_wf x" "0 \<le> b" "b < 128"
  obtains y where "v128_set_bit x b = Some y" "v128_wf y"
    "\<And>i. i < 128 \<Longrightarrow> v128_bit y i \<longleftrightarrow> i = nat b \<or> v128_bit x i"
proof
  let ?y = "x[nat b div 32 := x ! (nat b div 32) OR push_bit (nat b mod 32) 1]"
  show "v128_set_bit x b = Some ?y"
    using assms by (simp add: v128_set_bit_def nat_div_distrib nat_mod_distrib)
  show "v128_wf ?y" using assms by (simp add: v128_wf_def)
  fix i :: nat assume i: "i < 128"
  have m: "i mod 32 < 32" by simp
  have "bit (push_bit (nat b mod 32) (1::u32)) (i mod 32) \<longleftrightarrow> i mod 32 = nat b mod 32"
    by (auto simp: bit_simps)
  moreover have "i = nat b \<longleftrightarrow> i div 32 = nat b div 32 \<and> i mod 32 = nat b mod 32"
    by (metis div_mult_mod_eq)
  moreover have "nat b div 32 < 4" "i div 32 < 4" using assms i by auto
  ultimately show "v128_bit ?y i \<longleftrightarrow> i = nat b \<or> v128_bit x i"
    using assms(1)
    by (auto simp: v128_bit_def v128_wf_def nth_list_update bit_or_iff)
qed

lemma v128_left_shift_split:
  assumes "base < 4" "k < 32"
  shows "v128_left_shift x (int (32 * base + k)) =
    Some (fold (\<lambda>i x. x[i := 0]) [4 - base..<4]
      (if k = 0 then fold (\<lambda>i x. x[i := x ! (i + base)]) [0..<4 - base] x
       else (let x = fold (\<lambda>i x. x[i := drop_bit k (x ! (i + base))
                                          XOR push_bit (32 - k) (x ! (i + base + 1))])
                         [0..<4 - base - 1] x
             in x[4 - base - 1 := drop_bit k (x ! 3)])))"
proof -
  have "nat (int (32 * base + k) div 32) = base" "nat (int (32 * base + k) mod 32) = k"
       "\<not> int (32 * base + k) > 127"
    using assms by (simp_all add: nat_div_distrib nat_mod_distrib)
  then show ?thesis by (simp add: v128_left_shift_def Let_def del: of_nat_add of_nat_mult)
qed


definition left_word :: "nat \<Rightarrow> v128 \<Rightarrow> nat \<Rightarrow> u32" where
  "left_word k x j = (if k = 0 then (if j < 4 then x ! j else 0)
     else if j < 3 then drop_bit k (x ! j) XOR push_bit (32 - k) (x ! (j + 1))
     else if j = 3 then drop_bit k (x ! 3) else 0)"

lemma v128_left_shift_words:
  assumes "base < 4" "k < 32" "v128_wf x"
  shows "v128_left_shift x (int (32 * base + k)) = Some (map (\<lambda>i. left_word k x (i + base)) [0..<4])"
proof -
  obtain a b c d where x: "x = [a, b, c, d]" using assms(3) by (auto simp: v128_wf_def length4_conv)
  show ?thesis
    using assms(1) unfolding v128_left_shift_split[OF assms(1,2)] x
    by (cases rule: less4_cases)
      (simp_all add: list4_eval left_word_def)
qed

lemma bit_word32_less: "bit (w::u32) n \<Longrightarrow> n < 32"
  using bit_imp_le_length[of w n] by simp

lemma bit_left_word:
  assumes "k < 32" "r < 32" "v128_wf x"
  shows "bit (left_word k x j) r \<longleftrightarrow> 32 * j + r + k < 128 \<and> v128_bit x (32 * j + r + k)"
proof -
  have E: "(32 * j + r + k) div 32 = (if r + k < 32 then j else j + 1)"
     "(32 * j + r + k) mod 32 = (if r + k < 32 then r + k else r + k - 32)"
    using assms by (auto simp: div_nat_eqI mod_nat_eqI)
  have B: "v128_bit x (32 * j + r + k) =
      bit (x ! (if r + k < 32 then j else j + 1)) (if r + k < 32 then r + k else r + k - 32)"
    by (simp only: v128_bit_def E)
  consider "j < 3" | "j = 3" | "3 < j" by linarith
  then show ?thesis unfolding B using assms
    by cases (auto simp: left_word_def bit_simps not_less add.commute dest: bit_word32_less)
qed

lemma v128_left_shift_eq:
  assumes "v128_wf x" "0 \<le> n"
  obtains y where "v128_left_shift x n = Some y" "v128_wf y"
    "\<And>i. i < 128 \<Longrightarrow> v128_bit y i \<longleftrightarrow> i + nat n < 128 \<and> v128_bit x (i + nat n)"
proof (cases "n > 127")
  case True
  show ?thesis
    by (rule that[of v128_set_to_zero]) (use True assms in \<open>auto simp: v128_left_shift_def\<close>)
next
  case False
  define base k where "base = nat n div 32" and "k = nat n mod 32"
  have bk: "base < 4" "k < 32" and n: "n = int (32 * base + k)" "nat n = 32 * base + k"
    using False assms(2) by (auto simp: base_def k_def)
  let ?y = "map (\<lambda>i. left_word k x (i + base)) [0..<4]"
  show ?thesis
  proof (rule that[of ?y])
    show "v128_left_shift x n = Some ?y" unfolding n(1) by (rule v128_left_shift_words) (use bk assms in auto)
    show "v128_wf ?y" by (simp add: v128_wf_def)
    fix i :: nat assume "i < 128"
    then have "i div 32 < 4" by simp
    have "bit (?y ! (i div 32)) (i mod 32) = bit (left_word k x (i div 32 + base)) (i mod 32)"
      using \<open>i div 32 < 4\<close> by simp
    also have "\<dots> \<longleftrightarrow> i + nat n < 128 \<and> v128_bit x (i + nat n)"
    proof -
      have e: "32 * (i div 32 + base) + i mod 32 + k = i + nat n" unfolding n(2) by simp
      show ?thesis
        using bit_left_word[of k "i mod 32" x "i div 32 + base", unfolded e] bk assms by simp
    qed
    finally show "v128_bit ?y i \<longleftrightarrow> i + nat n < 128 \<and> v128_bit x (i + nat n)"
      by (simp add: v128_bit_def)
  qed
qed

definition right_word :: "nat \<Rightarrow> nat \<Rightarrow> v128 \<Rightarrow> nat \<Rightarrow> u32" where
  "right_word base k x i = (if i < base then 0
     else if k = 0 \<or> i = base then push_bit k (x ! (i - base))
     else push_bit k (x ! (i - base)) OR drop_bit (32 - k) (x ! (i - base - 1)))"

lemma v128_right_shift_words:
  assumes "base < 4" "k < 32" "v128_wf x"
  shows "v128_right_shift x (int (32 * base + k)) = Some (map (right_word base k x) [0..<4])"
proof -
  obtain a b c d where x: "x = [a, b, c, d]" using assms(3) by (auto simp: v128_wf_def length4_conv)
  have n: "nat (int (32 * base + k) div 32) = base" "nat (int (32 * base + k) mod 32) = k"
       "(int (32 * base + k) > 127) = False" "(int (32 * base + k) < 0) = False"
    using assms by (simp_all add: nat_div_distrib nat_mod_distrib)
  show ?thesis
    using assms(1) unfolding v128_right_shift_def n if_False Let_def x
    by (cases rule: less4_cases) (simp_all add: list4_eval right_word_def)
qed

lemma sub_div_mod32:
  assumes "k < (32::nat)" "r < 32" "k \<le> 32 * m + r"
  shows "(32 * m + r - k) div 32 = (if k \<le> r then m else m - 1)"
    and "(32 * m + r - k) mod 32 = (if k \<le> r then r - k else 32 + r - k)"
proof -
  have "32 * m + r - k = (if k \<le> r then m else m - 1) * 32 + (if k \<le> r then r - k else 32 + r - k)"
    using assms by (cases m) auto
  moreover have "(if k \<le> r then r - k else 32 + r - k) < 32" using assms by auto
  ultimately show "(32 * m + r - k) div 32 = (if k \<le> r then m else m - 1)"
    and "(32 * m + r - k) mod 32 = (if k \<le> r then r - k else 32 + r - k)"
    by (auto simp only: div_mult_self3 mod_mult_self3 div_less mod_less)
qed

lemma bit_right_word:
  assumes "k < 32" "r < 32" "i < 4"
  shows "bit (right_word base k x i) r \<longleftrightarrow>
     32 * base + k \<le> 32 * i + r \<and> v128_bit x (32 * i + r - (32 * base + k))"
proof (cases "32 * base + k \<le> 32 * i + r")
  case True
  then have "base \<le> i" using assms by linarith
  then obtain m where i: "i = base + m" by (auto simp: le_iff_add)
  have k: "k \<le> 32 * m + r" and e: "32 * i + r - (32 * base + k) = 32 * m + r - k"
    using True i by (auto simp: algebra_simps)
  have B: "v128_bit x (32 * m + r - k) =
    bit (x ! (if k \<le> r then m else m - 1)) (if k \<le> r then r - k else 32 + r - k)"
    by (simp only: v128_bit_def sub_div_mod32[OF assms(1,2) k])
  show ?thesis unfolding e B using True assms k
    by (auto simp: i right_word_def bit_simps not_le dest: bit_word32_less)
next
  case False
  then have "i < base \<or> i = base \<and> r < k" using assms by linarith
  then show ?thesis using False by (auto simp: right_word_def bit_simps)
qed

lemma v128_right_shift_eq:
  assumes "v128_wf x" "0 \<le> n"
  obtains y where "v128_right_shift x n = Some y" "v128_wf y"
    "\<And>i. i < 128 \<Longrightarrow> v128_bit y i \<longleftrightarrow> nat n \<le> i \<and> v128_bit x (i - nat n)"
proof (cases "n > 127")
  case True
  show ?thesis
    by (rule that[of v128_set_to_zero]) (use True assms in \<open>auto simp: v128_right_shift_def\<close>)
next
  case False
  define base k where "base = nat n div 32" and "k = nat n mod 32"
  have bk: "base < 4" "k < 32" and n: "n = int (32 * base + k)" "nat n = 32 * base + k"
    using False assms(2) by (auto simp: base_def k_def)
  let ?y = "map (right_word base k x) [0..<4]"
  show ?thesis
  proof (rule that[of ?y])
    show "v128_right_shift x n = Some ?y"
      unfolding n(1) by (rule v128_right_shift_words) (use bk assms in auto)
    show "v128_wf ?y" by (simp add: v128_wf_def)
    fix i :: nat assume "i < 128"
    then have q: "i div 32 < 4" "i mod 32 < 32" by simp_all
    show "v128_bit ?y i \<longleftrightarrow> nat n \<le> i \<and> v128_bit x (i - nat n)"
      using bit_right_word[OF bk(2) q(2,1), of base x] q(1) unfolding n(2) mult_div_mod_eq
      by (simp add: v128_bit_def)
  qed
qed

section \<open>Sliding bit windows\<close>

text \<open>
  The contract a replay database relies on: a window of \<open>width\<close> bits in which one bit can
  be set and which can be moved forward. The bit at \<open>width - 1\<close> belongs to the most recent
  index \<open>hi\<close>, lower bits to earlier indices.
\<close>

locale bit_window =
  fixes wf :: "'w \<Rightarrow> bool"
    and bit_at :: "'w \<Rightarrow> nat \<Rightarrow> bool"
    and set_at :: "'w \<Rightarrow> int \<Rightarrow> 'w option"
    and shift :: "'w \<Rightarrow> int \<Rightarrow> 'w option"
    and width :: nat
  assumes width_pos: "0 < width"
    and set_at: "wf w \<Longrightarrow> 0 \<le> b \<Longrightarrow> b < int width \<Longrightarrow>
      \<exists>y. set_at w b = Some y \<and> wf y \<and> (\<forall>i < width. bit_at y i \<longleftrightarrow> i = nat b \<or> bit_at w i)"
    and shift: "wf w \<Longrightarrow> 0 \<le> n \<Longrightarrow>
      \<exists>y. shift w n = Some y \<and> wf y \<and>
        (\<forall>i < width. bit_at y i \<longleftrightarrow> i + nat n < width \<and> bit_at w (i + nat n))"
begin

text \<open>The indices recorded by a window whose most recent index is \<open>hi\<close>.\<close>

definition seen :: "int \<Rightarrow> 'w \<Rightarrow> int set" where
  "seen hi w = {hi - int (width - 1 - i) | i. i < width \<and> bit_at w i}"

lemma in_seen_iff:
  "j \<in> seen hi w \<longleftrightarrow> hi - int width < j \<and> j \<le> hi \<and> bit_at w (nat (j - hi + int width - 1))"
proof
  assume "j \<in> seen hi w"
  then obtain i where i: "j = hi - int (width - 1 - i)" "i < width" "bit_at w i"
    by (auto simp: seen_def)
  then have "nat (j - hi + int width - 1) = i" by auto
  with i show "hi - int width < j \<and> j \<le> hi \<and> bit_at w (nat (j - hi + int width - 1))" by auto
next
  assume a: "hi - int width < j \<and> j \<le> hi \<and> bit_at w (nat (j - hi + int width - 1))"
  let ?i = "nat (j - hi + int width - 1)"
  have "?i < width" "j = hi - int (width - 1 - ?i)" using a by auto
  with a show "j \<in> seen hi w" unfolding seen_def by blast
qed

lemma push:
  assumes "wf w" "0 < d"
  shows "\<exists>s y. shift w d = Some s \<and> set_at s (int width - 1) = Some y \<and> wf y \<and>
    seen (hi + d) y = insert (hi + d) {j \<in> seen hi w. hi + d - int width < j}"
proof -
  obtain s where s: "shift w d = Some s" "wf s"
    "\<forall>i < width. bit_at s i \<longleftrightarrow> i + nat d < width \<and> bit_at w (i + nat d)"
    using shift[of w d] assms by auto
  obtain y where y: "set_at s (int width - 1) = Some y" "wf y"
    "\<forall>i < width. bit_at y i \<longleftrightarrow> i = nat (int width - 1) \<or> bit_at s i"
    using set_at[of s "int width - 1"] s(2) width_pos by auto
  have "j \<in> seen (hi + d) y \<longleftrightarrow> j \<in> insert (hi + d) {j \<in> seen hi w. hi + d - int width < j}" for j
  proof (cases "hi + d - int width < j \<and> j \<le> hi + d")
    case False
    then show ?thesis using assms width_pos by (auto simp: in_seen_iff)
  next
    case True
    define i where "i = nat (j - (hi + d) + int width - 1)"
    have i: "i < width" "i + nat d < width \<longleftrightarrow> j \<le> hi" "i = nat (int width - 1) \<longleftrightarrow> j = hi + d"
      "i + nat d = nat (j - hi + int width - 1)"
      using True assms(2) by (auto simp: i_def)
    have "j \<in> seen (hi + d) y \<longleftrightarrow> bit_at y i" using True by (simp add: in_seen_iff i_def)
    also have "\<dots> \<longleftrightarrow> j = hi + d \<or> (j \<le> hi \<and> bit_at w (i + nat d))"
      using y(3) s(3) i(1-3) by auto
    finally show ?thesis using True i(4) assms(2) by (auto simp: in_seen_iff)
  qed
  then show ?thesis using s(1) y(1,2) by blast
qed

end

interpretation v128_window: bit_window v128_wf v128_bit v128_set_bit v128_left_shift 128
proof unfold_locales
  fix w and b :: int assume "v128_wf w" "0 \<le> b" "b < int 128"
  then obtain y where "v128_set_bit w b = Some y" "v128_wf y"
    "\<And>i. i < 128 \<Longrightarrow> v128_bit y i \<longleftrightarrow> i = nat b \<or> v128_bit w i"
    using v128_set_bit_eq[of w b] by auto
  then show "\<exists>y. v128_set_bit w b = Some y \<and> v128_wf y \<and>
      (\<forall>i < 128. v128_bit y i \<longleftrightarrow> i = nat b \<or> v128_bit w i)" by auto
next
  fix w and n :: int assume "v128_wf w" "0 \<le> n"
  then obtain y where "v128_left_shift w n = Some y" "v128_wf y"
    "\<And>i. i < 128 \<Longrightarrow> v128_bit y i \<longleftrightarrow> i + nat n < 128 \<and> v128_bit w (i + nat n)"
    using v128_left_shift_eq[of w n] by auto
  then show "\<exists>y. v128_left_shift w n = Some y \<and> v128_wf y \<and>
      (\<forall>i < 128. v128_bit y i \<longleftrightarrow> i + nat n < 128 \<and> v128_bit w (i + nat n))" by auto
qed simp

section \<open>Facts on the conversions\<close>

text \<open>The doubling construction of a table of Hamming weights.\<close>

primrec weights :: "nat \<Rightarrow> nat list" where
  "weights 0 = [0]"
| "weights (Suc k) = weights k @ map Suc (weights k)"

lemma length_weights [simp]: "length (weights k) = 2 ^ k"
  by (induction k) simp_all

lemma weights_nth: "n < 2 ^ k \<Longrightarrow> weights k ! n = length (filter (bit n) [0..<k])"
proof (induction k arbitrary: n)
  case 0
  then show ?case by simp
next
  case (Suc k)
  show ?case
  proof (cases "n < 2 ^ k")
    case True
    then have "\<not> bit n k" by (simp add: bit_iff_odd)
    then show ?thesis using True Suc.IH by (simp add: nth_append)
  next
    case False
    then obtain m where n: "n = 2 ^ k + m" by (metis le_iff_add not_less)
    then have m: "m < 2 ^ k" using Suc.prems by simp
    have "n div 2 ^ k = 1" unfolding n by (rule div_nat_eqI) (use m in simp_all)
    then have "bit n k" by (simp add: bit_iff_odd)
    moreover have "filter (bit n) [0..<k] = filter (bit m) [0..<k]"
    proof (rule filter_cong)
      fix i assume "i \<in> set [0..<k]"
      then have "i < k" by simp
      then have "n div 2 ^ i = 2 ^ (k - i) + m div 2 ^ i"
        by (simp add: n div_plus_div_distrib_dvd_left le_imp_power_dvd power_diff)
      then show "bit n i = bit m i" using \<open>i < k\<close> by (simp add: bit_iff_odd)
    qed simp
    ultimately show ?thesis using Suc.IH[OF m] m by (simp add: nth_append n)
  qed
qed

lemma octet_weight_table: "octet_weight = weights 8"
  by (simp add: octet_weight_def numeral_eq_Suc)

text \<open>The table \<open>octet_weight\<close> is correct at all its 256 entries: \<open>octet_get_weight\<close>
  returns the number of one bits of its argument.\<close>

theorem octet_get_weight_popcount: "octet_get_weight x = card {i. bit x i}"
proof -
  have x: "unat x < 2 ^ 8" using unsigned_less[of x] by simp
  have "octet_weight ! unat x = length (filter (bit (unat x)) [0..<8])"
    unfolding octet_weight_table using x by (rule weights_nth)
  also have "filter (bit (unat x)) [0..<8] = filter (bit x) [0..<8]"
    by (rule filter_cong) (simp_all add: bit_unsigned_iff)
  also have "length \<dots> = card (set (filter (bit x) [0..<8]))"
    by (subst distinct_card) (simp_all del: set_filter)
  also have "set (filter (bit x) [0..<8]) = {i. bit x i}"
    using bit_imp_le_length[of x] by auto
  finally show ?thesis by (simp add: octet_get_weight_def)
qed

definition hex_digits :: "u8 list \<Rightarrow> u8 list" where
  "hex_digits s = concat (map (\<lambda>b. [nibble_to_hex_char (drop_bit 4 b), nibble_to_hex_char (b AND 0xF)]) s)"

lemma hex_nibble:
  "unat (v::u8) < 16 \<Longrightarrow> hex_char_to_nibble (nibble_to_hex_char v) = uint v"
proof -
  assume v: "unat v < 16"
  have "list_all (\<lambda>n. hex_char_to_nibble (nibble_to_hex_char (word_of_nat n)) = int n) [0..<16]"
    by code_simp
  then have "hex_char_to_nibble (nibble_to_hex_char (word_of_nat (unat v))) = int (unat v)"
    using v unfolding list_all_iff set_upt by (metis atLeastLessThan_iff zero_le)
  then show ?thesis by simp
qed
lemma unat_high_nibble: "unat (drop_bit 4 (b::u8)) < 16"
proof -
  have "unat b < 256" using unsigned_less[of b] by simp
  then show ?thesis by (simp add: drop_bit_eq_div unat_div)
qed

lemma unat_low_nibble: "unat ((b::u8) AND 0xF) < 16"
  by (rule le_less_trans[OF word_and_le1[THEN word_le_nat_alt[THEN iffD1]]]) simp

lemma octet_nibbles:
  "16 * word_of_int (hex_char_to_nibble (nibble_to_hex_char (drop_bit 4 b))) OR
      (word_of_int (hex_char_to_nibble (nibble_to_hex_char (b AND 0xF))) AND 0xff) = (b :: u8)"
proof -
  have m: "(0xF::u8) = mask 4" "(0xff::u8) = mask 8" "(16::u8) = 2 ^ 4"
    by (simp_all add: mask_eq_exp_minus_1)
  have "16 * drop_bit 4 b OR ((b AND 0xF) AND 0xff) = b"
    unfolding m push_bit_eq_mult[symmetric] mult.commute[of "2 ^ 4"]
    by (rule word_eqI_lt) (auto simp: bit_simps)
  then show ?thesis
    by (simp add: hex_nibble[OF unat_high_nibble] hex_nibble[OF unat_low_nibble])
qed

lemma hex_nibble_valid:
  "hex_char_to_nibble (nibble_to_hex_char (drop_bit 4 b)) \<noteq> -1"
  "hex_char_to_nibble (nibble_to_hex_char (b AND 0xF)) \<noteq> -1"
  using hex_nibble[OF unat_high_nibble, of b] hex_nibble[OF unat_low_nibble, of b]
    uint_ge_0[of "drop_bit 4 b"] uint_ge_0[of "b AND 0xF"] by linarith+

lemma hex_digits_Cons [simp]:
  "hex_digits (b # s) = nibble_to_hex_char (drop_bit 4 b) # nibble_to_hex_char (b AND 0xF) # hex_digits s"
  by (simp add: hex_digits_def)

lemma hex_digits_Nil [simp]: "hex_digits [] = []"
  by (simp add: hex_digits_def)

lemma length_hex_digits [simp]: "length (hex_digits s) = 2 * length s"
  by (induction s) simp_all

lemma hex_string_to_octet_loop_digits:
  "hex_string_to_octet_loop (hex_digits s @ rest) (n + 2 * int (length s)) n raw
     = Some (n + 2 * int (length s), raw @ s)"
proof (induction s arbitrary: n raw)
  case Nil
  then show ?case by (subst hex_string_to_octet_loop.simps) simp
next
  case (Cons b s)
  then show ?case using Cons.IH[of "n + 2"]
    by (subst hex_string_to_octet_loop.simps)
      (simp add: Let_def hex_nibble_valid octet_nibbles algebra_simps)
qed

lemma octet_string_hex_loop_digits:
  assumes "i + 2 * length s < length buf"
  shows "octet_string_hex_loop s (int i) (int i + 2 * int (length s)) buf
     = Some (take i buf @ hex_digits s @ 0 # drop (i + 2 * length s + 1) buf)"
  using assms
proof (induction s arbitrary: i buf)
  case Nil
  then show ?case by (subst octet_string_hex_loop.simps) (simp add: upd_conv_take_nth_drop)
next
  case (Cons b s)
  let ?buf = "buf[i := nibble_to_hex_char (drop_bit 4 b), i + 1 := nibble_to_hex_char (b AND 0xF)]"
  have "take (i + 2) ?buf = take i buf @ [nibble_to_hex_char (drop_bit 4 b), nibble_to_hex_char (b AND 0xF)]"
    using Cons.prems by (simp add: take_update_swap take_Suc_conv_app_nth list_update_append)
  moreover have "octet_string_hex_loop s (int (i + 2)) (int (i + 2) + 2 * int (length s)) ?buf
      = Some (take (i + 2) ?buf @ hex_digits s @ 0 # drop (i + 2 + 2 * length s + 1) ?buf)"
    by (rule Cons.IH) (use Cons.prems in simp)
  ultimately show ?case using Cons.prems
    by (subst octet_string_hex_loop.simps) (simp add: nat_add_distrib algebra_simps)
qed

lemma octet_string_hex_loop_overflow:
  assumes "odd (len - i)" "int (length buf) = len + 1" "len - i < 2 * int (length s)" "0 \<le> i" "i \<le> len"
  shows "octet_string_hex_loop s i len buf = None"
  using assms
proof (induction s arbitrary: i buf)
  case Nil
  then show ?case by simp
next
  case (Cons b s)
  show ?case
  proof (cases "i + 1 < len")
    case True
    then show ?thesis using Cons
      by (subst octet_string_hex_loop.simps) auto
  next
    case False
    with Cons.prems have "len = i + 1" by presburger
    with Cons.prems show ?thesis
      by (subst octet_string_hex_loop.simps) (simp, subst octet_string_hex_loop.simps, simp)
  qed
qed

text \<open>Octet strings of up to 511 octets, printed by \<open>octet_string_hex_string\<close> into the
  1024-octet buffer, stay inside the buffer and are read back unchanged by
  \<open>hex_string_to_octet_string\<close>.\<close>

theorem hex_round_trip:
  assumes "length bit_string = 1024" "length s \<le> 511"
  shows "\<exists>out. octet_string_hex_string bit_string s (int (length s)) = Some out \<and>
    hex_string_to_octet_string out (2 * int (length s)) = Some (2 * int (length s), s)"
proof -
  have "octet_string_hex_loop s (int 0) (int 0 + 2 * int (length s)) bit_string
     = Some (take 0 bit_string @ hex_digits s @ 0 # drop (0 + 2 * length s + 1) bit_string)"
    by (rule octet_string_hex_loop_digits) (use assms in simp)
  then show ?thesis
    using assms hex_string_to_octet_loop_digits[of s _ 0 "[]"]
    by (simp add: octet_string_hex_string_def MAX_PRINT_STRING_LEN_def Let_def hex_string_to_octet_string_def)
qed

text \<open>An octet string of more than 512 octets makes \<open>octet_string_hex_string\<close> write its
  terminating zero one octet past the end of \<open>bit_string\<close>: the truncated length 1023 is odd,
  and the loop advances by two.\<close>

theorem octet_string_hex_overflow:
  assumes "length bit_string = 1024" "512 < n" "n \<le> length s"
  shows "octet_string_hex_string bit_string s (int n) = None"
  using assms octet_string_hex_loop_overflow[of 1023 0 bit_string s]
  by (simp add: octet_string_hex_string_def MAX_PRINT_STRING_LEN_def Let_def)

theorem hex_round_trip_witness:
  "\<exists>out. octet_string_hex_string (replicate 1024 0) [0xde, 0xad] 2 = Some out \<and>
    hex_string_to_octet_string out 4 = Some (4, [0xde, 0xad])"
  using hex_round_trip[of "replicate 1024 0" "[0xde, 0xad]"] by simp

theorem octet_string_hex_overflow_witness:
  "octet_string_hex_string (replicate 1024 0) (replicate 600 7) 513 = None"
  using octet_string_hex_overflow[of "replicate 1024 0" 513 "replicate 600 7"] by simp

end
