(* ===== verification/Srtp_Err.thy ===== *)
theory Srtp_Err
  imports C_Prelude
begin

text \<open>The status codes of libSRTP (\<open>3rd_party/srtp/crypto/include/err.h\<close>), which every
  operation of the library returns.\<close>

datatype err_status =
    err_status_ok
  | err_status_fail
  | err_status_bad_param
  | err_status_alloc_fail
  | err_status_dealloc_fail
  | err_status_init_fail
  | err_status_terminus
  | err_status_auth_fail
  | err_status_cipher_fail
  | err_status_replay_fail
  | err_status_replay_old
  | err_status_algo_fail
  | err_status_no_such_op
  | err_status_no_ctx
  | err_status_cant_check
  | err_status_key_expired
  | err_status_socket_err
  | err_status_signal_err
  | err_status_nonce_bad
  | err_status_read_fail
  | err_status_write_fail
  | err_status_parse_err
  | err_status_encode_err
  | err_status_semaphore_err
  | err_status_pfkey_err

end
