(* ===== verification/Srtp_Cipher.thy ===== *)
theory Srtp_Cipher
  imports Srtp_Aes Srtp_Datatypes Srtp_Err
begin

text \<open>
  The ciphers of libSRTP: AES in integer counter mode (\<open>crypto/cipher/aes_icm.c\<close>), AES in cipher block
  chaining mode (\<open>crypto/cipher/aes_cbc.c\<close>), the null cipher (\<open>crypto/cipher/null_cipher.c\<close>) and the
  generic layer with its self test (\<open>crypto/cipher/cipher.c\<close>, \<open>crypto/include/cipher.h\<close>).

  A buffer is the list of the octets of the memory behind the pointer, and the number of octets to
  process is an argument of its own; \<^const>\<open>None\<close> is an access outside the buffer. The function
  pointers of a \<open>cipher_type_t\<close> are the case distinction on the state of the cipher.
\<close>

section \<open>Integer counter mode\<close>

record aes_icm_ctx =
  icm_counter :: block
  icm_offset :: block
  icm_keystream_buffer :: block
  icm_expanded_key :: "block list"
  icm_bytes_in_buffer :: nat

text \<open>\<open>key\<close> is the memory from the key pointer on: the source copies sixteen octets from \<open>key + 16\<close>, two more
  than a key of 30 octets has, and then clears the last two.\<close>

definition aes_icm_context_init :: "aes_icm_ctx \<Rightarrow> u8 list \<Rightarrow> (err_status \<times> aes_icm_ctx) option" where
  "aes_icm_context_init c key =
    (if length key < 32 then None
     else let salt = (take 16 (drop 16 key))[15 := 0, 14 := 0]
       in Some (err_status_ok,
            c\<lparr>icm_counter := salt, icm_offset := salt,
              icm_expanded_key := aes_expand_encryption_key (take 16 key), icm_bytes_in_buffer := 0\<rparr>))"

definition le64 :: "u64 \<Rightarrow> u8 list" where
  "le64 w = map (\<lambda>k. ucast (drop_bit (8 * k) w)) [0..<8]"

definition aes_icm_set_octet :: "aes_icm_ctx \<Rightarrow> u64 \<Rightarrow> err_status \<times> aes_icm_ctx" where
  "aes_icm_set_octet c octet_num =
    (let tail_num = unat (octet_num mod 16); block_num = octet_num div 16;
         c = c\<lparr>icm_counter := map2 (XOR) (take 8 (icm_offset c)) (le64 block_num) @ drop 8 (icm_counter c)\<rparr>
     in if tail_num \<noteq> 0
        then (err_status_ok, c\<lparr>icm_keystream_buffer := aes_encrypt (icm_counter c) (icm_expanded_key c),
                icm_bytes_in_buffer := 16 - tail_num\<rparr>)
        else (err_status_ok, c\<lparr>icm_bytes_in_buffer := 0\<rparr>))"

definition aes_icm_set_iv :: "aes_icm_ctx \<Rightarrow> block \<Rightarrow> err_status \<times> aes_icm_ctx" where
  "aes_icm_set_iv c nonce =
    (err_status_ok, c\<lparr>icm_counter := v128_xor_eq (icm_offset c) nonce, icm_bytes_in_buffer := 0\<rparr>)"

text \<open>The block counter: the last two octets for SRTP, the last four for ISMACryp.\<close>

definition icm_clock :: "bool \<Rightarrow> block \<Rightarrow> block" where
  "icm_clock forIsmacryp counter =
    (if forIsmacryp
     then take 12 counter @ le32 (htonl (ntohl (of_le32 (drop 12 counter)) + 1))
     else let counter = counter[15 := counter ! 15 + 1]
       in if counter ! 15 = 0 then counter[14 := counter ! 14 + 1] else counter)"

definition aes_icm_advance_ismacryp :: "aes_icm_ctx \<Rightarrow> bool \<Rightarrow> aes_icm_ctx" where
  "aes_icm_advance_ismacryp c forIsmacryp =
    c\<lparr>icm_keystream_buffer := aes_encrypt (icm_counter c) (icm_expanded_key c),
      icm_bytes_in_buffer := 16, icm_counter := icm_clock forIsmacryp (icm_counter c)\<rparr>"

definition aes_icm_advance :: "aes_icm_ctx \<Rightarrow> aes_icm_ctx" where
  "aes_icm_advance c = aes_icm_advance_ismacryp c False"

text \<open>The loop over whole blocks, which runs \<open>n\<close> times, and the tail. Both variants of the source (by octets and by
  aligned words) exor the same octets.\<close>

fun icm_blocks :: "nat \<Rightarrow> aes_icm_ctx \<Rightarrow> bool \<Rightarrow> u8 list \<Rightarrow> aes_icm_ctx \<times> u8 list" where
  "icm_blocks 0 c ism buf = (c, [])"
| "icm_blocks (Suc n) c ism buf =
    (let c = aes_icm_advance_ismacryp c ism;
         out = map2 (XOR) (take 16 buf) (icm_keystream_buffer c);
         (c, rest) = icm_blocks n c ism (drop 16 buf)
     in (c, out @ rest))"

definition icm_tail :: "aes_icm_ctx \<Rightarrow> bool \<Rightarrow> u8 list \<Rightarrow> aes_icm_ctx \<times> u8 list" where
  "icm_tail c ism buf =
    (if length buf \<noteq> 0
     then let c = aes_icm_advance_ismacryp c ism
       in (c\<lparr>icm_bytes_in_buffer := 16 - length buf\<rparr>, map2 (XOR) buf (icm_keystream_buffer c))
     else (c\<lparr>icm_bytes_in_buffer := 0\<rparr>, []))"

definition aes_icm_encrypt_ismacryp :: "aes_icm_ctx \<Rightarrow> u8 list \<Rightarrow> bool \<Rightarrow> err_status \<times> aes_icm_ctx \<times> u8 list" where
  "aes_icm_encrypt_ismacryp c buf forIsmacryp =
    (let bytes_to_encr = length buf; n = icm_bytes_in_buffer c in
     if \<not> forIsmacryp \<and> bytes_to_encr + unat (htons (of_le16 (drop 14 (icm_counter c)))) > 0xffff
     then (err_status_terminus, c, buf)
     else if bytes_to_encr \<le> n
     then (err_status_ok, c\<lparr>icm_bytes_in_buffer := n - bytes_to_encr\<rparr>,
           map2 (XOR) buf (drop (16 - n) (icm_keystream_buffer c)))
     else
       let first = map2 (XOR) (take n buf) (drop (16 - n) (icm_keystream_buffer c));
           buf = drop n buf; c = c\<lparr>icm_bytes_in_buffer := 0\<rparr>;
           k = length buf div 16;
           (c, blocks) = icm_blocks k c forIsmacryp buf;
           (c, last) = icm_tail c forIsmacryp (drop (16 * k) buf)
       in (err_status_ok, c, first @ blocks @ last))"

definition aes_icm_encrypt :: "aes_icm_ctx \<Rightarrow> u8 list \<Rightarrow> err_status \<times> aes_icm_ctx \<times> u8 list" where
  "aes_icm_encrypt c buf = aes_icm_encrypt_ismacryp c buf False"

text \<open>The keystream itself, at the start of a buffer.\<close>

definition aes_icm_output :: "aes_icm_ctx \<Rightarrow> u8 list \<Rightarrow> nat \<Rightarrow> (err_status \<times> aes_icm_ctx \<times> u8 list) option" where
  "aes_icm_output c buffer n = do {
     buffer \<leftarrow> octet_string_set_to_zero buffer n;
     let (status, c, out) = aes_icm_encrypt c (take n buffer);
     Some (status, c, out @ drop n buffer) }"

section \<open>Cipher block chaining\<close>

datatype cipher_direction = direction_encrypt | direction_decrypt | direction_any

record aes_cbc_ctx =
  cbc_state :: block
  cbc_previous :: block
  cbc_expanded_key :: "block list"

definition aes_cbc_context_init :: "aes_cbc_ctx \<Rightarrow> u8 list \<Rightarrow> cipher_direction \<Rightarrow> (err_status \<times> aes_cbc_ctx) option" where
  "aes_cbc_context_init c key dir =
    (if length key < 16 then None
     else case dir of
       direction_encrypt \<Rightarrow> Some (err_status_ok, c\<lparr>cbc_expanded_key := aes_expand_encryption_key (take 16 key)\<rparr>)
     | direction_decrypt \<Rightarrow> Some (err_status_ok, c\<lparr>cbc_expanded_key := aes_expand_decryption_key (take 16 key)\<rparr>)
     | direction_any \<Rightarrow> Some (err_status_bad_param, c))"

definition aes_cbc_set_iv :: "aes_cbc_ctx \<Rightarrow> block \<Rightarrow> err_status \<times> aes_cbc_ctx" where
  "aes_cbc_set_iv c iv = (err_status_ok, c\<lparr>cbc_state := take 16 iv, cbc_previous := take 16 iv\<rparr>)"

text \<open>The two loops, over the number of blocks.\<close>

fun cbc_encrypt_blocks :: "nat \<Rightarrow> block list \<Rightarrow> block \<Rightarrow> u8 list \<Rightarrow> block \<times> u8 list" where
  "cbc_encrypt_blocks 0 ek state input = (state, [])"
| "cbc_encrypt_blocks (Suc n) ek state input =
    (let state = aes_encrypt (map2 (XOR) state (take 16 input)) ek;
         (final, rest) = cbc_encrypt_blocks n ek state (drop 16 input)
     in (final, state @ rest))"

fun cbc_decrypt_blocks :: "nat \<Rightarrow> block list \<Rightarrow> block \<Rightarrow> u8 list \<Rightarrow> u8 list" where
  "cbc_decrypt_blocks 0 ek previous input = []"
| "cbc_decrypt_blocks (Suc n) ek previous input =
    map2 (XOR) (aes_decrypt (take 16 input) ek) previous @ cbc_decrypt_blocks n ek (take 16 input) (drop 16 input)"

text \<open>\<open>n\<close> is the value of \<open>*bytes_in_data\<close>, an \<open>unsigned int\<close>. The loops count an \<open>int\<close> down to zero, so that a length
  of \<open>2 ^ 31\<close> or more, converted to a negative number, makes them do nothing.\<close>

definition cbc_loop_bytes :: "nat \<Rightarrow> nat" where
  "cbc_loop_bytes n = nat (sint (of_nat n :: u32))"

definition aes_cbc_encrypt :: "aes_cbc_ctx \<Rightarrow> u8 list \<Rightarrow> nat \<Rightarrow> (err_status \<times> aes_cbc_ctx \<times> u8 list) option" where
  "aes_cbc_encrypt c data n =
    (let bytes_to_encr = cbc_loop_bytes n in
     if n mod 16 \<noteq> 0 then Some (err_status_bad_param, c, data)
     else if length data < bytes_to_encr then None
     else let (state, out) = cbc_encrypt_blocks (bytes_to_encr div 16) (cbc_expanded_key c) (cbc_state c) data
       in Some (err_status_ok, c\<lparr>cbc_state := state\<rparr>, out @ drop bytes_to_encr data))"

definition aes_cbc_decrypt :: "aes_cbc_ctx \<Rightarrow> u8 list \<Rightarrow> nat \<Rightarrow> (err_status \<times> aes_cbc_ctx \<times> u8 list) option" where
  "aes_cbc_decrypt c data n =
    (let bytes_to_encr = cbc_loop_bytes n in
     if n mod 16 \<noteq> 0 then Some (err_status_bad_param, c, data)
     else if length data < bytes_to_encr then None
     else Some (err_status_ok, c,
            cbc_decrypt_blocks (bytes_to_encr div 16) (cbc_expanded_key c) (cbc_previous c) data @ drop bytes_to_encr data))"

text \<open>The padding: an octet \<open>0xa0\<close> and \<open>num_pad_bytes\<close> zero octets, one more than the length grows by;
  the new length is stored in an \<open>unsigned int\<close> again.\<close>

definition aes_cbc_nist_encrypt :: "aes_cbc_ctx \<Rightarrow> u8 list \<Rightarrow> nat \<Rightarrow> (err_status \<times> aes_cbc_ctx \<times> u8 list \<times> nat) option" where
  "aes_cbc_nist_encrypt c data n = do {
     let num_pad_bytes = 16 - n mod 16;
     data \<leftarrow> poke data n (0xa0 # replicate num_pad_bytes 0);
     let n = (n + num_pad_bytes) mod 2 ^ 32;
     (status, c, data) \<leftarrow> aes_cbc_encrypt c data n;
     Some (status, c, data, n) }"

text \<open>The scan for the padding octet from the position \<open>n - 1\<close> downwards, which leaves the buffer when there is none, or
  when it does not begin in it.\<close>

fun find_pad :: "u8 list \<Rightarrow> nat \<Rightarrow> nat \<Rightarrow> nat option" where
  "find_pad data 0 num = None"
| "find_pad data (Suc n) num =
    (if n \<ge> length data then None else if data ! n = 0xa0 then Some num else find_pad data n (Suc num))"

definition aes_cbc_nist_decrypt :: "aes_cbc_ctx \<Rightarrow> u8 list \<Rightarrow> nat \<Rightarrow> (err_status \<times> aes_cbc_ctx \<times> u8 list \<times> nat) option" where
  "aes_cbc_nist_decrypt c data n = do {
     (status, c, data) \<leftarrow> aes_cbc_decrypt c data n;
     if status \<noteq> err_status_ok then Some (status, c, data, n)
     else do {
       num_pad_bytes \<leftarrow> find_pad data n 1;
       Some (err_status_ok, c, data, n - num_pad_bytes) }}"

section \<open>The keystream\<close>

text \<open>The octets of keystream that a context has still to deliver: what is left in its buffer, then the encrypted
  values of its counter.\<close>

definition icm_stream :: "bool \<Rightarrow> aes_icm_ctx \<Rightarrow> nat \<Rightarrow> u8" where
  "icm_stream ism c i =
    (if i < icm_bytes_in_buffer c then icm_keystream_buffer c ! (16 - icm_bytes_in_buffer c + i)
     else let j = i - icm_bytes_in_buffer c
       in aes_encrypt ((icm_clock ism ^^ (j div 16)) (icm_counter c)) (icm_expanded_key c) ! (j mod 16))"

definition icm_wf :: "aes_icm_ctx \<Rightarrow> bool" where
  "icm_wf c \<longleftrightarrow> length (icm_keystream_buffer c) = 16 \<and> icm_bytes_in_buffer c \<le> 16"

definition add_stream :: "(nat \<Rightarrow> u8) \<Rightarrow> u8 list \<Rightarrow> u8 list" where
  "add_stream ks buf = map (\<lambda>i. buf ! i XOR ks i) [0..<length buf]"

lemma length_add_stream [simp]: "length (add_stream ks buf) = length buf"
  by (simp add: add_stream_def)

lemma add_stream_nth [simp]: "i < length buf \<Longrightarrow> add_stream ks buf ! i = buf ! i XOR ks i"
  by (simp add: add_stream_def)

lemma add_stream_append:
  "add_stream ks (a @ b) = add_stream ks a @ add_stream (\<lambda>i. ks (i + length a)) b"
  by (rule nth_equalityI) (auto simp: nth_append add.commute)

lemma add_stream_twice: "add_stream ks (add_stream ks buf) = buf"
  by (rule nth_equalityI) auto

lemma map2_add_stream:
  assumes "length buf \<le> length ks" "\<And>i. i < length buf \<Longrightarrow> ks ! i = f i"
  shows "map2 (XOR) buf ks = add_stream f buf"
  by (rule nth_equalityI) (use assms in \<open>auto simp: min_def\<close>)

lemma aes_encrypt_length [simp]: "length (aes_encrypt p ek) = 16"
  by (simp add: aes_encrypt_def aes_final_round_def Let_def)

lemma icm_wf_advance: "icm_wf (aes_icm_advance_ismacryp c ism)"
  by (simp add: icm_wf_def aes_icm_advance_ismacryp_def)

lemma icm_stream_advance:
  assumes "icm_bytes_in_buffer c = 0"
  shows "icm_stream ism (aes_icm_advance_ismacryp c ism) = icm_stream ism c"
proof
  fix i
  show "icm_stream ism (aes_icm_advance_ismacryp c ism) i = icm_stream ism c i"
  proof (cases "i < 16")
    case True
    then show ?thesis using assms by (simp add: icm_stream_def aes_icm_advance_ismacryp_def)
  next
    case False
    then obtain j where i: "i = j + 16" by (metis add.commute le_add_diff_inverse not_less)
    have "(j + 16) div 16 = Suc (j div 16)" by simp
    then show ?thesis using assms
      by (simp add: i icm_stream_def aes_icm_advance_ismacryp_def Let_def funpow_swap1)
  qed
qed

lemma icm_stream_take:
  assumes "n \<le> icm_bytes_in_buffer c" "icm_bytes_in_buffer c \<le> 16"
  shows "icm_stream ism (c\<lparr>icm_bytes_in_buffer := icm_bytes_in_buffer c - n\<rparr>) i = icm_stream ism c (i + n)"
  using assms by (auto simp: icm_stream_def Let_def intro!: arg_cong[of _ _ "(!) (icm_keystream_buffer c)"])

text \<open>What the loop over whole blocks and the tail do, from an empty buffer.\<close>

abbreviation emptied :: "aes_icm_ctx \<Rightarrow> aes_icm_ctx" where
  "emptied c \<equiv> c\<lparr>icm_bytes_in_buffer := 0\<rparr>"

lemma advance_emptied: "aes_icm_advance_ismacryp (emptied c) ism = aes_icm_advance_ismacryp c ism"
  by (simp add: aes_icm_advance_ismacryp_def)

lemma icm_stream_block:
  fixes c ism
  defines "c' \<equiv> aes_icm_advance_ismacryp c ism"
  shows "icm_stream ism (emptied c') i = icm_stream ism (emptied c) (i + 16)"
    "j < 16 \<Longrightarrow> icm_keystream_buffer c' ! j = icm_stream ism (emptied c) j"
    "icm_bytes_in_buffer c' = 16" "length (icm_keystream_buffer c') = 16"
proof -
  have e: "icm_stream ism c' = icm_stream ism (emptied c)"
    using icm_stream_advance[of "emptied c" ism] by (simp add: c'_def advance_emptied)
  show b: "icm_bytes_in_buffer c' = 16" "length (icm_keystream_buffer c') = 16"
    by (simp_all add: c'_def aes_icm_advance_ismacryp_def)
  show "icm_stream ism (emptied c') i = icm_stream ism (emptied c) (i + 16)"
    using icm_stream_take[of 16 c' ism i] b by (simp add: e)
  show "icm_keystream_buffer c' ! j = icm_stream ism (emptied c) j" if "j < 16"
    using that b(1) by (simp add: icm_stream_def flip: e)
qed

lemma icm_blocks_stream:
  assumes "length buf \<ge> 16 * n"
  shows "snd (icm_blocks n c ism buf) = add_stream (icm_stream ism (emptied c)) (take (16 * n) buf)
    \<and> (\<forall>i. icm_stream ism (emptied (fst (icm_blocks n c ism buf))) i = icm_stream ism (emptied c) (i + 16 * n))
    \<and> (icm_wf c \<longrightarrow> icm_wf (fst (icm_blocks n c ism buf)))"
  using assms
proof (induction n arbitrary: c buf)
  case 0
  then show ?case by (simp add: add_stream_def)
next
  case (Suc n)
  define c' where "c' = aes_icm_advance_ismacryp c ism"
  have IH: "snd (icm_blocks n c' ism (drop 16 buf)) = add_stream (icm_stream ism (emptied c')) (take (16 * n) (drop 16 buf))"
    "icm_stream ism (emptied (fst (icm_blocks n c' ism (drop 16 buf)))) i = icm_stream ism (emptied c') (i + 16 * n)"
    "icm_wf (fst (icm_blocks n c' ism (drop 16 buf)))" for i
    using Suc.IH[of "drop 16 buf" c'] Suc.prems icm_wf_advance[of c ism] by (auto simp: c'_def)
  have first: "map2 (XOR) (take 16 buf) (icm_keystream_buffer c') = add_stream (icm_stream ism (emptied c)) (take 16 buf)"
    using icm_stream_block[where c = c and ism = ism] Suc.prems by (intro map2_add_stream) (auto simp: c'_def)
  have t: "take (16 * Suc n) buf = take 16 buf @ take (16 * n) (drop 16 buf)"
    using take_add[of 16 "16 * n" buf] by simp
  have f: "icm_stream ism (emptied c') = (\<lambda>i. icm_stream ism (emptied c) (i + 16))"
    using icm_stream_block(1)[where c = c and ism = ism] by (auto simp: c'_def)
  have "icm_blocks (Suc n) c ism buf = (fst (icm_blocks n c' ism (drop 16 buf)),
      map2 (XOR) (take 16 buf) (icm_keystream_buffer c') @ snd (icm_blocks n c' ism (drop 16 buf)))"
    by (simp add: Let_def case_prod_beta c'_def)
  then show ?case unfolding t add_stream_append
    using IH first Suc.prems by (simp add: f add.assoc) (simp add: add.commute)
qed

lemma icm_tail_stream:
  assumes "length buf < 16" "icm_wf c"
  shows "snd (icm_tail c ism buf) = add_stream (icm_stream ism (emptied c)) buf
    \<and> (\<forall>i. icm_stream ism (fst (icm_tail c ism buf)) i = icm_stream ism (emptied c) (i + length buf))
    \<and> icm_wf (fst (icm_tail c ism buf))"
proof (cases "buf = []")
  case True
  then show ?thesis using assms(2) by (simp add: icm_tail_def add_stream_def icm_wf_def)
next
  case False
  define c' where "c' = aes_icm_advance_ismacryp c ism"
  note b = icm_stream_block[where c = c and ism = ism, folded c'_def]
  have "map2 (XOR) buf (icm_keystream_buffer c') = add_stream (icm_stream ism (emptied c)) buf"
    using b assms(1) by (intro map2_add_stream) auto
  moreover have "icm_stream ism (c'\<lparr>icm_bytes_in_buffer := 16 - length buf\<rparr>) i = icm_stream ism (emptied c) (i + length buf)" for i
  proof -
    have "icm_stream ism c' = icm_stream ism (emptied c)"
      using icm_stream_advance[of "emptied c" ism] by (simp add: c'_def advance_emptied)
    then show ?thesis using icm_stream_take[of "length buf" c' ism i] b(3) assms(1) by simp
  qed
  ultimately show ?thesis using False b assms(1)
    by (simp add: icm_tail_def Let_def icm_wf_def flip: c'_def)
qed

definition icm_room :: "bool \<Rightarrow> aes_icm_ctx \<Rightarrow> nat \<Rightarrow> bool" where
  "icm_room ism c n \<longleftrightarrow> ism \<or> n + unat (htons (of_le16 (drop 14 (icm_counter c)))) \<le> 0xffff"

lemma icm_encrypt_stream:
  assumes "icm_wf c" "icm_room ism c (length buf)"
  shows "\<exists>c'. aes_icm_encrypt_ismacryp c buf ism = (err_status_ok, c', add_stream (icm_stream ism c) buf)
    \<and> (\<forall>i. icm_stream ism c' i = icm_stream ism c (i + length buf)) \<and> icm_wf c'"
proof (cases "length buf \<le> icm_bytes_in_buffer c")
  case True
  let ?n = "icm_bytes_in_buffer c"
  have "map2 (XOR) buf (drop (16 - ?n) (icm_keystream_buffer c)) = add_stream (icm_stream ism c) buf"
    using assms(1) True by (intro map2_add_stream) (auto simp: icm_wf_def icm_stream_def add.commute)
  then show ?thesis using True assms icm_stream_take[of "length buf" c ism]
    by (auto simp: aes_icm_encrypt_ismacryp_def Let_def icm_room_def icm_wf_def)
next
  case False
  let ?n = "icm_bytes_in_buffer c"
  define rest where "rest = drop ?n buf"
  define k where "k = length rest div 16"
  define c1 where "c1 = fst (icm_blocks k (emptied c) ism rest)"
  define c2 where "c2 = fst (icm_tail c1 ism (drop (16 * k) rest))"
  have s0: "icm_stream ism (emptied c) i = icm_stream ism c (i + ?n)" for i
    using icm_stream_take[of ?n c ism i] assms(1) by (simp add: icm_wf_def)
  have first: "map2 (XOR) (take ?n buf) (drop (16 - ?n) (icm_keystream_buffer c)) = add_stream (icm_stream ism c) (take ?n buf)"
    using assms(1) False by (intro map2_add_stream) (auto simp: icm_wf_def icm_stream_def add.commute)
  have k: "16 * k \<le> length rest" "length (drop (16 * k) rest) < 16" by (simp_all add: k_def)
  have wf0: "icm_wf (emptied c)" using assms(1) by (simp add: icm_wf_def)
  note B = icm_blocks_stream[OF k(1), of "emptied c" ism, folded c1_def]
  have wf1: "icm_wf c1" using B wf0 by blast
  note Tl = icm_tail_stream[OF k(2) wf1, of ism, folded c2_def]
  have s1: "icm_stream ism (emptied c1) i = icm_stream ism c (i + (16 * k + ?n))" for i
    using B by (simp add: s0 add.assoc)
  have out: "add_stream (icm_stream ism c) buf
      = add_stream (icm_stream ism c) (take ?n buf) @ snd (icm_blocks k (emptied c) ism rest) @ snd (icm_tail c1 ism (drop (16 * k) rest))"
  proof -
    have "buf = take ?n buf @ take (16 * k) rest @ drop (16 * k) rest"
      by (simp only: append_take_drop_id) (simp add: rest_def)
    then have "add_stream (icm_stream ism c) buf = add_stream (icm_stream ism c) (take ?n buf @ take (16 * k) rest @ drop (16 * k) rest)"
      by simp
    moreover have f: "icm_stream ism (emptied c) = (\<lambda>i. icm_stream ism c (i + ?n))"
      "icm_stream ism (emptied c1) = (\<lambda>i. icm_stream ism c (i + (16 * k + ?n)))" using s0 s1 by auto
    moreover have l: "length (take ?n buf) = ?n" "length (take (16 * k) rest) = 16 * k" using False k(1) by simp_all
    ultimately have "add_stream (icm_stream ism c) buf = add_stream (icm_stream ism c) (take ?n buf)
        @ add_stream (icm_stream ism (emptied c)) (take (16 * k) rest) @ add_stream (icm_stream ism (emptied c1)) (drop (16 * k) rest)"
      by (simp only: add_stream_append f l add.assoc)
    then show ?thesis using B Tl by simp
  qed
  have s2: "icm_stream ism c2 i = icm_stream ism c (i + length buf)" for i
  proof -
    have "length (drop (16 * k) rest) + (16 * k + ?n) = length buf" using k(1) False by (simp add: rest_def)
    then show ?thesis using Tl by (simp add: s1 add.assoc del: length_drop)
  qed
  have "aes_icm_encrypt_ismacryp c buf ism = (err_status_ok, c2, add_stream (icm_stream ism c) buf)"
    using False assms(2) first out
    by (auto simp: aes_icm_encrypt_ismacryp_def Let_def icm_room_def case_prod_beta c2_def c1_def simp flip: rest_def k_def)
  then show ?thesis using s2 Tl by blast
qed

lemma icm_stream_fresh:
  assumes "icm_bytes_in_buffer c = 0" "icm_bytes_in_buffer d = 0" "icm_counter c = icm_counter d"
    "icm_expanded_key c = icm_expanded_key d"
  shows "icm_stream ism c = icm_stream ism d"
  using assms by (auto simp: icm_stream_def fun_eq_iff)

lemma icm_encrypt_ok:
  assumes "aes_icm_encrypt c buf = (err_status_ok, c', out)" "icm_wf c"
  shows "out = add_stream (icm_stream False c) buf" "\<And>i. icm_stream False c' i = icm_stream False c (i + length buf)" "icm_wf c'"
proof -
  have "icm_room False c (length buf)"
    using assms(1) by (auto simp: aes_icm_encrypt_def aes_icm_encrypt_ismacryp_def icm_room_def Let_def split: if_splits)
  from icm_encrypt_stream[OF assms(2) this] assms(1)
  show "out = add_stream (icm_stream False c) buf" "\<And>i. icm_stream False c' i = icm_stream False c (i + length buf)" "icm_wf c'"
    by (auto simp: aes_icm_encrypt_def)
qed

text \<open>Counter mode decrypts what it encrypted: two contexts keyed with the same key and given the same
  initialization vector, whatever they held before, undo each other. The second call succeeds whenever the first
  one does.\<close>

theorem aes_icm_round_trip:
  assumes "aes_icm_context_init c key = Some (err_status_ok, c1)" "aes_icm_context_init d key = Some (err_status_ok, d1)"
    and "length (icm_keystream_buffer c) = 16" "length (icm_keystream_buffer d) = 16"
    and "aes_icm_encrypt (snd (aes_icm_set_iv c1 iv)) buf = (err_status_ok, c2, out)"
  shows "\<exists>d2. aes_icm_encrypt (snd (aes_icm_set_iv d1 iv)) out = (err_status_ok, d2, buf)"
proof -
  let ?c = "snd (aes_icm_set_iv c1 iv)" and ?d = "snd (aes_icm_set_iv d1 iv)"
  have wf: "icm_wf ?c" "icm_wf ?d" and eq: "icm_counter ?c = icm_counter ?d" "icm_stream False ?c = icm_stream False ?d"
    using assms(1-4) by (auto simp: aes_icm_context_init_def aes_icm_set_iv_def icm_wf_def Let_def
        intro!: icm_stream_fresh split: if_splits)
  have room: "icm_room False ?c (length buf)"
    using assms(5) by (auto simp: aes_icm_encrypt_def aes_icm_encrypt_ismacryp_def icm_room_def Let_def split: if_splits)
  have out: "out = add_stream (icm_stream False ?c) buf" by (rule icm_encrypt_ok(1)[OF assms(5) wf(1)])
  then have "icm_room False ?d (length out)" using room eq(1) by (simp add: icm_room_def)
  from icm_encrypt_stream[OF wf(2) this] show ?thesis
    by (auto simp: aes_icm_encrypt_def out eq(2) add_stream_twice)
qed

definition zero_icm_ctx :: aes_icm_ctx where
  "zero_icm_ctx = \<lparr>icm_counter = replicate 16 0, icm_offset = replicate 16 0, icm_keystream_buffer = replicate 16 0,
     icm_expanded_key = [], icm_bytes_in_buffer = 0\<rparr>"

lemma icm_encrypt_empty: "aes_icm_encrypt c [] = (err_status_ok, c, [])" if "icm_room False c 0"
  using that by (simp add: aes_icm_encrypt_def aes_icm_encrypt_ismacryp_def icm_room_def Let_def)


lemma replicate_update_same: "(replicate n x)[i := x] = replicate n x"
  by (cases "i < n") (simp_all add: list_update_same_conv list_update_beyond)

lemma zero_icm_init:
  obtains c1 where "aes_icm_context_init zero_icm_ctx (replicate 32 0) = Some (err_status_ok, c1)"
    "icm_offset c1 = replicate 16 0" "icm_keystream_buffer c1 = replicate 16 0"
  by (simp add: aes_icm_context_init_def zero_icm_ctx_def Let_def replicate_update_same)

lemma zero_counter_room: "icm_counter c = replicate 16 0 \<Longrightarrow> n \<le> 0xffff \<Longrightarrow> icm_room False c n"
  by (simp add: icm_room_def of_le16_def htons_def le16_def)

lemma zero_icm_set_iv: "icm_offset c = replicate 16 0 \<Longrightarrow> icm_counter (snd (aes_icm_set_iv c (replicate 16 0))) = replicate 16 0"
  by (simp add: aes_icm_set_iv_def v128_xor_eq_AddRoundKey AddRoundKey_def zip_replicate)

theorem aes_icm_round_trip_witness:
  "\<exists>c1 c2 out d2. aes_icm_context_init zero_icm_ctx (replicate 32 0) = Some (err_status_ok, c1)
    \<and> aes_icm_encrypt (snd (aes_icm_set_iv c1 (replicate 16 0))) [1, 2, 3] = (err_status_ok, c2, out)
    \<and> aes_icm_encrypt (snd (aes_icm_set_iv c1 (replicate 16 0))) out = (err_status_ok, d2, [1, 2, 3])"
proof -
  obtain c1 where c1: "aes_icm_context_init zero_icm_ctx (replicate 32 0) = Some (err_status_ok, c1)"
    "icm_offset c1 = replicate 16 0" "icm_keystream_buffer c1 = replicate 16 0"
    by (rule zero_icm_init)
  let ?c = "snd (aes_icm_set_iv c1 (replicate 16 0))"
  have "icm_wf ?c" using c1 by (simp add: icm_wf_def aes_icm_set_iv_def)
  moreover have "icm_room False ?c (length [1, 2, 3 :: u8])" using zero_icm_set_iv c1 by (intro zero_counter_room) simp_all
  ultimately obtain c2 out where e: "aes_icm_encrypt ?c [1, 2, 3] = (err_status_ok, c2, out)"
    using icm_encrypt_stream unfolding aes_icm_encrypt_def by blast
  have "length (icm_keystream_buffer zero_icm_ctx) = 16" by (simp add: zero_icm_ctx_def)
  from aes_icm_round_trip[OF c1(1) c1(1) this this e] show ?thesis using c1(1) e by blast
qed

text \<open>Counter mode is a stream cipher: encrypting a message in two calls gives the octets that encrypting it in one
  call gives, wherever the message is cut, as long as no call reports the end of the segment.\<close>

theorem aes_icm_pieces:
  assumes "aes_icm_encrypt c a = (err_status_ok, c1, x)" "aes_icm_encrypt c1 b = (err_status_ok, c2, y)"
    and "aes_icm_encrypt c (a @ b) = (err_status_ok, c3, z)"
    and "length (icm_keystream_buffer c) = 16" "icm_bytes_in_buffer c \<le> 16"
  shows "z = x @ y \<and> (\<forall>i. icm_stream False c3 i = icm_stream False c2 i)"
proof -
  have wf: "icm_wf c" using assms(4,5) by (simp add: icm_wf_def)
  note A = icm_encrypt_ok[OF assms(1) wf]
  note B = icm_encrypt_ok[OF assms(2) A(3)]
  note Z = icm_encrypt_ok[OF assms(3) wf]
  have "icm_stream False c1 = (\<lambda>i. icm_stream False c (i + length a))" using A(2) by auto
  then show ?thesis using A(1) B(1,2) Z(1,2) by (simp add: add_stream_append ac_simps)
qed

theorem aes_icm_pieces_witness:
  "\<exists>c1 x c2 y c3 z. aes_icm_encrypt zero_icm_ctx [1, 2] = (err_status_ok, c1, x) \<and> aes_icm_encrypt c1 [] = (err_status_ok, c2, y)
    \<and> aes_icm_encrypt zero_icm_ctx ([1, 2] @ []) = (err_status_ok, c3, z) \<and> z = x @ y"
proof -
  have wf: "icm_wf zero_icm_ctx" by (simp add: icm_wf_def zero_icm_ctx_def)
  have room: "icm_room False zero_icm_ctx (length [1, 2 :: u8])"
    by (rule zero_counter_room) (simp_all add: zero_icm_ctx_def)
  obtain c1 x where a: "aes_icm_encrypt zero_icm_ctx [1, 2] = (err_status_ok, c1, x)"
    using icm_encrypt_stream[OF wf room] unfolding aes_icm_encrypt_def by blast
  have "unat (htons (of_le16 (drop 14 (icm_counter c1)))) < 2 ^ LENGTH(16)" by (rule unsigned_less)
  then have "icm_room False c1 0" by (simp add: icm_room_def)
  then have b: "aes_icm_encrypt c1 [] = (err_status_ok, c1, [])" by (rule icm_encrypt_empty)
  from aes_icm_pieces[OF a b, of c1 x] a b show ?thesis by (auto simp: zero_icm_ctx_def)
qed

text \<open>After positioning inside a block with \<open>aes_icm_set_octet\<close> the keystream repeats: the octets up to the end of
  the block come again sixteen octets later, because the block counter is not advanced.\<close>

theorem aes_icm_set_octet_repeats:
  assumes "aes_icm_set_octet c octet_num = (err_status_ok, c')" "octet_num mod 16 \<noteq> 0" "i < 16 - unat (octet_num mod 16)"
  shows "icm_stream ism c' (i + 16) = icm_stream ism c' i"
proof -
  have m: "unat (octet_num mod 16) < 16" "unat (octet_num mod 16) \<noteq> 0"
    using assms(2) unat_eq_zero by (simp add: unat_mod_distrib, blast)
  show ?thesis using assms m
    by (auto simp: aes_icm_set_octet_def Let_def icm_stream_def add.commute)
qed

theorem aes_icm_set_octet_repeats_witness:
  "\<exists>c'. aes_icm_set_octet zero_icm_ctx 37 = (err_status_ok, c') \<and> icm_stream False c' 26 = icm_stream False c' 10"
proof -
  obtain c' where c: "aes_icm_set_octet zero_icm_ctx 37 = (err_status_ok, c')"
    by (simp add: aes_icm_set_octet_def Let_def)
  from aes_icm_set_octet_repeats[OF this, of 10 False] c show ?thesis by simp
qed

section \<open>Cipher block chaining\<close>

lemma cbc_blocks_inverse:
  assumes "length key = 16" "length iv = 16" "16 * n \<le> length data"
  shows "cbc_decrypt_blocks n (aes_expand_decryption_key key) iv
      (snd (cbc_encrypt_blocks n (aes_expand_encryption_key key) iv data) @ r) = take (16 * n) data
    \<and> length (snd (cbc_encrypt_blocks n (aes_expand_encryption_key key) iv data)) = 16 * n"
  using assms(2,3)
proof (induction n arbitrary: iv data)
  case (Suc n)
  let ?ek = "aes_expand_encryption_key key" and ?dk = "aes_expand_decryption_key key"
  let ?s = "aes_encrypt (map2 (XOR) iv (take 16 data)) ?ek"
  have l: "length (map2 (XOR) iv (take 16 data)) = 16" using Suc.prems by simp
  have "map2 (XOR) (aes_decrypt ?s ?dk) iv = take 16 data"
    using Suc.prems l assms(1) by (subst aes_inverse) (auto intro!: nth_equalityI simp: xor.commute[of "iv ! _"])
  moreover have "cbc_encrypt_blocks (Suc n) ?ek iv data = (fst (cbc_encrypt_blocks n ?ek ?s (drop 16 data)),
      ?s @ snd (cbc_encrypt_blocks n ?ek ?s (drop 16 data)))"
    by (simp add: Let_def case_prod_beta)
  moreover have "take (16 * Suc n) data = take 16 data @ take (16 * n) (drop 16 data)"
    using take_add[of 16 "16 * n" data] by simp
  ultimately show ?case using Suc.IH[of ?s "drop 16 data"] Suc.prems by simp
qed simp

lemma find_pad_zeros:
  assumes "data ! p = 0xa0" "\<And>i. p < i \<Longrightarrow> i < n \<Longrightarrow> data ! i \<noteq> 0xa0" "p < n" "n \<le> length data"
  shows "find_pad data n k = Some (n - Suc p + k)"
  using assms(2-4)
proof (induction n arbitrary: k)
  case (Suc n)
  show ?case
  proof (cases "n = p")
    case True
    then show ?thesis using assms(1) Suc.prems(3) by simp
  next
    case False
    then have "p < n" "data ! n \<noteq> 0xa0" using Suc.prems by auto
    then show ?thesis using Suc.IH[of "Suc k"] Suc.prems by (simp add: Suc_diff_Suc)
  qed
qed simp

lemma cbc_loop_bytes_small: "n < 2 ^ 31 \<Longrightarrow> cbc_loop_bytes n = n"
  by (simp add: cbc_loop_bytes_def signed_of_nat signed_take_bit_int_eq_self)

text \<open>C27. The padded CBC mode round-trips: \<open>n\<close> octets of plaintext at the front of a buffer with room for the padding,
  encrypted under a key and an initialization vector and decrypted by a context set up with the same ones, come back
  with their length, as long as the padded length is a positive \<open>int\<close>. The buffer must have one octet more than the ciphertext occupies, and encryption with less room
  is an access outside it.\<close>

theorem aes_cbc_nist_round_trip:
  assumes "aes_cbc_context_init c key direction_encrypt = Some (err_status_ok, c1)"
    and "aes_cbc_context_init d key direction_decrypt = Some (err_status_ok, d1)"
    and "length iv = 16" "n + 16 < 2 ^ 31"
  shows "if length data < n + (16 - n mod 16) + 1
    then aes_cbc_nist_encrypt (snd (aes_cbc_set_iv c1 iv)) data n = None
    else \<exists>c2 ct d2 pt. aes_cbc_nist_encrypt (snd (aes_cbc_set_iv c1 iv)) data n
           = Some (err_status_ok, c2, ct, n + (16 - n mod 16))
         \<and> aes_cbc_nist_decrypt (snd (aes_cbc_set_iv d1 iv)) ct (n + (16 - n mod 16)) = Some (err_status_ok, d2, pt, n)
         \<and> take n pt = take n data"
proof (cases "length data < n + (16 - n mod 16) + 1")
  case True
  then show ?thesis by (simp add: aes_cbc_nist_encrypt_def Let_def poke_def)
next
  case False
  define np where "np = 16 - n mod 16"
  define m where "m = n + np"
  define padded where "padded = take n data @ (0xa0 # replicate np 0) @ drop (n + Suc np) data"
  have up: "r < 16 \<Longrightarrow> n = 16 * q + r \<Longrightarrow> n + (16 - r) = 16 * (q + 1)" for q r :: nat by simp
  have "m = 16 * (n div 16 + 1)" unfolding m_def np_def by (rule up) simp_all
  then have np: "0 < np" "np \<le> 16" "m mod 16 = 0" by (simp_all add: np_def)
  have len: "length padded = length data" "n \<le> length data" "m < length padded"
    using False by (simp_all add: padded_def np_def m_def)
  have p: "poke data n (0xa0 # replicate np 0) = Some padded"
    using False by (simp add: poke_def padded_def np_def)
  have int: "m mod 2 ^ 32 = m" "cbc_loop_bytes m = m"
    using assms(4) np(2) by (simp_all add: m_def cbc_loop_bytes_small)
  let ?ek = "aes_expand_encryption_key (take 16 key)" and ?dk = "aes_expand_decryption_key (take 16 key)"
  have k: "length (take 16 key) = 16" "cbc_expanded_key c1 = ?ek" "cbc_expanded_key d1 = ?dk"
    using assms(1,2) by (auto simp: aes_cbc_context_init_def split: if_splits)
  define ct where "ct = snd (cbc_encrypt_blocks (m div 16) ?ek iv padded) @ drop m padded"
  define c2 where "c2 = c1\<lparr>cbc_previous := iv, cbc_state := fst (cbc_encrypt_blocks (m div 16) ?ek iv padded)\<rparr>"
  have enc: "aes_cbc_nist_encrypt (snd (aes_cbc_set_iv c1 iv)) data n = Some (err_status_ok, c2, ct, m)"
    using p np len assms(3) k(2) int
    by (simp add: aes_cbc_nist_encrypt_def Let_def aes_cbc_encrypt_def aes_cbc_set_iv_def case_prod_beta ct_def c2_def
        flip: np_def m_def)
  have m16: "16 * (m div 16) = m" using np(3) by auto
  have inv: "cbc_decrypt_blocks (m div 16) ?dk iv ct = take m padded" "length ct = length padded" "drop m ct = drop m padded"
    using cbc_blocks_inverse[OF k(1) assms(3), of "m div 16" padded "drop m padded"] len m16 by (simp_all add: ct_def)
  have "find_pad padded m 1 = Some (m - Suc n + 1)"
  proof (rule find_pad_zeros)
    show "padded ! n = 0xa0" using len(2) by (simp add: padded_def nth_append)
    show "padded ! i \<noteq> 0xa0" if "n < i" "i < m" for i
    proof -
      have "i - Suc n < np" using that by (simp add: m_def)
      have "padded ! i = (0xa0 # replicate np 0) ! (i - n)"
        using that len(2) \<open>i - Suc n < np\<close> by (simp add: padded_def nth_append)
      also have "\<dots> = replicate np 0 ! (i - n - 1)" using that by (simp add: nth_Cons')
      also have "\<dots> = 0" using \<open>i - Suc n < np\<close> by simp
      finally show ?thesis by simp
    qed
    show "n < m" "m \<le> length padded" using np len by (simp_all add: m_def)
  qed
  then have "find_pad padded m 1 = Some np" using np by (simp add: m_def)
  then have dec: "aes_cbc_nist_decrypt (snd (aes_cbc_set_iv d1 iv)) ct m = Some (err_status_ok, d1\<lparr>cbc_state := iv, cbc_previous := iv\<rparr>, padded, n)"
    using np len assms(3) k(3) inv int
    by (simp add: aes_cbc_nist_decrypt_def aes_cbc_decrypt_def aes_cbc_set_iv_def Let_def) (simp add: m_def)
  have "take n padded = take n data" using len(2) by (simp add: padded_def)
  then show ?thesis using False enc dec by (auto simp: m_def np_def)
qed

theorem aes_cbc_nist_round_trip_witness:
  "\<exists>c1 d1 c2 ct d2 pt. aes_cbc_context_init \<lparr>cbc_state = [], cbc_previous = [], cbc_expanded_key = []\<rparr> (replicate 16 3) direction_encrypt
       = Some (err_status_ok, c1)
    \<and> aes_cbc_context_init \<lparr>cbc_state = [], cbc_previous = [], cbc_expanded_key = []\<rparr> (replicate 16 3) direction_decrypt
       = Some (err_status_ok, d1)
    \<and> aes_cbc_nist_encrypt (snd (aes_cbc_set_iv c1 (replicate 16 9))) (replicate 40 5) 20 = Some (err_status_ok, c2, ct, 32)
    \<and> aes_cbc_nist_decrypt (snd (aes_cbc_set_iv d1 (replicate 16 9))) ct 32 = Some (err_status_ok, d2, pt, 20)
    \<and> take 20 pt = replicate 20 5"
proof -
  let ?z = "\<lparr>cbc_state = [], cbc_previous = [], cbc_expanded_key = []\<rparr>"
  obtain c1 d1 where i: "aes_cbc_context_init ?z (replicate 16 3) direction_encrypt = Some (err_status_ok, c1)"
    "aes_cbc_context_init ?z (replicate 16 3) direction_decrypt = Some (err_status_ok, d1)"
    by (simp add: aes_cbc_context_init_def)
  from aes_cbc_nist_round_trip[OF i, of "replicate 16 9" 20 "replicate 40 5"] show ?thesis
    unfolding i by simp
qed

end
