(* ===== verification/Srtp_Cipher_Type.thy ===== *)
theory Srtp_Cipher_Type
  imports Srtp_Cipher
begin

text \<open>
  The generic cipher layer of libSRTP, \<open>crypto/cipher/cipher.c\<close> and \<open>crypto/include/cipher.h\<close>: allocation with
  reference counts, dispatch to the null cipher and the two AES modes, and the self test with its known-answer and
  random invertibility parts.

  The parameter \<open>mem\<close> says whether an allocation succeeds, \<open>junk\<close> what the allocated state holds. The random
  source, the C library's \<open>rand\<close> included, is the function that gives the values of each trial.
\<close>

section \<open>Data\<close>

datatype cipher_kind = null_cipher_kind | aes_icm_kind | aes_cbc_kind

datatype cipher_state = Null_cipher_state | Aes_icm_state aes_icm_ctx | Aes_cbc_state aes_cbc_ctx

record cipher =
  cipher_st :: cipher_state
  cipher_key_len :: nat

record cipher_types =
  null_cipher_ref_count :: int
  aes_icm_ref_count :: int
  aes_cbc_ref_count :: int

definition kind_of :: "cipher_state \<Rightarrow> cipher_kind" where
  "kind_of st = (case st of Null_cipher_state \<Rightarrow> null_cipher_kind | Aes_icm_state _ \<Rightarrow> aes_icm_kind | Aes_cbc_state _ \<Rightarrow> aes_cbc_kind)"

record cipher_junk =
  junk_icm :: aes_icm_ctx
  junk_cbc :: aes_cbc_ctx

text \<open>\<open>tc_key\<close> is the memory at the key pointer, of which \<open>tc_key_len\<close> octets are the key.\<close>

record cipher_test_case =
  tc_key_len :: nat
  tc_key :: "u8 list"
  tc_idx :: block
  tc_plaintext :: "u8 list"
  tc_ciphertext :: "u8 list"

section \<open>Allocation\<close>

definition null_cipher_alloc :: "bool \<Rightarrow> cipher_types \<Rightarrow> nat \<Rightarrow> (err_status + cipher) \<times> cipher_types" where
  "null_cipher_alloc mem ts key_len =
    (if \<not> mem then (Inl err_status_alloc_fail, ts)
     else (Inr \<lparr>cipher_st = Null_cipher_state, cipher_key_len = key_len\<rparr>,
           ts\<lparr>null_cipher_ref_count := null_cipher_ref_count ts + 1\<rparr>))"

definition null_cipher_dealloc :: "cipher_types \<Rightarrow> err_status \<times> cipher_types" where
  "null_cipher_dealloc ts = (err_status_ok, ts\<lparr>null_cipher_ref_count := null_cipher_ref_count ts - 1\<rparr>)"

definition aes_icm_alloc_ismacryp ::
    "bool \<Rightarrow> aes_icm_ctx \<Rightarrow> cipher_types \<Rightarrow> nat \<Rightarrow> bool \<Rightarrow> (err_status + cipher) \<times> cipher_types" where
  "aes_icm_alloc_ismacryp mem junk ts key_len forIsmacryp =
    (if \<not> forIsmacryp \<and> key_len \<noteq> 30 then (Inl err_status_bad_param, ts)
     else if \<not> mem then (Inl err_status_alloc_fail, ts)
     else (Inr \<lparr>cipher_st = Aes_icm_state junk, cipher_key_len = key_len\<rparr>,
           ts\<lparr>aes_icm_ref_count := aes_icm_ref_count ts + 1\<rparr>))"

definition aes_icm_alloc :: "bool \<Rightarrow> aes_icm_ctx \<Rightarrow> cipher_types \<Rightarrow> nat \<Rightarrow> (err_status + cipher) \<times> cipher_types" where
  "aes_icm_alloc mem junk ts key_len = aes_icm_alloc_ismacryp mem junk ts key_len False"

definition aes_icm_dealloc :: "cipher_types \<Rightarrow> err_status \<times> cipher_types" where
  "aes_icm_dealloc ts = (err_status_ok, ts\<lparr>aes_icm_ref_count := aes_icm_ref_count ts - 1\<rparr>)"

definition aes_cbc_alloc :: "bool \<Rightarrow> aes_cbc_ctx \<Rightarrow> cipher_types \<Rightarrow> nat \<Rightarrow> (err_status + cipher) \<times> cipher_types" where
  "aes_cbc_alloc mem junk ts key_len =
    (if key_len \<noteq> 16 then (Inl err_status_bad_param, ts)
     else if \<not> mem then (Inl err_status_alloc_fail, ts)
     else (Inr \<lparr>cipher_st = Aes_cbc_state junk, cipher_key_len = key_len\<rparr>,
           ts\<lparr>aes_cbc_ref_count := aes_cbc_ref_count ts + 1\<rparr>))"

definition aes_cbc_dealloc :: "cipher_types \<Rightarrow> err_status \<times> cipher_types" where
  "aes_cbc_dealloc ts = (err_status_ok, ts\<lparr>aes_cbc_ref_count := aes_cbc_ref_count ts - 1\<rparr>)"

section \<open>Dispatch\<close>

definition cipher_type_alloc ::
    "cipher_kind \<Rightarrow> bool \<Rightarrow> cipher_junk \<Rightarrow> cipher_types \<Rightarrow> nat \<Rightarrow> (err_status + cipher) \<times> cipher_types" where
  "cipher_type_alloc ct mem junk ts klen =
    (case ct of null_cipher_kind \<Rightarrow> null_cipher_alloc mem ts klen
     | aes_icm_kind \<Rightarrow> aes_icm_alloc mem (junk_icm junk) ts klen
     | aes_cbc_kind \<Rightarrow> aes_cbc_alloc mem (junk_cbc junk) ts klen)"

definition cipher_dealloc :: "cipher \<Rightarrow> cipher_types \<Rightarrow> err_status \<times> cipher_types" where
  "cipher_dealloc c ts =
    (case kind_of (cipher_st c) of null_cipher_kind \<Rightarrow> null_cipher_dealloc ts
     | aes_icm_kind \<Rightarrow> aes_icm_dealloc ts | aes_cbc_kind \<Rightarrow> aes_cbc_dealloc ts)"

definition null_cipher_init :: "u8 list \<Rightarrow> err_status" where
  "null_cipher_init key = err_status_ok"

definition null_cipher_set_iv :: "block \<Rightarrow> err_status" where
  "null_cipher_set_iv iv = err_status_ok"

definition null_cipher_encrypt :: "u8 list \<Rightarrow> nat \<Rightarrow> err_status \<times> u8 list \<times> nat" where
  "null_cipher_encrypt buf n = (err_status_ok, buf, n)"

definition cipher_init :: "cipher \<Rightarrow> u8 list \<Rightarrow> cipher_direction \<Rightarrow> (err_status \<times> cipher) option" where
  "cipher_init c k dir =
    (case cipher_st c of
       Null_cipher_state \<Rightarrow> Some (null_cipher_init k, c)
     | Aes_icm_state s \<Rightarrow> map_option (\<lambda>(st, s). (st, c\<lparr>cipher_st := Aes_icm_state s\<rparr>)) (aes_icm_context_init s k)
     | Aes_cbc_state s \<Rightarrow> map_option (\<lambda>(st, s). (st, c\<lparr>cipher_st := Aes_cbc_state s\<rparr>)) (aes_cbc_context_init s k dir))"

definition cipher_set_iv :: "cipher \<Rightarrow> block \<Rightarrow> err_status \<times> cipher" where
  "cipher_set_iv c n =
    (case cipher_st c of
       Null_cipher_state \<Rightarrow> (null_cipher_set_iv n, c)
     | Aes_icm_state s \<Rightarrow> (let (st, s) = aes_icm_set_iv s n in (st, c\<lparr>cipher_st := Aes_icm_state s\<rparr>))
     | Aes_cbc_state s \<Rightarrow> (let (st, s) = aes_cbc_set_iv s n in (st, c\<lparr>cipher_st := Aes_cbc_state s\<rparr>)))"

text \<open>Counter mode on the first \<open>n\<close> octets of a buffer. The test for the end of the keystream comes before any access to
  the buffer; its sum is an \<open>unsigned int\<close>.\<close>

definition icm_on_buffer :: "aes_icm_ctx \<Rightarrow> u8 list \<Rightarrow> nat \<Rightarrow> (err_status \<times> aes_icm_ctx \<times> u8 list) option" where
  "icm_on_buffer s buf n =
    (if length buf < n
     then (if (n + unat (htons (of_le16 (drop 14 (icm_counter s))))) mod 2 ^ 32 > 0xffff then Some (err_status_terminus, s, buf)
           else None)
     else let (st, s, out) = aes_icm_encrypt s (take n buf) in Some (st, s, out @ drop n buf))"

definition cipher_encrypt :: "cipher \<Rightarrow> u8 list \<Rightarrow> nat \<Rightarrow> (err_status \<times> cipher \<times> u8 list \<times> nat) option" where
  "cipher_encrypt c buf n =
    (case cipher_st c of
       Null_cipher_state \<Rightarrow> (let (st, buf, n) = null_cipher_encrypt buf n in Some (st, c, buf, n))
     | Aes_icm_state s \<Rightarrow> map_option (\<lambda>(st, s, buf). (st, c\<lparr>cipher_st := Aes_icm_state s\<rparr>, buf, n)) (icm_on_buffer s buf n)
     | Aes_cbc_state s \<Rightarrow> map_option (\<lambda>(st, s, buf, n). (st, c\<lparr>cipher_st := Aes_cbc_state s\<rparr>, buf, n)) (aes_cbc_nist_encrypt s buf n))"

definition cipher_decrypt :: "cipher \<Rightarrow> u8 list \<Rightarrow> nat \<Rightarrow> (err_status \<times> cipher \<times> u8 list \<times> nat) option" where
  "cipher_decrypt c buf n =
    (case cipher_st c of
       Null_cipher_state \<Rightarrow> (let (st, buf, n) = null_cipher_encrypt buf n in Some (st, c, buf, n))
     | Aes_icm_state s \<Rightarrow> map_option (\<lambda>(st, s, buf). (st, c\<lparr>cipher_st := Aes_icm_state s\<rparr>, buf, n)) (icm_on_buffer s buf n)
     | Aes_cbc_state s \<Rightarrow> map_option (\<lambda>(st, s, buf, n). (st, c\<lparr>cipher_st := Aes_cbc_state s\<rparr>, buf, n)) (aes_cbc_nist_decrypt s buf n))"

definition cipher_output :: "cipher \<Rightarrow> u8 list \<Rightarrow> nat \<Rightarrow> (err_status \<times> cipher \<times> u8 list \<times> nat) option" where
  "cipher_output c buffer n = do {
     buffer \<leftarrow> octet_string_set_to_zero buffer n;
     cipher_encrypt c buffer n }"

definition cipher_get_key_length :: "cipher \<Rightarrow> nat" where
  "cipher_get_key_length c = cipher_key_len c"

section \<open>The self test\<close>

text \<open>One known-answer test in a given direction. It either leaves the self test with a status, or goes on with the
  cipher and the buffer. When the length of the result differs, the cipher is not released.\<close>

definition known_answer ::
    "cipher_direction \<Rightarrow> cipher_test_case \<Rightarrow> cipher \<Rightarrow> cipher_types \<Rightarrow> u8 list \<Rightarrow>
     ((err_status \<times> cipher_types) + (cipher \<times> u8 list)) option" where
  "known_answer dir tc c ts buffer = do {
     let (input, expected) = (if dir = direction_encrypt then (tc_plaintext tc, tc_ciphertext tc)
                              else (tc_ciphertext tc, tc_plaintext tc));
     (status, c) \<leftarrow> cipher_init c (tc_key tc) dir;
     if status \<noteq> err_status_ok then Some (Inl (status, snd (cipher_dealloc c ts)))
     else if length (tc_ciphertext tc) > 128 then Some (Inl (err_status_bad_param, snd (cipher_dealloc c ts)))
     else do {
       buffer \<leftarrow> poke buffer 0 input;
       let (status, c) = cipher_set_iv c (tc_idx tc);
       if status \<noteq> err_status_ok then Some (Inl (status, snd (cipher_dealloc c ts)))
       else do {
         (status, c, buffer, len) \<leftarrow>
           (if dir = direction_encrypt then cipher_encrypt c buffer (length input) else cipher_decrypt c buffer (length input));
         if status \<noteq> err_status_ok then Some (Inl (status, snd (cipher_dealloc c ts)))
         else if len \<noteq> length expected then Some (Inl (err_status_algo_fail, ts))
         else if take (length expected) buffer \<noteq> expected
         then Some (Inl (err_status_algo_fail, snd (cipher_dealloc c ts)))
         else Some (Inr (c, buffer)) }}}"

text \<open>The loop over the test cases.\<close>

fun known_answer_loop ::
    "cipher_kind \<Rightarrow> (nat \<Rightarrow> bool) \<Rightarrow> (nat \<Rightarrow> cipher_junk) \<Rightarrow> cipher_test_case list \<Rightarrow> nat \<Rightarrow> cipher_types \<Rightarrow> u8 list \<Rightarrow>
     (err_status \<times> cipher_types \<times> u8 list) option" where
  "known_answer_loop ct mem junk [] n ts buffer = Some (err_status_ok, ts, buffer)"
| "known_answer_loop ct mem junk (tc # rest) n ts buffer =
    (case cipher_type_alloc ct (mem n) (junk n) ts (tc_key_len tc) of
       (Inl status, ts) \<Rightarrow> Some (status, ts, buffer)
     | (Inr c, ts) \<Rightarrow> do {
         r \<leftarrow> known_answer direction_encrypt tc c ts buffer;
         case r of Inl (status, ts) \<Rightarrow> Some (status, ts, buffer)
         | Inr (c, buffer) \<Rightarrow> do {
             r \<leftarrow> known_answer direction_decrypt tc c ts buffer;
             case r of Inl (status, ts) \<Rightarrow> Some (status, ts, buffer)
             | Inr (c, buffer) \<Rightarrow>
                 (let (status, ts) = cipher_dealloc c ts in
                  if status \<noteq> err_status_ok then Some (status, ts, buffer)
                  else known_answer_loop ct mem junk rest (Suc n) ts buffer) }})"

text \<open>The values that the random source gives in one trial: the value of \<open>rand()\<close>, and the octets or the error of each of
  the three requests (plaintext, key, initialization vector).\<close>

record rand_trial =
  rt_rand :: nat
  rt_data :: "nat \<Rightarrow> err_status + u8 list"
  rt_key :: "nat \<Rightarrow> err_status + u8 list"
  rt_iv :: "nat \<Rightarrow> err_status + u8 list"

text \<open>One trial: \<open>Inl\<close> leaves the self test. \<open>kbuf\<close> is the local array of 64 octets that holds the key.\<close>

definition random_trial ::
    "rand_trial \<Rightarrow> u8 list \<Rightarrow> cipher_test_case \<Rightarrow> cipher \<Rightarrow> cipher_types \<Rightarrow> u8 list \<Rightarrow>
     ((err_status \<times> cipher_types) + (cipher \<times> u8 list)) option" where
  "random_trial rt kbuf tc c ts buffer =
    (let len = rt_rand rt mod 64 in
     case rt_data rt len of Inl status \<Rightarrow> Some (Inl (status, ts))
     | Inr data \<Rightarrow> do {
       buffer \<leftarrow> poke buffer 0 data;
       let buffer2 = take len buffer;
       if tc_key_len tc > 64 then Some (Inl (err_status_cant_check, ts))
       else case rt_key rt (tc_key_len tc) of Inl status \<Rightarrow> Some (Inl (status, ts))
       | Inr key \<Rightarrow> do {
         key \<leftarrow> poke kbuf 0 key;
         case rt_iv rt 64 of Inl status \<Rightarrow> Some (Inl (status, ts))
         | Inr _ \<Rightarrow> do {
           (status, c) \<leftarrow> cipher_init c key direction_encrypt;
           if status \<noteq> err_status_ok then Some (Inl (status, snd (cipher_dealloc c ts)))
           else do {
           let (status, c) = cipher_set_iv c (tc_idx tc);
           if status \<noteq> err_status_ok then Some (Inl (status, snd (cipher_dealloc c ts)))
           else do {
           (status, c, buffer, n) \<leftarrow> cipher_encrypt c buffer len;
           if status \<noteq> err_status_ok then Some (Inl (status, snd (cipher_dealloc c ts)))
           else do {
           (status, c) \<leftarrow> cipher_init c key direction_decrypt;
           if status \<noteq> err_status_ok then Some (Inl (status, snd (cipher_dealloc c ts)))
           else do {
           let (status, c) = cipher_set_iv c (tc_idx tc);
           if status \<noteq> err_status_ok then Some (Inl (status, snd (cipher_dealloc c ts)))
           else do {
           (status, c, buffer, n) \<leftarrow> cipher_decrypt c buffer n;
           if status \<noteq> err_status_ok then Some (Inl (status, snd (cipher_dealloc c ts)))
           else if n \<noteq> len then Some (Inl (err_status_algo_fail, ts))
           else if take len buffer \<noteq> buffer2 then Some (Inl (err_status_algo_fail, snd (cipher_dealloc c ts)))
           else Some (Inr (c, buffer)) }}}}}}}})"

fun random_trials ::
    "nat \<Rightarrow> (nat \<Rightarrow> rand_trial) \<Rightarrow> u8 list \<Rightarrow> cipher_test_case \<Rightarrow> cipher \<Rightarrow> cipher_types \<Rightarrow> u8 list \<Rightarrow>
     (err_status \<times> cipher_types) option" where
  "random_trials 0 rts kbuf tc c ts buffer = Some (err_status_ok, ts)"
| "random_trials (Suc n) rts kbuf tc c ts buffer = do {
     r \<leftarrow> random_trial (rts n) kbuf tc c ts buffer;
     case r of Inl (status, ts) \<Rightarrow> Some (status, ts)
     | Inr (c, buffer) \<Rightarrow> random_trials n rts kbuf tc c ts buffer }"

text \<open>The whole self test; the allocation for the random trials is the one numbered after the test cases. \<open>buffer\<close> and
  \<open>kbuf\<close> are the local arrays, of 128 and 64 octets.\<close>

definition cipher_type_self_test ::
    "cipher_kind \<Rightarrow> (nat \<Rightarrow> bool) \<Rightarrow> (nat \<Rightarrow> cipher_junk) \<Rightarrow> (nat \<Rightarrow> rand_trial) \<Rightarrow> cipher_test_case list \<Rightarrow> cipher_types \<Rightarrow>
     u8 list \<Rightarrow> u8 list \<Rightarrow> (err_status \<times> cipher_types) option" where
  "cipher_type_self_test ct mem junk rts tests ts buffer kbuf =
    (if tests = [] then Some (err_status_cant_check, ts)
     else do {
       (status, ts, buffer) \<leftarrow> known_answer_loop ct mem junk tests 0 ts buffer;
       if status \<noteq> err_status_ok then Some (status, ts)
       else case cipher_type_alloc ct (mem (length tests)) (junk (length tests)) ts (tc_key_len (hd tests)) of
         (Inl status, ts) \<Rightarrow> Some (status, ts)
       | (Inr c, ts) \<Rightarrow> random_trials 128 rts kbuf (hd tests) c ts buffer })"

definition null_cipher_test_0 :: cipher_test_case where
  "null_cipher_test_0 = \<lparr>tc_key_len = 0, tc_key = [], tc_idx = [], tc_plaintext = [], tc_ciphertext = []\<rparr>"

section \<open>Reference counts\<close>

definition count_up :: "cipher_kind \<Rightarrow> cipher_types \<Rightarrow> cipher_types" where
  "count_up ct ts =
    (case ct of null_cipher_kind \<Rightarrow> ts\<lparr>null_cipher_ref_count := null_cipher_ref_count ts + 1\<rparr>
     | aes_icm_kind \<Rightarrow> ts\<lparr>aes_icm_ref_count := aes_icm_ref_count ts + 1\<rparr>
     | aes_cbc_kind \<Rightarrow> ts\<lparr>aes_cbc_ref_count := aes_cbc_ref_count ts + 1\<rparr>)"

lemma cipher_alloc_ok:
  assumes "cipher_type_alloc ct mem j ts n = (Inr c, ts')"
  shows "ts' = count_up ct ts" "kind_of (cipher_st c) = ct"
  using assms by (cases ct; auto simp: cipher_type_alloc_def null_cipher_alloc_def aes_icm_alloc_def aes_icm_alloc_ismacryp_def
      aes_cbc_alloc_def count_up_def kind_of_def Let_def split: if_splits)+

lemma cipher_alloc_fails: "cipher_type_alloc ct mem j ts n = (Inl st, ts') \<Longrightarrow> st \<noteq> err_status_ok"
  by (cases ct) (auto simp: cipher_type_alloc_def null_cipher_alloc_def aes_icm_alloc_def aes_icm_alloc_ismacryp_def
      aes_cbc_alloc_def split: if_splits)

lemma dealloc_count_up:
  "kind_of (cipher_st c) = ct \<Longrightarrow> cipher_dealloc c (count_up ct ts) = (err_status_ok, ts)"
  by (cases ct) (simp_all add: cipher_dealloc_def count_up_def null_cipher_dealloc_def aes_icm_dealloc_def aes_cbc_dealloc_def)

text \<open>No operation changes the type of a cipher.\<close>

lemma kind_kept:
  "cipher_init c k d = Some (st, c') \<Longrightarrow> kind_of (cipher_st c') = kind_of (cipher_st c)"
  "cipher_set_iv c iv = (st, c') \<Longrightarrow> kind_of (cipher_st c') = kind_of (cipher_st c)"
  "cipher_encrypt c buf n = Some (st, c', buf', n') \<Longrightarrow> kind_of (cipher_st c') = kind_of (cipher_st c)"
  "cipher_decrypt c buf n = Some (st, c', buf', n') \<Longrightarrow> kind_of (cipher_st c') = kind_of (cipher_st c)"
  by (auto simp: cipher_init_def cipher_set_iv_def cipher_encrypt_def cipher_decrypt_def null_cipher_encrypt_def Let_def
      kind_of_def split: cipher_state.splits prod.splits)

text \<open>A known-answer test leaves the self test only with an error.\<close>

lemma known_answer_Inl:
  "known_answer dir tc c ts buffer = Some (Inl (status, ts')) \<Longrightarrow> status \<noteq> err_status_ok"
  unfolding known_answer_def Let_def by (auto split: bind_splits prod.splits if_splits)

lemma known_answer_Inr:
  "known_answer dir tc c ts buffer = Some (Inr (c', buffer')) \<Longrightarrow> kind_of (cipher_st c') = kind_of (cipher_st c)"
  unfolding known_answer_def Let_def
  by (auto split: bind_splits prod.splits if_splits dest!: kind_kept)

lemma known_answer_loop_balanced:
  "known_answer_loop ct mem j tests n ts buffer = Some (err_status_ok, ts', buffer') \<Longrightarrow> ts' = ts"
proof (induction tests arbitrary: n ts buffer)
  case (Cons tc rest)
  obtain x ts1 where a: "cipher_type_alloc ct (mem n) (j n) ts (tc_key_len tc) = (x, ts1)" by force
  have "\<exists>c. x = Inr c" using Cons.prems a cipher_alloc_fails[of ct "mem n" "j n" ts "tc_key_len tc"] by (cases x) auto
  then obtain c where c: "x = Inr c" by blast
  note al = cipher_alloc_ok[OF a[unfolded c]]
  obtain c1 b1 where k1: "known_answer direction_encrypt tc c ts1 buffer = Some (Inr (c1, b1))"
    using Cons.prems a c by (auto split: bind_splits sum.splits dest: known_answer_Inl)
  obtain c2 b2 where k2: "known_answer direction_decrypt tc c1 ts1 b1 = Some (Inr (c2, b2))"
    using Cons.prems a c k1 by (auto split: bind_splits sum.splits dest: known_answer_Inl)
  have "kind_of (cipher_st c2) = ct" using known_answer_Inr[OF k1] known_answer_Inr[OF k2] al(2) by simp
  then have "cipher_dealloc c2 ts1 = (err_status_ok, ts)" using dealloc_count_up al(1) by simp
  then show ?case using Cons.prems Cons.IH a c k1 k2 by simp
qed simp

lemma random_trial_ok:
  "random_trial rt kbuf tc c ts buffer = Some (Inl (err_status_ok, ts')) \<Longrightarrow> ts' = ts"
  unfolding random_trial_def Let_def by (auto split: bind_splits prod.splits if_splits sum.splits)

lemma random_trials_ok:
  "random_trials n rts kbuf tc c ts buffer = Some (err_status_ok, ts') \<Longrightarrow> ts' = ts"
proof (induction n arbitrary: c buffer)
  case (Suc n)
  then show ?case by (auto split: bind_splits sum.splits dest: random_trial_ok)
qed simp

text \<open>A successful cipher self test leaks the cipher of its random part: known-answer tests release every cipher
  they allocate, but at the end the reference count of the tested type has grown by one.\<close>

theorem cipher_self_test_leaks:
  assumes "cipher_type_self_test ct mem junk rts tests ts buffer kbuf = Some (err_status_ok, ts')"
  shows "ts' = count_up ct ts"
proof -
  have ne: "tests \<noteq> []" using assms by (auto simp: cipher_type_self_test_def)
  obtain ts1 b1 where l: "known_answer_loop ct mem junk tests 0 ts buffer = Some (err_status_ok, ts1, b1)"
    using assms ne by (auto simp: cipher_type_self_test_def split: bind_splits if_splits)
  have ts1: "ts1 = ts" by (rule known_answer_loop_balanced[OF l])
  obtain x ts2 where a: "cipher_type_alloc ct (mem (length tests)) (junk (length tests)) ts (tc_key_len (hd tests)) = (x, ts2)"
    by force
  show ?thesis
  proof (cases x)
    case (Inl st)
    then show ?thesis using assms ne l ts1 a cipher_alloc_fails[OF a[unfolded Inl]] by (simp add: cipher_type_self_test_def)
  next
    case (Inr c)
    then have "random_trials 128 rts kbuf (hd tests) c ts2 b1 = Some (err_status_ok, ts')"
      using assms ne l ts1 a by (simp add: cipher_type_self_test_def)
    then show ?thesis using random_trials_ok cipher_alloc_ok(1)[OF a[unfolded Inr]] by simp
  qed
qed

definition quiet_trial :: rand_trial where
  "quiet_trial = \<lparr>rt_rand = 0, rt_data = (\<lambda>_. Inr []), rt_key = (\<lambda>_. Inr []), rt_iv = (\<lambda>_. Inr [])\<rparr>"

lemma quiet_trials_null:
  "kind_of (cipher_st c) = null_cipher_kind \<Longrightarrow>
     random_trials n (\<lambda>_. quiet_trial) kbuf null_cipher_test_0 c ts buffer = Some (err_status_ok, ts)"
proof (induction n)
  case (Suc n)
  have n: "cipher_st c = Null_cipher_state" using Suc.prems by (simp add: kind_of_def split: cipher_state.splits)
  have "random_trial quiet_trial kbuf null_cipher_test_0 c ts buffer = Some (Inr (c, buffer))"
    by (simp add: random_trial_def quiet_trial_def null_cipher_test_0_def poke_def cipher_init_def cipher_set_iv_def
        cipher_encrypt_def cipher_decrypt_def n null_cipher_init_def null_cipher_set_iv_def null_cipher_encrypt_def)
  then show ?case using Suc by simp
qed simp

theorem cipher_self_test_leaks_witness:
  "\<forall>junk. cipher_type_self_test null_cipher_kind (\<lambda>_. True) junk (\<lambda>_. quiet_trial) [null_cipher_test_0]
      \<lparr>null_cipher_ref_count = 0, aes_icm_ref_count = 0, aes_cbc_ref_count = 0\<rparr> (replicate 128 0) (replicate 64 0)
    = Some (err_status_ok, \<lparr>null_cipher_ref_count = 1, aes_icm_ref_count = 0, aes_cbc_ref_count = 0\<rparr>)"
proof
  fix junk
  let ?ts = "\<lparr>null_cipher_ref_count = 0, aes_icm_ref_count = 0, aes_cbc_ref_count = 0\<rparr>"
  let ?c = "\<lparr>cipher_st = Null_cipher_state, cipher_key_len = 0\<rparr>"
  have a: "cipher_type_alloc null_cipher_kind True j ts 0 = (Inr ?c, count_up null_cipher_kind ts)" for j ts
    by (simp add: cipher_type_alloc_def null_cipher_alloc_def count_up_def)
  have k: "known_answer d null_cipher_test_0 ?c ts buf = Some (Inr (?c, buf))" for d ts buf
    by (cases d) (simp_all add: known_answer_def null_cipher_test_0_def poke_def cipher_init_def cipher_set_iv_def
        cipher_encrypt_def cipher_decrypt_def null_cipher_init_def null_cipher_set_iv_def null_cipher_encrypt_def)
  have d: "cipher_dealloc ?c (count_up null_cipher_kind ?ts) = (err_status_ok, ?ts)"
    by (rule dealloc_count_up) (simp add: kind_of_def)
  have l: "tc_key_len null_cipher_test_0 = 0" by (simp add: null_cipher_test_0_def)
  have "cipher_type_self_test null_cipher_kind (\<lambda>_. True) junk (\<lambda>_. quiet_trial) [null_cipher_test_0] ?ts
      (replicate 128 0) (replicate 64 0) = Some (err_status_ok, count_up null_cipher_kind ?ts)"
    using quiet_trials_null[of ?c] by (simp add: cipher_type_self_test_def a k d l kind_of_def del: random_trials.simps)
  from cipher_self_test_leaks[OF this] this
  show "cipher_type_self_test null_cipher_kind (\<lambda>_. True) junk (\<lambda>_. quiet_trial) [null_cipher_test_0] ?ts
      (replicate 128 0) (replicate 64 0) = Some (err_status_ok, \<lparr>null_cipher_ref_count = 1, aes_icm_ref_count = 0, aes_cbc_ref_count = 0\<rparr>)"
    by (simp add: count_up_def)
qed

end
