(* ===== verification/Srtp_Sha1.thy ===== *)
theory Srtp_Sha1
  imports Srtp_Err
begin

text \<open>
  The SHA-1 implementation of libSRTP (\<open>crypto/hash/sha1.c\<close>) and its equivalence with the
  definition of FIPS 180: the padded message is cut into blocks that are compressed one by
  one.

  The message buffer \<open>M\<close> of the context, which the source reads both as sixteen words and as
  sixty-four octets, is the list of its octets. The rounds and the message schedule, which the
  source writes out in \<open>sha1_core\<close> and twice in \<open>sha1_final\<close>, are definitions of their own.
  Array elements exist in the model only once they are written.
\<close>

section \<open>The implementation\<close>

definition S1 :: "u32 \<Rightarrow> u32" where "S1 X = push_bit 1 X OR drop_bit 31 X"
definition S5 :: "u32 \<Rightarrow> u32" where "S5 X = push_bit 5 X OR drop_bit 27 X"
definition S30 :: "u32 \<Rightarrow> u32" where "S30 X = push_bit 30 X OR drop_bit 2 X"

definition f0 :: "u32 \<Rightarrow> u32 \<Rightarrow> u32 \<Rightarrow> u32" where "f0 B C D = (B AND C) OR (NOT B AND D)"
definition f1 :: "u32 \<Rightarrow> u32 \<Rightarrow> u32 \<Rightarrow> u32" where "f1 B C D = (B XOR C) XOR D"
definition f2 :: "u32 \<Rightarrow> u32 \<Rightarrow> u32 \<Rightarrow> u32" where "f2 B C D = ((B AND C) OR (B AND D)) OR (C AND D)"
definition f3 :: "u32 \<Rightarrow> u32 \<Rightarrow> u32 \<Rightarrow> u32" where "f3 B C D = (B XOR C) XOR D"

definition SHA_K0 :: u32 where "SHA_K0 = 0x5A827999"
definition SHA_K1 :: u32 where "SHA_K1 = 0x6ED9EBA1"
definition SHA_K2 :: u32 where "SHA_K2 = 0x8F1BBCDC"
definition SHA_K3 :: u32 where "SHA_K3 = 0xCA62C1D6"

record sha1_ctx =
  sc_H :: "u32 list"
  sc_M :: "u8 list"
  octets_in_buffer :: nat
  num_bits_in_msg :: u32

type_synonym sha1_vars = "u32 \<times> u32 \<times> u32 \<times> u32 \<times> u32"

text \<open>\<open>be32_to_cpu(M[i])\<close> of the message buffer.\<close>

definition be_word :: "u8 list \<Rightarrow> nat \<Rightarrow> u32" where
  "be_word M i = htonl (of_le32 (drop (4 * i) M))"

text \<open>The message schedule \<open>W[16]\<close> to \<open>W[79]\<close>.\<close>

definition sha1_schedule :: "u32 list \<Rightarrow> u32 list" where
  "sha1_schedule W = fold (\<lambda>t W. W @ [S1 (((W ! (t - 3) XOR W ! (t - 8)) XOR W ! (t - 14)) XOR W ! (t - 16))]) [16..<80] W"

definition sha1_round :: "(u32 \<Rightarrow> u32 \<Rightarrow> u32 \<Rightarrow> u32) \<Rightarrow> u32 \<Rightarrow> u32 list \<Rightarrow> nat \<Rightarrow> sha1_vars \<Rightarrow> sha1_vars" where
  "sha1_round f K W t = (\<lambda>(A, B, C, D, E).
     let TEMP = S5 A + f B C D + E + W ! t + K in (TEMP, A, S30 B, C, D))"

definition sha1_rounds :: "u32 list \<Rightarrow> u32 list \<Rightarrow> u32 list" where
  "sha1_rounds W H =
    (let (A, B, C, D, E) =
       fold (sha1_round f3 SHA_K3 W) [60..<80]
        (fold (sha1_round f2 SHA_K2 W) [40..<60]
         (fold (sha1_round f1 SHA_K1 W) [20..<40]
          (fold (sha1_round f0 SHA_K0 W) [0..<20] (H ! 0, H ! 1, H ! 2, H ! 3, H ! 4))))
     in [H ! 0 + A, H ! 1 + B, H ! 2 + C, H ! 3 + D, H ! 4 + E])"

definition sha1_core :: "u8 list \<Rightarrow> u32 list \<Rightarrow> u32 list" where
  "sha1_core M hash_value = sha1_rounds (sha1_schedule (map (be_word M) [0..<16])) hash_value"

definition sha1_init :: "sha1_ctx \<Rightarrow> sha1_ctx" where
  "sha1_init ctx = ctx\<lparr>sc_H := [0x67452301, 0xefcdab89, 0x98badcfe, 0x10325476, 0xc3d2e1f0],
     octets_in_buffer := 0, num_bits_in_msg := 0\<rparr>"

text \<open>The loop of \<open>sha1_update\<close>; \<open>msg\<close> is what is left of the message.\<close>

function sha1_update_loop :: "sha1_ctx \<Rightarrow> u8 list \<Rightarrow> sha1_ctx" where
  "sha1_update_loop ctx msg =
    (if msg = [] then ctx
     else if length msg + octets_in_buffer ctx \<ge> 64 then
       let n = 64 - octets_in_buffer ctx;
           M = take (octets_in_buffer ctx) (sc_M ctx) @ take n msg
       in sha1_update_loop (ctx\<lparr>sc_M := M, octets_in_buffer := 0, sc_H := sha1_core M (sc_H ctx)\<rparr>) (drop n msg)
     else
       ctx\<lparr>sc_M := take (octets_in_buffer ctx) (sc_M ctx) @ msg
             @ drop (octets_in_buffer ctx + length msg) (sc_M ctx),
           octets_in_buffer := octets_in_buffer ctx + length msg\<rparr>)"
  by pat_completeness auto

termination
proof (relation "measure (\<lambda>(ctx, msg). length msg + octets_in_buffer ctx div 64)", goal_cases)
  case (2 ctx msg n M)
  then show ?case by (cases "octets_in_buffer ctx < 64") auto
qed simp

text \<open>\<open>octets_in_msg * 8\<close> is a product of type \<open>int\<close>, which overflows for a piece of \<open>2 ^ 28\<close> octets or more; it wraps around here,
  as it does on a machine with two's complement.\<close>

definition sha1_update :: "sha1_ctx \<Rightarrow> u8 list \<Rightarrow> sha1_ctx" where
  "sha1_update ctx msg =
    sha1_update_loop (ctx\<lparr>num_bits_in_msg := num_bits_in_msg ctx + of_nat (length msg * 8)\<rparr>) msg"

text \<open>The first sixteen words that \<open>sha1_final\<close> builds from the buffered octets.\<close>

definition final_words :: "sha1_ctx \<Rightarrow> u32 list" where
  "final_words ctx =
    (let n = octets_in_buffer ctx; M = sc_M ctx; tail = n mod 4; i = (n + 3) div 4;
         W = map (be_word M) [0..<i];
         W = (if tail = 3 then W[i - 1 := (be_word M (i - 1) AND 0xffffff00) OR 0x80] @ [0]
              else if tail = 2 then W[i - 1 := (be_word M (i - 1) AND 0xffff0000) OR 0x8000] @ [0]
              else if tail = 1 then W[i - 1 := (be_word M (i - 1) AND 0xff000000) OR 0x800000] @ [0]
              else W @ [0x80000000]);
         W = W @ replicate (15 - (i + 1)) 0
     in if n < 56 then take 15 W @ [num_bits_in_msg ctx]
        else if n < 60 then take 15 W @ [0]
        else take 16 W)"

definition sha1_final :: "sha1_ctx \<Rightarrow> u32 list \<times> sha1_ctx" where
  "sha1_final ctx =
    (let H = sha1_rounds (sha1_schedule (final_words ctx)) (sc_H ctx);
         H = (if octets_in_buffer ctx \<ge> 56
              then sha1_rounds (sha1_schedule (replicate 15 0 @ [num_bits_in_msg ctx])) H else H)
     in (map htonl H, ctx\<lparr>sc_H := H, octets_in_buffer := 0\<rparr>))"

definition sha1 :: "sha1_ctx \<Rightarrow> u8 list \<Rightarrow> u32 list" where
  "sha1 ctx msg = fst (sha1_final (sha1_update (sha1_init ctx) msg))"

section \<open>The specification\<close>

definition sha_f :: "nat \<Rightarrow> u32 \<Rightarrow> u32 \<Rightarrow> u32 \<Rightarrow> u32" where
  "sha_f t B C D =
    (if t < 20 then (B AND C) XOR (NOT B AND D)
     else if t < 40 then B XOR C XOR D
     else if t < 60 then (B AND C) XOR (B AND D) XOR (C AND D)
     else B XOR C XOR D)"

definition sha_K :: "nat \<Rightarrow> u32" where
  "sha_K t = (if t < 20 then 0x5A827999 else if t < 40 then 0x6ED9EBA1
     else if t < 60 then 0x8F1BBCDC else 0xCA62C1D6)"

fun sha_W :: "u32 list \<Rightarrow> nat \<Rightarrow> u32" where
  "sha_W M t = (if t < 16 then M ! t
     else word_rotl 1 (sha_W M (t - 3) XOR sha_W M (t - 8) XOR sha_W M (t - 14) XOR sha_W M (t - 16)))"

declare sha_W.simps [simp del]

definition sha_step :: "u32 list \<Rightarrow> nat \<Rightarrow> sha1_vars \<Rightarrow> sha1_vars" where
  "sha_step M t = (\<lambda>(A, B, C, D, E).
     (word_rotl 5 A + sha_f t B C D + E + sha_K t + sha_W M t, A, word_rotl 30 B, C, D))"

definition sha_compress :: "u32 list \<Rightarrow> u32 list \<Rightarrow> u32 list" where
  "sha_compress M H =
    (let (A, B, C, D, E) = fold (sha_step M) [0..<80] (H ! 0, H ! 1, H ! 2, H ! 3, H ! 4)
     in [H ! 0 + A, H ! 1 + B, H ! 2 + C, H ! 3 + D, H ! 4 + E])"

definition be32 :: "u8 \<Rightarrow> u8 \<Rightarrow> u8 \<Rightarrow> u8 \<Rightarrow> u32" where
  "be32 a b c d = push_bit 24 (ucast a) OR push_bit 16 (ucast b) OR push_bit 8 (ucast c) OR ucast d"

fun be_words :: "u8 list \<Rightarrow> u32 list" where
  "be_words (a # b # c # d # r) = be32 a b c d # be_words r"
| "be_words _ = []"

function sha_blocks :: "u32 list \<Rightarrow> u8 list \<Rightarrow> u32 list" where
  "sha_blocks H bs = (if length bs < 64 then H
     else sha_blocks (sha_compress (be_words (take 64 bs)) H) (drop 64 bs))"
  by pat_completeness auto
termination by (relation "measure (length \<circ> snd)") auto

declare sha_blocks.simps [simp del]

definition sha_pad :: "u8 list \<Rightarrow> u8 list" where
  "sha_pad m = m @ [0x80] @ replicate ((119 - length m mod 64) mod 64) 0
     @ map (\<lambda>k. ucast (drop_bit (56 - 8 * k) (of_nat (8 * length m) :: u64))) [0..<8]"

definition sha_IV :: "u32 list" where
  "sha_IV = [0x67452301, 0xefcdab89, 0x98badcfe, 0x10325476, 0xc3d2e1f0]"

definition SHA1 :: "u8 list \<Rightarrow> u32 list" where
  "SHA1 m = sha_blocks sha_IV (sha_pad m)"

section \<open>Compression\<close>

lemma shift_or_rotl:
  fixes X :: u32
  assumes "0 < k" "k < 32" "j = 32 - k"
  shows "push_bit k X OR drop_bit j X = word_rotl k X"
proof (rule word_eqI_lt)
  fix n assume "n < LENGTH(32)"
  then have n: "n < 32" by simp
  show "bit (push_bit k X OR drop_bit j X) n = bit (word_rotl k X) n"
  proof (cases "n < k")
    case True
    then have "(n + (32 - k)) mod 32 = j + n" using assms by simp
    then show ?thesis using n True assms by (simp add: bit_simps bit_word_rotl_iff)
  next
    case False
    have "(n + (32 - k)) mod 32 = n - k" using n False assms by (simp add: mod_if)
    moreover have "\<not> bit X (j + n)" using n False assms by (auto dest: bit_imp_le_length)
    ultimately show ?thesis using n False assms by (simp add: bit_simps bit_word_rotl_iff)
  qed
qed

lemma S_rotl: "S1 X = word_rotl 1 X" "S5 X = word_rotl 5 X" "S30 X = word_rotl 30 X"
  unfolding S1_def S5_def S30_def by (rule shift_or_rotl; simp)+

lemma f_sha_f:
  "t < 20 \<Longrightarrow> f0 B C D = sha_f t B C D"
  "20 \<le> t \<Longrightarrow> t < 40 \<Longrightarrow> f1 B C D = sha_f t B C D"
  "40 \<le> t \<Longrightarrow> t < 60 \<Longrightarrow> f2 B C D = sha_f t B C D"
  "60 \<le> t \<Longrightarrow> f3 B C D = sha_f t B C D"
  by (rule word_eqI_lt, auto simp: f0_def f1_def f2_def f3_def sha_f_def bit_simps)+

lemma sha1_schedule_prefix:
  assumes "length W = 16" "16 \<le> n"
  defines "g \<equiv> \<lambda>t W. W @ [S1 (((W ! (t - 3) XOR W ! (t - 8)) XOR W ! (t - 14)) XOR W ! (t - 16))]"
  shows "length (fold g [16..<n] W) = n \<and> (\<forall>t < n. fold g [16..<n] W ! t = sha_W W t)"
  using assms(2)
proof (induction n rule: nat_induct_at_least)
  case base
  then show ?case using assms(1) by (simp add: sha_W.simps)
next
  case (Suc n)
  let ?V = "fold g [16..<n] W"
  have V: "fold g [16..<Suc n] W = g n ?V" using Suc.hyps by simp
  have "sha_W W n = S1 (((sha_W W (n - 3) XOR sha_W W (n - 8)) XOR sha_W W (n - 14)) XOR sha_W W (n - 16))"
    using Suc.hyps by (subst sha_W.simps) (simp add: S_rotl xor.assoc)
  then show ?case using Suc by (auto simp: V g_def nth_append less_Suc_eq)
qed

lemma sha1_schedule_nth:
  assumes "length W = 16" "t < 80"
  shows "sha1_schedule W ! t = sha_W W t"
proof -
  have "16 \<le> (80 :: nat)" by simp
  from sha1_schedule_prefix[OF assms(1) this] show ?thesis
    unfolding sha1_schedule_def using assms(2) by blast
qed

lemma sha1_round_step:
  assumes "length W = 16" "\<And>B C D. f B C D = sha_f t B C D" "K = sha_K t" "t < 80"
  shows "sha1_round f K (sha1_schedule W) t = sha_step W t"
  using assms by (auto simp: fun_eq_iff sha1_round_def sha_step_def S_rotl sha1_schedule_nth)

lemma fold_sha1_round:
  assumes "length W = 16" "b \<le> 80"
    and "\<And>t B C D. a \<le> t \<Longrightarrow> t < b \<Longrightarrow> f B C D = sha_f t B C D"
    and "\<And>t. a \<le> t \<Longrightarrow> t < b \<Longrightarrow> K = sha_K t"
  shows "fold (sha1_round f K (sha1_schedule W)) [a..<b] s = fold (sha_step W) [a..<b] s"
  by (rule fold_cong) (use assms sha1_round_step in auto)

lemma sha1_rounds_compress:
  assumes "length W = 16"
  shows "sha1_rounds (sha1_schedule W) H = sha_compress W H"
proof -
  have u1: "[0..<80] = [0..<20] @ [20..<80]" by (rule upt_split) simp_all
  have u2: "[20..<80] = [20..<40] @ [40..<80]" by (rule upt_split) simp_all
  have u3: "[40..<80] = [40..<60] @ [60..<80]" by (rule upt_split) simp_all
  have u: "[0..<80] = [0..<20] @ [20..<40] @ [40..<60] @ [60..<80]"
    by (simp only: u1 u2 u3)
  show ?thesis using assms
    by (simp add: sha1_rounds_def sha_compress_def u fold_sha1_round f_sha_f sha_K_def
        SHA_K0_def SHA_K1_def SHA_K2_def SHA_K3_def del: upt_rec_numeral)
qed

section \<open>Words of the buffer\<close>

lemma htonl_of_le32: "htonl (of_le32 [a, b, c, d]) = be32 a b c d"
proof -
  have "htonl (of_le32 [a, b, c, d]) = of_le32 [d, c, b, a]" by (simp add: htonl_def)
  then show ?thesis by (simp add: of_le32_def be32_def list4_nth or.commute or.left_commute or.assoc)
qed

lemma take4_drop:
  assumes "4 * i + 4 \<le> length M"
  shows "drop (4 * i) M = M ! (4 * i) # M ! (4 * i + 1) # M ! (4 * i + 2) # M ! (4 * i + 3) # drop (4 * Suc i) M"
  using assms by (simp add: Cons_nth_drop_Suc numeral_eq_Suc)

lemma be_word_nth:
  assumes "4 * i + 4 \<le> length M"
  shows "be_word M i = be32 (M ! (4 * i)) (M ! (4 * i + 1)) (M ! (4 * i + 2)) (M ! (4 * i + 3))"
proof -
  have "htonl (of_le32 (a # b # c # d # r)) = be32 a b c d" for a b c d :: u8 and r
    by (simp add: of_le32_def numeral_eq_Suc flip: htonl_of_le32)
  then show ?thesis using take4_drop[OF assms] by (simp add: be_word_def)
qed

lemma be_words_append: "length a = 4 * k \<Longrightarrow> be_words (a @ b) = be_words a @ be_words b"
proof (induction k arbitrary: a)
  case (Suc k)
  then obtain w x y z r where "a = w # x # y # z # r" "length r = 4 * k"
    by (auto simp: length_Suc_conv numeral_eq_Suc)
  then show ?case using Suc.IH by simp
qed simp

lemma be_words_take:
  "4 * q \<le> length M \<Longrightarrow> be_words (take (4 * q) M) = map (be_word M) [0..<q]"
proof (induction q)
  case (Suc q)
  have "take (4 * Suc q) M = take (4 * q) M @ [M ! (4 * q), M ! (4 * q + 1), M ! (4 * q + 2), M ! (4 * q + 3)]"
    using Suc.prems take4_drop[of q M] take_add[of "4 * q" 4 M] by (simp add: add.commute)
  then show ?case using Suc be_words_append[of "take (4 * q) M" q]
    by (simp add: be_word_nth)
qed simp

lemma be_words_zeros: "be_words (replicate (4 * k) 0) = replicate k 0"
proof (induction k)
  case (Suc k)
  have "replicate (4 * Suc k) (0::u8) = 0 # 0 # 0 # 0 # replicate (4 * k) 0" by (simp add: numeral_eq_Suc)
  then show ?case using Suc by (simp add: be32_def)
qed simp

lemma sha1_core_compress: "length M = 64 \<Longrightarrow> sha1_core M H = sha_compress (be_words M) H"
  using be_words_take[of 16 M] by (simp add: sha1_core_def sha1_rounds_compress del: upt_rec_numeral)

section \<open>Updating\<close>

lemma sha_blocks_step: "length b = 64 \<Longrightarrow> sha_blocks H (b @ r) = sha_blocks (sha_compress (be_words b) H) r"
  by (subst sha_blocks.simps) simp

lemma sha_blocks_short: "length bs < 64 \<Longrightarrow> sha_blocks H bs = H"
  by (subst sha_blocks.simps) simp

lemma sha_blocks_append:
  "length a = 64 * k \<Longrightarrow> sha_blocks H (a @ b) = sha_blocks (sha_blocks H a) b"
proof (induction k arbitrary: a H)
  case 0 then show ?case by (simp add: sha_blocks_short)
next
  case (Suc k)
  then have a: "a = take 64 a @ drop 64 a" "length (take 64 a) = 64" "length (drop 64 a) = 64 * k" by simp_all
  have "sha_blocks H (a @ b) = sha_blocks (sha_compress (be_words (take 64 a)) H) (drop 64 a @ b)"
    using sha_blocks_step[OF a(2), of H "drop 64 a @ b"] by (metis a(1) append_assoc)
  also have "\<dots> = sha_blocks (sha_blocks (sha_compress (be_words (take 64 a)) H) (drop 64 a)) b"
    by (rule Suc.IH) (rule a(3))
  also have "sha_blocks (sha_compress (be_words (take 64 a)) H) (drop 64 a) = sha_blocks H a"
    using sha_blocks_step[OF a(2), of H "drop 64 a"] by simp
  finally show ?case .
qed

text \<open>A context that has consumed the message \<open>m\<close>: complete blocks are compressed, the rest is
  in the buffer.\<close>

definition sha1_consumed :: "u8 list \<Rightarrow> sha1_ctx \<Rightarrow> bool" where
  "sha1_consumed m ctx \<longleftrightarrow>
     length (sc_M ctx) = 64 \<and> octets_in_buffer ctx < 64
     \<and> (\<exists>full k. length full = 64 * k \<and> m = full @ take (octets_in_buffer ctx) (sc_M ctx)
          \<and> sc_H ctx = sha_blocks sha_IV full)
     \<and> num_bits_in_msg ctx = of_nat (8 * length m)"

lemma sha1_init_consumed: "length (sc_M ctx) = 64 \<Longrightarrow> sha1_consumed [] (sha1_init ctx)"
  by (auto simp: sha1_consumed_def sha1_init_def sha_IV_def sha_blocks_short)

lemma sha1_update_loop_consumed:
  assumes "length (sc_M ctx) = 64" "octets_in_buffer ctx < 64"
    and "length full = 64 * k" "m = full @ take (octets_in_buffer ctx) (sc_M ctx)"
    and "sc_H ctx = sha_blocks sha_IV full"
    and "num_bits_in_msg ctx = of_nat (8 * length (m @ d))"
  shows "sha1_consumed (m @ d) (sha1_update_loop ctx d)"
  using assms
proof (induction ctx d arbitrary: m full k rule: sha1_update_loop.induct)
  case (1 ctx d)
  let ?n = "octets_in_buffer ctx"
  consider "d = []" | "d \<noteq> []" "length d + ?n < 64" | "d \<noteq> []" "length d + ?n \<ge> 64" by linarith
  then show ?case
  proof cases
    case 1
    then show ?thesis using "1.prems" by (subst sha1_update_loop.simps) (auto simp: sha1_consumed_def)
  next
    case 2
    then show ?thesis using "1.prems"
      by (subst sha1_update_loop.simps) (auto simp: sha1_consumed_def ac_simps)
  next
    case 3
    define M where "M = take ?n (sc_M ctx) @ take (64 - ?n) d"
    define ctx' where "ctx' = ctx\<lparr>sc_M := M, octets_in_buffer := 0, sc_H := sha1_core M (sc_H ctx)\<rparr>"
    have M: "length M = 64" using "1.prems"(1,2) 3 by (simp add: M_def)
    have split: "m @ d = (full @ M) @ drop (64 - ?n) d"
      using "1.prems"(4) by (simp add: M_def)
    have H: "sc_H ctx' = sha_blocks sha_IV (full @ M)"
      using "1.prems"(3,5) M sha_blocks_append[of full k sha_IV M] sha_blocks_step[OF M, of _ "[]"]
      by (simp add: ctx'_def sha1_core_compress sha_blocks_short)
    have "sha1_consumed ((full @ M) @ drop (64 - ?n) d) (sha1_update_loop ctx' (drop (64 - ?n) d))"
      using "1.IH"[where m = "full @ M" and full = "full @ M" and k = "Suc k", OF _ _ refl M_def] 3 M H "1.prems"(3,6) split
      by (simp add: ctx'_def)
    moreover have "sha1_update_loop ctx d = sha1_update_loop ctx' (drop (64 - ?n) d)"
      using 3 by (subst sha1_update_loop.simps) (simp add: Let_def ctx'_def M_def)
    ultimately show ?thesis by (simp add: split)
  qed
qed

lemma sha1_update_consumed:
  assumes "sha1_consumed m ctx"
  shows "sha1_consumed (m @ d) (sha1_update ctx d)"
proof -
  obtain full k where "length full = 64 * k" "m = full @ take (octets_in_buffer ctx) (sc_M ctx)"
    "sc_H ctx = sha_blocks sha_IV full"
    using assms by (auto simp: sha1_consumed_def)
  then show ?thesis unfolding sha1_update_def
    by (intro sha1_update_loop_consumed[where full = full and k = k])
      (use assms in \<open>auto simp: sha1_consumed_def algebra_simps\<close>)
qed

text \<open>The octets \<open>b\<close> left of a word, closed with the octet \<open>0x80\<close>.\<close>

definition closed_word :: "u8 list \<Rightarrow> nat \<Rightarrow> u32" where
  "closed_word M n = hd (be_words (take (n mod 4) (drop (4 * (n div 4)) M) @ [0x80, 0, 0, 0]))"

section \<open>The final block\<close>

lemma be32_mask:
  "(be32 a b c d AND 0xffffff00) OR 0x80 = be32 a b c 0x80"
  "(be32 a b c d AND 0xffff0000) OR 0x8000 = be32 a b 0x80 0"
  "(be32 a b c d AND 0xff000000) OR 0x800000 = be32 a 0x80 0 0"
proof -
  have m: "0xffffff00 = NOT (mask 8 :: u32)" "0xffff0000 = NOT (mask 16 :: u32)"
    "0xff000000 = NOT (mask 24 :: u32)"
    by (simp_all add: mask_eq_exp_minus_1)
  have k: "be32 a b c d AND NOT (mask 8) = be32 a b c 0" "be32 a b c d AND NOT (mask 16) = be32 a b 0 0"
    "be32 a b c d AND NOT (mask 24) = be32 a 0 0 0"
    by (rule word_eqI_lt, auto simp: be32_def bit_simps dest: bit_imp_le_length)+
  show "(be32 a b c d AND 0xffffff00) OR 0x80 = be32 a b c 0x80"
    "(be32 a b c d AND 0xffff0000) OR 0x8000 = be32 a b 0x80 0"
    "(be32 a b c d AND 0xff000000) OR 0x800000 = be32 a 0x80 0 0"
    unfolding m k by (simp_all add: be32_def or.assoc)
qed

lemma final_fill:
  fixes x b :: u32
  assumes "length ws = q" "q < 16"
  defines "W \<equiv> ws @ [x, 0] @ replicate (15 - (Suc q + 1)) 0"
  shows "q < 14 \<Longrightarrow> take 15 W @ [b] = ws @ [x] @ replicate (14 - q) 0 @ [b]"
    "q = 14 \<Longrightarrow> take 15 W @ [0] = ws @ [x] @ replicate (15 - q) 0"
    "q = 15 \<Longrightarrow> take 16 W = ws @ [x] @ replicate (15 - q) 0"
proof -
  show "take 15 W @ [b] = ws @ [x] @ replicate (14 - q) 0 @ [b]" if "q < 14"
  proof -
    have "14 - q = Suc (15 - (Suc q + 1))" using that by simp
    then show ?thesis using assms(1) that by (simp add: W_def)
  qed
qed (use assms(1) in \<open>simp_all add: W_def\<close>)

lemma final_words_shape:
  assumes "length (sc_M ctx) = 64" "octets_in_buffer ctx < 64"
  defines "n \<equiv> octets_in_buffer ctx" and "M \<equiv> sc_M ctx"
  shows "final_words ctx = map (be_word M) [0..<n div 4] @ [closed_word M n] @
     (if n < 56 then replicate (14 - n div 4) 0 @ [num_bits_in_msg ctx] else replicate (15 - n div 4) 0)"
proof -
  define q where "q = n div 4"
  have q: "4 * q + 4 \<le> length M" "q < 16" using assms(1,2) unfolding q_def n_def M_def by presburger+
  have d: "drop (4 * q) M = M ! (4 * q) # M ! (4 * q + 1) # M ! (4 * q + 2) # M ! (4 * q + 3) # drop (4 * Suc q) M"
    by (rule take4_drop) (rule q(1))
  have w: "be_word M q = be32 (M ! (4 * q)) (M ! (4 * q + 1)) (M ! (4 * q + 2)) (M ! (4 * q + 3))"
    by (rule be_word_nth) (rule q(1))
  have n: "n = 4 * q + n mod 4" by (simp add: q_def)
  have ws: "length (map (be_word M) [0..<q]) = q" by simp
  have r: "q < 14 \<or> q = 14 \<or> q = 15" using q(2) by linarith
  consider "n mod 4 = 0" | "n mod 4 = 1" | "n mod 4 = 2" | "n mod 4 = 3" by fastforce
  then show ?thesis
  proof cases
    case 1
    then have "(n + 3) div 4 = q" "(n < 56) = (q < 14)" "(n < 60) = (q < 15)" using n by auto
    then show ?thesis using 1 r d unfolding final_words_def Let_def closed_word_def
      by (elim disjE) (simp_all flip: n_def M_def q_def add: be32_def)
  next
    case 2
    then have "(n + 3) div 4 = Suc q" "(n < 56) = (q < 14)" "(n < 60) = (q < 15)" using n by auto
    then show ?thesis using 2 r d w final_fill[OF ws q(2)] unfolding final_words_def Let_def closed_word_def
      by (auto simp flip: n_def M_def q_def simp: be32_mask list_update_append)
  next
    case 3
    then have "(n + 3) div 4 = Suc q" "(n < 56) = (q < 14)" "(n < 60) = (q < 15)" using n by auto
    then show ?thesis using 3 r d w final_fill[OF ws q(2)] unfolding final_words_def Let_def closed_word_def
      by (auto simp flip: n_def M_def q_def simp: be32_mask list_update_append)
  next
    case 4
    then have "(n + 3) div 4 = Suc q" "(n < 56) = (q < 14)" "(n < 60) = (q < 15)" using n by auto
    then show ?thesis using 4 r d w final_fill[OF ws q(2)] unfolding final_words_def Let_def closed_word_def
      by (auto simp flip: n_def M_def q_def simp: be32_mask list_update_append)
  qed
qed

definition length_octets :: "u64 \<Rightarrow> u8 list" where
  "length_octets x = map (\<lambda>k. ucast (drop_bit (56 - 8 * k) x)) [0..<8]"

lemma be32_octets:
  fixes x :: u64
  assumes "j = 24 + i" "k = 16 + i" "l = 8 + i" "i < 33"
  shows "be32 (ucast (drop_bit j x)) (ucast (drop_bit k x)) (ucast (drop_bit l x)) (ucast (drop_bit i x)) = ucast (drop_bit i x)"
proof (rule word_eqI_lt)
  fix n assume "n < LENGTH(32)"
  then consider "n < 8" | "8 \<le> n" "n < 16" | "16 \<le> n" "n < 24" | "24 \<le> n" "n < 32" by fastforce
  then show "bit (be32 (ucast (drop_bit j x)) (ucast (drop_bit k x)) (ucast (drop_bit l x)) (ucast (drop_bit i x))) n
      = bit (ucast (drop_bit i x) :: u32) n"
    by cases (auto simp: be32_def bit_simps assms)
qed

lemma be_words_length_octets:
  "be_words (length_octets x) = [ucast (drop_bit 32 x), ucast x]"
proof -
  have "length_octets x = [ucast (drop_bit 56 x), ucast (drop_bit 48 x), ucast (drop_bit 40 x), ucast (drop_bit 32 x),
      ucast (drop_bit 24 x), ucast (drop_bit 16 x), ucast (drop_bit 8 x), ucast x]"
    by (simp add: length_octets_def upt_rec)
  moreover have "be32 (ucast (drop_bit 56 x)) (ucast (drop_bit 48 x)) (ucast (drop_bit 40 x)) (ucast (drop_bit 32 x))
      = ucast (drop_bit 32 x)"
    by (rule be32_octets) simp_all
  moreover have "be32 (ucast (drop_bit 24 x)) (ucast (drop_bit 16 x)) (ucast (drop_bit 8 x)) (ucast x) = ucast x"
    using be32_octets[of 24 0 16 8 x] by simp
  ultimately show ?thesis by simp
qed

lemma length_words_small:
  assumes "k < 2 ^ 32"
  shows "be_words (length_octets (of_nat k)) = [0, of_nat k]"
proof -
  have "unat (of_nat k :: u64) = k" using assms by (simp add: unsigned_of_nat take_bit_nat_eq_self)
  then have "drop_bit 32 (of_nat k :: u64) = 0" using assms
    by (metis div_less drop_bit_eq_div unat_0 unat_drop_bit_eq word_unat_eq_iff)
  moreover have "(ucast (of_nat k :: u64) :: u32) = of_nat k"
    using assms by (simp add: unsigned_of_nat take_bit_nat_eq_self)
  ultimately show ?thesis by (simp add: be_words_length_octets)
qed

lemma be_words_closed:
  assumes "length M = 64" "n < 64"
  shows "be_words (take n M @ 0x80 # replicate (3 - n mod 4) 0 @ r) = map (be_word M) [0..<n div 4] @ closed_word M n # be_words r"
proof -
  define q where "q = n div 4"
  have q: "4 * q + 4 \<le> length M" using assms unfolding q_def by presburger
  have d: "drop (4 * q) M = M ! (4 * q) # M ! (4 * q + 1) # M ! (4 * q + 2) # M ! (4 * q + 3) # drop (4 * Suc q) M"
    by (rule take4_drop) (rule q)
  have "take n M = take (4 * q) M @ take (n mod 4) (drop (4 * q) M)"
    using take_add[of "4 * q" "n mod 4" M] by (simp add: q_def)
  then have "be_words (take n M @ 0x80 # replicate (3 - n mod 4) 0 @ r)
     = map (be_word M) [0..<q] @ be_words (take (n mod 4) (drop (4 * q) M) @ 0x80 # replicate (3 - n mod 4) 0 @ r)"
    using be_words_append[of "take (4 * q) M" q] be_words_take[of q M] q by simp
  moreover have "be_words (take (n mod 4) (drop (4 * q) M) @ 0x80 # replicate (3 - n mod 4) 0 @ r) = closed_word M n # be_words r"
  proof -
    consider "n mod 4 = 0" | "n mod 4 = 1" | "n mod 4 = 2" | "n mod 4 = 3" by fastforce
    then show ?thesis by cases (simp_all add: closed_word_def d numeral_2_eq_2 numeral_3_eq_3 flip: q_def)
  qed
  ultimately show ?thesis by (simp add: q_def)
qed

lemma sha_tail_blocks:
  assumes "length M = 64" "n < 64" "k < 2 ^ 32"
  shows "sha_blocks H (take n M @ [0x80] @ replicate ((119 - n) mod 64) 0 @ length_octets (of_nat k)) =
    (if n < 56 then sha_compress (map (be_word M) [0..<n div 4] @ [closed_word M n] @ replicate (14 - n div 4) 0 @ [of_nat k]) H
     else sha_compress (replicate 15 0 @ [of_nat k])
        (sha_compress (map (be_word M) [0..<n div 4] @ [closed_word M n] @ replicate (15 - n div 4) 0) H))"
proof -
  define q r where "q = n div 4" and "r = n mod 4"
  have n: "n = 4 * q + r" "r < 4" by (simp_all add: q_def r_def)
  let ?L = "length_octets (of_nat k)"
  have L: "length ?L = 8" by (simp add: length_octets_def)
  show ?thesis
  proof (cases "n < 56")
    case True
    have a: "119 - n = 64 + (55 - n)" using True by simp
    have "(64 + (55 - n)) mod 64 = 55 - n" by simp
    then have "(119 - n) mod 64 = 55 - n" by (simp only: a)
    also have "55 - n = (3 - r) + 4 * (13 - q)" using True n by arith
    finally have z: "(119 - n) mod 64 = (3 - r) + 4 * (13 - q)" .
    let ?t = "take n M @ 0x80 # replicate (3 - r) 0 @ replicate (4 * (13 - q)) 0 @ ?L"
    have "take n M @ [0x80] @ replicate ((119 - n) mod 64) 0 @ ?L = ?t"
      unfolding z replicate_add by simp
    moreover have "n + 1 + (3 - r) + 4 * (13 - q) + 8 = 64" using True n by arith
    then have "length ?t = 64" using assms(1,2) L by simp
    moreover have q14: "14 - q = Suc (13 - q)" using True n by arith
    moreover have "be_words (replicate (4 * (13 - q)) 0 @ ?L) = replicate (14 - q) 0 @ [of_nat k]"
      unfolding q14
      using be_words_append[of "replicate (4 * (13 - q)) 0" "13 - q" ?L] be_words_zeros length_words_small[OF assms(3)]
      by (simp add: replicate_app_Cons_same)
    ultimately show ?thesis using True \<open>length ?t = 64\<close> sha_blocks_step[of ?t H "[]"] be_words_closed[OF assms(1,2), folded q_def r_def]
      by (simp add: sha_blocks_short flip: q_def)
  next
    case False
    then have "(119 - n) mod 64 = 119 - n" by simp
    also have "119 - n = (3 - r) + 4 * (15 - q) + 4 * 14" using False assms(2) n by arith
    finally have z: "(119 - n) mod 64 = (3 - r) + 4 * (15 - q) + 4 * 14" .
    let ?a = "take n M @ 0x80 # replicate (3 - r) 0 @ replicate (4 * (15 - q)) 0"
    let ?b = "replicate (4 * 14) 0 @ ?L"
    have "take n M @ [0x80] @ replicate ((119 - n) mod 64) 0 @ ?L = ?a @ ?b"
      unfolding z replicate_add by (simp del: replicate.simps)
    moreover have "n + 1 + (3 - r) + 4 * (15 - q) = 64" using False assms(2) n by arith
    then have "length ?a = 64" using assms(1,2) by simp
    moreover have "length ?b = 64" using L by simp
    moreover have "be_words ?b = replicate 15 0 @ [of_nat k]"
    proof -
      have "be_words ?b = be_words (replicate (4 * 14) 0) @ be_words ?L" by (rule be_words_append) simp
      also have "\<dots> = replicate (Suc 14) 0 @ [of_nat k]"
        by (simp only: be_words_zeros length_words_small[OF assms(3)] replicate_app_Cons_same replicate_Suc append_Cons)
      finally show ?thesis by simp
    qed
    moreover have "be_words (replicate (4 * (15 - q)) 0) = replicate (15 - q) 0" by (rule be_words_zeros)
    ultimately show ?thesis using False \<open>length ?a = 64\<close> sha_blocks_step[of ?a H ?b] sha_blocks_step[of ?b _ "[]"]
        be_words_closed[OF assms(1,2), folded q_def r_def]
      by (simp add: sha_blocks_short del: replicate.simps flip: q_def)
  qed
qed

lemma sha1_final_consumed:
  assumes "sha1_consumed m ctx" "length m < 2 ^ 29"
  shows "fst (sha1_final ctx) = map htonl (SHA1 m)"
proof -
  let ?n = "octets_in_buffer ctx" and ?M = "sc_M ctx"
  obtain full k where f: "length full = 64 * k" "m = full @ take ?n ?M" "sc_H ctx = sha_blocks sha_IV full"
    and c: "length ?M = 64" "?n < 64" "num_bits_in_msg ctx = of_nat (8 * length m)"
    using assms(1) by (auto simp: sha1_consumed_def)
  have "length m mod 64 = ?n" using f c by simp
  then have S: "SHA1 m = sha_blocks (sc_H ctx)
      (take ?n ?M @ [0x80] @ replicate ((119 - ?n) mod 64) 0 @ length_octets (of_nat (8 * length m)))"
    using f sha_blocks_append[of full k sha_IV] by (simp add: SHA1_def sha_pad_def length_octets_def)
  have len: "length (final_words ctx) = 16"
  proof -
    have "?n < 56 \<Longrightarrow> ?n div 4 < 14" "?n div 4 < 16" using c(2) by auto
    then show ?thesis using final_words_shape[OF c(1,2)] by auto
  qed
  have "fst (sha1_final ctx) = map htonl (if ?n < 56 then sha_compress (final_words ctx) (sc_H ctx)
      else sha_compress (replicate 15 0 @ [num_bits_in_msg ctx]) (sha_compress (final_words ctx) (sc_H ctx)))"
    by (simp add: sha1_final_def Let_def sha1_rounds_compress len)
  then show ?thesis
    using sha_tail_blocks[of ?M ?n "8 * length m" "sc_H ctx"] c assms(2) final_words_shape[OF c(1,2)]
    by (simp add: S)
qed

text \<open>C14. \<open>sha1_update\<close> may be fed a message in any number of pieces: after \<open>sha1_init\<close>, hashing the pieces
  one after the other and finishing gives the SHA-1 value (in network byte order) that FIPS 180 defines for
  their concatenation, for every message of fewer than \<open>2^29\<close> octets, whatever the context held before (for a single
  piece of \<open>2 ^ 28\<close> octets or more with the overflow of \<^const>\<open>sha1_update\<close>).\<close>

theorem sha1_correct:
  assumes "length (sc_M ctx) = 64" "length (concat pieces) < 2 ^ 29"
  shows "fst (sha1_final (fold (\<lambda>d c. sha1_update c d) pieces (sha1_init ctx))) = map htonl (SHA1 (concat pieces))"
proof (rule sha1_final_consumed[OF _ assms(2)])
  have "sha1_consumed (m @ concat pieces) (fold (\<lambda>d c. sha1_update c d) pieces c)" if "sha1_consumed m c" for m c
    using that
  proof (induction pieces arbitrary: m c)
    case (Cons d ds)
    then show ?case using sha1_update_consumed[OF Cons.prems, of d] Cons.IH[of "m @ d" "sha1_update c d"] by simp
  qed simp
  then show "sha1_consumed (concat pieces) (fold (\<lambda>d c. sha1_update c d) pieces (sha1_init ctx))"
    using sha1_init_consumed[OF assms(1)] by force
qed

theorem sha1_correct_witness:
  "fst (sha1_final (fold (\<lambda>d c. sha1_update c d) [[97], [98, 99]] (sha1_init \<lparr>sc_H = [], sc_M = replicate 64 7,
      octets_in_buffer = 3, num_bits_in_msg = 1\<rparr>))) = map htonl (SHA1 [97, 98, 99])"
  using sha1_correct[of "\<lparr>sc_H = [], sc_M = replicate 64 7, octets_in_buffer = 3, num_bits_in_msg = 1\<rparr>" "[[97], [98, 99]]"]
  by simp

end
