(* ===== verification/Srtp_Auth.thy ===== *)
theory Srtp_Auth
  imports Srtp_Sha1
begin

text \<open>
  Authentication functions of libSRTP: HMAC-SHA1 (\<open>crypto/hash/hmac.c\<close>), the null
  authentication function (\<open>crypto/hash/null_auth.c\<close>) and the generic layer with its self
  test (\<open>crypto/hash/auth.c\<close>, \<open>crypto/include/auth.h\<close>).

  A key, a message or a tag is the list of the octets that the length passed beside the pointer
  designates. The function pointers of an \<open>auth_type_t\<close> are the case distinction on
  \<open>auth_kind\<close>; \<open>mem\<close> tells whether an allocation succeeds. The reference counts of the two
  metaobjects are the fields of \<open>auth_types\<close>.
\<close>

section \<open>HMAC\<close>

record hmac_ctx =
  opad :: "u8 list"
  h_ctx :: sha1_ctx
  h_init_ctx :: sha1_ctx

definition hmac_init :: "hmac_ctx \<Rightarrow> u8 list \<Rightarrow> err_status \<times> hmac_ctx" where
  "hmac_init state key =
    (if length key > 20 then (err_status_bad_param, state)
     else
       let ipad = map (\<lambda>k. k XOR 0x36) key @ replicate (64 - length key) 0x36;
           state = state\<lparr>opad := map (\<lambda>k. k XOR 0x5c) key @ replicate (64 - length key) 0x5c\<rparr>;
           init_ctx = sha1_update (sha1_init (h_init_ctx state)) ipad
       in (err_status_ok, state\<lparr>h_init_ctx := init_ctx, h_ctx := init_ctx\<rparr>))"

definition hmac_start :: "hmac_ctx \<Rightarrow> err_status \<times> hmac_ctx" where
  "hmac_start state = (err_status_ok, state\<lparr>h_ctx := h_init_ctx state\<rparr>)"

definition hmac_update :: "hmac_ctx \<Rightarrow> u8 list \<Rightarrow> err_status \<times> hmac_ctx" where
  "hmac_update state message = (err_status_ok, state\<lparr>h_ctx := sha1_update (h_ctx state) message\<rparr>)"

text \<open>\<open>result\<close> is the tag buffer before the call; the third component is the buffer afterwards.\<close>

definition hmac_compute :: "hmac_ctx \<Rightarrow> u8 list \<Rightarrow> nat \<Rightarrow> u8 list \<Rightarrow> err_status \<times> hmac_ctx \<times> u8 list" where
  "hmac_compute state message tag_len result =
    (if tag_len > 20 then (err_status_bad_param, state, result)
     else
       let state = snd (hmac_update state message);
           (H, c) = sha1_final (h_ctx state);
           c = sha1_update (sha1_init c) (opad state);
           c = sha1_update c (concat (map le32 H));
           (hash_value, c) = sha1_final c
       in (err_status_ok, state\<lparr>h_ctx := c\<rparr>,
           take tag_len (concat (map le32 hash_value)) @ drop tag_len result))"

section \<open>The generic layer\<close>

datatype auth_kind = hmac_kind | null_auth_kind

datatype auth_state = Hmac_state hmac_ctx | Null_auth_state

record auth_types =
  hmac_ref_count :: int
  null_auth_ref_count :: int

record auth =
  auth_type :: auth_kind
  auth_st :: auth_state
  out_len :: nat
  auth_key_len :: nat
  prefix_len :: nat

definition hmac_alloc :: "bool \<Rightarrow> hmac_ctx \<Rightarrow> auth_types \<Rightarrow> nat \<Rightarrow> nat \<Rightarrow> (err_status + auth) \<times> auth_types" where
  "hmac_alloc mem junk ts key_len olen =
    (if key_len > 20 then (Inl err_status_bad_param, ts)
     else if olen > 20 then (Inl err_status_bad_param, ts)
     else if \<not> mem then (Inl err_status_alloc_fail, ts)
     else (Inr \<lparr>auth_type = hmac_kind, auth_st = Hmac_state junk, out_len = olen, auth_key_len = key_len, prefix_len = 0\<rparr>,
           ts\<lparr>hmac_ref_count := hmac_ref_count ts + 1\<rparr>))"

definition hmac_dealloc :: "auth_types \<Rightarrow> err_status \<times> auth_types" where
  "hmac_dealloc ts = (err_status_ok, ts\<lparr>hmac_ref_count := hmac_ref_count ts - 1\<rparr>)"

definition null_auth_alloc :: "bool \<Rightarrow> auth_types \<Rightarrow> nat \<Rightarrow> nat \<Rightarrow> (err_status + auth) \<times> auth_types" where
  "null_auth_alloc mem ts key_len olen =
    (if \<not> mem then (Inl err_status_alloc_fail, ts)
     else (Inr \<lparr>auth_type = null_auth_kind, auth_st = Null_auth_state, out_len = olen, auth_key_len = key_len,
               prefix_len = olen\<rparr>,
           ts\<lparr>null_auth_ref_count := null_auth_ref_count ts + 1\<rparr>))"

definition null_auth_dealloc :: "auth_types \<Rightarrow> err_status \<times> auth_types" where
  "null_auth_dealloc ts = (err_status_ok, ts\<lparr>null_auth_ref_count := null_auth_ref_count ts - 1\<rparr>)"

definition null_auth_init :: "u8 list \<Rightarrow> err_status" where
  "null_auth_init key = err_status_ok"

definition null_auth_compute :: "u8 list \<Rightarrow> nat \<Rightarrow> u8 list \<Rightarrow> err_status \<times> u8 list" where
  "null_auth_compute message tag_len result = (err_status_ok, result)"

definition null_auth_update :: "u8 list \<Rightarrow> err_status" where
  "null_auth_update message = err_status_ok"

definition null_auth_start :: err_status where
  "null_auth_start = err_status_ok"

definition auth_type_alloc ::
    "auth_kind \<Rightarrow> bool \<Rightarrow> hmac_ctx \<Rightarrow> auth_types \<Rightarrow> nat \<Rightarrow> nat \<Rightarrow> (err_status + auth) \<times> auth_types" where
  "auth_type_alloc at mem junk ts klen outlen =
    (case at of hmac_kind \<Rightarrow> hmac_alloc mem junk ts klen outlen
     | null_auth_kind \<Rightarrow> null_auth_alloc mem ts klen outlen)"

definition auth_dealloc :: "auth \<Rightarrow> auth_types \<Rightarrow> err_status \<times> auth_types" where
  "auth_dealloc a ts = (case auth_type a of hmac_kind \<Rightarrow> hmac_dealloc ts | null_auth_kind \<Rightarrow> null_auth_dealloc ts)"

definition auth_init :: "auth \<Rightarrow> u8 list \<Rightarrow> err_status \<times> auth" where
  "auth_init a key =
    (case auth_st a of
       Hmac_state s \<Rightarrow> (let (st, s) = hmac_init s (take (auth_key_len a) key) in (st, a\<lparr>auth_st := Hmac_state s\<rparr>))
     | Null_auth_state \<Rightarrow> (null_auth_init key, a))"

definition auth_start :: "auth \<Rightarrow> err_status \<times> auth" where
  "auth_start a =
    (case auth_st a of
       Hmac_state s \<Rightarrow> (let (st, s) = hmac_start s in (st, a\<lparr>auth_st := Hmac_state s\<rparr>))
     | Null_auth_state \<Rightarrow> (null_auth_start, a))"

definition auth_update :: "auth \<Rightarrow> u8 list \<Rightarrow> err_status \<times> auth" where
  "auth_update a buf =
    (case auth_st a of
       Hmac_state s \<Rightarrow> (let (st, s) = hmac_update s buf in (st, a\<lparr>auth_st := Hmac_state s\<rparr>))
     | Null_auth_state \<Rightarrow> (null_auth_update buf, a))"

definition auth_compute :: "auth \<Rightarrow> u8 list \<Rightarrow> u8 list \<Rightarrow> err_status \<times> auth \<times> u8 list" where
  "auth_compute a buf res =
    (case auth_st a of
       Hmac_state s \<Rightarrow> (let (st, s, res) = hmac_compute s buf (out_len a) res in (st, a\<lparr>auth_st := Hmac_state s\<rparr>, res))
     | Null_auth_state \<Rightarrow> (let (st, res) = null_auth_compute buf (out_len a) res in (st, a, res)))"

definition auth_get_key_length :: "auth \<Rightarrow> nat" where "auth_get_key_length a = auth_key_len a"
definition auth_get_tag_length :: "auth \<Rightarrow> nat" where "auth_get_tag_length a = out_len a"
definition auth_get_prefix_length :: "auth \<Rightarrow> nat" where "auth_get_prefix_length a = prefix_len a"

definition auth_type_get_ref_count :: "auth_kind \<Rightarrow> auth_types \<Rightarrow> int" where
  "auth_type_get_ref_count at ts = (case at of hmac_kind \<Rightarrow> hmac_ref_count ts | null_auth_kind \<Rightarrow> null_auth_ref_count ts)"

record auth_test_case =
  atc_key :: "u8 list"
  atc_data :: "u8 list"
  atc_tag :: "u8 list"

definition hmac_test_case_0 :: auth_test_case where
  "hmac_test_case_0 =
    \<lparr>atc_key = replicate 20 0x0b,
     atc_data = [0x48, 0x69, 0x20, 0x54, 0x68, 0x65, 0x72, 0x65],
     atc_tag = [0xb6, 0x17, 0x31, 0x86, 0x55, 0x05, 0x72, 0x64, 0xe2, 0x8b, 0xc0, 0xb6, 0xfb, 0x37, 0x8c, 0x8e,
                0xf1, 0x46, 0xbe, 0x00]\<rparr>"

definition null_auth_test_case_0 :: auth_test_case where
  "null_auth_test_case_0 = \<lparr>atc_key = [], atc_data = [], atc_tag = []\<rparr>"

text \<open>The loop of the self test over the remaining test cases. \<open>mem\<close> and \<open>junk\<close> give, for the
  n-th case, whether its allocation succeeds and what the allocated memory holds.\<close>

fun auth_self_test_loop ::
    "auth_kind \<Rightarrow> (nat \<Rightarrow> bool) \<Rightarrow> (nat \<Rightarrow> hmac_ctx) \<Rightarrow> auth_test_case list \<Rightarrow> nat \<Rightarrow> auth_types \<Rightarrow> err_status \<times> auth_types" where
  "auth_self_test_loop at mem junk [] n ts = (err_status_ok, ts)"
| "auth_self_test_loop at mem junk (tc # rest) n ts =
    (if length (atc_tag tc) > 32 then (err_status_bad_param, ts)
     else case auth_type_alloc at (mem n) (junk n) ts (length (atc_key tc)) (length (atc_tag tc)) of
       (Inl status, ts) \<Rightarrow> (status, ts)
     | (Inr a, ts) \<Rightarrow>
        (let (status, a) = auth_init a (atc_key tc) in
         if status \<noteq> err_status_ok then (status, snd (auth_dealloc a ts))
         else let (status, a, tag) = auth_compute a (atc_data tc) (replicate (length (atc_tag tc)) 0) in
         if status \<noteq> err_status_ok then (status, snd (auth_dealloc a ts))
         else if tag \<noteq> atc_tag tc then (err_status_algo_fail, snd (auth_dealloc a ts))
         else let (status, ts) = auth_dealloc a ts in
         if status \<noteq> err_status_ok then (status, ts)
         else auth_self_test_loop at mem junk rest (Suc n) ts))"

definition auth_type_self_test ::
    "auth_kind \<Rightarrow> (nat \<Rightarrow> bool) \<Rightarrow> (nat \<Rightarrow> hmac_ctx) \<Rightarrow> auth_test_case list \<Rightarrow> auth_types \<Rightarrow> err_status \<times> auth_types" where
  "auth_type_self_test at mem junk test_data ts =
    (if test_data = [] then (err_status_cant_check, ts)
     else auth_self_test_loop at mem junk test_data 0 ts)"

section \<open>Specification of HMAC\<close>

definition sha1_octets :: "u8 list \<Rightarrow> u8 list" where
  "sha1_octets m = concat (map (\<lambda>w. le32 (htonl w)) (SHA1 m))"

definition HMAC_SHA1 :: "u8 list \<Rightarrow> u8 list \<Rightarrow> u8 list" where
  "HMAC_SHA1 key m =
    (let k0 = key @ replicate (64 - length key) 0
     in sha1_octets (map (\<lambda>k. k XOR 0x5c) k0 @ sha1_octets (map (\<lambda>k. k XOR 0x36) k0 @ m)))"

section \<open>The contract of an authentication function\<close>

text \<open>What a client of an authentication function relies on: \<open>consumed s m\<close> says that the octets \<open>m\<close> have
  been fed to \<open>s\<close> since the last start.\<close>

locale auth_contract =
  fixes ready :: "'s \<Rightarrow> bool" and consumed :: "'s \<Rightarrow> u8 list \<Rightarrow> bool"
    and start :: "'s \<Rightarrow> 's" and update :: "'s \<Rightarrow> u8 list \<Rightarrow> 's"
    and tag :: "'s \<Rightarrow> u8 list \<Rightarrow> nat \<Rightarrow> u8 list" and mac :: "u8 list \<Rightarrow> u8 list"
    and limit :: nat
  assumes start_ready: "ready s \<Longrightarrow> consumed (start s) []"
    and update_ready: "consumed s m \<Longrightarrow> consumed (update s d) (m @ d)"
    and tag_mac: "consumed s m \<Longrightarrow> length (m @ d) < limit \<Longrightarrow> n \<le> 20 \<Longrightarrow> tag s d n = take n (mac (m @ d))"
begin

lemma updates_consumed:
  "consumed s m \<Longrightarrow> consumed (fold (\<lambda>d s. update s d) ds s) (m @ concat ds)"
proof (induction ds arbitrary: s m)
  case (Cons d ds)
  then show ?case using update_ready[of s m d] Cons.IH[of "update s d" "m @ d"] by simp
qed simp

lemma tag_of_pieces:
  assumes "ready s" "length (concat ds @ d) < limit" "n \<le> 20"
  shows "tag (fold (\<lambda>d s. update s d) ds (start s)) d n = take n (mac (concat ds @ d))"
  using tag_mac[OF updates_consumed[OF start_ready[OF assms(1)]]] assms(2,3) by simp

end

section \<open>HMAC meets its specification\<close>

lemma length_sha_compress: "length (sha_compress W H) = 5"
  by (auto simp: sha_compress_def split: prod.splits)

lemma length_sha_blocks: "length H = 5 \<Longrightarrow> length (sha_blocks H bs) = 5"
proof (induction H bs rule: sha_blocks.induct)
  case (1 H bs)
  then show ?case by (subst sha_blocks.simps) (simp add: length_sha_compress)
qed

lemma length_SHA1 [simp]: "length (SHA1 m) = 5"
  by (simp add: SHA1_def length_sha_blocks sha_IV_def)

lemma length_sha1_octets [simp]: "length (sha1_octets m) = 20"
  by (simp add: sha1_octets_def length_concat comp_def sum_list_triv)

lemma sha1_final_buffer [simp]: "sc_M (snd (sha1_final ctx)) = sc_M ctx"
  by (simp add: sha1_final_def Let_def)

lemma sha1_consumed_buffer: "sha1_consumed m ctx \<Longrightarrow> length (sc_M ctx) = 64"
  by (simp add: sha1_consumed_def)

lemma sha1_final_octets:
  "sha1_consumed m ctx \<Longrightarrow> length m < 2 ^ 29 \<Longrightarrow> concat (map le32 (fst (sha1_final ctx))) = sha1_octets m"
  by (simp add: sha1_final_consumed sha1_octets_def comp_def)

definition key_pad :: "u8 \<Rightarrow> u8 list \<Rightarrow> u8 list" where
  "key_pad x key = map (\<lambda>k. k XOR x) key @ replicate (64 - length key) x"

lemma key_pad_spec: "map (\<lambda>k. k XOR x) (key @ replicate (64 - length key) 0) = key_pad x key"
  by (simp add: key_pad_def)

lemma length_key_pad: "length key \<le> 64 \<Longrightarrow> length (key_pad x key) = 64"
  by (simp add: key_pad_def)

text \<open>A context keyed with \<open>key\<close>, and one that has consumed \<open>m\<close> since its start.\<close>

definition hmac_ready :: "u8 list \<Rightarrow> hmac_ctx \<Rightarrow> bool" where
  "hmac_ready key s \<longleftrightarrow> length key \<le> 20 \<and> opad s = key_pad 0x5c key \<and> sha1_consumed (key_pad 0x36 key) (h_init_ctx s)"

definition hmac_consumed :: "u8 list \<Rightarrow> hmac_ctx \<Rightarrow> u8 list \<Rightarrow> bool" where
  "hmac_consumed key s m \<longleftrightarrow> hmac_ready key s \<and> sha1_consumed (key_pad 0x36 key @ m) (h_ctx s)"

lemma hmac_init_ready:
  assumes "length (sc_M (h_init_ctx s)) = 64" "length key \<le> 20"
  shows "fst (hmac_init s key) = err_status_ok" "hmac_consumed key (snd (hmac_init s key)) []"
proof -
  have "sha1_consumed (key_pad 0x36 key) (sha1_update (sha1_init (h_init_ctx s)) (key_pad 0x36 key))"
    using sha1_update_consumed[OF sha1_init_consumed[OF assms(1)]] by simp
  then show "fst (hmac_init s key) = err_status_ok" "hmac_consumed key (snd (hmac_init s key)) []"
    using assms by (simp_all add: hmac_init_def Let_def hmac_consumed_def hmac_ready_def key_pad_def)
qed

lemma hmac_compute_consumed:
  assumes "hmac_consumed key s m" "length (m @ d) < 2 ^ 29 - 64" "n \<le> 20"
  shows "fst (hmac_compute s d n r) = err_status_ok"
    "snd (snd (hmac_compute s d n r)) = take n (HMAC_SHA1 key (m @ d)) @ drop n r"
    "hmac_ready key (fst (snd (hmac_compute s d n r)))"
proof -
  let ?c = "sha1_update (h_ctx s) d"
  have key: "length key \<le> 20" "opad s = key_pad 0x5c key" using assms(1) by (simp_all add: hmac_consumed_def hmac_ready_def)
  have 1: "sha1_consumed (key_pad 0x36 key @ m @ d) ?c"
    using sha1_update_consumed[of "key_pad 0x36 key @ m" "h_ctx s" d] assms(1) by (simp add: hmac_consumed_def)
  have in_oct: "concat (map le32 (fst (sha1_final ?c))) = sha1_octets (key_pad 0x36 key @ m @ d)"
    by (rule sha1_final_octets[OF 1]) (use assms(2) key in \<open>simp add: length_key_pad\<close>)
  let ?o = "sha1_update (sha1_update (sha1_init (snd (sha1_final ?c))) (opad s)) (sha1_octets (key_pad 0x36 key @ m @ d))"
  have "sha1_consumed [] (sha1_init (snd (sha1_final ?c)))"
    by (rule sha1_init_consumed) (use sha1_consumed_buffer[OF 1] in simp)
  then have "sha1_consumed (key_pad 0x5c key @ sha1_octets (key_pad 0x36 key @ m @ d)) ?o"
    using sha1_update_consumed[of "[]"] sha1_update_consumed by (simp add: key(2))
  then have out: "concat (map le32 (fst (sha1_final ?o))) = HMAC_SHA1 key (m @ d)"
    using sha1_final_octets key by (simp add: HMAC_SHA1_def Let_def key_pad_spec length_key_pad del: map_append)
  show "fst (hmac_compute s d n r) = err_status_ok" using assms(3)
    by (simp add: hmac_compute_def hmac_update_def Let_def case_prod_beta)
  show "snd (snd (hmac_compute s d n r)) = take n (HMAC_SHA1 key (m @ d)) @ drop n r"
    using in_oct out assms(3) by (simp add: hmac_compute_def hmac_update_def Let_def case_prod_beta)
  show "hmac_ready key (fst (snd (hmac_compute s d n r)))"
    using assms by (simp add: hmac_compute_def hmac_update_def Let_def hmac_consumed_def hmac_ready_def case_prod_beta)
qed

interpretation hmac: auth_contract "hmac_ready key" "hmac_consumed key" "\<lambda>s. snd (hmac_start s)"
  "\<lambda>s d. snd (hmac_update s d)" "\<lambda>s d n. snd (snd (hmac_compute s d n []))" "HMAC_SHA1 key" "2 ^ 29 - 64" for key
proof unfold_locales
  show "hmac_ready key s \<Longrightarrow> hmac_consumed key (snd (hmac_start s)) []" for s
    by (simp add: hmac_consumed_def hmac_ready_def hmac_start_def)
  show "hmac_consumed key s m \<Longrightarrow> hmac_consumed key (snd (hmac_update s d)) (m @ d)" for s m d
    using sha1_update_consumed[of "key_pad 0x36 key @ m" "h_ctx s" d]
    by (simp add: hmac_consumed_def hmac_ready_def hmac_update_def)
  show "hmac_consumed key s m \<Longrightarrow> length (m @ d) < 2 ^ 29 - 64 \<Longrightarrow> n \<le> 20 \<Longrightarrow>
      snd (snd (hmac_compute s d n [])) = take n (HMAC_SHA1 key (m @ d))" for s m d n
    using hmac_compute_consumed(2)[of key s m d n "[]"] by simp
qed

section \<open>The generic layer on HMAC\<close>

lemma auth_updates_hmac:
  "auth_st a = Hmac_state s \<Longrightarrow>
   fold (\<lambda>d a. snd (auth_update a d)) ds a = a\<lparr>auth_st := Hmac_state (fold (\<lambda>d s. snd (hmac_update s d)) ds s)\<rparr>"
proof (induction ds arbitrary: a s)
  case (Cons d ds)
  have "auth_st (snd (auth_update a d)) = Hmac_state (snd (hmac_update s d))"
    "snd (auth_update a d) = a\<lparr>auth_st := Hmac_state (snd (hmac_update s d))\<rparr>"
    using Cons.prems by (simp_all add: auth_update_def add: case_prod_beta)
  then show ?case using Cons.IH by simp
qed simp

text \<open>C19. An HMAC object that is allocated with the lengths of a key and a tag, keyed, started, fed a message in
  any pieces and asked for the tag over a last piece, writes the leading octets of HMAC-SHA1 of the
  concatenation to the front of the tag buffer and leaves the rest of the buffer alone, whatever the allocated
  memory held.\<close>

theorem auth_hmac_correct:
  assumes "auth_type_alloc hmac_kind mem junk ts (length key) olen = (Inr a, ts')"
    and "length (sc_M (h_init_ctx junk)) = 64" "length (concat ds @ d) < 2 ^ 29 - 64"
  shows "fst (auth_init a key) = err_status_ok
    \<and> (let a1 = fold (\<lambda>d a. snd (auth_update a d)) ds (snd (auth_start (snd (auth_init a key))))
       in fst (auth_compute a1 d res) = err_status_ok
        \<and> snd (snd (auth_compute a1 d res)) = take olen (HMAC_SHA1 key (concat ds @ d)) @ drop olen res)"
proof -
  have a: "a = \<lparr>auth_type = hmac_kind, auth_st = Hmac_state junk, out_len = olen, auth_key_len = length key, prefix_len = 0\<rparr>"
    "length key \<le> 20" "olen \<le> 20"
    using assms(1) by (auto simp: auth_type_alloc_def hmac_alloc_def split: if_splits)
  let ?s0 = "snd (hmac_init junk key)"
  let ?s1 = "fold (\<lambda>d s. snd (hmac_update s d)) ds (snd (hmac_start ?s0))"
  have i: "fst (hmac_init junk key) = err_status_ok" "hmac_ready key ?s0"
    using hmac_init_ready[OF assms(2) a(2)] by (simp_all add: hmac_consumed_def)
  then have c: "hmac_consumed key ?s1 (concat ds)"
    using hmac.updates_consumed[OF hmac.start_ready] by fastforce
  have ai: "auth_init a key = (err_status_ok, a\<lparr>auth_st := Hmac_state ?s0\<rparr>)"
    using i(1) by (simp add: auth_init_def a add: case_prod_beta)
  have as: "snd (auth_start (a\<lparr>auth_st := Hmac_state ?s0\<rparr>)) = a\<lparr>auth_st := Hmac_state (snd (hmac_start ?s0))\<rparr>"
    by (simp add: auth_start_def add: case_prod_beta)
  show ?thesis unfolding Let_def
    using hmac_compute_consumed[OF c assms(3) a(3)] auth_updates_hmac[of "a\<lparr>auth_st := Hmac_state (snd (hmac_start ?s0))\<rparr>"]
    by (simp add: ai as auth_compute_def add: case_prod_beta) (simp add: a)
qed

definition zero_sha1_ctx :: sha1_ctx where
  "zero_sha1_ctx = \<lparr>sc_H = [0, 0, 0, 0, 0], sc_M = replicate 64 0, octets_in_buffer = 0, num_bits_in_msg = 0\<rparr>"

definition zero_hmac_ctx :: hmac_ctx where
  "zero_hmac_ctx = \<lparr>opad = replicate 64 0, h_ctx = zero_sha1_ctx, h_init_ctx = zero_sha1_ctx\<rparr>"

theorem auth_hmac_correct_witness:
  "\<exists>a. auth_type_alloc hmac_kind True zero_hmac_ctx \<lparr>hmac_ref_count = 0, null_auth_ref_count = 0\<rparr> 2 10
      = (Inr a, \<lparr>hmac_ref_count = 1, null_auth_ref_count = 0\<rparr>)
    \<and> snd (snd (auth_compute (fold (\<lambda>d a. snd (auth_update a d)) [[1], [2, 3]] (snd (auth_start (snd (auth_init a [7, 8]))))) [4] []))
      = take 10 (HMAC_SHA1 [7, 8] [1, 2, 3, 4])"
proof -
  obtain a where a: "auth_type_alloc hmac_kind True zero_hmac_ctx \<lparr>hmac_ref_count = 0, null_auth_ref_count = 0\<rparr> 2 10
      = (Inr a, \<lparr>hmac_ref_count = 1, null_auth_ref_count = 0\<rparr>)"
    by (simp add: auth_type_alloc_def hmac_alloc_def)
  have "snd (snd (auth_compute (fold (\<lambda>d a. snd (auth_update a d)) [[1], [2, 3]] (snd (auth_start (snd (auth_init a [7, 8]))))) [4] []))
      = take 10 (HMAC_SHA1 [7, 8] [1, 2, 3, 4])"
    using auth_hmac_correct[of True zero_hmac_ctx "\<lparr>hmac_ref_count = 0, null_auth_ref_count = 0\<rparr>" "[7, 8]" 10 a _ "[[1], [2, 3]]" "[4]" "[]"]
      a[unfolded numeral_2_eq_2]
    by (simp add: Let_def) (simp add: zero_hmac_ctx_def zero_sha1_ctx_def)
  with a show ?thesis by blast
qed

section \<open>The self test\<close>

lemma auth_kind_kept [simp]:
  "auth_type (snd (auth_init a key)) = auth_type a"
  "auth_type (fst (snd (auth_compute a d r))) = auth_type a"
  by (auto simp: auth_init_def auth_compute_def case_prod_beta split: auth_state.splits)

lemma alloc_dealloc:
  assumes "auth_type_alloc at mem junk ts klen olen = (Inr a, ts')" "auth_type b = auth_type a"
  shows "auth_dealloc b ts' = (err_status_ok, ts)"
  using assms
  by (cases at) (auto simp: auth_type_alloc_def hmac_alloc_def null_auth_alloc_def auth_dealloc_def hmac_dealloc_def
      null_auth_dealloc_def split: if_splits)

lemma alloc_fails:
  "auth_type_alloc at mem junk ts klen olen = (Inl st, ts') \<Longrightarrow> ts' = ts \<and> st \<noteq> err_status_ok"
  by (cases at) (auto simp: auth_type_alloc_def hmac_alloc_def null_auth_alloc_def split: if_splits)

text \<open>What a single test case demands.\<close>

definition auth_case_passes :: "auth_kind \<Rightarrow> bool \<Rightarrow> auth_test_case \<Rightarrow> bool" where
  "auth_case_passes at mem tc \<longleftrightarrow> mem \<and>
    (case at of
       hmac_kind \<Rightarrow> length (atc_key tc) \<le> 20 \<and> length (atc_tag tc) \<le> 20
         \<and> atc_tag tc = take (length (atc_tag tc)) (HMAC_SHA1 (atc_key tc) (atc_data tc))
     | null_auth_kind \<Rightarrow> length (atc_tag tc) \<le> 32 \<and> atc_tag tc = replicate (length (atc_tag tc)) 0)"

lemma hmac_case_tag:
  assumes "auth_type_alloc hmac_kind mem junk ts (length key) olen = (Inr a, ts')"
    and "length (sc_M (h_init_ctx junk)) = 64" "length d < 2 ^ 29 - 64"
  shows "auth_init a key = (err_status_ok, snd (auth_init a key))
    \<and> fst (auth_compute (snd (auth_init a key)) d res) = err_status_ok
    \<and> snd (snd (auth_compute (snd (auth_init a key)) d res)) = take olen (HMAC_SHA1 key d) @ drop olen res"
proof -
  have a: "a = \<lparr>auth_type = hmac_kind, auth_st = Hmac_state junk, out_len = olen, auth_key_len = length key, prefix_len = 0\<rparr>"
    "length key \<le> 20" "olen \<le> 20"
    using assms(1) by (auto simp: auth_type_alloc_def hmac_alloc_def split: if_splits)
  note i = hmac_init_ready[OF assms(2) a(2)]
  show ?thesis using hmac_compute_consumed[OF i(2) _ a(3), of d res] i(1) assms(3)
    by (simp add: auth_init_def auth_compute_def a add: case_prod_beta) 
qed

lemma self_test_step:
  assumes "length (sc_M (h_init_ctx (junk n))) = 64" "length (atc_data tc) < 2 ^ 29 - 64"
  shows "if auth_case_passes at (mem n) tc
    then auth_self_test_loop at mem junk (tc # rest) n ts = auth_self_test_loop at mem junk rest (Suc n) ts
    else fst (auth_self_test_loop at mem junk (tc # rest) n ts) \<noteq> err_status_ok
      \<and> snd (auth_self_test_loop at mem junk (tc # rest) n ts) = ts"
proof (cases "length (atc_tag tc) > 32")
  case True
  then show ?thesis by (simp add: auth_case_passes_def split: auth_kind.splits)
next
  case False
  obtain x ts' where alloc: "auth_type_alloc at (mem n) (junk n) ts (length (atc_key tc)) (length (atc_tag tc)) = (x, ts')"
    by fastforce
  show ?thesis
  proof (cases x)
    case (Inl st)
    have "\<not> auth_case_passes at (mem n) tc" using alloc False Inl
      by (auto simp: auth_case_passes_def auth_type_alloc_def hmac_alloc_def null_auth_alloc_def
          split: auth_kind.splits if_splits)
    then show ?thesis using alloc False Inl alloc_fails[of at "mem n" "junk n" ts] by simp
  next
    case (Inr a)
    show ?thesis
    proof (cases at)
      case hmac_kind
      have len: "mem n" "length (atc_key tc) \<le> 20" "length (atc_tag tc) \<le> 20"
        using alloc Inr hmac_kind by (auto simp: auth_type_alloc_def hmac_alloc_def split: if_splits)
      obtain b where b: "auth_init a (atc_key tc) = (err_status_ok, b)" "auth_type b = auth_type a"
        using hmac_case_tag[of "mem n" "junk n" ts "atc_key tc" "length (atc_tag tc)" a ts' "atc_data tc"] alloc Inr hmac_kind assms
          auth_kind_kept(1) by metis
      obtain c where c: "auth_compute b (atc_data tc) (replicate (length (atc_tag tc)) 0)
          = (err_status_ok, c, take (length (atc_tag tc)) (HMAC_SHA1 (atc_key tc) (atc_data tc)))" "auth_type c = auth_type a"
        using hmac_case_tag[of "mem n" "junk n" ts "atc_key tc" "length (atc_tag tc)" a ts' "atc_data tc" "replicate (length (atc_tag tc)) 0"]
          alloc Inr hmac_kind assms b auth_kind_kept(2)[of b "atc_data tc" "replicate (length (atc_tag tc)) 0"]
        by (cases "auth_compute b (atc_data tc) (replicate (length (atc_tag tc)) 0)") auto
      show ?thesis using False alloc Inr b c len hmac_kind alloc_dealloc[OF alloc[unfolded Inr], of c]
        by (auto simp: auth_case_passes_def)
    next
      case null_auth_kind
      then show ?thesis using False alloc Inr alloc_dealloc[OF alloc[unfolded Inr]]
        by (auto simp: auth_type_alloc_def null_auth_alloc_def auth_init_def auth_compute_def null_auth_init_def
            null_auth_compute_def auth_case_passes_def split: if_splits)
    qed
  qed
qed

text \<open>The self test of an authentication type answers \<open>err_status_ok\<close> exactly when there is a test case and
  every test case passes: for HMAC that its allocation succeeds, its key and tag have at most 20 octets, and its tag
  is the prefix of HMAC-SHA1 of its data; for the null function that its tag is zero. Whatever it answers, every
  object it allocated has been released: the reference counts are those of before.\<close>

theorem auth_self_test_correct:
  assumes "\<And>i. length (sc_M (h_init_ctx (junk i))) = 64" "\<And>tc. tc \<in> set tests \<Longrightarrow> length (atc_data tc) < 2 ^ 29 - 64"
  shows "(fst (auth_type_self_test at mem junk tests ts) = err_status_ok \<longleftrightarrow>
      tests \<noteq> [] \<and> (\<forall>i < length tests. auth_case_passes at (mem i) (tests ! i)))
    \<and> snd (auth_type_self_test at mem junk tests ts) = ts"
proof -
  have "(fst (auth_self_test_loop at mem junk tests n ts) = err_status_ok \<longleftrightarrow>
       (\<forall>i < length tests. auth_case_passes at (mem (n + i)) (tests ! i)))
      \<and> snd (auth_self_test_loop at mem junk tests n ts) = ts" for n
    using assms(2)
  proof (induction tests arbitrary: n)
    case (Cons tc rest)
    then show ?case using self_test_step[of junk n tc at mem rest ts, OF assms(1)] Cons.IH[of "Suc n"]
      by (cases "auth_case_passes at (mem n) tc") (auto simp: All_less_Suc2 simp del: auth_self_test_loop.simps)
  qed simp
  from this[of 0] show ?thesis by (auto simp: auth_type_self_test_def)
qed

theorem auth_self_test_correct_witness:
  "auth_type_self_test null_auth_kind (\<lambda>_. True) (\<lambda>_. zero_hmac_ctx) [null_auth_test_case_0]
     \<lparr>hmac_ref_count = 4, null_auth_ref_count = 2\<rparr> = (err_status_ok, \<lparr>hmac_ref_count = 4, null_auth_ref_count = 2\<rparr>)"
  using auth_self_test_correct[of "\<lambda>_. zero_hmac_ctx" "[null_auth_test_case_0]" null_auth_kind "\<lambda>_. True"
      "\<lparr>hmac_ref_count = 4, null_auth_ref_count = 2\<rparr>"]
  by (simp add: zero_hmac_ctx_def zero_sha1_ctx_def null_auth_test_case_0_def auth_case_passes_def prod_eq_iff)

end
