(* ===== verification/Srtp_Kernel.thy ===== *)
theory Srtp_Kernel
  imports Srtp_Cipher_Type Srtp_Auth
begin

text \<open>
  The crypto kernel of libSRTP, \<open>crypto/kernel/crypto_kernel.c\<close> and \<open>crypto/include/crypto_kernel.h\<close>: the lists of
  cipher types, authentication functions and debug modules, the two security states, the start with its tests, and the
  allocation of ciphers and authentication functions by identifier.

  The record \<open>kernel_env\<close> gives what the kernel calls: the self tests of the types (for the types of this library
  these are \<open>cipher_type_self_test\<close> and \<open>auth_type_self_test\<close> of the two theories below, applied to their test
  data), the statuses of the random sources and of their statistical tests, and whether the n-th allocation of a list
  node succeeds. The linked lists are lists with the newest element first; a debug module is identified by its name.
\<close>

section \<open>Data\<close>

datatype crypto_kernel_state = crypto_kernel_state_insecure | crypto_kernel_state_secure

definition NULL_CIPHER :: u32 where "NULL_CIPHER = 0"
definition AES_128_ICM :: u32 where "AES_128_ICM = 1"
definition AES_128_CBC :: u32 where "AES_128_CBC = 3"
definition NULL_AUTH :: u32 where "NULL_AUTH = 0"
definition HMAC_SHA1_ID :: u32 where "HMAC_SHA1_ID = 3"

lemmas crypto_ids = NULL_CIPHER_def AES_128_ICM_def AES_128_CBC_def NULL_AUTH_def HMAC_SHA1_ID_def

record crypto_kernel =
  ck_state :: crypto_kernel_state
  cipher_type_list :: "(u32 \<times> cipher_kind) list"
  auth_type_list :: "(u32 \<times> auth_kind) list"
  debug_module_list :: "string list"
  debug_on :: "string \<Rightarrow> bool"
  ck_ctypes :: cipher_types
  ck_atypes :: auth_types
  ck_allocs :: nat

record kernel_env =
  cipher_test :: "cipher_kind \<Rightarrow> cipher_types \<Rightarrow> (err_status \<times> cipher_types) option"
  auth_test :: "auth_kind \<Rightarrow> auth_types \<Rightarrow> err_status \<times> auth_types"
  node_mem :: "nat \<Rightarrow> bool"
  err_reporting_init :: err_status
  rand_source_init :: err_status
  rand_source_test :: err_status
  ctr_prng_init :: err_status
  ctr_prng_test :: err_status
  rand_source_deinit :: err_status

definition crypto_kernel_start :: "cipher_types \<Rightarrow> auth_types \<Rightarrow> crypto_kernel" where
  "crypto_kernel_start cts ats =
    \<lparr>ck_state = crypto_kernel_state_insecure, cipher_type_list = [], auth_type_list = [], debug_module_list = [],
     debug_on = (\<lambda>_. False), ck_ctypes = cts, ck_atypes = ats, ck_allocs = 0\<rparr>"

text \<open>The debug module of each type.\<close>

definition cipher_debug :: "cipher_kind \<Rightarrow> string option" where
  "cipher_debug ct = (case ct of null_cipher_kind \<Rightarrow> None | aes_icm_kind \<Rightarrow> Some ''aes icm'' | aes_cbc_kind \<Rightarrow> Some ''aes cbc'')"

definition auth_debug :: "auth_kind \<Rightarrow> string option" where
  "auth_debug at = (case at of hmac_kind \<Rightarrow> Some ''hmac sha-1'' | null_auth_kind \<Rightarrow> None)"

section \<open>Loading\<close>

definition crypto_kernel_load_debug_module :: "kernel_env \<Rightarrow> string \<Rightarrow> crypto_kernel \<Rightarrow> err_status \<times> crypto_kernel" where
  "crypto_kernel_load_debug_module env new_dm k =
    (if list_ex (\<lambda>m. take 64 new_dm = take 64 m) (debug_module_list k) then (err_status_bad_param, k)
     else let n = ck_allocs k; k = k\<lparr>ck_allocs := n + 1\<rparr> in
       if \<not> node_mem env n then (err_status_alloc_fail, k)
       else (err_status_ok, k\<lparr>debug_module_list := new_dm # debug_module_list k\<rparr>))"

definition load_debug_of :: "kernel_env \<Rightarrow> string option \<Rightarrow> crypto_kernel \<Rightarrow> crypto_kernel" where
  "load_debug_of env dm k = (case dm of None \<Rightarrow> k | Some m \<Rightarrow> snd (crypto_kernel_load_debug_module env m k))"

definition crypto_kernel_load_cipher_type ::
    "kernel_env \<Rightarrow> cipher_kind \<Rightarrow> u32 \<Rightarrow> crypto_kernel \<Rightarrow> (err_status \<times> crypto_kernel) option" where
  "crypto_kernel_load_cipher_type env new_ct i k = do {
     (status, cts) \<leftarrow> cipher_test env new_ct (ck_ctypes k);
     let k = k\<lparr>ck_ctypes := cts\<rparr>;
     if status \<noteq> err_status_ok then Some (status, k)
     else if list_ex (\<lambda>(j, ct). new_ct = ct \<or> i = j) (cipher_type_list k) then Some (err_status_bad_param, k)
     else do {
       let n = ck_allocs k;
       let k = k\<lparr>ck_allocs := n + 1\<rparr>;
       if \<not> node_mem env n then Some (err_status_alloc_fail, k)
       else Some (err_status_ok, load_debug_of env (cipher_debug new_ct)
              (k\<lparr>cipher_type_list := (i, new_ct) # cipher_type_list k\<rparr>)) }}"

definition crypto_kernel_load_auth_type ::
    "kernel_env \<Rightarrow> auth_kind \<Rightarrow> u32 \<Rightarrow> crypto_kernel \<Rightarrow> (err_status \<times> crypto_kernel) option" where
  "crypto_kernel_load_auth_type env new_at i k = do {
     let (status, ats) = auth_test env new_at (ck_atypes k);
     let k = k\<lparr>ck_atypes := ats\<rparr>;
     if status \<noteq> err_status_ok then Some (status, k)
     else if list_ex (\<lambda>(j, at). new_at = at \<or> i = j) (auth_type_list k) then Some (err_status_bad_param, k)
     else do {
       let n = ck_allocs k;
       let k = k\<lparr>ck_allocs := n + 1\<rparr>;
       if \<not> node_mem env n then Some (err_status_alloc_fail, k)
       else Some (err_status_ok, load_debug_of env (auth_debug new_at)
              (k\<lparr>auth_type_list := (i, new_at) # auth_type_list k\<rparr>)) }}"

definition crypto_kernel_set_debug_module :: "string \<Rightarrow> bool \<Rightarrow> crypto_kernel \<Rightarrow> err_status \<times> crypto_kernel" where
  "crypto_kernel_set_debug_module name on k =
    (case find (\<lambda>m. take 64 name = take 64 m) (debug_module_list k) of
       Some m \<Rightarrow> (err_status_ok, k\<lparr>debug_on := (debug_on k)(m := on)\<rparr>)
     | None \<Rightarrow> (err_status_fail, k))"

section \<open>Lookup and allocation\<close>

definition crypto_kernel_get_cipher_type :: "u32 \<Rightarrow> crypto_kernel \<Rightarrow> cipher_kind option" where
  "crypto_kernel_get_cipher_type i k = map_of (cipher_type_list k) i"

definition crypto_kernel_get_auth_type :: "u32 \<Rightarrow> crypto_kernel \<Rightarrow> auth_kind option" where
  "crypto_kernel_get_auth_type i k = map_of (auth_type_list k) i"

text \<open>\<open>mem\<close> and \<open>junk\<close> describe the allocation, as in the generic layers.\<close>

definition crypto_kernel_alloc_cipher ::
    "crypto_kernel \<Rightarrow> u32 \<Rightarrow> bool \<Rightarrow> cipher_junk \<Rightarrow> nat \<Rightarrow> (err_status + cipher) \<times> crypto_kernel" where
  "crypto_kernel_alloc_cipher k i mem junk key_len =
    (if ck_state k \<noteq> crypto_kernel_state_secure then (Inl err_status_init_fail, k)
     else case crypto_kernel_get_cipher_type i k of
       None \<Rightarrow> (Inl err_status_fail, k)
     | Some ct \<Rightarrow> (let (r, cts) = cipher_type_alloc ct mem junk (ck_ctypes k) key_len in (r, k\<lparr>ck_ctypes := cts\<rparr>)))"

definition crypto_kernel_alloc_auth ::
    "crypto_kernel \<Rightarrow> u32 \<Rightarrow> bool \<Rightarrow> hmac_ctx \<Rightarrow> nat \<Rightarrow> nat \<Rightarrow> (err_status + auth) \<times> crypto_kernel" where
  "crypto_kernel_alloc_auth k i mem junk key_len tag_len =
    (if ck_state k \<noteq> crypto_kernel_state_secure then (Inl err_status_init_fail, k)
     else case crypto_kernel_get_auth_type i k of
       None \<Rightarrow> (Inl err_status_fail, k)
     | Some at \<Rightarrow> (let (r, ats) = auth_type_alloc at mem junk (ck_atypes k) key_len tag_len in (r, k\<lparr>ck_atypes := ats\<rparr>)))"

text \<open>\<open>prng\<close> is the generator \<open>ctr_prng_get_octet_string\<close>.\<close>

definition crypto_get_random :: "(nat \<Rightarrow> err_status \<times> u8 list) \<Rightarrow> crypto_kernel \<Rightarrow> u8 list \<Rightarrow> nat \<Rightarrow> err_status \<times> u8 list" where
  "crypto_get_random prng k buffer n =
    (if ck_state k = crypto_kernel_state_secure then prng n else (err_status_fail, buffer))"

section \<open>Status, start and shutdown\<close>

text \<open>The tests that \<open>crypto_kernel_status\<close> runs: \<open>Inl\<close> is the status with which the process exits.\<close>

fun status_ciphers :: "kernel_env \<Rightarrow> cipher_kind list \<Rightarrow> cipher_types \<Rightarrow> (err_status + cipher_types) option" where
  "status_ciphers env [] cts = Some (Inr cts)"
| "status_ciphers env (ct # rest) cts = do {
     (status, cts) \<leftarrow> cipher_test env ct cts;
     if status \<noteq> err_status_ok then Some (Inl status) else status_ciphers env rest cts }"

fun status_auths :: "kernel_env \<Rightarrow> auth_kind list \<Rightarrow> auth_types \<Rightarrow> err_status + auth_types" where
  "status_auths env [] ats = Inr ats"
| "status_auths env (at # rest) ats =
    (let (status, ats) = auth_test env at ats in
     if status \<noteq> err_status_ok then Inl status else status_auths env rest ats)"

definition crypto_kernel_status :: "kernel_env \<Rightarrow> crypto_kernel \<Rightarrow> (err_status + (err_status \<times> crypto_kernel)) option" where
  "crypto_kernel_status env k =
    (if rand_source_test env \<noteq> err_status_ok
     then Some (Inr (rand_source_test env, k\<lparr>ck_state := crypto_kernel_state_insecure\<rparr>))
     else do {
       r \<leftarrow> status_ciphers env (map snd (cipher_type_list k)) (ck_ctypes k);
       case r of Inl status \<Rightarrow> Some (Inl status)
       | Inr cts \<Rightarrow>
         (case status_auths env (map snd (auth_type_list k)) (ck_atypes k) of Inl status \<Rightarrow> Some (Inl status)
          | Inr ats \<Rightarrow> Some (Inr (err_status_ok, k\<lparr>ck_ctypes := cts, ck_atypes := ats\<rparr>))) })"

text \<open>The steps of the start, run in order until one fails.\<close>

fun run_steps ::
    "(crypto_kernel \<Rightarrow> (err_status \<times> crypto_kernel) option) list \<Rightarrow> crypto_kernel \<Rightarrow> (err_status \<times> crypto_kernel) option" where
  "run_steps [] k = Some (err_status_ok, k)"
| "run_steps (f # fs) k = do {
     (status, k) \<leftarrow> f k;
     if status \<noteq> err_status_ok then Some (status, k) else run_steps fs k }"

definition kernel_modules :: "string list" where
  "kernel_modules = [''crypto kernel'', ''auth func'', ''cipher'', ''stat test'', ''alloc'']"

definition kernel_init_steps :: "kernel_env \<Rightarrow> (crypto_kernel \<Rightarrow> (err_status \<times> crypto_kernel) option) list" where
  "kernel_init_steps env =
    [\<lambda>k. Some (err_reporting_init env, k)]
    @ map (\<lambda>m k. Some (crypto_kernel_load_debug_module env m k)) kernel_modules
    @ [\<lambda>k. Some (rand_source_init env, k), \<lambda>k. Some (rand_source_test env, k),
       \<lambda>k. Some (ctr_prng_init env, k), \<lambda>k. Some (ctr_prng_test env, k),
       crypto_kernel_load_cipher_type env null_cipher_kind NULL_CIPHER,
       crypto_kernel_load_cipher_type env aes_icm_kind AES_128_ICM,
       crypto_kernel_load_cipher_type env aes_cbc_kind AES_128_CBC,
       crypto_kernel_load_auth_type env null_auth_kind NULL_AUTH,
       crypto_kernel_load_auth_type env hmac_kind HMAC_SHA1_ID]"

definition crypto_kernel_init :: "kernel_env \<Rightarrow> crypto_kernel \<Rightarrow> (err_status + (err_status \<times> crypto_kernel)) option" where
  "crypto_kernel_init env k =
    (if ck_state k = crypto_kernel_state_secure then crypto_kernel_status env k
     else do {
       (status, k) \<leftarrow> run_steps (kernel_init_steps env) k;
       if status \<noteq> err_status_ok then Some (Inr (status, k))
       else Some (Inr (err_status_ok, k\<lparr>ck_state := crypto_kernel_state_secure\<rparr>)) })"

definition crypto_kernel_shutdown :: "kernel_env \<Rightarrow> crypto_kernel \<Rightarrow> err_status \<times> crypto_kernel" where
  "crypto_kernel_shutdown env k =
    (let k = k\<lparr>cipher_type_list := [], auth_type_list := [], debug_module_list := []\<rparr> in
     if rand_source_deinit env \<noteq> err_status_ok then (rand_source_deinit env, k)
     else (err_status_ok, k\<lparr>ck_state := crypto_kernel_state_insecure\<rparr>))"

section \<open>Invariant of the kernel\<close>

text \<open>No identifier and no type is in a list twice, and no two modules have the same name; every change of the lists
  goes through the loading functions.\<close>

definition kernel_wf :: "crypto_kernel \<Rightarrow> bool" where
  "kernel_wf k \<longleftrightarrow>
     distinct (map fst (cipher_type_list k)) \<and> distinct (map snd (cipher_type_list k)) \<and>
     distinct (map fst (auth_type_list k)) \<and> distinct (map snd (auth_type_list k)) \<and>
     distinct (map (take 64) (debug_module_list k))"

inductive kernel_step :: "crypto_kernel \<Rightarrow> crypto_kernel \<Rightarrow> bool" where
  step_init: "crypto_kernel_init env k = Some (Inr (status, k')) \<Longrightarrow> kernel_step k k'"
| step_status: "crypto_kernel_status env k = Some (Inr (status, k')) \<Longrightarrow> kernel_step k k'"
| step_cipher: "crypto_kernel_load_cipher_type env ct i k = Some (status, k') \<Longrightarrow> kernel_step k k'"
| step_auth: "crypto_kernel_load_auth_type env at i k = Some (status, k') \<Longrightarrow> kernel_step k k'"
| step_debug: "crypto_kernel_load_debug_module env m k = (status, k') \<Longrightarrow> kernel_step k k'"
| step_set: "crypto_kernel_set_debug_module m on k = (status, k') \<Longrightarrow> kernel_step k k'"
| step_alloc_cipher: "crypto_kernel_alloc_cipher k i mem j n = (r, k') \<Longrightarrow> kernel_step k k'"
| step_alloc_auth: "crypto_kernel_alloc_auth k i mem h n t = (r, k') \<Longrightarrow> kernel_step k k'"
| step_shutdown: "crypto_kernel_shutdown env k = (status, k') \<Longrightarrow> kernel_step k k'"

lemma load_debug_wf [srtp_inv]:
  "crypto_kernel_load_debug_module env m k = (status, k') \<Longrightarrow> kernel_wf k \<Longrightarrow> kernel_wf k'"
  by (auto simp: crypto_kernel_load_debug_module_def kernel_wf_def Let_def list_ex_iff split: if_splits)

lemma load_debug_of_wf [srtp_inv]: "kernel_wf k \<Longrightarrow> kernel_wf (load_debug_of env dm k)"
  by (auto simp: load_debug_of_def intro: load_debug_wf[OF prod.collapse[symmetric]] split: option.splits)

lemma load_cipher_wf [srtp_inv]:
  assumes "crypto_kernel_load_cipher_type env ct i k = Some (status, k')" "kernel_wf k"
  shows "kernel_wf k'"
proof -
  obtain st cts where t: "cipher_test env ct (ck_ctypes k) = Some (st, cts)"
    using assms(1) by (auto simp: crypto_kernel_load_cipher_type_def split: bind_splits)
  have "\<not> list_ex (\<lambda>(j, c). ct = c \<or> i = j) (cipher_type_list k) \<Longrightarrow>
    kernel_wf (k\<lparr>ck_ctypes := cts, ck_allocs := Suc (ck_allocs k), cipher_type_list := (i, ct) # cipher_type_list k\<rparr>)"
    using assms(2) by (force simp: kernel_wf_def list_ex_iff)
  then show ?thesis using assms t
    by (auto simp: crypto_kernel_load_cipher_type_def Let_def intro!: load_debug_of_wf split: if_splits) (simp_all add: kernel_wf_def)
qed

lemma load_auth_wf [srtp_inv]:
  assumes "crypto_kernel_load_auth_type env at i k = Some (status, k')" "kernel_wf k"
  shows "kernel_wf k'"
proof -
  obtain st ats where t: "auth_test env at (ck_atypes k) = (st, ats)" by force
  have "\<not> list_ex (\<lambda>(j, a). at = a \<or> i = j) (auth_type_list k) \<Longrightarrow>
    kernel_wf (k\<lparr>ck_atypes := ats, ck_allocs := Suc (ck_allocs k), auth_type_list := (i, at) # auth_type_list k\<rparr>)"
    using assms(2) by (force simp: kernel_wf_def list_ex_iff)
  then show ?thesis using assms t
    by (auto simp: crypto_kernel_load_auth_type_def Let_def intro!: load_debug_of_wf split: if_splits) (simp_all add: kernel_wf_def)
qed

text \<open>A property that every step keeps holds after the steps of the start, whether they succeed or not.\<close>

lemma run_steps_keeps:
  assumes "run_steps fs k = Some (status, k')" "P k" "\<And>f k st k'. f \<in> set fs \<Longrightarrow> f k = Some (st, k') \<Longrightarrow> P k \<Longrightarrow> P k'"
  shows "P k'"
  using assms by (induction fs arbitrary: k) (auto split: bind_splits if_splits, blast+)

lemma kernel_init_step_cases:
  assumes "f \<in> set (kernel_init_steps env)"
  obtains st where "f = (\<lambda>k. Some (st, k))"
  | m where "f = (\<lambda>k. Some (crypto_kernel_load_debug_module env m k))"
  | ct i where "f = crypto_kernel_load_cipher_type env ct i"
  | at i where "f = crypto_kernel_load_auth_type env at i"
  using assms unfolding kernel_init_steps_def by auto

lemma init_steps_wf [srtp_inv]:
  assumes "run_steps (kernel_init_steps env) k = Some (status, k')" "kernel_wf k"
  shows "kernel_wf k'"
  using assms
proof (rule run_steps_keeps[where P = kernel_wf])
  fix f k st k' assume "f \<in> set (kernel_init_steps env)" "f k = Some (st, k')" "kernel_wf k"
  then show "kernel_wf k'"
    by (elim kernel_init_step_cases) (auto intro: srtp_inv dest: load_debug_wf)
qed

lemma status_wf [srtp_inv]: "crypto_kernel_status env k = Some (Inr (status, k')) \<Longrightarrow> kernel_wf k \<Longrightarrow> kernel_wf k'"
  by (auto simp: crypto_kernel_status_def kernel_wf_def split: if_splits bind_splits sum.splits)

lemma init_wf [srtp_inv]: "crypto_kernel_init env k = Some (Inr (status, k')) \<Longrightarrow> kernel_wf k \<Longrightarrow> kernel_wf k'"
  by (auto simp: crypto_kernel_init_def split: if_splits bind_splits dest: status_wf init_steps_wf)
     (auto simp: kernel_wf_def dest: init_steps_wf[unfolded kernel_wf_def])

lemma kernel_step_wf: "kernel_step k k' \<Longrightarrow> kernel_wf k \<Longrightarrow> kernel_wf k'"
proof (induction rule: kernel_step.induct)
  case (step_set m on k status k')
  then show ?case by (auto simp: crypto_kernel_set_debug_module_def kernel_wf_def split: option.splits)
next
  case (step_alloc_cipher k i mem j n r k')
  then show ?case by (auto simp: crypto_kernel_alloc_cipher_def kernel_wf_def split: if_splits option.splits prod.splits)
next
  case (step_alloc_auth k i mem h n t r k')
  then show ?case by (auto simp: crypto_kernel_alloc_auth_def kernel_wf_def split: if_splits option.splits prod.splits)
next
  case (step_shutdown env k status k')
  then show ?case by (auto simp: crypto_kernel_shutdown_def kernel_wf_def Let_def split: if_splits)
qed (blast intro: srtp_inv)+

lemma kernel_wf_start [srtp_inv]: "kernel_wf (crypto_kernel_start cts ats)"
  by (simp add: kernel_wf_def crypto_kernel_start_def)

lemma inj_on_map_of:
  assumes "distinct (map fst l)" "distinct (map snd l)"
  shows "inj_on (map_of l) (fst ` set l)"
  using assms by (force simp: inj_on_def distinct_map)

text \<open>C32. In every state that the operations of the kernel reach from the initial one, an identifier finds exactly the type it
  was loaded with, and no type is loaded under two identifiers.\<close>

theorem kernel_lookup:
  assumes "kernel_step\<^sup>*\<^sup>* (crypto_kernel_start cts ats) k"
  shows "(crypto_kernel_get_cipher_type i k = Some ct \<longleftrightarrow> (i, ct) \<in> set (cipher_type_list k)) \<and>
         (crypto_kernel_get_auth_type i k = Some at \<longleftrightarrow> (i, at) \<in> set (auth_type_list k)) \<and>
         inj_on (\<lambda>i. crypto_kernel_get_cipher_type i k) (fst ` set (cipher_type_list k)) \<and>
         inj_on (\<lambda>i. crypto_kernel_get_auth_type i k) (fst ` set (auth_type_list k))"
proof -
  have wf: "kernel_wf k"
    using assms by (induction rule: rtranclp_induct) (simp_all add: kernel_wf_start kernel_step_wf)
  show ?thesis using wf
    by (simp add: inj_on_map_of crypto_kernel_get_cipher_type_def crypto_kernel_get_auth_type_def kernel_wf_def map_of_eq_Some_iff)
qed

text \<open>An environment in which every test passes and all allocations succeed.\<close>

definition good_env :: kernel_env where
  "good_env = \<lparr>cipher_test = (\<lambda>ct cts. Some (err_status_ok, cts)), auth_test = (\<lambda>at ats. (err_status_ok, ats)),
     node_mem = (\<lambda>_. True), err_reporting_init = err_status_ok, rand_source_init = err_status_ok,
     rand_source_test = err_status_ok, ctr_prng_init = err_status_ok, ctr_prng_test = err_status_ok,
     rand_source_deinit = err_status_ok\<rparr>"

abbreviation zero_ctypes :: cipher_types where
  "zero_ctypes \<equiv> \<lparr>null_cipher_ref_count = 0, aes_icm_ref_count = 0, aes_cbc_ref_count = 0\<rparr>"

abbreviation zero_atypes :: auth_types where
  "zero_atypes \<equiv> \<lparr>hmac_ref_count = 0, null_auth_ref_count = 0\<rparr>"

abbreviation kernel0 :: crypto_kernel where "kernel0 \<equiv> crypto_kernel_start zero_ctypes zero_atypes"

definition kernel_ready :: crypto_kernel where
  "kernel_ready =
    \<lparr>ck_state = crypto_kernel_state_secure,
     cipher_type_list = [(AES_128_CBC, aes_cbc_kind), (AES_128_ICM, aes_icm_kind), (NULL_CIPHER, null_cipher_kind)],
     auth_type_list = [(HMAC_SHA1_ID, hmac_kind), (NULL_AUTH, null_auth_kind)],
     debug_module_list = [''hmac sha-1'', ''aes cbc'', ''aes icm'', ''alloc'', ''stat test'', ''cipher'', ''auth func'', ''crypto kernel''],
     debug_on = (\<lambda>_. False), ck_ctypes = zero_ctypes, ck_atypes = zero_atypes, ck_allocs = 13\<rparr>"

lemma init_good_env: "crypto_kernel_init good_env kernel0 = Some (Inr (err_status_ok, kernel_ready))"
  by (simp add: crypto_kernel_init_def crypto_kernel_start_def kernel_init_steps_def kernel_modules_def good_env_def
      crypto_kernel_load_debug_module_def crypto_kernel_load_cipher_type_def crypto_kernel_load_auth_type_def load_debug_of_def
      cipher_debug_def auth_debug_def crypto_ids kernel_ready_def)

theorem kernel_lookup_witness:
  "crypto_kernel_get_cipher_type AES_128_ICM kernel_ready = Some aes_icm_kind"
proof -
  have "kernel_step\<^sup>*\<^sup>* kernel0 kernel_ready"
    using kernel_step.step_init[OF init_good_env] by blast
  from kernel_lookup[OF this, of AES_128_ICM aes_icm_kind hmac_kind] show ?thesis by (simp add: kernel_ready_def)
qed

text \<open>No step of the start takes a module from the list or changes the state.\<close>

lemma load_debug_keeps:
  "crypto_kernel_load_debug_module env m k = (st, k') \<Longrightarrow>
   set (debug_module_list k) \<subseteq> set (debug_module_list k') \<and> ck_state k' = ck_state k"
  by (auto simp: crypto_kernel_load_debug_module_def Let_def split: if_splits)

lemma load_debug_of_keeps:
  "set (debug_module_list k) \<subseteq> set (debug_module_list (load_debug_of env dm k)) \<and> ck_state (load_debug_of env dm k) = ck_state k"
  using load_debug_keeps[OF prod.collapse[symmetric]] by (auto simp: load_debug_of_def split: option.splits)

lemma init_step_keeps:
  assumes "f \<in> set (kernel_init_steps env)" "f k = Some (st, k')"
  shows "set (debug_module_list k) \<subseteq> set (debug_module_list k') \<and> ck_state k' = ck_state k"
  using assms(1)
proof (cases rule: kernel_init_step_cases)
  case (3 ct i)
  then show ?thesis using assms(2) load_debug_of_keeps
    by (fastforce simp: crypto_kernel_load_cipher_type_def Let_def split: bind_splits if_splits)
next
  case (4 at i)
  then show ?thesis using assms(2) load_debug_of_keeps
    by (fastforce simp: crypto_kernel_load_auth_type_def Let_def split: prod.splits if_splits)
qed (use assms(2) load_debug_keeps in fastforce)+

lemma init_steps_keep:
  assumes "run_steps fs k = Some (st, k')" "set fs \<subseteq> set (kernel_init_steps env)"
  shows "set (debug_module_list k) \<subseteq> set (debug_module_list k') \<and> ck_state k' = ck_state k"
  using assms(1)
  by (rule run_steps_keeps[where P = "\<lambda>k1. set (debug_module_list k) \<subseteq> set (debug_module_list k1) \<and> ck_state k1 = ck_state k"])
     (use assms(2) init_step_keeps in fastforce)+

lemma init_steps_Cons:
  "kernel_init_steps env =
     (\<lambda>k. Some (err_reporting_init env, k)) # (\<lambda>k. Some (crypto_kernel_load_debug_module env ''crypto kernel'' k)) #
     drop 2 (kernel_init_steps env)"
  by (simp add: kernel_init_steps_def kernel_modules_def)

text \<open>A start of the kernel that fails leaves it insecure, so that no cipher and no authentication function can be allocated;
  and every later start fails too, because the first debug module is in the list already. Only a shutdown in between
  helps.\<close>

theorem kernel_init_retry_fails:
  assumes init: "crypto_kernel_init env (crypto_kernel_start cts ats) = Some (Inr (status, k))" "status \<noteq> err_status_ok"
    and first: "err_reporting_init env = err_status_ok" "node_mem env 0" and env': "err_reporting_init env' = err_status_ok"
  shows "crypto_kernel_alloc_cipher k i mem j n = (Inl err_status_init_fail, k) \<and>
         crypto_kernel_alloc_auth k i mem h n t = (Inl err_status_init_fail, k) \<and>
         crypto_kernel_init env' k = Some (Inr (err_status_bad_param, k))"
proof -
  let ?k0 = "crypto_kernel_start cts ats"
  let ?k1 = "?k0\<lparr>ck_allocs := 1, debug_module_list := [''crypto kernel'']\<rparr>"
  have "crypto_kernel_load_debug_module env ''crypto kernel'' ?k0 = (err_status_ok, ?k1)"
    using first(2) by (simp add: crypto_kernel_load_debug_module_def crypto_kernel_start_def)
  then have run: "run_steps (drop 2 (kernel_init_steps env)) ?k1 = Some (status, k)"
    using init first(1) unfolding crypto_kernel_init_def
    by (subst (asm) init_steps_Cons) (auto simp: crypto_kernel_start_def split: bind_splits if_splits)
  have keep: "''crypto kernel'' \<in> set (debug_module_list k)" "ck_state k = crypto_kernel_state_insecure"
    using init_steps_keep[OF run set_drop_subset] by (auto simp: crypto_kernel_start_def)
  then have "crypto_kernel_load_debug_module env' ''crypto kernel'' k = (err_status_bad_param, k)"
    by (auto simp: crypto_kernel_load_debug_module_def list_ex_iff)
  then have "run_steps (kernel_init_steps env') k = Some (err_status_bad_param, k)"
    using env' by (subst init_steps_Cons) simp
  then show ?thesis using keep(2)
    by (simp add: crypto_kernel_alloc_cipher_def crypto_kernel_alloc_auth_def crypto_kernel_init_def)
qed

theorem kernel_init_retry_fails_witness:
  "\<exists>k. crypto_kernel_init (good_env\<lparr>rand_source_init := err_status_init_fail\<rparr>) kernel0 = Some (Inr (err_status_init_fail, k)) \<and>
       crypto_kernel_init good_env k = Some (Inr (err_status_bad_param, k))"
proof -
  let ?e = "good_env\<lparr>rand_source_init := err_status_init_fail\<rparr>"
  obtain k where k: "crypto_kernel_init ?e kernel0 = Some (Inr (err_status_init_fail, k))"
    by (simp add: crypto_kernel_init_def crypto_kernel_start_def kernel_init_steps_def kernel_modules_def good_env_def
      crypto_kernel_load_debug_module_def)
  have "crypto_kernel_init good_env k = Some (Inr (err_status_bad_param, k))"
    by (rule kernel_init_retry_fails[OF k, THEN conjunct2, THEN conjunct2]) (simp_all add: good_env_def)
  then show ?thesis using k by blast
qed

end
