(* ===== verification/Srtp_Replay.thy ===== *)
theory Srtp_Replay
  imports Srtp_Err Srtp_Datatypes
begin

text \<open>
  The replay databases of libSRTP: \<open>crypto/replay/rdb.c\<close> (32-bit indices, used for SRTCP) and
  \<open>crypto/replay/rdbx.c\<close> (extended sequence numbers, used for SRTP), configured with 64-bit
  arithmetic. Operations that may touch memory outside the bitmask return
  \<^const>\<open>None\<close> in that case. A \<open>guess\<close> that the C code stores through a pointer is
  returned next to the function's result.
\<close>

section \<open>The database rdb\<close>

record rdb =
  window_start :: u32
  rdb_bitmask :: v128

definition rdb_init :: rdb where
  "rdb_init = \<lparr>window_start = 0, rdb_bitmask = v128_set_to_zero\<rparr>"

text \<open>\<open>rdb_bits_in_bitmask\<close> has type \<open>size_t\<close>, so the first comparison does not wrap.\<close>

definition rdb_check :: "rdb \<Rightarrow> u32 \<Rightarrow> err_status option" where
  "rdb_check r index =
    (if uint index \<ge> uint (window_start r) + 128 then Some err_status_ok
     else if index < window_start r then Some err_status_replay_old
     else (case v128_get_bit (rdb_bitmask r) (uint (index - window_start r)) of
             None \<Rightarrow> None
           | Some b \<Rightarrow> Some (if b = 1 then err_status_replay_fail else err_status_ok)))"

text \<open>\<open>delta\<close> is an \<open>int\<close>; it is compared with and reduced by a \<open>size_t\<close>, and the result
  is stored back into an \<open>int\<close>.\<close>

definition rdb_add_index :: "rdb \<Rightarrow> u32 \<Rightarrow> rdb option" where
  "rdb_add_index r index =
    (let delta = sint (index - window_start r) in
     if (word_of_int delta :: u64) < 128
     then (case v128_set_bit (rdb_bitmask r) delta of
             None \<Rightarrow> None
           | Some m \<Rightarrow> Some (r\<lparr>rdb_bitmask := m\<rparr>))
     else
       (let delta = sint (word_of_int (delta - 127) :: u32) in
        case v128_left_shift (rdb_bitmask r) delta of
          None \<Rightarrow> None
        | Some m \<Rightarrow>
            (case v128_set_bit m (128 - delta) of
               None \<Rightarrow> None
             | Some m \<Rightarrow>
                 Some (r\<lparr>rdb_bitmask := m, window_start := window_start r + word_of_int delta\<rparr>))))"

definition rdb_increment :: "rdb \<Rightarrow> err_status \<times> rdb" where
  "rdb_increment r =
    (if window_start r > 0x7fffffff then err_status_key_expired else err_status_ok,
     r\<lparr>window_start := window_start r + 1\<rparr>)"

definition rdb_get_value :: "rdb \<Rightarrow> u32" where
  "rdb_get_value r = window_start r"

section \<open>The extended database rdbx\<close>

type_synonym xtd_seq_num = u64
type_synonym sequence_number = u16

definition seq_num_median :: int where
  "seq_num_median = 0x8000"

definition seq_num_max :: int where
  "seq_num_max = 0x10000"

record rdbx =
  rdbx_index :: xtd_seq_num
  rdbx_bitmask :: v128

definition index_init :: xtd_seq_num where
  "index_init = 0"

definition index_advance :: "xtd_seq_num \<Rightarrow> sequence_number \<Rightarrow> xtd_seq_num" where
  "index_advance pi s = pi + ucast s"

definition index_guess :: "xtd_seq_num \<Rightarrow> sequence_number \<Rightarrow> int \<times> xtd_seq_num" where
  "index_guess local s =
    (let local_roc = ucast (drop_bit 16 local) :: u32;
         local_seq = ucast local :: u16;
         (guess_roc, difference) =
           (if uint local_seq < seq_num_median then
              (if uint s - uint local_seq > seq_num_median
               then (local_roc - 1, seq_num_max - uint s + uint local_seq)
               else (local_roc, uint s - uint local_seq))
            else
              (if uint local_seq - seq_num_median > uint s
               then (local_roc + 1, seq_num_max - uint local_seq + uint s)
               else (local_roc, uint s - uint local_seq)))
     in (difference, push_bit 16 (ucast guess_roc) OR ucast s))"

definition rdbx_init :: rdbx where
  "rdbx_init = \<lparr>rdbx_index = index_init, rdbx_bitmask = v128_set_to_zero\<rparr>"

definition rdbx_check :: "rdbx \<Rightarrow> int \<Rightarrow> err_status option" where
  "rdbx_check r delta =
    (if delta > 0 then Some err_status_ok
     else if 127 + delta < 0 then Some err_status_replay_old
     else (case v128_get_bit (rdbx_bitmask r) (127 + delta) of
             None \<Rightarrow> None
           | Some b \<Rightarrow> Some (if b = 1 then err_status_replay_fail else err_status_ok)))"

definition rdbx_add_index :: "rdbx \<Rightarrow> int \<Rightarrow> rdbx option" where
  "rdbx_add_index r delta =
    (if delta > 0
     then (case v128_left_shift (rdbx_bitmask r) delta of
             None \<Rightarrow> None
           | Some m \<Rightarrow>
               (case v128_set_bit m 127 of
                  None \<Rightarrow> None
                | Some m \<Rightarrow> Some \<lparr>rdbx_index = index_advance (rdbx_index r) (word_of_int delta),
                                  rdbx_bitmask = m\<rparr>))
     else (case v128_set_bit (rdbx_bitmask r) (- delta) of
             None \<Rightarrow> None
           | Some m \<Rightarrow> Some (r\<lparr>rdbx_bitmask := m\<rparr>)))"

definition rdbx_estimate_index :: "rdbx \<Rightarrow> sequence_number \<Rightarrow> int \<times> xtd_seq_num" where
  "rdbx_estimate_index r s =
    (if uint (rdbx_index r) > seq_num_median then index_guess (rdbx_index r) s
     else (uint s - uint (ucast (rdbx_index r) :: u16), ucast s))"

section \<open>What the databases record\<close>

definition rdbx_wf :: "rdbx \<Rightarrow> bool" where
  "rdbx_wf r \<longleftrightarrow> v128_wf (rdbx_bitmask r)"

definition rdbx_seen :: "rdbx \<Rightarrow> int set" where
  "rdbx_seen r = v128_window.seen (uint (rdbx_index r)) (rdbx_bitmask r)"

definition rdb_wf :: "rdb \<Rightarrow> bool" where
  "rdb_wf r \<longleftrightarrow> v128_wf (rdb_bitmask r)"

definition rdb_seen :: "rdb \<Rightarrow> int set" where
  "rdb_seen r = v128_window.seen (uint (window_start r) + 127) (rdb_bitmask r)"

lemma rdbx_wf_init [simp, srtp_inv]: "rdbx_wf rdbx_init"
  by (simp add: rdbx_wf_def rdbx_init_def)

lemma rdb_wf_init [simp, srtp_inv]: "rdb_wf rdb_init"
  by (simp add: rdb_wf_def rdb_init_def)

lemma seen_zero: "v128_window.seen hi v128_set_to_zero = {}"
  by (auto simp: v128_window.seen_def)

lemma rdbx_seen_init [simp]: "rdbx_seen rdbx_init = {}"
  by (simp add: rdbx_seen_def rdbx_init_def seen_zero)

lemma v128_get_bit_seen:
  assumes "0 \<le> b" "b < 128"
  shows "v128_get_bit m b = Some (of_bool (hi + b - 127 \<in> v128_window.seen hi m))"
  using assms by (simp add: v128_get_bit_eq v128_window.in_seen_iff)

section \<open>rdbx: checking and recording\<close>

lemma rdbx_check_seen:
  "rdbx_check r d = Some
    (if d > 0 then err_status_ok
     else if d < -127 then err_status_replay_old
     else if uint (rdbx_index r) + d \<in> rdbx_seen r then err_status_replay_fail
     else err_status_ok)"
  by (auto simp: rdbx_check_def rdbx_seen_def
      v128_get_bit_seen[of _ _ "uint (rdbx_index r)"])

lemma index_advance_uint:
  assumes "0 < d" "d < 65536" "uint pi + d < 2 ^ 64"
  shows "uint (index_advance pi (word_of_int d)) = uint pi + d"
proof -
  have "uint (ucast (word_of_int d :: u16) :: u64) = d"
    using assms(1,2) by (simp add: uint_up_ucast is_up uint_word_of_int)
  then show ?thesis
    using assms by (simp add: index_advance_def uint_word_ariths)
qed

lemma rdbx_add_forward:
  assumes "rdbx_wf r" "0 < d" "d < 65536" "uint (rdbx_index r) + d < 2 ^ 64"
  obtains r' where "rdbx_add_index r d = Some r'" "rdbx_wf r'"
    "uint (rdbx_index r') = uint (rdbx_index r) + d"
    "rdbx_seen r' = insert (uint (rdbx_index r) + d)
       {j \<in> rdbx_seen r. uint (rdbx_index r) + d - 128 < j}"
proof -
  from v128_window.push[of "rdbx_bitmask r" d "uint (rdbx_index r)"] assms(1,2)
  obtain s y where sy: "v128_left_shift (rdbx_bitmask r) d = Some s" "v128_set_bit s 127 = Some y"
    "v128_wf y" "v128_window.seen (uint (rdbx_index r) + d) y = insert (uint (rdbx_index r) + d)
       {j \<in> v128_window.seen (uint (rdbx_index r)) (rdbx_bitmask r). uint (rdbx_index r) + d - 128 < j}"
    by (auto simp: rdbx_wf_def)
  have i: "uint (index_advance (rdbx_index r) (word_of_int d)) = uint (rdbx_index r) + d"
    using assms by (intro index_advance_uint)
  show ?thesis
    by (rule that[of "\<lparr>rdbx_index = index_advance (rdbx_index r) (word_of_int d), rdbx_bitmask = y\<rparr>"])
      (use sy assms(2) i in \<open>simp_all add: rdbx_add_index_def rdbx_wf_def rdbx_seen_def\<close>)
qed

text \<open>C28. Recording the index at a positive difference (at most 65535, without leaving the 64-bit
  range) has defined behaviour, moves the highest index forward by the difference and records
  exactly the new index and the earlier indices that are still inside the 128-wide window.\<close>

theorem rdbx_add_refines:
  assumes "rdbx_wf r" "0 < d" "d < 65536" "uint (rdbx_index r) + d < 2 ^ 64"
  shows "\<exists>r'. rdbx_add_index r d = Some r' \<and> rdbx_wf r' \<and>
    uint (rdbx_index r') = uint (rdbx_index r) + d \<and>
    rdbx_seen r' = insert (uint (rdbx_index r) + d)
       {j \<in> rdbx_seen r. uint (rdbx_index r) + d - 128 < j}"
  by (rule rdbx_add_forward[OF assms]) blast

theorem rdbx_add_refines_witness:
  "\<exists>r'. rdbx_add_index rdbx_init 5 = Some r' \<and> rdbx_wf r' \<and>
    uint (rdbx_index r') = 5 \<and> rdbx_seen r' = {5}"
  using rdbx_add_refines[of rdbx_init 5] by (simp add: rdbx_init_def index_init_def rdbx_seen_def
     rdbx_wf_def seen_zero)

text \<open>A receiver that accepts a sequence of packets in order records the indices one after the
  other; \<open>accepted\<close> lists them.\<close>

fun rdbx_add_all :: "rdbx \<Rightarrow> int list \<Rightarrow> rdbx option" where
  "rdbx_add_all r [] = Some r"
| "rdbx_add_all r (d # ds) = (case rdbx_add_index r d of None \<Rightarrow> None | Some r' \<Rightarrow> rdbx_add_all r' ds)"

fun accepted :: "int \<Rightarrow> int list \<Rightarrow> int list" where
  "accepted i [] = []"
| "accepted i (d # ds) = (i + d) # accepted (i + d) ds"

lemma rdbx_add_all_recorded:
  assumes "rdbx_wf r" "\<forall>d \<in> set ds. 0 < d \<and> d < 65536" "uint (rdbx_index r) + sum_list ds < 2 ^ 64"
    and "J \<subseteq> {j. j \<le> uint (rdbx_index r) \<and> (uint (rdbx_index r) - 128 < j \<longrightarrow> j \<in> rdbx_seen r)}"
  shows "\<exists>r'. rdbx_add_all r ds = Some r' \<and> rdbx_wf r' \<and>
    uint (rdbx_index r') = uint (rdbx_index r) + sum_list ds \<and>
    J \<union> set (accepted (uint (rdbx_index r)) ds) \<subseteq>
      {j. j \<le> uint (rdbx_index r') \<and> (uint (rdbx_index r') - 128 < j \<longrightarrow> j \<in> rdbx_seen r')}"
  using assms
proof (induction ds arbitrary: r J)
  case Nil
  then show ?case by simp
next
  case (Cons d ds)
  have nn: "0 \<le> sum_list ds" using Cons.prems(2) by (intro sum_list_nonneg) auto
  obtain r1 where r1: "rdbx_add_index r d = Some r1" "rdbx_wf r1"
    "uint (rdbx_index r1) = uint (rdbx_index r) + d"
    "rdbx_seen r1 = insert (uint (rdbx_index r) + d)
       {j \<in> rdbx_seen r. uint (rdbx_index r) + d - 128 < j}"
    using rdbx_add_forward[of r d] Cons.prems nn by auto
  let ?J = "insert (uint (rdbx_index r) + d) J"
  have "?J \<subseteq> {j. j \<le> uint (rdbx_index r1) \<and> (uint (rdbx_index r1) - 128 < j \<longrightarrow> j \<in> rdbx_seen r1)}"
    using Cons.prems(2,4) r1(3,4) by auto
  then show ?case
    using Cons.IH[of r1 ?J] r1 Cons.prems by (auto simp: add.assoc)
qed

lemma estimate_exact:
  assumes "j \<le> uint (rdbx_index r)" "uint (rdbx_index r) div 65536 = j div 65536" "uint (rdbx_index r) - j \<le> 32768"
  shows "fst (rdbx_estimate_index r (word_of_int j)) = j - uint (rdbx_index r)"
proof -
  let ?n = "uint (rdbx_index r)"
  have v: "uint (ucast (rdbx_index r) :: u16) = ?n mod 65536" "uint (word_of_int j :: u16) = j mod 65536"
    by (simp_all add: unsigned_ucast_eq take_bit_eq_mod uint_word_of_int)
  have d: "j mod 65536 - ?n mod 65536 = j - ?n" using assms(2) by (simp add: minus_div_mult_eq_mod[symmetric])
  have "0 \<le> j mod 65536" by simp
  then show ?thesis using d assms(1,3)
    by (auto simp: rdbx_estimate_index_def index_guess_def Let_def seq_num_median_def v split: if_splits)
qed

text \<open>C13. Packets accepted in order cannot be replayed within their rollover period: after any sequence of positive
  differences recorded from the initial database, a packet with the sequence number of an index recorded on the way,
  looked up as a receiver does with \<open>rdbx_estimate_index\<close> and \<open>rdbx_check\<close>, is refused, as a replay or as too old.
  The index must belong to the rollover period of the highest index and lie at most 32768 below it: behind that the
  estimate takes the sequence number for another index.\<close>

theorem rdbx_in_order_no_replay:
  assumes "\<forall>d \<in> set ds. 0 < d \<and> d < 65536" "sum_list ds < 2 ^ 64" "j \<in> set (accepted 0 ds)"
    and "sum_list ds div 65536 = j div 65536" "sum_list ds - j \<le> 32768"
  shows "\<exists>r. rdbx_add_all rdbx_init ds = Some r \<and>
    rdbx_check r (fst (rdbx_estimate_index r (word_of_int j))) \<in> {Some err_status_replay_fail, Some err_status_replay_old}"
proof -
  have i0: "uint (rdbx_index rdbx_init) = 0" by (simp add: rdbx_init_def index_init_def)
  obtain r where r: "rdbx_add_all rdbx_init ds = Some r" "uint (rdbx_index r) = sum_list ds"
    "set (accepted 0 ds) \<subseteq> {j. j \<le> uint (rdbx_index r) \<and> (uint (rdbx_index r) - 128 < j \<longrightarrow> j \<in> rdbx_seen r)}"
    using rdbx_add_all_recorded[of rdbx_init ds "{}"] assms(1,2) i0 by auto
  then have "fst (rdbx_estimate_index r (word_of_int j)) = j - uint (rdbx_index r)"
    using assms(3-5) by (intro estimate_exact) auto
  then show ?thesis using assms(3) r by (auto simp: rdbx_check_seen)
qed

theorem rdbx_in_order_no_replay_witness:
  "\<exists>r. rdbx_add_all rdbx_init [3, 200, 1] = Some r \<and>
    rdbx_check r (fst (rdbx_estimate_index r 203)) \<in> {Some err_status_replay_fail, Some err_status_replay_old}"
  using rdbx_in_order_no_replay[of "[3, 200, 1]" 203] by simp

text \<open>C33. A late packet is not recorded at its own position: when \<open>rdbx_check\<close> accepts a
  negative difference inside the window and \<open>rdbx_add_index\<close> records it, a second check of the
  same difference accepts it again. The code checks bit \<open>127 + delta\<close> and sets bit
  \<open>-delta\<close>.\<close>

theorem rdbx_late_packet_replayable:
  assumes "rdbx_wf r" "-127 \<le> d" "d < 0" "rdbx_check r d = Some err_status_ok"
  shows "\<exists>r'. rdbx_add_index r d = Some r' \<and> rdbx_check r' d = Some err_status_ok"
proof -
  obtain y where y: "v128_set_bit (rdbx_bitmask r) (- d) = Some y"
    "\<And>i. i < 128 \<Longrightarrow> v128_bit y i \<longleftrightarrow> i = nat (- d) \<or> v128_bit (rdbx_bitmask r) i"
    using v128_set_bit_eq[of "rdbx_bitmask r" "- d"] assms by (auto simp: rdbx_wf_def)
  have "127 + d \<noteq> - d" by presburger
  then have "nat (127 + d) \<noteq> nat (- d)" using assms(2,3) by (simp add: eq_nat_nat_iff)
  moreover have "\<not> v128_bit (rdbx_bitmask r) (nat (127 + d))"
    using assms by (auto simp: rdbx_check_def v128_get_bit_eq split: if_splits)
  ultimately show ?thesis
    using assms y by (auto simp: rdbx_add_index_def rdbx_check_def v128_get_bit_eq)
qed

theorem rdbx_late_packet_replayable_witness:
  "\<exists>r'. rdbx_add_index (rdbx_init\<lparr>rdbx_index := 500\<rparr>) (-10) = Some r' \<and>
     rdbx_check r' (-10) = Some err_status_ok"
  by (rule rdbx_late_packet_replayable)
    (simp_all add: rdbx_init_def rdbx_wf_def rdbx_check_def v128_wf_def v128_get_bit_def v128_set_to_zero_def list4_nth)

section \<open>Index estimation\<close>

lemma uint_guess:
  fixes roc :: u32 and s :: u16
  shows "uint (push_bit 16 (ucast roc) OR ucast s :: u64) = 65536 * uint roc + uint s"
proof -
  have "(push_bit 16 (ucast roc) OR ucast s :: u64) = push_bit 16 (ucast roc) + ucast s"
    by (rule disjunctive_add_eq_or [symmetric], rule bit_eqI)
      (auto simp: bit_simps dest: bit_imp_le_length)
  moreover have "uint (ucast roc :: u64) = uint roc" "uint (ucast s :: u64) = uint s"
    by (simp_all add: uint_up_ucast is_up)
  moreover have "uint roc < 2 ^ 32" "uint s < 2 ^ 16"
    using uint_lt2p[of roc] uint_lt2p[of s] by auto
  ultimately show ?thesis
    by (simp add: push_bit_eq_mult uint_word_ariths)
qed

lemma split_index_mod:
  assumes "0 \<le> v" "v < (65536 :: int)"
  shows "(65536 * x + v) mod 2 ^ 48 = 65536 * (x mod 2 ^ 32) + v"
proof -
  have "(65536 * x + v) div 65536 = x" "(65536 * x + v) mod 65536 = v" using assms by simp_all
  then show ?thesis using zmod_zmult2_eq[of "2 ^ 32" "65536 * x + v" 65536] by simp
qed

lemma index_guess_cases:
  fixes local :: u64 and s :: u16
  defines "seq \<equiv> uint (ucast local :: u16)"
  shows "index_guess local s =
      (if seq < 32768 \<and> uint s - seq > 32768 then 65536 - uint s + seq
       else if seq \<ge> 32768 \<and> seq - 32768 > uint s then 65536 - seq + uint s
       else uint s - seq, snd (index_guess local s))"
    and "uint (snd (index_guess local s)) = (uint local - seq + uint s +
      (if seq < 32768 \<and> uint s - seq > 32768 then - 65536
       else if seq \<ge> 32768 \<and> seq - 32768 > uint s then 65536 else 0)) mod 2 ^ 48"
proof -
  define roc where "roc = (ucast (drop_bit 16 local) :: u32)"
  have seq: "seq = uint local mod 65536" by (simp add: seq_def unsigned_ucast_eq take_bit_eq_mod)
  have "uint roc = uint local div 65536 mod 2 ^ 32"
    by (simp add: roc_def unsigned_ucast_eq take_bit_eq_mod drop_bit_eq_div uint_div)
  then have roc: "uint (roc + word_of_int k) = (uint local div 65536 + k) mod 2 ^ 32" for k
    by (simp add: uint_word_ariths uint_word_of_int mod_simps)
  have "uint s < 65536" using uint_lt2p[of s] by simp
  then have g: "uint (push_bit 16 (ucast (roc + word_of_int k)) OR ucast s :: u64)
      = (uint local - seq + uint s + 65536 * k) mod 2 ^ 48" for k
    using split_index_mod[of "uint s" "uint local div 65536 + k"]
    by (simp add: uint_guess roc seq minus_mod_eq_mult_div algebra_simps)
  show "uint (snd (index_guess local s)) = (uint local - seq + uint s +
      (if seq < 32768 \<and> uint s - seq > 32768 then - 65536
       else if seq \<ge> 32768 \<and> seq - 32768 > uint s then 65536 else 0)) mod 2 ^ 48"
    using g[of "-1"] g[of 0] g[of 1]
    by (auto simp: index_guess_def Let_def seq_num_median_def seq_num_max_def roc_def[symmetric] seq_def[symmetric])
  show "index_guess local s =
      (if seq < 32768 \<and> uint s - seq > 32768 then 65536 - uint s + seq
       else if seq \<ge> 32768 \<and> seq - 32768 > uint s then 65536 - seq + uint s
       else uint s - seq, snd (index_guess local s))"
    by (auto simp: index_guess_def Let_def seq_num_median_def seq_num_max_def seq_def[symmetric])
qed

text \<open>C29. \<open>index_guess\<close> reconstructs the index as RFC 3711 asks, modulo \<open>2 ^ 48\<close>, the range of an index with a 32-bit
  rollover counter: the guess ends in the received sequence number and lies at most 32768 away from the highest index
  received so far, on either side; in particular it wraps around at both ends of the range, so that before the first
  rollover a high sequence number is taken for one of the period before index 0. The difference that is returned is
  this distance, except that it has the wrong sign when the guess lies in the rollover period before that of the highest
  index.\<close>

theorem index_guess_closest:
  "\<exists>d. uint (snd (index_guess local s)) = (uint local + d) mod 2 ^ 48
    \<and> uint (snd (index_guess local s)) mod 65536 = uint s \<and> \<bar>d\<bar> \<le> 32768
    \<and> fst (index_guess local s) = (if (uint local + d) div 65536 < uint local div 65536 then - d else d)"
proof -
  define seq where "seq = uint (ucast local :: u16)"
  define v where "v = uint s"
  define adj :: int where "adj = (if seq < 32768 \<and> v - seq > 32768 then - 65536
       else if seq \<ge> 32768 \<and> seq - 32768 > v then 65536 else 0)"
  have q: "0 \<le> seq" "seq < 65536" "0 \<le> v" "v < 65536"
    using uint_lt2p[of "ucast local :: u16"] uint_lt2p[of s] by (auto simp: seq_def v_def)
  have "seq = uint local mod 65536" by (simp add: seq_def unsigned_ucast_eq take_bit_eq_mod)
  then obtain k where k: "uint local = 65536 * k + seq" by (metis mult_div_mod_eq)
  have f: "fst (index_guess local s) = (if adj < 0 then - (v - seq + adj) else v - seq + adj)"
    by (subst index_guess_cases(1)) (simp add: adj_def v_def flip: seq_def)
  have g: "uint (snd (index_guess local s)) = (uint local + (v - seq + adj)) mod 2 ^ 48"
    unfolding index_guess_cases(2)[of local s, folded seq_def v_def] by (auto simp: adj_def algebra_simps)
  have "(65536 * x + v) mod 2 ^ 48 mod 65536 = v" for x :: int using q by (simp add: mod_mod_cancel)
  from this[of "k + adj div 65536"] have "uint (snd (index_guess local s)) mod 65536 = v"
    unfolding g k by (auto simp: adj_def algebra_simps)
  moreover have "\<bar>v - seq + adj\<bar> \<le> 32768" using q by (auto simp: adj_def)
  moreover have "(uint local + (v - seq + adj)) div 65536 = k + adj div 65536" "uint local div 65536 = k"
    unfolding k using q by (auto simp: adj_def)
  then have "(uint local + (v - seq + adj)) div 65536 < uint local div 65536 \<longleftrightarrow> adj < 0" by (simp add: adj_def)
  ultimately show ?thesis using f g by (intro exI[of _ "v - seq + adj"]) (auto simp: v_def)
qed

text \<open>The returned difference is not always the distance of the guess from the local index: for a
  packet from before the last rollover the sign is wrong, so that the difference is positive, and
  \<open>rdbx_check\<close> accepts such a packet whatever the database holds. In the other cases the
  difference is exact.\<close>

theorem index_guess_difference:
  fixes local :: u64 and s :: u16
  assumes "65536 \<le> uint local" "uint local + 65536 < 2 ^ 48"
  defines "seq \<equiv> uint (ucast local :: u16)" and "diff \<equiv> uint (snd (index_guess local s)) - uint local"
  shows "if seq < 32768 \<and> uint s - seq > 32768
    then fst (index_guess local s) = - diff \<and> diff < 0 \<and>
         rdbx_check r (fst (index_guess local s)) = Some err_status_ok
    else fst (index_guess local s) = diff"
proof -
  have q: "0 \<le> seq" "seq < 65536" using uint_lt2p[of "ucast local :: u16"] by (auto simp: seq_def)
  have s: "0 \<le> uint s" "uint s < 65536" using uint_lt2p[of s] by auto
  have f: "fst (index_guess local s) =
      (if seq < 32768 \<and> uint s - seq > 32768 then 65536 - uint s + seq
       else if seq \<ge> 32768 \<and> seq - 32768 > uint s then 65536 - seq + uint s else uint s - seq)"
    by (subst index_guess_cases(1)) (simp flip: seq_def)
  have b: "uint (snd (index_guess local s)) = uint local - seq + uint s +
      (if seq < 32768 \<and> uint s - seq > 32768 then - 65536
       else if seq \<ge> 32768 \<and> seq - 32768 > uint s then 65536 else 0)"
    unfolding index_guess_cases(2)[of local s, folded seq_def]
    by (rule mod_pos_pos_trivial) (use assms(1,2) q s in auto)
  show ?thesis unfolding diff_def b f using q s by (auto simp: rdbx_check_seen)
qed

theorem index_guess_difference_witness:
  "fst (index_guess 0x20005 0xfff0) = 21 \<and> uint (snd (index_guess 0x20005 0xfff0)) - 0x20005 = -21 \<and>
   rdbx_check rdbx_init (fst (index_guess 0x20005 0xfff0)) = Some err_status_ok"
  using index_guess_difference[of "0x20005" "0xfff0" rdbx_init]
  by (simp add: index_guess_def Let_def seq_num_median_def seq_num_max_def unsigned_ucast_eq)

section \<open>rdb: checking and recording\<close>

lemma rdb_check_seen:
  assumes "rdb_wf r"
  shows "rdb_check r i = Some
    (if uint i \<ge> uint (window_start r) + 128 then err_status_ok
     else if i < window_start r then err_status_replay_old
     else if uint i \<in> rdb_seen r then err_status_replay_fail else err_status_ok)"
proof (cases "uint i \<ge> uint (window_start r) + 128 \<or> i < window_start r")
  case True
  then show ?thesis by (auto simp: rdb_check_def)
next
  case False
  then have le: "window_start r \<le> i" by (simp add: not_less)
  then have d: "uint (i - window_start r) = uint i - uint (window_start r)"
    by (simp add: uint_minus_simple_alt)
  moreover have "0 \<le> uint (i - window_start r)" "uint (i - window_start r) < 128"
    using False le d by (auto simp: word_le_def)
  ultimately show ?thesis
    using False v128_get_bit_seen[of "uint (i - window_start r)" "rdb_bitmask r" "uint (window_start r) + 127"]
    by (simp add: rdb_check_def rdb_seen_def)
qed

text \<open>Recording an index at distance \<open>d\<close> from the start of the window, below half the index
  range.\<close>

lemma rdb_add_index_at:
  assumes "uint i = uint (window_start r) + d" "0 \<le> d" "d < 2 ^ 31"
  shows "rdb_add_index r i =
    (if d < 128
     then map_option (\<lambda>m. r\<lparr>rdb_bitmask := m\<rparr>) (v128_set_bit (rdb_bitmask r) d)
     else Option.bind (v128_left_shift (rdb_bitmask r) (d - 127)) (\<lambda>m.
       map_option (\<lambda>m. r\<lparr>rdb_bitmask := m, window_start := window_start r + word_of_int (d - 127)\<rparr>)
         (v128_set_bit m (128 - (d - 127)))))"
proof -
  have "i - window_start r = word_of_int d"
    by (metis add_diff_cancel_left' assms(1) of_int_add word_of_int_uint)
  then have s: "sint (i - window_start r) = d"
    using assms(2,3) by (simp only: sint_word_of_int32)
  have c: "(word_of_int d :: u64) < 128 \<longleftrightarrow> d < 128"
    using assms(2,3) by (simp add: word_less_def uint_word_of_int)
  have t: "sint (word_of_int (d - 127) :: u32) = d - 127"
    by (rule sint_word_of_int32) (use assms(2,3) in auto)
  show ?thesis
    unfolding rdb_add_index_def Let_def s c t
    by (auto split: option.split)
qed

text \<open>An index inside the window or one past its end.\<close>

lemma rdb_add_near:
  assumes "rdb_wf r" "uint i = uint (window_start r) + d" "0 \<le> d" "d \<le> 128"
  shows "\<exists>r'. rdb_add_index r i = Some r' \<and> rdb_wf r' \<and>
    uint (window_start r') = uint (window_start r) + (if d = 128 then 1 else 0) \<and>
    rdb_seen r' = insert (uint i) {j \<in> rdb_seen r. uint (window_start r') \<le> j} \<and>
    rdb_check r' i = Some err_status_replay_fail"
proof (cases "d = 128")
  case False
  with assms have d: "d < 128" by simp
  note add_eq = rdb_add_index_at[OF assms(2,3)]
  obtain y where y: "v128_set_bit (rdb_bitmask r) d = Some y" "v128_wf y"
    "\<And>k. k < 128 \<Longrightarrow> v128_bit y k \<longleftrightarrow> k = nat d \<or> v128_bit (rdb_bitmask r) k"
    using v128_set_bit_eq[of "rdb_bitmask r" d] assms d by (auto simp: rdb_wf_def)
  let ?r = "r\<lparr>rdb_bitmask := y\<rparr>"
  have add: "rdb_add_index r i = Some ?r" using add_eq d y(1) by simp
  have seen: "rdb_seen ?r = insert (uint i) {j \<in> rdb_seen r. uint (window_start r) \<le> j}"
  proof (rule set_eqI)
    fix j
    have "nat (j - uint (window_start r)) = nat d \<longleftrightarrow> j = uint (window_start r) + d"
      if "uint (window_start r) \<le> j" using that assms(3) by auto
    then show "j \<in> rdb_seen ?r \<longleftrightarrow> j \<in> insert (uint i) {j \<in> rdb_seen r. uint (window_start r) \<le> j}"
      using y(3)[of "nat (j - uint (window_start r))"] assms d
      by (auto simp: rdb_seen_def v128_window.in_seen_iff)
  qed
  have wf: "rdb_wf ?r" using y(2) by (simp add: rdb_wf_def)
  have "rdb_check ?r i = Some err_status_replay_fail"
    using rdb_check_seen[OF wf, of i] seen assms d by (simp add: word_less_def)
  then show ?thesis using add seen wf False by auto
next
  case True
  note add_eq = rdb_add_index_at[OF assms(2,3)]
  from v128_window.push[of "rdb_bitmask r" 1 "uint (window_start r) + 127"] assms(1)
  obtain s y where sy: "v128_left_shift (rdb_bitmask r) 1 = Some s" "v128_set_bit s 127 = Some y"
    "v128_wf y" "v128_window.seen (uint (window_start r) + 128) y = insert (uint (window_start r) + 128)
       {j \<in> v128_window.seen (uint (window_start r) + 127) (rdb_bitmask r). uint (window_start r) < j}"
    by (auto simp: rdb_wf_def add.commute)
  let ?r = "r\<lparr>rdb_bitmask := y, window_start := window_start r + 1\<rparr>"
  have "uint (window_start r) + 1 < 2 ^ 32" using uint_lt2p[of i] assms(2) True by simp
  then have w: "uint (window_start r + 1) = uint (window_start r) + 1"
    using uint_ge_0[of "window_start r"] by (simp add: uint_word_ariths)
  have add: "rdb_add_index r i = Some ?r" using add_eq True sy(1,2) by simp
  have seen: "rdb_seen ?r = insert (uint i) {j \<in> rdb_seen r. uint (window_start ?r) \<le> j}"
    by (simp add: rdb_seen_def w sy(4)[unfolded add.commute[of _ 128]] assms(2) True
        add1_zle_eq add.commute[of _ 128])
  have wf: "rdb_wf ?r" using sy(3) by (simp add: rdb_wf_def)
  have "rdb_check ?r i = Some err_status_replay_fail"
    using rdb_check_seen[OF wf, of i] seen assms True w by (simp add: word_less_def)
  then show ?thesis using add seen wf True w by auto
qed

text \<open>While indices arrive at most one past the end of the window, \<open>rdb_add_index\<close> has defined
  behaviour and records exactly the new index: it forgets at most the oldest one, and a second
  \<open>rdb_check\<close> refuses the index.\<close>

theorem rdb_add_near_refines:
  assumes "rdb_wf r" "uint i = uint (window_start r) + d" "0 \<le> d" "d \<le> 128"
  shows "\<exists>r'. rdb_add_index r i = Some r' \<and> rdb_wf r' \<and>
    uint (window_start r') = uint (window_start r) + (if d = 128 then 1 else 0) \<and>
    rdb_seen r' = insert (uint i) {j \<in> rdb_seen r. uint (window_start r') \<le> j} \<and>
    rdb_check r' i = Some err_status_replay_fail"
  using assms by (rule rdb_add_near)

theorem rdb_add_near_refines_witness:
  "\<exists>r'. rdb_add_index rdb_init 128 = Some r' \<and> rdb_wf r' \<and> uint (window_start r') = 1 \<and>
    rdb_check r' 128 = Some err_status_replay_fail"
  using rdb_add_near_refines[of rdb_init 128 128] by (auto simp: rdb_init_def rdb_wf_def)

text \<open>A gap in the indices defeats the database. When the index is 129 to 255 past the start of
  the window, \<open>rdb_add_index\<close> sets the wrong bit and the same index is accepted again; when it is
  256 or more past the start, \<open>rdb_add_index\<close> writes outside the bitmask.\<close>

theorem rdb_add_gap:
  assumes "rdb_wf r" "uint i = uint (window_start r) + d" "129 \<le> d" "d < 2 ^ 31"
  shows "if d \<le> 255 then \<exists>r'. rdb_add_index r i = Some r' \<and> rdb_check r' i = Some err_status_ok
    else rdb_add_index r i = None"
proof -
  have add_eq: "rdb_add_index r i =
     Option.bind (v128_left_shift (rdb_bitmask r) (d - 127)) (\<lambda>m.
       map_option (\<lambda>m. r\<lparr>rdb_bitmask := m, window_start := window_start r + word_of_int (d - 127)\<rparr>)
         (v128_set_bit m (255 - d)))"
    using rdb_add_index_at[OF assms(2) _ assms(4)] assms(3) by (simp add: algebra_simps)
  obtain s where s: "v128_left_shift (rdb_bitmask r) (d - 127) = Some s" "v128_wf s"
    "\<And>k. k < 128 \<Longrightarrow> v128_bit s k \<longleftrightarrow> k + nat (d - 127) < 128 \<and> v128_bit (rdb_bitmask r) (k + nat (d - 127))"
    using v128_left_shift_eq[of "rdb_bitmask r" "d - 127"] assms by (auto simp: rdb_wf_def)
  show ?thesis
  proof (cases "d \<le> 255")
    case False
    then show ?thesis using add_eq s(1) by (simp add: v128_set_bit_def)
  next
    case True
    then obtain y where y: "v128_set_bit s (255 - d) = Some y" "v128_wf y"
      "\<And>k. k < 128 \<Longrightarrow> v128_bit y k \<longleftrightarrow> k = nat (255 - d) \<or> v128_bit s k"
      using v128_set_bit_eq[of s "255 - d"] s(2) assms(3) by auto
    let ?r = "r\<lparr>rdb_bitmask := y, window_start := window_start r + word_of_int (d - 127)\<rparr>"
    have add: "rdb_add_index r i = Some ?r"
      using add_eq s(1) y(1) True by simp
    have "0 \<le> uint i - 127" using assms(2,3) uint_ge_0[of "window_start r"] by linarith
    moreover have "uint i - 127 < 2 ^ 32" using uint_lt2p[of i] by simp
    moreover have "window_start ?r = word_of_int (uint i - 127)" using assms(2) by simp
    ultimately have w: "uint (window_start ?r) = uint i - 127"
      by (simp only: uint_word_of_int len_of_numeral_defs) (simp add: mod_pos_pos_trivial)
    have "\<not> v128_bit y 127" using y(3)[of 127] s(3)[of 127] assms(3) True by auto
    then have "uint i \<notin> rdb_seen ?r"
      using w by (simp add: rdb_seen_def v128_window.in_seen_iff)
    moreover have "rdb_wf ?r" using y(2) by (simp add: rdb_wf_def)
    ultimately have "rdb_check ?r i = Some err_status_ok"
      using w by (simp add: rdb_check_seen word_less_def)
    then show ?thesis using add True by simp
  qed
qed

theorem rdb_add_gap_witness:
  "(\<exists>r'. rdb_add_index rdb_init 200 = Some r' \<and> rdb_check r' 200 = Some err_status_ok) \<and>
   rdb_add_index rdb_init 1000 = None"
  using rdb_add_gap[of rdb_init 200 200] rdb_add_gap[of rdb_init 1000 1000]
  by (simp add: rdb_init_def rdb_wf_def)

end
