(* ===== verification/Srtp_Key.thy ===== *)
theory Srtp_Key
  imports Srtp_Err
begin

text \<open>
  Key usage limits of libSRTP (\<open>crypto/kernel/key.c\<close>, \<open>crypto/include/key.h\<close>): a counter of the
  packets that may still be protected with a key and the state derived from it. The 64-bit
  arithmetic branch of the source is modelled (\<open>NO_64BIT_MATH\<close> undefined).
\<close>

section \<open>Data and operations\<close>

datatype key_event = key_event_normal | key_event_soft_limit | key_event_hard_limit

datatype key_state = key_state_normal | key_state_past_soft_limit | key_state_expired

record key_limit_ctx =
  num_left :: u64
  kl_state :: key_state

definition soft_limit :: u64 where "soft_limit = 0x10000"

definition key_limit_set :: "key_limit_ctx \<Rightarrow> u64 \<Rightarrow> err_status \<times> key_limit_ctx" where
  "key_limit_set key s =
    (if s < soft_limit then (err_status_bad_param, key)
     else (err_status_ok, \<lparr>num_left = s, kl_state = key_state_normal\<rparr>))"

text \<open>A clone shares the original object: the result is the pointer itself.\<close>

definition key_limit_clone :: "'p option \<Rightarrow> 'p option \<Rightarrow> err_status \<times> 'p option" where
  "key_limit_clone original new_key =
    (if original = None then (err_status_bad_param, new_key) else (err_status_ok, original))"

definition key_limit_check :: "key_limit_ctx \<Rightarrow> err_status" where
  "key_limit_check key =
    (if kl_state key = key_state_expired then err_status_key_expired else err_status_ok)"

definition key_limit_update :: "key_limit_ctx \<Rightarrow> key_event \<times> key_limit_ctx" where
  "key_limit_update key =
    (let key = key\<lparr>num_left := num_left key - 1\<rparr> in
     if num_left key \<ge> soft_limit then (key_event_normal, key)
     else
       let key = (if kl_state key = key_state_normal then key\<lparr>kl_state := key_state_past_soft_limit\<rparr> else key) in
       if num_left key < 1 then (key_event_hard_limit, key\<lparr>kl_state := key_state_expired\<rparr>)
       else (key_event_soft_limit, key))"

text \<open>The context after \<open>n\<close> packets.\<close>

definition key_after :: "nat \<Rightarrow> key_limit_ctx \<Rightarrow> key_limit_ctx" where
  "key_after n = ((\<lambda>k. snd (key_limit_update k)) ^^ n)"

section \<open>Lifetime of a key\<close>

lemma key_after_Suc: "key_after (Suc n) k = snd (key_limit_update (key_after n k))"
  by (simp add: key_after_def)

lemma key_limit_update_left [simp]: "num_left (snd (key_limit_update k)) = num_left k - 1"
  by (simp add: key_limit_update_def Let_def)

lemma key_after_left: "num_left (key_after n k) = num_left k - of_nat n"
  by (induction n) (simp_all add: key_after_def)

lemma unat_lt_u64: "unat (s :: u64) < 2 ^ 64"
  using unsigned_less[of s] by simp

lemma unat_minus_of_nat: "n \<le> unat (s :: u64) \<Longrightarrow> unat (s - of_nat n) = unat s - n"
  using unat_lt_u64[of s] by (subst unat_sub) (simp_all add: word_le_nat_alt unsigned_of_nat take_bit_nat_eq_self)

lemma expired_stays:
  "kl_state k = key_state_expired \<Longrightarrow> kl_state (key_after n k) = key_state_expired"
proof (induction n)
  case 0 then show ?case by (simp add: key_after_def)
next
  case (Suc n) then show ?case by (auto simp: key_after_Suc key_limit_update_def Let_def)
qed

text \<open>The state of a key as a function of the number of packets left.\<close>

definition lifetime_state :: "nat \<Rightarrow> key_state" where
  "lifetime_state left =
    (if left = 0 then key_state_expired else if left < 0x10000 then key_state_past_soft_limit
     else key_state_normal)"

lemma key_after_state:
  assumes "key_limit_set k0 s = (err_status_ok, k)" "n \<le> unat s"
  shows "kl_state (key_after n k) = lifetime_state (unat s - n)"
  using assms(2)
proof (induction n)
  case 0
  then show ?case using assms(1)
    by (auto simp: key_after_def key_limit_set_def lifetime_state_def soft_limit_def word_less_nat_alt
        split: if_splits)
next
  case (Suc n)
  let ?k = "key_after n k"
  have left: "unat (num_left ?k - 1) = unat s - Suc n"
    using Suc.prems assms(1) unat_minus_of_nat[of "Suc n" s]
    by (auto simp: key_after_left key_limit_set_def diff_diff_eq add.commute split: if_splits)
  have cmp: "(num_left ?k - 1 \<ge> soft_limit) = (unat s - Suc n \<ge> 0x10000)"
    "(num_left ?k - 1 < 1) = (unat s = Suc n)"
    using Suc.prems by (auto simp: word_le_nat_alt word_less_nat_alt left soft_limit_def)
  then show ?case using Suc
    by (auto simp: key_after_Suc key_limit_update_def Let_def lifetime_state_def)
qed

text \<open>C24. A key set to allow \<open>s\<close> packets is accepted only with \<open>s\<close> at least \<open>0x10000\<close>; it then passes
  \<open>key_limit_check\<close> after every number of packets below \<open>s\<close>, is past its soft limit exactly when fewer
  than \<open>0x10000\<close> packets are left, is expired after \<open>s\<close> packets, and stays expired however often it is updated
  after that, although the counter wraps around.\<close>

theorem key_lifetime:
  assumes "key_limit_set k0 s = (err_status_ok, k)"
  shows "0x10000 \<le> s
    \<and> key_limit_check (key_after n k) = (if n < unat s then err_status_ok else err_status_key_expired)
    \<and> (kl_state (key_after n k) = key_state_past_soft_limit \<longleftrightarrow> n < unat s \<and> unat s - n < 0x10000)"
proof -
  have s: "0x10000 \<le> s" using assms by (auto simp: key_limit_set_def soft_limit_def not_less split: if_splits)
  have "kl_state (key_after n k) = lifetime_state (unat s - n)"
  proof (cases "n \<le> unat s")
    case True then show ?thesis using key_after_state[OF assms] by simp
  next
    case False
    then obtain d where n: "n = d + unat s" by (metis add.commute le_add_diff_inverse nat_le_linear)
    have "kl_state (key_after (unat s) k) = key_state_expired"
      using key_after_state[OF assms order_refl] by (simp add: lifetime_state_def)
    then have "kl_state (key_after d (key_after (unat s) k)) = key_state_expired" by (rule expired_stays)
    then show ?thesis by (simp add: n lifetime_state_def key_after_def funpow_add)
  qed
  then show ?thesis using s by (auto simp: key_limit_check_def lifetime_state_def)
qed

theorem key_lifetime_witness:
  "key_limit_check (key_after 3 \<lparr>num_left = 0x10001, kl_state = key_state_normal\<rparr>) = err_status_ok
   \<and> kl_state (key_after 3 \<lparr>num_left = 0x10001, kl_state = key_state_normal\<rparr>) = key_state_past_soft_limit"
  using key_lifetime[where ?k0.0 = "\<lparr>num_left = 0, kl_state = key_state_normal\<rparr>" and s = "0x10001"
      and k = "\<lparr>num_left = 0x10001, kl_state = key_state_normal\<rparr>" and n = 3]
  by (simp add: key_limit_set_def soft_limit_def)

end
