(* ===== verification/Srtp_Session.thy ===== *)
theory Srtp_Session
  imports Srtp_Kernel Srtp_Replay Srtp_Key
begin

text \<open>
  Sessions and streams of libSRTP, the first half of \<open>srtp/srtp.c\<close>: policies, allocation and initialization of streams,
  the key derivation, the list of streams and the template from which streams are cloned, creation, removal and release.

  A session is the state \<open>srtp_state\<close>: its two pointers and the memory they lead to. A pointer is the number of the
  allocation that made the object; an object that has been released is \<^const>\<open>None\<close>, and a read through a pointer to it
  makes the operation undefined, which is \<^const>\<open>None\<close> too. Ciphers, authentication functions and key limits are
  objects of their own, because cloned streams share them with the template. The record \<open>srtp_env\<close> says which
  allocations succeed and what fresh memory and the local arrays hold. Lengths in policies are not negative.
\<close>

section \<open>Data\<close>

type_synonym addr = nat

datatype sec_serv = sec_serv_none | sec_serv_conf | sec_serv_auth | sec_serv_conf_and_auth

text \<open>The tests \<open>services & sec_serv_conf\<close> and \<open>services & sec_serv_auth\<close>.\<close>

definition serv_conf :: "sec_serv \<Rightarrow> bool" where
  "serv_conf s \<longleftrightarrow> s = sec_serv_conf \<or> s = sec_serv_conf_and_auth"

definition serv_auth :: "sec_serv \<Rightarrow> bool" where
  "serv_auth s \<longleftrightarrow> s = sec_serv_auth \<or> s = sec_serv_conf_and_auth"

record crypto_policy =
  cp_cipher_type :: u32
  cp_cipher_key_len :: nat
  cp_auth_type :: u32
  cp_auth_key_len :: nat
  cp_auth_tag_len :: nat
  cp_sec_serv :: sec_serv

datatype ssrc_type = ssrc_undefined | ssrc_specific | ssrc_any_inbound | ssrc_any_outbound

text \<open>\<open>pol_key\<close> is the memory behind the key pointer, if the pointer is not \<open>NULL\<close>.\<close>

record srtp_policy =
  pol_ssrc_type :: ssrc_type
  pol_ssrc_value :: u32
  pol_rtp :: crypto_policy
  pol_rtcp :: crypto_policy
  pol_key :: "u8 list option"

datatype direction = dir_unknown | dir_srtp_sender | dir_srtp_receiver

datatype srtp_event = event_ssrc_collision | event_key_soft_limit | event_key_hard_limit | event_packet_index_limit

record srtp_stream_ctx =
  str_ssrc :: u32
  rtp_cipher :: addr
  rtp_auth :: addr
  rtp_rdbx :: rdbx
  rtp_services :: sec_serv
  rtcp_cipher :: addr
  rtcp_auth :: addr
  rtcp_rdb :: rdb
  rtcp_services :: sec_serv
  str_limit :: addr
  str_direction :: direction
  str_next :: "addr option"

text \<open>\<open>brk\<close> counts the allocations. The events are those that were given to the handler, newest first.\<close>

record srtp_state =
  stream_list :: "addr option"
  stream_template :: "addr option"
  session_live :: bool
  streams :: "addr \<Rightarrow> srtp_stream_ctx option"
  ciphers :: "addr \<Rightarrow> cipher option"
  auths :: "addr \<Rightarrow> auth option"
  limits :: "addr \<Rightarrow> key_limit_ctx option"
  kern :: crypto_kernel
  brk :: addr
  event_handler :: bool
  events :: "(addr \<times> srtp_event) list"

record srtp_env =
  env_mem :: "addr \<Rightarrow> bool"
  cipher_mem :: "addr \<Rightarrow> cipher_junk"
  auth_mem :: "addr \<Rightarrow> hmac_ctx"
  stream_mem :: "addr \<Rightarrow> srtp_stream_ctx"
  limit_mem :: "addr \<Rightarrow> key_limit_ctx"
  kdf_mem :: aes_icm_ctx
  key_mem :: "u8 list"
  tag_mem :: "u8 list"

section \<open>Start of the library\<close>

text \<open>As in the kernel, \<^const>\<open>Inl\<close> is the end of the program in a failed self test.\<close>

definition srtp_init :: "kernel_env \<Rightarrow> crypto_kernel \<Rightarrow> (err_status + (err_status \<times> crypto_kernel)) option" where
  "srtp_init env k = do {
     r \<leftarrow> crypto_kernel_init env k;
     case r of Inl status \<Rightarrow> Some (Inl status)
     | Inr (status, k) \<Rightarrow>
         if status \<noteq> err_status_ok then Some (Inr (status, k))
         else Some (Inr (crypto_kernel_load_debug_module env ''srtp'' k)) }"

section \<open>Events\<close>

definition srtp_install_event_handler :: "bool \<Rightarrow> srtp_state \<Rightarrow> err_status \<times> srtp_state" where
  "srtp_install_event_handler func s = (err_status_ok, s\<lparr>event_handler := func\<rparr>)"

definition srtp_handle_event :: "addr \<Rightarrow> srtp_event \<Rightarrow> srtp_state \<Rightarrow> srtp_state" where
  "srtp_handle_event str evnt s = (if event_handler s then s\<lparr>events := (str, evnt) # events s\<rparr> else s)"

text \<open>The second line that the default handler reports.\<close>

definition srtp_event_reporter :: "srtp_event \<Rightarrow> string" where
  "srtp_event_reporter e =
    (case e of event_ssrc_collision \<Rightarrow> ''SSRC collision'' | event_key_soft_limit \<Rightarrow> ''key usage soft limit reached''
     | event_key_hard_limit \<Rightarrow> ''key usage hard limit reached'' | event_packet_index_limit \<Rightarrow> ''packet index limit reached'')"

section \<open>Allocation of streams\<close>

definition crypto_alloc :: "srtp_env \<Rightarrow> srtp_state \<Rightarrow> addr option \<times> srtp_state" where
  "crypto_alloc env s = (if env_mem env (brk s) then Some (brk s) else None, s\<lparr>brk := brk s + 1\<rparr>)"

definition alloc_stream :: "srtp_env \<Rightarrow> srtp_state \<Rightarrow> addr option \<times> srtp_state" where
  "alloc_stream env s =
    (case crypto_alloc env s of (None, s) \<Rightarrow> (None, s)
     | (Some p, s) \<Rightarrow> (Some p, s\<lparr>streams := (streams s)(p := Some (stream_mem env p))\<rparr>))"

definition alloc_limit :: "srtp_env \<Rightarrow> srtp_state \<Rightarrow> addr option \<times> srtp_state" where
  "alloc_limit env s =
    (case crypto_alloc env s of (None, s) \<Rightarrow> (None, s)
     | (Some p, s) \<Rightarrow> (Some p, s\<lparr>limits := (limits s)(p := Some (limit_mem env p))\<rparr>))"

definition alloc_cipher :: "srtp_env \<Rightarrow> crypto_policy \<Rightarrow> srtp_state \<Rightarrow> (err_status + addr) \<times> srtp_state" where
  "alloc_cipher env p s =
    (let a = brk s; (r, k) = crypto_kernel_alloc_cipher (kern s) (cp_cipher_type p) (env_mem env a) (cipher_mem env a) (cp_cipher_key_len p);
         s = s\<lparr>kern := k, brk := a + 1\<rparr>
     in case r of Inl status \<Rightarrow> (Inl status, s) | Inr c \<Rightarrow> (Inr a, s\<lparr>ciphers := (ciphers s)(a := Some c)\<rparr>))"

definition alloc_auth :: "srtp_env \<Rightarrow> crypto_policy \<Rightarrow> srtp_state \<Rightarrow> (err_status + addr) \<times> srtp_state" where
  "alloc_auth env p s =
    (let a = brk s; (r, k) = crypto_kernel_alloc_auth (kern s) (cp_auth_type p) (env_mem env a) (auth_mem env a) (cp_auth_key_len p) (cp_auth_tag_len p);
         s = s\<lparr>kern := k, brk := a + 1\<rparr>
     in case r of Inl status \<Rightarrow> (Inl status, s) | Inr x \<Rightarrow> (Inr a, s\<lparr>auths := (auths s)(a := Some x)\<rparr>))"

text \<open>Release of an object; a second release is undefined.\<close>

definition free_stream :: "addr \<Rightarrow> srtp_state \<Rightarrow> srtp_state option" where
  "free_stream p s = (if streams s p = None then None else Some (s\<lparr>streams := (streams s)(p := None)\<rparr>))"

definition free_limit :: "addr \<Rightarrow> srtp_state \<Rightarrow> srtp_state option" where
  "free_limit p s = (if limits s p = None then None else Some (s\<lparr>limits := (limits s)(p := None)\<rparr>))"

definition free_cipher :: "addr \<Rightarrow> srtp_state \<Rightarrow> (err_status \<times> srtp_state) option" where
  "free_cipher p s = do {
     c \<leftarrow> ciphers s p;
     let (status, cts) = cipher_dealloc c (ck_ctypes (kern s));
     Some (status, s\<lparr>ciphers := (ciphers s)(p := None), kern := (kern s)\<lparr>ck_ctypes := cts\<rparr>\<rparr>) }"

definition free_auth :: "addr \<Rightarrow> srtp_state \<Rightarrow> (err_status \<times> srtp_state) option" where
  "free_auth p s = do {
     a \<leftarrow> auths s p;
     let (status, ats) = auth_dealloc a (ck_atypes (kern s));
     Some (status, s\<lparr>auths := (auths s)(p := None), kern := (kern s)\<lparr>ck_atypes := ats\<rparr>\<rparr>) }"

definition srtp_stream_alloc :: "srtp_env \<Rightarrow> srtp_policy \<Rightarrow> srtp_state \<Rightarrow> ((err_status + addr) \<times> srtp_state) option" where
  "srtp_stream_alloc env p s =
    (case alloc_stream env s of (None, s) \<Rightarrow> Some (Inl err_status_alloc_fail, s)
     | (Some str, s) \<Rightarrow>
    (case alloc_cipher env (pol_rtp p) s of (Inl stat, s) \<Rightarrow> do {
        s \<leftarrow> free_stream str s;
        Some (Inl stat, s) }
     | (Inr rc, s) \<Rightarrow>
    (case alloc_auth env (pol_rtp p) s of (Inl stat, s) \<Rightarrow> do {
        (_, s) \<leftarrow> free_cipher rc s;
        s \<leftarrow> free_stream str s;
        Some (Inl stat, s) }
     | (Inr ra, s) \<Rightarrow>
    (case alloc_limit env s of (None, s) \<Rightarrow> do {
        (_, s) \<leftarrow> free_auth ra s;
        (_, s) \<leftarrow> free_cipher rc s;
        s \<leftarrow> free_stream str s;
        Some (Inl err_status_alloc_fail, s) }
     | (Some li, s) \<Rightarrow>
    (case alloc_cipher env (pol_rtcp p) s of (Inl stat, s) \<Rightarrow> do {
        (_, s) \<leftarrow> free_auth ra s;
        (_, s) \<leftarrow> free_cipher rc s;
        s \<leftarrow> free_limit li s;
        s \<leftarrow> free_stream str s;
        Some (Inl stat, s) }
     | (Inr cc, s) \<Rightarrow>
    (case alloc_auth env (pol_rtcp p) s of (Inl stat, s) \<Rightarrow> do {
        (_, s) \<leftarrow> free_cipher cc s;
        (_, s) \<leftarrow> free_auth ra s;
        (_, s) \<leftarrow> free_cipher rc s;
        s \<leftarrow> free_limit li s;
        s \<leftarrow> free_stream str s;
        Some (Inl stat, s) }
     | (Inr ca, s) \<Rightarrow>
        Some (Inr str, s\<lparr>streams := (streams s)(str := map_option
          (\<lambda>x. x\<lparr>rtp_cipher := rc, rtp_auth := ra, str_limit := li, rtcp_cipher := cc, rtcp_auth := ca\<rparr>) (streams s str))\<rparr>)))))))"

text \<open>An object is released unless the template has the same one.\<close>

definition shared :: "srtp_state \<Rightarrow> (srtp_stream_ctx \<Rightarrow> addr) \<Rightarrow> srtp_stream_ctx \<Rightarrow> bool option" where
  "shared s field x =
    (case stream_template s of None \<Rightarrow> Some False | Some t \<Rightarrow> map_option (\<lambda>y. field x = field y) (streams s t))"

definition release_cipher :: "(srtp_stream_ctx \<Rightarrow> addr) \<Rightarrow> srtp_stream_ctx \<Rightarrow> srtp_state \<Rightarrow> (err_status \<times> srtp_state) option" where
  "release_cipher field x s = do {
     sh \<leftarrow> shared s field x;
     if sh then Some (err_status_ok, s) else free_cipher (field x) s }"

definition release_auth :: "(srtp_stream_ctx \<Rightarrow> addr) \<Rightarrow> srtp_stream_ctx \<Rightarrow> srtp_state \<Rightarrow> (err_status \<times> srtp_state) option" where
  "release_auth field x s = do {
     sh \<leftarrow> shared s field x;
     if sh then Some (err_status_ok, s) else free_auth (field x) s }"

definition srtp_stream_dealloc :: "addr \<Rightarrow> srtp_state \<Rightarrow> (err_status \<times> srtp_state) option" where
  "srtp_stream_dealloc stream s = do {
     x \<leftarrow> streams s stream;
     (status, s) \<leftarrow> release_cipher rtp_cipher x s;
     if status \<noteq> err_status_ok then Some (status, s)
     else do {
     (status, s) \<leftarrow> release_auth rtp_auth x s;
     if status \<noteq> err_status_ok then Some (status, s)
     else do {
     sh \<leftarrow> shared s str_limit x;
     s \<leftarrow> (if sh then Some s else free_limit (str_limit x) s);
     (status, s) \<leftarrow> release_cipher rtcp_cipher x s;
     if status \<noteq> err_status_ok then Some (status, s)
     else do {
     (status, s) \<leftarrow> release_auth rtcp_auth x s;
     if status \<noteq> err_status_ok then Some (status, s)
     else do {
     s \<leftarrow> free_stream stream s;
     Some (err_status_ok, s) }}}}}"

definition srtp_stream_clone :: "srtp_env \<Rightarrow> addr \<Rightarrow> u32 \<Rightarrow> srtp_state \<Rightarrow> ((err_status + addr) \<times> srtp_state) option" where
  "srtp_stream_clone env template ssrc s =
    (case alloc_stream env s of (None, s) \<Rightarrow> Some (Inl err_status_alloc_fail, s)
     | (Some str, s) \<Rightarrow> do {
         t \<leftarrow> streams s template;
         x \<leftarrow> streams s str;
         let x = x\<lparr>rtp_cipher := rtp_cipher t, rtp_auth := rtp_auth t, rtcp_cipher := rtcp_cipher t, rtcp_auth := rtcp_auth t\<rparr>;
         let (status, li) = key_limit_clone (Some (str_limit t)) (Some (str_limit x));
         let x = x\<lparr>str_limit := the li\<rparr>;
         if status \<noteq> err_status_ok then Some (Inl status, s\<lparr>streams := (streams s)(str := Some x)\<rparr>)
         else do {
           let x = x\<lparr>rtp_rdbx := rdbx_init, rtcp_rdb := rdb_init, str_ssrc := ssrc, str_direction := str_direction t,
                     rtp_services := rtp_services t, rtcp_services := rtcp_services t, str_next := None\<rparr>;
           Some (Inr str, s\<lparr>streams := (streams s)(str := Some x)\<rparr>) }})"

section \<open>Key derivation\<close>

datatype srtp_prf_label =
    label_rtp_encryption | label_rtp_msg_auth | label_rtp_salt
  | label_rtcp_encryption | label_rtcp_msg_auth | label_rtcp_salt

definition label_octet :: "srtp_prf_label \<Rightarrow> u8" where
  "label_octet l = (case l of label_rtp_encryption \<Rightarrow> 0 | label_rtp_msg_auth \<Rightarrow> 1 | label_rtp_salt \<Rightarrow> 2
     | label_rtcp_encryption \<Rightarrow> 3 | label_rtcp_msg_auth \<Rightarrow> 4 | label_rtcp_salt \<Rightarrow> 5)"

record srtp_kdf =
  kdf_c :: aes_icm_ctx

definition srtp_kdf_init :: "srtp_kdf \<Rightarrow> u8 list \<Rightarrow> (err_status \<times> srtp_kdf) option" where
  "srtp_kdf_init kdf key = map_option (\<lambda>(_, c). (err_status_ok, kdf\<lparr>kdf_c := c\<rparr>)) (aes_icm_context_init (kdf_c kdf) key)"

definition kdf_nonce :: "srtp_prf_label \<Rightarrow> block" where
  "kdf_nonce l = (replicate 16 0)[7 := label_octet l]"

text \<open>The derived key goes to the offset \<open>off\<close> of the buffer \<open>buf\<close>.\<close>

definition srtp_kdf_generate ::
    "srtp_kdf \<Rightarrow> srtp_prf_label \<Rightarrow> u8 list \<Rightarrow> nat \<Rightarrow> nat \<Rightarrow> (err_status \<times> srtp_kdf \<times> u8 list) option" where
  "srtp_kdf_generate kdf label buf off len = do {
     let (_, c) = aes_icm_set_iv (kdf_c kdf) (kdf_nonce label);
     (_, c, key) \<leftarrow> aes_icm_output c (drop off buf) len;
     Some (err_status_ok, kdf\<lparr>kdf_c := c\<rparr>, take off buf @ key) }"

definition srtp_kdf_clear :: "srtp_kdf \<Rightarrow> err_status \<times> srtp_kdf" where
  "srtp_kdf_clear kdf = (err_status_ok,
     kdf\<lparr>kdf_c := \<lparr>icm_counter = replicate 16 0, icm_offset = replicate 16 0, icm_keystream_buffer = replicate 16 0,
                  icm_expanded_key = replicate 11 (replicate 16 0), icm_bytes_in_buffer = 0\<rparr>\<rparr>)"

section \<open>Initialization of streams\<close>

definition MAX_SRTP_KEY_LEN :: nat where "MAX_SRTP_KEY_LEN = 256"

text \<open>The two halves of the initialization are alike: derive the key of a cipher, and its salt in counter mode, and set
  the cipher up; derive the key of an authentication function and set it up.\<close>

definition stream_init_cipher ::
    "srtp_kdf \<Rightarrow> srtp_prf_label \<Rightarrow> srtp_prf_label \<Rightarrow> cipher \<Rightarrow> u8 list \<Rightarrow> (err_status \<times> srtp_kdf \<times> cipher \<times> u8 list) option" where
  "stream_init_cipher kdf enc salt c tmp_key = do {
     (_, kdf, tmp_key) \<leftarrow> srtp_kdf_generate kdf enc tmp_key 0 (cipher_get_key_length c);
     (_, kdf, tmp_key) \<leftarrow> (if kind_of (cipher_st c) = aes_icm_kind
        then srtp_kdf_generate kdf salt tmp_key 16 (cipher_get_key_length c - 16)
        else Some (err_status_ok, kdf, tmp_key));
     (stat, c) \<leftarrow> cipher_init c tmp_key direction_any;
     Some (stat, kdf, c, tmp_key) }"

definition stream_init_auth ::
    "srtp_kdf \<Rightarrow> srtp_prf_label \<Rightarrow> auth \<Rightarrow> u8 list \<Rightarrow> (err_status \<times> srtp_kdf \<times> auth \<times> u8 list) option" where
  "stream_init_auth kdf label a tmp_key = do {
     (_, kdf, tmp_key) \<leftarrow> srtp_kdf_generate kdf label tmp_key 0 (auth_get_key_length a);
     let (stat, a) = auth_init a tmp_key;
     Some (stat, kdf, a, tmp_key) }"

abbreviation set_stream :: "addr \<Rightarrow> srtp_stream_ctx \<Rightarrow> srtp_state \<Rightarrow> srtp_state" where
  "set_stream p x s \<equiv> s\<lparr>streams := (streams s)(p := Some x)\<rparr>"

abbreviation set_cipher :: "addr \<Rightarrow> cipher \<Rightarrow> srtp_state \<Rightarrow> srtp_state" where
  "set_cipher p c s \<equiv> s\<lparr>ciphers := (ciphers s)(p := Some c)\<rparr>"

abbreviation set_auth :: "addr \<Rightarrow> auth \<Rightarrow> srtp_state \<Rightarrow> srtp_state" where
  "set_auth p a s \<equiv> s\<lparr>auths := (auths s)(p := Some a)\<rparr>"

abbreviation set_limit :: "addr \<Rightarrow> key_limit_ctx \<Rightarrow> srtp_state \<Rightarrow> srtp_state" where
  "set_limit p l s \<equiv> s\<lparr>limits := (limits s)(p := Some l)\<rparr>"

definition srtp_stream_init :: "srtp_env \<Rightarrow> addr \<Rightarrow> srtp_policy \<Rightarrow> srtp_state \<Rightarrow> (err_status \<times> srtp_state) option" where
  "srtp_stream_init env srtp p s = do {
     key \<leftarrow> pol_key p;
     x \<leftarrow> streams s srtp;
     li \<leftarrow> limits s (str_limit x);
     let s = set_limit (str_limit x) (snd (key_limit_set li 0xffffffffffff)) s;
     let x = x\<lparr>rtp_rdbx := rdbx_init, str_ssrc := htonl (pol_ssrc_value p), rtp_services := cp_sec_serv (pol_rtp p),
               rtcp_services := cp_sec_serv (pol_rtcp p), str_direction := dir_unknown\<rparr>;
     let s = set_stream srtp x s;
     (_, kdf) \<leftarrow> srtp_kdf_init \<lparr>kdf_c = kdf_mem env\<rparr> key;
     c \<leftarrow> ciphers s (rtp_cipher x);
     (stat, kdf, c, tmp_key) \<leftarrow> stream_init_cipher kdf label_rtp_encryption label_rtp_salt c (key_mem env);
     let s = set_cipher (rtp_cipher x) c s;
     if stat \<noteq> err_status_ok then do {
       _ \<leftarrow> octet_string_set_to_zero tmp_key MAX_SRTP_KEY_LEN;
       Some (err_status_init_fail, s) }
     else do {
     a \<leftarrow> auths s (rtp_auth x);
     (stat, kdf, a, tmp_key) \<leftarrow> stream_init_auth kdf label_rtp_msg_auth a tmp_key;
     let s = set_auth (rtp_auth x) a s;
     if stat \<noteq> err_status_ok then do {
       _ \<leftarrow> octet_string_set_to_zero tmp_key MAX_SRTP_KEY_LEN;
       Some (err_status_init_fail, s) }
     else do {
     let s = set_stream srtp (x\<lparr>rtcp_rdb := rdb_init\<rparr>) s;
     c \<leftarrow> ciphers s (rtcp_cipher x);
     (stat, kdf, c, tmp_key) \<leftarrow> stream_init_cipher kdf label_rtcp_encryption label_rtcp_salt c tmp_key;
     let s = set_cipher (rtcp_cipher x) c s;
     if stat \<noteq> err_status_ok then do {
       _ \<leftarrow> octet_string_set_to_zero tmp_key MAX_SRTP_KEY_LEN;
       Some (err_status_init_fail, s) }
     else do {
     a \<leftarrow> auths s (rtcp_auth x);
     (stat, kdf, a, tmp_key) \<leftarrow> stream_init_auth kdf label_rtcp_msg_auth a tmp_key;
     let s = set_auth (rtcp_auth x) a s;
     if stat \<noteq> err_status_ok then do {
       _ \<leftarrow> octet_string_set_to_zero tmp_key MAX_SRTP_KEY_LEN;
       Some (err_status_init_fail, s) }
     else do {
     let (_, kdf) = srtp_kdf_clear kdf;
     _ \<leftarrow> octet_string_set_to_zero tmp_key MAX_SRTP_KEY_LEN;
     Some (err_status_ok, s) }}}}}"

section \<open>The list of streams\<close>

text \<open>The walks along the list do not end on a cyclic list, and are undefined at a released stream.\<close>

partial_function (option) find_stream :: "srtp_state \<Rightarrow> u32 \<Rightarrow> addr option \<Rightarrow> addr option option" where
  "find_stream s ssrc p =
    (case p of None \<Rightarrow> Some None
     | Some a \<Rightarrow> Option.bind (streams s a) (\<lambda>x. if str_ssrc x = ssrc then Some (Some a) else find_stream s ssrc (str_next x)))"

definition srtp_get_stream :: "srtp_state \<Rightarrow> u32 \<Rightarrow> addr option option" where
  "srtp_get_stream s ssrc = find_stream s ssrc (stream_list s)"

partial_function (option) dealloc_streams :: "srtp_state \<Rightarrow> addr option \<Rightarrow> (err_status \<times> srtp_state) option" where
  "dealloc_streams s p =
    (case p of None \<Rightarrow> Some (err_status_ok, s)
     | Some a \<Rightarrow> Option.bind (streams s a) (\<lambda>x. Option.bind (srtp_stream_dealloc a s)
         (\<lambda>(status, s). if status \<noteq> err_status_ok then Some (status, s) else dealloc_streams s (str_next x))))"

definition srtp_dealloc :: "srtp_state \<Rightarrow> (err_status \<times> srtp_state) option" where
  "srtp_dealloc s = do {
     (status, s) \<leftarrow> dealloc_streams s (stream_list s);
     if status \<noteq> err_status_ok then Some (status, s)
     else case stream_template s of None \<Rightarrow> Some (err_status_ok, s\<lparr>session_live := False\<rparr>)
     | Some t \<Rightarrow> do {
         x \<leftarrow> streams s t;
         (status, s) \<leftarrow> free_auth (rtcp_auth x) s;
         if status \<noteq> err_status_ok then Some (status, s)
         else do {
         (status, s) \<leftarrow> free_cipher (rtcp_cipher x) s;
         if status \<noteq> err_status_ok then Some (status, s)
         else do {
         s \<leftarrow> free_limit (str_limit x) s;
         (status, s) \<leftarrow> free_cipher (rtp_cipher x) s;
         if status \<noteq> err_status_ok then Some (status, s)
         else do {
         (status, s) \<leftarrow> free_auth (rtp_auth x) s;
         if status \<noteq> err_status_ok then Some (status, s)
         else do {
         s \<leftarrow> free_stream t s;
         Some (err_status_ok, s\<lparr>session_live := False\<rparr>) }}}}}}"

definition srtp_add_stream :: "srtp_env \<Rightarrow> srtp_policy \<Rightarrow> srtp_state \<Rightarrow> (err_status \<times> srtp_state) option" where
  "srtp_add_stream env policy s =
    (if pol_key policy = None then Some (err_status_bad_param, s)
     else do {
       (r, s) \<leftarrow> srtp_stream_alloc env policy s;
       case r of Inl status \<Rightarrow> Some (status, s)
       | Inr tmp \<Rightarrow> do {
         (status, s) \<leftarrow> srtp_stream_init env tmp policy s;
         if status \<noteq> err_status_ok then do {
           s \<leftarrow> free_stream tmp s;
           Some (status, s) }
         else do {
         x \<leftarrow> streams s tmp;
         case pol_ssrc_type policy of
           ssrc_any_outbound \<Rightarrow>
             (if stream_template s \<noteq> None then Some (err_status_bad_param, s)
              else Some (err_status_ok, (set_stream tmp (x\<lparr>str_direction := dir_srtp_sender\<rparr>) s)\<lparr>stream_template := Some tmp\<rparr>))
         | ssrc_any_inbound \<Rightarrow>
             (if stream_template s \<noteq> None then Some (err_status_bad_param, s)
              else Some (err_status_ok, (set_stream tmp (x\<lparr>str_direction := dir_srtp_receiver\<rparr>) s)\<lparr>stream_template := Some tmp\<rparr>))
         | ssrc_specific \<Rightarrow>
             Some (err_status_ok, (set_stream tmp (x\<lparr>str_next := stream_list s\<rparr>) s)\<lparr>stream_list := Some tmp\<rparr>)
         | ssrc_undefined \<Rightarrow> do {
             s \<leftarrow> free_stream tmp s;
             Some (err_status_bad_param, s) }}}})"

text \<open>The loop over the policies of a session; an error releases the session.\<close>

fun add_streams :: "srtp_env \<Rightarrow> srtp_policy list \<Rightarrow> srtp_state \<Rightarrow> (err_status \<times> srtp_state) option" where
  "add_streams env [] s = Some (err_status_ok, s)"
| "add_streams env (p # ps) s = do {
     (stat, s) \<leftarrow> srtp_add_stream env p s;
     if stat \<noteq> err_status_ok then do {
       (_, s) \<leftarrow> srtp_dealloc s;
       Some (stat, s) }
     else add_streams env ps s }"

definition srtp_create :: "srtp_env \<Rightarrow> srtp_policy list \<Rightarrow> srtp_state \<Rightarrow> (err_status \<times> srtp_state) option" where
  "srtp_create env policy s =
    (case crypto_alloc env s of (None, s) \<Rightarrow> Some (err_status_alloc_fail, s)
     | (Some _, s) \<Rightarrow> add_streams env policy (s\<lparr>stream_template := None, stream_list := None, session_live := True\<rparr>))"

text \<open>The search for the stream to remove, which also gives the last stream before it (itself, when it is the first).\<close>

partial_function (option) find_last :: "srtp_state \<Rightarrow> u32 \<Rightarrow> addr option \<Rightarrow> addr option \<Rightarrow> (addr option \<times> addr option) option" where
  "find_last s ssrc last_stream stream =
    (if stream = None then Some (last_stream, None)
     else Option.bind (streams s (the stream)) (\<lambda>x. if ssrc = str_ssrc x then Some (last_stream, stream)
         else find_last s ssrc stream (str_next x)))"

definition srtp_remove_stream :: "u32 \<Rightarrow> srtp_state \<Rightarrow> (err_status \<times> srtp_state) option" where
  "srtp_remove_stream ssrc s = do {
     (last_stream, stream) \<leftarrow> find_last s ssrc (stream_list s) (stream_list s);
     case stream of None \<Rightarrow> Some (err_status_no_ctx, s)
     | Some a \<Rightarrow> do {
         l \<leftarrow> last_stream;
         y \<leftarrow> streams s l;
         x \<leftarrow> streams s a;
         let s = set_stream l (y\<lparr>str_next := str_next x\<rparr>) s;
         (status, s) \<leftarrow> srtp_stream_dealloc a s;
         if status \<noteq> err_status_ok then Some (status, s) else Some (err_status_ok, s) }}"

section \<open>The predefined policies\<close>

definition crypto_policy_set_rtp_default :: "crypto_policy \<Rightarrow> crypto_policy" where
  "crypto_policy_set_rtp_default p = p\<lparr>cp_cipher_type := AES_128_ICM, cp_cipher_key_len := 30, cp_auth_type := HMAC_SHA1_ID,
     cp_auth_key_len := 20, cp_auth_tag_len := 10, cp_sec_serv := sec_serv_conf_and_auth\<rparr>"

definition crypto_policy_set_rtcp_default :: "crypto_policy \<Rightarrow> crypto_policy" where
  "crypto_policy_set_rtcp_default p = p\<lparr>cp_cipher_type := AES_128_ICM, cp_cipher_key_len := 30, cp_auth_type := HMAC_SHA1_ID,
     cp_auth_key_len := 20, cp_auth_tag_len := 10, cp_sec_serv := sec_serv_conf_and_auth\<rparr>"

definition crypto_policy_set_aes_cm_128_hmac_sha1_32 :: "crypto_policy \<Rightarrow> crypto_policy" where
  "crypto_policy_set_aes_cm_128_hmac_sha1_32 p = p\<lparr>cp_cipher_type := AES_128_ICM, cp_cipher_key_len := 30, cp_auth_type := HMAC_SHA1_ID,
     cp_auth_key_len := 20, cp_auth_tag_len := 4, cp_sec_serv := sec_serv_conf_and_auth\<rparr>"

definition crypto_policy_set_aes_cm_128_null_auth :: "crypto_policy \<Rightarrow> crypto_policy" where
  "crypto_policy_set_aes_cm_128_null_auth p = p\<lparr>cp_cipher_type := AES_128_ICM, cp_cipher_key_len := 30, cp_auth_type := NULL_AUTH,
     cp_auth_key_len := 0, cp_auth_tag_len := 0, cp_sec_serv := sec_serv_conf\<rparr>"

definition crypto_policy_set_null_cipher_hmac_sha1_80 :: "crypto_policy \<Rightarrow> crypto_policy" where
  "crypto_policy_set_null_cipher_hmac_sha1_80 p = p\<lparr>cp_cipher_type := NULL_CIPHER, cp_cipher_key_len := 0, cp_auth_type := HMAC_SHA1_ID,
     cp_auth_key_len := 20, cp_auth_tag_len := 10, cp_sec_serv := sec_serv_auth\<rparr>"

lemmas crypto_policy_defs = crypto_policy_set_rtp_default_def crypto_policy_set_rtcp_default_def
  crypto_policy_set_aes_cm_128_hmac_sha1_32_def crypto_policy_set_aes_cm_128_null_auth_def
  crypto_policy_set_null_cipher_hmac_sha1_80_def

end
