(* ===== verification/Srtp_Packet.thy ===== *)
theory Srtp_Packet
  imports Srtp_Session
begin

text \<open>
  Protection of packets by libSRTP, the second half of \<open>srtp/srtp.c\<close>: \<open>srtp_protect\<close>, \<open>srtp_unprotect\<close>,
  \<open>srtp_protect_rtcp\<close> and \<open>srtp_unprotect_rtcp\<close>.

  A packet is the memory from the header pointer on, and \<open>len\<close> the value behind \<open>pkt_octet_len\<close>; an access outside
  that memory is undefined. An operation returns its status, the session, the memory of the packet and the length.
\<close>

section \<open>Steps that the operations share\<close>

definition be64_to_cpu :: "u64 \<Rightarrow> u64" where
  "be64_to_cpu v = ucast (htonl (ucast (drop_bit 32 v))) OR push_bit 32 (ucast (htonl (ucast v)))"

text \<open>The stream for an outgoing packet: the one with the synchronization source, or a new clone of the template.
  \<open>srtp_protect\<close> makes a clone a sender at once.\<close>

definition outbound_stream :: "srtp_env \<Rightarrow> bool \<Rightarrow> u32 \<Rightarrow> srtp_state \<Rightarrow> ((err_status + addr) \<times> srtp_state) option" where
  "outbound_stream env sender ssrc s = do {
     found \<leftarrow> srtp_get_stream s ssrc;
     case found of Some p \<Rightarrow> Some (Inr p, s)
     | None \<Rightarrow> (case stream_template s of None \<Rightarrow> Some (Inl err_status_no_ctx, s)
         | Some t \<Rightarrow> do {
             (r, s) \<leftarrow> srtp_stream_clone env t ssrc s;
             case r of Inl status \<Rightarrow> Some (Inl status, s)
             | Inr p \<Rightarrow> do {
                 x \<leftarrow> streams s p;
                 let x = x\<lparr>str_next := stream_list s\<rparr>;
                 let x = (if sender then x\<lparr>str_direction := dir_srtp_sender\<rparr> else x);
                 Some (Inr p, (set_stream p x s)\<lparr>stream_list := Some p\<rparr>) }})}"

text \<open>The check of the direction, which reports a collision of synchronization sources.\<close>

definition check_direction :: "direction \<Rightarrow> addr \<Rightarrow> srtp_state \<Rightarrow> srtp_state option" where
  "check_direction dir p s = do {
     x \<leftarrow> streams s p;
     if str_direction x \<noteq> dir
     then if str_direction x = dir_unknown then Some (set_stream p (x\<lparr>str_direction := dir\<rparr>) s)
          else Some (srtp_handle_event p event_ssrc_collision s)
     else Some s }"

text \<open>The use of the key of a stream; the result is \<^const>\<open>True\<close> when the key has expired.\<close>

definition use_key :: "addr \<Rightarrow> srtp_state \<Rightarrow> (bool \<times> srtp_state) option" where
  "use_key p s = do {
     x \<leftarrow> streams s p;
     li \<leftarrow> limits s (str_limit x);
     let (event, li) = key_limit_update li;
     let s = set_limit (str_limit x) li s;
     Some (case event of key_event_normal \<Rightarrow> (False, s)
       | key_event_soft_limit \<Rightarrow> (False, srtp_handle_event p event_key_soft_limit s)
       | key_event_hard_limit \<Rightarrow> (True, srtp_handle_event p event_key_hard_limit s)) }"

text \<open>The offset of the encrypted portion: after the header, the contributing sources and the header extension.\<close>

definition enc_start :: "u8 list \<Rightarrow> nat option" where
  "enc_start pkt = do {
     hdr \<leftarrow> peek pkt 0 12;
     let off = 12 + 4 * unat (hdr ! 0 AND 0x0f);
     if bit (hdr ! 0) 4 then do {
       xlen \<leftarrow> peek pkt (int off + 2) 2;
       Some (off + 4 * (unat (ntohs (of_le16 xlen)) + 1)) }
     else Some off }"

definition hdr_seq :: "u8 list \<Rightarrow> u16" where
  "hdr_seq hdr = ntohs (of_le16 (take 2 (drop 2 hdr)))"

text \<open>The initialization vector for a packet with the source \<open>ssrc\<close> (the octets of the header) and the index \<open>est\<close>.
  For counter mode the source calls \<open>aes_icm_set_iv\<close> directly or through the type of the cipher.\<close>

definition set_rtp_iv :: "cipher \<Rightarrow> u8 list \<Rightarrow> u64 \<Rightarrow> err_status \<times> cipher" where
  "set_rtp_iv c ssrc est =
    (if kind_of (cipher_st c) = aes_icm_kind
     then cipher_set_iv c (le32 0 @ ssrc @ le64 (be64_to_cpu (push_bit 16 est)))
     else cipher_set_iv c (le64 0 @ le64 (be64_to_cpu est)))"

definition set_rtcp_iv :: "cipher \<Rightarrow> u8 list \<Rightarrow> u32 \<Rightarrow> err_status \<times> cipher" where
  "set_rtcp_iv c ssrc seq_num =
    (if kind_of (cipher_st c) = aes_icm_kind
     then cipher_set_iv c (le32 0 @ ssrc @ le32 (htonl (drop_bit 16 seq_num)) @ le32 (htonl (push_bit 16 seq_num)))
     else cipher_set_iv c (le32 0 @ le32 0 @ le32 0 @ le32 (htonl seq_num)))"

text \<open>Encryption of \<open>n\<close> octets, keystream output and the computation of a tag, each at an offset of the packet.\<close>

definition encrypt_at :: "cipher \<Rightarrow> u8 list \<Rightarrow> nat \<Rightarrow> nat \<Rightarrow> (err_status \<times> cipher \<times> u8 list) option" where
  "encrypt_at c pkt off n = do {
     (status, c, rest, _) \<leftarrow> cipher_encrypt c (drop off pkt) n;
     Some (status, c, take off pkt @ rest) }"

definition output_at :: "cipher \<Rightarrow> u8 list \<Rightarrow> nat \<Rightarrow> nat \<Rightarrow> (err_status \<times> cipher \<times> u8 list) option" where
  "output_at c pkt off n = do {
     (status, c, rest, _) \<leftarrow> cipher_output c (drop off pkt) n;
     Some (status, c, take off pkt @ rest) }"

definition tag_at :: "auth \<Rightarrow> u8 list \<Rightarrow> u8 list \<Rightarrow> nat \<Rightarrow> (err_status \<times> auth \<times> u8 list) option" where
  "tag_at a message pkt off = do {
     old \<leftarrow> peek pkt (int off) (auth_get_tag_length a);
     let (status, a, tag) = auth_compute a message old;
     pkt \<leftarrow> poke pkt off tag;
     Some (status, a, pkt) }"

section \<open>Protection of RTP\<close>

text \<open>The authentication of an outgoing packet: the packet and the rollover counter, which is the first four octets of
  the index in network order.\<close>

definition authenticate :: "auth \<Rightarrow> u8 list \<Rightarrow> nat \<Rightarrow> u8 list \<Rightarrow> (err_status \<times> auth \<times> u8 list) option" where
  "authenticate a pkt len roc =
    (let (status, a) = auth_start a in
     if status \<noteq> err_status_ok then Some (status, a, pkt)
     else do {
       msg \<leftarrow> peek pkt 0 len;
       let (status, a) = auth_update a msg;
       if status \<noteq> err_status_ok then Some (status, a, pkt)
       else do {
         (status, a, pkt) \<leftarrow> tag_at a roc pkt len;
         Some (if status \<noteq> err_status_ok then err_status_auth_fail else err_status_ok, a, pkt) }})"

text \<open>The part of \<open>srtp_protect\<close> after the key limit.\<close>

definition protect_with ::
    "addr \<Rightarrow> srtp_state \<Rightarrow> u8 list \<Rightarrow> int \<Rightarrow> (err_status \<times> srtp_state \<times> u8 list \<times> int) option" where
  "protect_with p s pkt len = do {
     x \<leftarrow> streams s p;
     c \<leftarrow> ciphers s (rtp_cipher x);
     a \<leftarrow> auths s (rtp_auth x);
     hdr \<leftarrow> peek pkt 0 12;
     let tag_len = auth_get_tag_length a;
     enc \<leftarrow> (if serv_conf (rtp_services x) then map_option Some (enc_start pkt) else Some None);
     let (delta, est) = rdbx_estimate_index (rtp_rdbx x) (hdr_seq hdr);
     status \<leftarrow> rdbx_check (rtp_rdbx x) delta;
     if status \<noteq> err_status_ok then Some (status, s, pkt, len)
     else do {
     rx \<leftarrow> rdbx_add_index (rtp_rdbx x) delta;
     let s = set_stream p (x\<lparr>rtp_rdbx := rx\<rparr>) s;
     let (status, c) = set_rtp_iv c (take 4 (drop 8 hdr)) est;
     if status \<noteq> err_status_ok then Some (err_status_cipher_fail, set_cipher (rtp_cipher x) c s, pkt, len)
     else do {
     let roc = take 4 (le64 (be64_to_cpu (push_bit 16 est)));
     (status, c, pkt) \<leftarrow> (if serv_auth (rtp_services x) \<and> auth_get_prefix_length a \<noteq> 0
        then output_at c pkt (nat len) (auth_get_prefix_length a) else Some (err_status_ok, c, pkt));
     if status \<noteq> err_status_ok then Some (err_status_cipher_fail, set_cipher (rtp_cipher x) c s, pkt, len)
     else do {
     (status, c, pkt) \<leftarrow> (case enc of None \<Rightarrow> Some (err_status_ok, c, pkt)
        | Some off \<Rightarrow> encrypt_at c pkt off (unat (word_of_int (len - int off) :: u32)));
     let s = set_cipher (rtp_cipher x) c s;
     if status \<noteq> err_status_ok then Some (err_status_cipher_fail, s, pkt, len)
     else if serv_auth (rtp_services x) then do {
       (status, a, pkt) \<leftarrow> authenticate a pkt (nat len) roc;
       let s = set_auth (rtp_auth x) a s;
       if status \<noteq> err_status_ok then Some (status, s, pkt, len)
       else Some (err_status_ok, s, pkt, len + int tag_len) }
     else Some (err_status_ok, s, pkt, len) }}}}"

definition srtp_protect ::
    "srtp_env \<Rightarrow> srtp_state \<Rightarrow> u8 list \<Rightarrow> int \<Rightarrow> (err_status \<times> srtp_state \<times> u8 list \<times> int) option" where
  "srtp_protect env s pkt len =
    (if len < 12 then Some (err_status_bad_param, s, pkt, len)
     else do {
       ssrc \<leftarrow> peek pkt 8 4;
       (r, s) \<leftarrow> outbound_stream env True (of_le32 ssrc) s;
       case r of Inl status \<Rightarrow> Some (status, s, pkt, len)
       | Inr p \<Rightarrow> do {
         s \<leftarrow> check_direction dir_srtp_sender p s;
         (expired, s) \<leftarrow> use_key p s;
         if expired then Some (err_status_key_expired, s, pkt, len)
         else protect_with p s pkt len }})"

section \<open>Removal of the protection of RTP\<close>

text \<open>The verification of a packet whose tag begins at \<open>off\<close>. \<open>tmp\<close> is the local array for the tag, of
  \<open>SRTP_MAX_TAG_LEN\<close> octets; a longer tag is written beyond its end.\<close>

definition verify :: "cipher \<Rightarrow> auth \<Rightarrow> u8 list \<Rightarrow> u8 list \<Rightarrow> int \<Rightarrow> u8 list \<Rightarrow> (err_status \<times> cipher \<times> auth) option" where
  "verify c a tmp pkt off roc = do {
     (status, c, tmp) \<leftarrow> (if auth_get_prefix_length a \<noteq> 0
        then output_at c tmp 0 (auth_get_prefix_length a) else Some (err_status_ok, c, tmp));
     if status \<noteq> err_status_ok then Some (err_status_cipher_fail, c, a)
     else let (status, a) = auth_start a in
     if status \<noteq> err_status_ok then Some (status, c, a)
     else do {
       msg \<leftarrow> (if off < 0 then None else peek pkt 0 (nat off));
       let (_, a) = auth_update a msg;
       (status, a, tmp) \<leftarrow> tag_at a roc tmp 0;
       if status \<noteq> err_status_ok then Some (err_status_auth_fail, c, a)
       else do {
         tag \<leftarrow> peek pkt off (auth_get_tag_length a);
         ne \<leftarrow> octet_string_is_eq tmp tag (auth_get_tag_length a);
         Some (if ne \<noteq> 0 then err_status_auth_fail else err_status_ok, c, a) }}}"

text \<open>A provisional stream, the template, becomes a clone of its own once a packet has been accepted.\<close>

definition inbound_stream :: "srtp_env \<Rightarrow> addr \<Rightarrow> u32 \<Rightarrow> srtp_state \<Rightarrow> ((err_status + addr) \<times> srtp_state) option" where
  "inbound_stream env p ssrc s =
    (if Some p \<noteq> stream_template s then Some (Inr p, s)
     else do {
       (r, s) \<leftarrow> srtp_stream_clone env p ssrc s;
       case r of Inl status \<Rightarrow> Some (Inl status, s)
       | Inr q \<Rightarrow> do {
           x \<leftarrow> streams s q;
           Some (Inr q, (set_stream q (x\<lparr>str_next := stream_list s\<rparr>) s)\<lparr>stream_list := Some q\<rparr>) }})"

text \<open>The part of \<open>srtp_unprotect\<close> after the check of the authentication.\<close>

definition accept_with ::
    "srtp_env \<Rightarrow> addr \<Rightarrow> u32 \<Rightarrow> int \<Rightarrow> nat option \<Rightarrow> srtp_state \<Rightarrow> u8 list \<Rightarrow> int \<Rightarrow> (err_status \<times> srtp_state \<times> u8 list \<times> int) option" where
  "accept_with env p ssrc delta enc s pkt len = do {
     x \<leftarrow> streams s p;
     c \<leftarrow> ciphers s (rtp_cipher x);
     a \<leftarrow> auths s (rtp_auth x);
     let tag_len = auth_get_tag_length a;
     (expired, s) \<leftarrow> use_key p s;
     if expired then Some (err_status_key_expired, s, pkt, len)
     else do {
     (status, c, pkt) \<leftarrow> (case enc of None \<Rightarrow> Some (err_status_ok, c, pkt)
        | Some off \<Rightarrow> encrypt_at c pkt off (unat (word_of_int (len - int tag_len - int off) :: u32)));
     let s = set_cipher (rtp_cipher x) c s;
     if status \<noteq> err_status_ok then Some (err_status_cipher_fail, s, pkt, len)
     else do {
     s \<leftarrow> check_direction dir_srtp_receiver p s;
     (r, s) \<leftarrow> inbound_stream env p ssrc s;
     case r of Inl status \<Rightarrow> Some (status, s, pkt, len)
     | Inr q \<Rightarrow> do {
         y \<leftarrow> streams s q;
         rx \<leftarrow> rdbx_add_index (rtp_rdbx y) delta;
         Some (err_status_ok, set_stream q (y\<lparr>rtp_rdbx := rx\<rparr>) s, pkt, len - int tag_len) }}}}"

text \<open>The part after the replay check, for the stream \<open>p\<close> and the index \<open>est\<close>.\<close>

definition unprotect_with ::
    "srtp_env \<Rightarrow> addr \<Rightarrow> int \<Rightarrow> u64 \<Rightarrow> srtp_state \<Rightarrow> u8 list \<Rightarrow> int \<Rightarrow> (err_status \<times> srtp_state \<times> u8 list \<times> int) option" where
  "unprotect_with env p delta est s pkt len = do {
     x \<leftarrow> streams s p;
     c \<leftarrow> ciphers s (rtp_cipher x);
     a \<leftarrow> auths s (rtp_auth x);
     hdr \<leftarrow> peek pkt 0 12;
     let (status, c) = set_rtp_iv c (take 4 (drop 8 hdr)) est;
     let s = set_cipher (rtp_cipher x) c s;
     if status \<noteq> err_status_ok then Some (err_status_cipher_fail, s, pkt, len)
     else do {
     let roc = take 4 (le64 (be64_to_cpu (push_bit 16 est)));
     enc \<leftarrow> (if serv_conf (rtp_services x) then map_option Some (enc_start pkt) else Some None);
     (status, c, a) \<leftarrow> (if serv_auth (rtp_services x)
        then verify c a (tag_mem env) pkt (len - int (auth_get_tag_length a)) roc else Some (err_status_ok, c, a));
     let s = set_auth (rtp_auth x) a (set_cipher (rtp_cipher x) c s);
     if status \<noteq> err_status_ok then Some (status, s, pkt, len)
     else accept_with env p (of_le32 (take 4 (drop 8 hdr))) delta enc s pkt len }}"

definition srtp_unprotect ::
    "srtp_env \<Rightarrow> srtp_state \<Rightarrow> u8 list \<Rightarrow> int \<Rightarrow> (err_status \<times> srtp_state \<times> u8 list \<times> int) option" where
  "srtp_unprotect env s pkt len =
    (if len < 12 then Some (err_status_bad_param, s, pkt, len)
     else do {
       hdr \<leftarrow> peek pkt 0 12;
       found \<leftarrow> srtp_get_stream s (of_le32 (take 4 (drop 8 hdr)));
       case found of
         None \<Rightarrow> (case stream_template s of None \<Rightarrow> Some (err_status_no_ctx, s, pkt, len)
           | Some t \<Rightarrow> unprotect_with env t (uint (hdr_seq hdr)) (ucast (hdr_seq hdr)) s pkt len)
       | Some p \<Rightarrow> do {
           x \<leftarrow> streams s p;
           let (delta, est) = rdbx_estimate_index (rtp_rdbx x) (hdr_seq hdr);
           status \<leftarrow> rdbx_check (rtp_rdbx x) delta;
           if status \<noteq> err_status_ok then Some (status, s, pkt, len)
           else unprotect_with env p delta est s pkt len }})"

section \<open>RTCP\<close>

definition SRTCP_E_BIT :: u32 where "SRTCP_E_BIT = 0x80000000"
definition SRTCP_INDEX_MASK :: u32 where "SRTCP_INDEX_MASK = 0x7fffffff"

text \<open>The part of \<open>srtp_protect_rtcp\<close> after the index has been taken: \<open>tr\<close> is the offset of the trailer.\<close>

definition protect_rtcp_with ::
    "addr \<Rightarrow> u32 \<Rightarrow> bool \<Rightarrow> u32 \<Rightarrow> srtp_state \<Rightarrow> u8 list \<Rightarrow> int \<Rightarrow> (err_status \<times> srtp_state \<times> u8 list \<times> int) option" where
  "protect_rtcp_with p seq_num conf enc_octet_len s pkt len = do {
     x \<leftarrow> streams s p;
     c \<leftarrow> ciphers s (rtcp_cipher x);
     a \<leftarrow> auths s (rtcp_auth x);
     ssrc \<leftarrow> peek pkt 4 4;
     let (status, c) = set_rtcp_iv c ssrc seq_num;
     if status \<noteq> err_status_ok then Some (err_status_cipher_fail, set_cipher (rtcp_cipher x) c s, pkt, len)
     else do {
     (status, c, pkt) \<leftarrow> output_at c pkt (nat (len + 4)) (auth_get_prefix_length a);
     if status \<noteq> err_status_ok then Some (err_status_cipher_fail, set_cipher (rtcp_cipher x) c s, pkt, len)
     else do {
     (status, c, pkt) \<leftarrow> (if conf then encrypt_at c pkt 8 (unat enc_octet_len) else Some (err_status_ok, c, pkt));
     let s = set_cipher (rtcp_cipher x) c s;
     if status \<noteq> err_status_ok then Some (err_status_cipher_fail, s, pkt, len)
     else do {
     let (_, a) = auth_start a;
     msg \<leftarrow> peek pkt 0 (nat (len + 4));
     (status, a, pkt) \<leftarrow> tag_at a msg pkt (nat (len + 4));
     let s = set_auth (rtcp_auth x) a s;
     if status \<noteq> err_status_ok then Some (err_status_auth_fail, s, pkt, len)
     else Some (err_status_ok, s, pkt, len + int (auth_get_tag_length a) + 4) }}}}"

text \<open>There is no check of the length: \<open>enc_octet_len\<close> wraps for a packet shorter than its header, and the trailer is
  then far behind the packet.\<close>

definition srtp_protect_rtcp ::
    "srtp_env \<Rightarrow> srtp_state \<Rightarrow> u8 list \<Rightarrow> int \<Rightarrow> (err_status \<times> srtp_state \<times> u8 list \<times> int) option" where
  "srtp_protect_rtcp env s pkt len = do {
     ssrc \<leftarrow> peek pkt 4 4;
     (r, s) \<leftarrow> outbound_stream env False (of_le32 ssrc) s;
     case r of Inl status \<Rightarrow> Some (status, s, pkt, len)
     | Inr p \<Rightarrow> do {
       s \<leftarrow> check_direction dir_srtp_sender p s;
       x \<leftarrow> streams s p;
       let enc_octet_len = (word_of_int (len - 8) :: u32);
       let tr = 8 + unat enc_octet_len;
       let conf = serv_conf (rtcp_services x);
       pkt \<leftarrow> poke pkt tr (le32 (if conf then htonl SRTCP_E_BIT else 0));
       let (status, r) = rdb_increment (rtcp_rdb x);
       let s = set_stream p (x\<lparr>rtcp_rdb := r\<rparr>) s;
       if status \<noteq> err_status_ok then Some (status, s, pkt, len)
       else do {
         let seq_num = rdb_get_value r;
         word \<leftarrow> peek pkt (int tr) 4;
         pkt \<leftarrow> poke pkt tr (le32 (of_le32 word OR htonl seq_num));
         protect_rtcp_with p seq_num conf enc_octet_len s pkt len }}}"

text \<open>The part of \<open>srtp_unprotect_rtcp\<close> after the check of the tag.\<close>

definition accept_rtcp_with ::
    "srtp_env \<Rightarrow> addr \<Rightarrow> u32 \<Rightarrow> u32 \<Rightarrow> nat option \<Rightarrow> srtp_state \<Rightarrow> u8 list \<Rightarrow> int \<Rightarrow> (err_status \<times> srtp_state \<times> u8 list \<times> int) option" where
  "accept_rtcp_with env p ssrc seq_num enc s pkt len = do {
     x \<leftarrow> streams s p;
     c \<leftarrow> ciphers s (rtcp_cipher x);
     a \<leftarrow> auths s (rtcp_auth x);
     let tag_len = auth_get_tag_length a;
     (status, c, pkt) \<leftarrow> (if auth_get_prefix_length a \<noteq> 0
        then output_at c pkt (nat (len - int tag_len)) (auth_get_prefix_length a) else Some (err_status_ok, c, pkt));
     if status \<noteq> err_status_ok then Some (err_status_cipher_fail, set_cipher (rtcp_cipher x) c s, pkt, len)
     else do {
     (status, c, pkt) \<leftarrow> (case enc of None \<Rightarrow> Some (err_status_ok, c, pkt) | Some n \<Rightarrow> encrypt_at c pkt 8 n);
     let s = set_cipher (rtcp_cipher x) c s;
     if status \<noteq> err_status_ok then Some (err_status_cipher_fail, s, pkt, len)
     else do {
     let len = len - (int tag_len + 4);
     s \<leftarrow> check_direction dir_srtp_receiver p s;
     (r, s) \<leftarrow> inbound_stream env p ssrc s;
     case r of Inl status \<Rightarrow> Some (status, s, pkt, len)
     | Inr q \<Rightarrow> do {
         y \<leftarrow> streams s q;
         rd \<leftarrow> rdb_add_index (rtcp_rdb y) seq_num;
         Some (err_status_ok, set_stream q (y\<lparr>rtcp_rdb := rd\<rparr>) s, pkt, len) }}}}"

definition srtp_unprotect_rtcp ::
    "srtp_env \<Rightarrow> srtp_state \<Rightarrow> u8 list \<Rightarrow> int \<Rightarrow> (err_status \<times> srtp_state \<times> u8 list \<times> int) option" where
  "srtp_unprotect_rtcp env s pkt len = do {
     ssrc \<leftarrow> peek pkt 4 4;
     found \<leftarrow> srtp_get_stream s (of_le32 ssrc);
     case (case found of Some p \<Rightarrow> Some p | None \<Rightarrow> stream_template s) of
       None \<Rightarrow> Some (err_status_no_ctx, s, pkt, len)
     | Some p \<Rightarrow> do {
       x \<leftarrow> streams s p;
       c \<leftarrow> ciphers s (rtcp_cipher x);
       a \<leftarrow> auths s (rtcp_auth x);
       let tag_len = auth_get_tag_length a;
       let enc_octet_len = (word_of_int (len - (8 + int tag_len + 4)) :: u32);
       trailer \<leftarrow> peek pkt (len - (int tag_len + 4)) 4;
       let enc = (if bit (trailer ! 0) 7 then Some (unat enc_octet_len) else None);
       let seq_num = ntohl (of_le32 trailer) AND SRTCP_INDEX_MASK;
       status \<leftarrow> rdb_check (rtcp_rdb x) seq_num;
       if status \<noteq> err_status_ok then Some (status, s, pkt, len)
       else do {
       let (status, c) = set_rtcp_iv c ssrc seq_num;
       let s = set_cipher (rtcp_cipher x) c s;
       if status \<noteq> err_status_ok then Some (err_status_cipher_fail, s, pkt, len)
       else do {
       let (_, a) = auth_start a;
       msg \<leftarrow> peek pkt 0 (nat (len - int tag_len));
       (status, a, tmp_tag) \<leftarrow> tag_at a msg (tag_mem env) 0;
       let s = set_auth (rtcp_auth x) a s;
       if status \<noteq> err_status_ok then Some (err_status_auth_fail, s, pkt, len)
       else do {
       tag \<leftarrow> peek pkt (len - int tag_len) tag_len;
       ne \<leftarrow> octet_string_is_eq tmp_tag tag tag_len;
       if ne \<noteq> 0 then Some (err_status_auth_fail, s, pkt, len)
       else accept_rtcp_with env p (of_le32 ssrc) seq_num enc s pkt len }}}}}"

end
