(* ===== verification/Srtp_Protection.thy ===== *)
theory Srtp_Protection
  imports Srtp_Packet
begin

text \<open>
  What the protection of packets guarantees. The interfaces on which \<open>srtp.c\<close> rests are two locales: a cipher that
  is positioned by a packet and then adds a keystream, and an authentication function that computes a tag. They are
  interpreted on the ciphers and authentication functions of the library, and from their laws the effect of the four
  operations is computed: protection adds the keystream after the header and appends the tag, and its removal gives the
  packet back, or reports a forgery and leaves the session as it was.
\<close>

section \<open>The cipher of a packet\<close>

text \<open>\<open>keyed k c\<close>: the cipher has the key \<open>k\<close>. \<open>positioned k ks c\<close>: it has that key and its next keystream octets
  are \<open>ks\<close>.\<close>

locale packet_cipher =
  fixes keyed :: "'k \<Rightarrow> cipher \<Rightarrow> bool" and positioned :: "'k \<Rightarrow> (nat \<Rightarrow> u8) \<Rightarrow> cipher \<Rightarrow> bool"
    and set_iv :: "cipher \<Rightarrow> u8 list \<Rightarrow> 'i \<Rightarrow> err_status \<times> cipher"
    and keystream :: "'k \<Rightarrow> u8 list \<Rightarrow> 'i \<Rightarrow> nat \<Rightarrow> u8"
  assumes iv_positions: "keyed k c \<Longrightarrow> length ssrc = 4 \<Longrightarrow>
      \<exists>c'. set_iv c ssrc i = (err_status_ok, c') \<and> positioned k (keystream k ssrc i) c'"
    and adds_stream: "positioned k ks c \<Longrightarrow> n \<le> length buf \<Longrightarrow> n \<le> 0xffff \<Longrightarrow>
      \<exists>c'. cipher_encrypt c buf n = Some (err_status_ok, c', add_stream ks (take n buf) @ drop n buf, n) \<and> keyed k c'"
    and adds_nothing: "positioned k ks c \<Longrightarrow> cipher_encrypt c buf 0 = Some (err_status_ok, c, buf, 0)"
    and positioned_keyed: "positioned k ks c \<Longrightarrow> keyed k c"
begin

lemma encrypt_at_stream:
  assumes "positioned k ks c" "off + n \<le> length pkt" "n \<le> 0xffff"
  shows "\<exists>c'. encrypt_at c pkt off n = Some (err_status_ok, c', take off pkt @ add_stream ks (take n (drop off pkt)) @ drop (off + n) pkt)
           \<and> keyed k c'"
proof -
  have "n \<le> length (drop off pkt)" using assms(2) by simp
  from adds_stream[OF assms(1) this assms(3)] show ?thesis by (auto simp: encrypt_at_def add.commute)
qed

text \<open>The same stream added again gives the packet back.\<close>

lemma encrypt_at_again:
  assumes "positioned k ks c" "off \<le> length pkt" "length pkt - off \<le> 0xffff"
  shows "\<exists>c'. encrypt_at c (take off pkt @ add_stream ks (drop off pkt) @ rest) off (length pkt - off) = Some (err_status_ok, c', pkt @ rest)
           \<and> keyed k c'"
  using encrypt_at_stream[OF assms(1), of off "length pkt - off" "take off pkt @ add_stream ks (drop off pkt) @ rest"] assms(2,3)
  by (simp add: add_stream_twice) (simp flip: append_assoc)

lemma output_nothing:
  assumes "positioned k ks c" "off < length pkt"
  shows "output_at c pkt off 0 = Some (err_status_ok, c, take off pkt @ 0 # drop (Suc off) pkt)"
  using assms adds_nothing[OF assms(1)]
  by (simp add: output_at_def cipher_output_def octet_string_set_to_zero_def)

end

subsection \<open>The ciphers of the library\<close>

text \<open>The key of a cipher: none for the null cipher, the salt and the round keys for counter mode.\<close>

type_synonym cipher_key = "(block \<times> block list) option"

definition cipher_keyed :: "cipher_key \<Rightarrow> cipher \<Rightarrow> bool" where
  "cipher_keyed k c =
    (case (k, cipher_st c) of (None, Null_cipher_state) \<Rightarrow> True
     | (Some (salt, ek), Aes_icm_state s) \<Rightarrow> icm_offset s = salt \<and> icm_expanded_key s = ek \<and>
         length (icm_keystream_buffer s) = 16 \<and> length salt = 16 \<and> drop 14 salt = [0, 0]
     | _ \<Rightarrow> False)"

definition cipher_positioned :: "cipher_key \<Rightarrow> (nat \<Rightarrow> u8) \<Rightarrow> cipher \<Rightarrow> bool" where
  "cipher_positioned k ks c =
    (cipher_keyed k c \<and>
     (case cipher_st c of Null_cipher_state \<Rightarrow> ks = (\<lambda>_. 0)
      | Aes_icm_state s \<Rightarrow> icm_bytes_in_buffer s = 0 \<and> drop 14 (icm_counter s) = [0, 0] \<and> ks = icm_stream False s
      | _ \<Rightarrow> False))"

text \<open>Counter mode from the counter block \<open>iv XOR salt\<close>, as RFC 3711 describes it.\<close>

definition counter_stream :: "cipher_key \<Rightarrow> block \<Rightarrow> nat \<Rightarrow> u8" where
  "counter_stream k iv i =
    (case k of None \<Rightarrow> 0
     | Some (salt, ek) \<Rightarrow> aes_encrypt ((icm_clock False ^^ (i div 16)) (v128_xor_eq salt iv)) ek ! (i mod 16))"

definition rtp_keystream :: "cipher_key \<Rightarrow> u8 list \<Rightarrow> u64 \<Rightarrow> nat \<Rightarrow> u8" where
  "rtp_keystream k ssrc est = counter_stream k (le32 0 @ ssrc @ le64 (be64_to_cpu (push_bit 16 est)))"

definition rtcp_keystream :: "cipher_key \<Rightarrow> u8 list \<Rightarrow> u32 \<Rightarrow> nat \<Rightarrow> u8" where
  "rtcp_keystream k ssrc seq_num =
     counter_stream k (le32 0 @ ssrc @ le32 (htonl (drop_bit 16 seq_num)) @ le32 (htonl (push_bit 16 seq_num)))"

lemma length_le64 [simp]: "length (le64 w) = 8"
  by (simp add: le64_def)

lemma le64_be64: "le64 (be64_to_cpu v) = rev (le64 v)"
proof -
  have o: "ucast (htonl w) = (ucast (drop_bit 24 w) :: u8)" "ucast (drop_bit 8 (htonl w)) = (ucast (drop_bit 16 w) :: u8)"
    "ucast (drop_bit 16 (htonl w)) = (ucast (drop_bit 8 w) :: u8)" "ucast (drop_bit 24 (htonl w)) = (ucast w :: u8)" for w :: u32
    using of_le32_le32[of "htonl w"] le32_of_le32[of "rev (le32 w)"] by (simp_all add: htonl_def le32_def)
  have lo: "ucast (drop_bit k (be64_to_cpu v)) = (ucast (drop_bit k (htonl (ucast (drop_bit 32 v)))) :: u8)" if "k \<le> 24" for k
    using that by (intro bit_word_eqI) (auto simp: be64_to_cpu_def bit_simps)
  have hi: "ucast (drop_bit (32 + k) (be64_to_cpu v)) = (ucast (drop_bit k (htonl (ucast v))) :: u8)" if "k \<le> 24" for k
    using that by (intro bit_word_eqI) (auto simp: be64_to_cpu_def bit_simps dest: bit_imp_le_length)
  have d: "ucast (drop_bit k (ucast v :: u32)) = (ucast (drop_bit k v) :: u8)"
    "ucast (drop_bit k (ucast (drop_bit 32 v) :: u32)) = (ucast (drop_bit (32 + k) v) :: u8)" if "k \<le> 24" for k
    using that by (intro bit_word_eqI; auto simp: bit_simps ac_simps)+
  have u: "[0..<8] = [0, 1, 2, 3, 4, 5, 6, 7]" by (simp add: upt_rec)
  show ?thesis
    using lo[of 0] lo[of 8] lo[of 16] lo[of 24] hi[of 0] hi[of 8] hi[of 16] hi[of 24]
      d[of 0] d[of 8] d[of 16] d[of 24]
    by (simp add: le64_def o u)
qed

lemma rtp_iv_tail: "length ssrc = 4 \<Longrightarrow> drop 14 (le32 0 @ ssrc @ le64 (be64_to_cpu (push_bit 16 est))) = [0, 0]"
proof -
  have "ucast (push_bit 16 est) = (0 :: u8)" "ucast (drop_bit 8 (push_bit 16 est)) = (0 :: u8)"
    by (intro bit_word_eqI; auto simp: bit_simps)+
  then show "length ssrc = 4 \<Longrightarrow> ?thesis"
    by (simp add: le64_be64) (simp add: le64_def upt_rec)
qed

lemma rtcp_iv_tail:
  "length ssrc = 4 \<Longrightarrow> drop 14 (le32 0 @ ssrc @ le32 (htonl (drop_bit 16 w)) @ le32 (htonl (push_bit 16 w))) = [0, 0]"
proof -
  have z: "ucast (push_bit 16 w) = (0 :: u8)" "ucast (drop_bit 8 (push_bit 16 w)) = (0 :: u8)"
    by (intro bit_word_eqI; auto simp: bit_simps)+
  have "le32 (htonl w') = rev (le32 w')" for w' by (simp add: htonl_def)
  then show "length ssrc = 4 \<Longrightarrow> ?thesis" using z by simp (simp add: le32_def)
qed

lemma xor_tail:
  assumes "length salt = 16" "length iv = 16" "drop 14 salt = [0, 0]" "drop 14 iv = [0, 0]"
  shows "drop 14 (v128_xor_eq salt iv) = [0, 0]"
proof -
  have "v128_xor_eq salt iv = map2 (XOR) (take 14 salt @ [0, 0]) (take 14 iv @ [0, 0])"
    using assms by (metis append_take_drop_id v128_xor_eq_AddRoundKey AddRoundKey_def)
  then show ?thesis using assms(1,2) by (simp add: zip_append)
qed

text \<open>Counter mode keeps its key.\<close>

lemma icm_blocks_kept:
  "icm_offset (fst (icm_blocks n c ism buf)) = icm_offset c \<and> icm_expanded_key (fst (icm_blocks n c ism buf)) = icm_expanded_key c"
  by (induction n arbitrary: c buf) (simp_all add: Let_def case_prod_beta aes_icm_advance_ismacryp_def)

lemma icm_encrypt_kept:
  assumes "aes_icm_encrypt c buf = (st, c', out)"
  shows "icm_offset c' = icm_offset c" "icm_expanded_key c' = icm_expanded_key c"
  using assms icm_blocks_kept
  by (auto simp: aes_icm_encrypt_def aes_icm_encrypt_ismacryp_def Let_def icm_tail_def aes_icm_advance_ismacryp_def
      case_prod_beta split: if_splits)

lemma of_le16_zero: "of_le16 [0, 0] = 0" "htons 0 = 0"
  by (simp_all add: of_le16_def htons_def le16_def)

lemma cipher_adds_stream:
  assumes "cipher_positioned k ks c" "n \<le> length buf" "n \<le> 0xffff"
  shows "\<exists>c'. cipher_encrypt c buf n = Some (err_status_ok, c', add_stream ks (take n buf) @ drop n buf, n) \<and> cipher_keyed k c'"
proof (cases "cipher_st c")
  case Null_cipher_state
  have "add_stream (\<lambda>_. 0) b = b" for b by (simp add: add_stream_def map_nth)
  then show ?thesis using assms Null_cipher_state
    by (simp add: cipher_positioned_def cipher_encrypt_def null_cipher_encrypt_def)
next
  case (Aes_icm_state s)
  then obtain salt ek where k: "k = Some (salt, ek)" and s: "icm_offset s = salt" "icm_expanded_key s = ek"
    "length (icm_keystream_buffer s) = 16" "length salt = 16" "drop 14 salt = [0, 0]" "icm_bytes_in_buffer s = 0"
    "drop 14 (icm_counter s) = [0, 0]" "ks = icm_stream False s"
    using assms(1) by (auto simp: cipher_positioned_def cipher_keyed_def split: option.splits)
  have wf: "icm_wf s" using s by (simp add: icm_wf_def)
  have "icm_room False s (length (take n buf))" using assms(2,3) s(7) by (simp add: icm_room_def of_le16_zero)
  from icm_encrypt_stream[OF wf this] obtain s' where
    e: "aes_icm_encrypt s (take n buf) = (err_status_ok, s', add_stream ks (take n buf))" and "icm_wf s'"
    by (auto simp: aes_icm_encrypt_def s(8))
  then show ?thesis using icm_encrypt_kept[OF e] assms(2) s Aes_icm_state
    by (simp add: cipher_encrypt_def icm_on_buffer_def k cipher_keyed_def icm_wf_def)
qed (use assms in \<open>simp add: cipher_positioned_def\<close>)

lemma cipher_adds_nothing:
  "cipher_positioned k ks c \<Longrightarrow> cipher_encrypt c buf 0 = Some (err_status_ok, c, buf, 0)"
  by (auto simp: cipher_positioned_def cipher_encrypt_def null_cipher_encrypt_def icm_on_buffer_def aes_icm_encrypt_def
      aes_icm_encrypt_ismacryp_def Let_def of_le16_zero split: cipher_state.splits)

lemma icm_iv_positions:
  assumes "cipher_keyed (Some (salt, ek)) c" "length iv = 16" "drop 14 iv = [0, 0]"
  shows "\<exists>c'. cipher_set_iv c iv = (err_status_ok, c') \<and> cipher_positioned (Some (salt, ek)) (counter_stream (Some (salt, ek)) iv) c'"
proof -
  obtain s where s: "cipher_st c = Aes_icm_state s" using assms(1) by (auto simp: cipher_keyed_def split: cipher_state.splits)
  then have "drop 14 (v128_xor_eq salt iv) = [0, 0]"
    using assms by (intro xor_tail) (auto simp: cipher_keyed_def)
  then show ?thesis using assms(1) s
    by (auto simp: cipher_keyed_def cipher_set_iv_def aes_icm_set_iv_def cipher_positioned_def counter_stream_def icm_stream_def fun_eq_iff)
qed

lemma null_iv_positions:
  "cipher_keyed None c \<Longrightarrow> \<exists>c'. cipher_set_iv c iv = (err_status_ok, c') \<and> cipher_positioned None (counter_stream None iv') c'"
  by (auto simp: cipher_keyed_def cipher_set_iv_def null_cipher_set_iv_def cipher_positioned_def counter_stream_def fun_eq_iff
      split: cipher_state.splits)

lemma cipher_keyed_kind: "cipher_keyed k c \<Longrightarrow> kind_of (cipher_st c) = aes_icm_kind \<longleftrightarrow> k \<noteq> None"
  by (auto simp: cipher_keyed_def kind_of_def split: cipher_state.splits option.splits)

interpretation rtp: packet_cipher cipher_keyed cipher_positioned set_rtp_iv rtp_keystream
proof unfold_locales
  show "\<exists>c'. set_rtp_iv c ssrc est = (err_status_ok, c') \<and> cipher_positioned k (rtp_keystream k ssrc est) c'"
    if "cipher_keyed k c" "length ssrc = 4" for k c ssrc est
    using that icm_iv_positions[OF _ _ rtp_iv_tail[OF that(2)]] null_iv_positions cipher_keyed_kind[OF that(1)]
    by (cases k) (auto simp: set_rtp_iv_def rtp_keystream_def)
qed (use cipher_adds_stream cipher_adds_nothing in \<open>auto simp: cipher_positioned_def\<close>)

interpretation rtcp: packet_cipher cipher_keyed cipher_positioned set_rtcp_iv rtcp_keystream
proof unfold_locales
  show "\<exists>c'. set_rtcp_iv c ssrc i = (err_status_ok, c') \<and> cipher_positioned k (rtcp_keystream k ssrc i) c'"
    if "cipher_keyed k c" "length ssrc = 4" for k c ssrc i
    using that icm_iv_positions[OF _ _ rtcp_iv_tail[OF that(2)]] null_iv_positions cipher_keyed_kind[OF that(1)]
    by (cases k) (auto simp: set_rtcp_iv_def rtcp_keystream_def)
qed (use cipher_adds_stream cipher_adds_nothing in \<open>auto simp: cipher_positioned_def\<close>)

section \<open>The authentication of a packet\<close>

text \<open>\<open>keyed m t a\<close>: the function has the key \<open>m\<close> and tags of \<open>t\<close> octets. \<open>fed m t d a\<close>: it has in addition been
  given the octets \<open>d\<close> since its start.\<close>

lemma octet_string_is_eq_take:
  "n \<le> length a \<Longrightarrow> n \<le> length b \<Longrightarrow> octet_string_is_eq a b n = Some (if take n a = take n b then 0 else 1)"
  by (induction a b n rule: octet_string_is_eq.induct) auto

locale packet_auth =
  fixes keyed :: "'m \<Rightarrow> nat \<Rightarrow> auth \<Rightarrow> bool" and fed :: "'m \<Rightarrow> nat \<Rightarrow> u8 list \<Rightarrow> auth \<Rightarrow> bool"
    and mac :: "'m \<Rightarrow> u8 list \<Rightarrow> u8 list" and bound :: nat
  assumes lengths: "keyed m t a \<Longrightarrow> auth_get_tag_length a = t \<and> auth_get_prefix_length a = 0 \<and> t \<le> length (mac m d)"
    and start: "keyed m t a \<Longrightarrow> \<exists>a'. auth_start a = (err_status_ok, a') \<and> fed m t [] a'"
    and update: "fed m t d a \<Longrightarrow> \<exists>a'. auth_update a e = (err_status_ok, a') \<and> fed m t (d @ e) a'"
    and compute: "fed m t d a \<Longrightarrow> length (d @ e) < bound \<Longrightarrow>
      \<exists>a'. auth_compute a e old = (err_status_ok, a', take t (mac m (d @ e)) @ drop t old) \<and> keyed m t a'"
    and fed_keyed: "fed m t d a \<Longrightarrow> keyed m t a"
begin

lemma length_tag: "keyed m t a \<Longrightarrow> length (take t (mac m d)) = t"
  using lengths by simp

lemma tag_at_mac:
  assumes "fed m t d a" "length (d @ e) < bound" "off + t \<le> length pkt"
  shows "\<exists>a'. tag_at a e pkt off = Some (err_status_ok, a', take off pkt @ take t (mac m (d @ e)) @ drop (off + t) pkt) \<and> keyed m t a'"
proof -
  note l = lengths[OF fed_keyed[OF assms(1)]] length_tag[OF fed_keyed[OF assms(1)]]
  let ?old = "take t (drop off pkt)"
  obtain a' where c: "auth_compute a e ?old = (err_status_ok, a', take t (mac m (d @ e)) @ drop t ?old)" "keyed m t a'"
    using compute[OF assms(1,2)] by blast
  have "peek pkt (int off) t = Some ?old" using assms(3) by (simp add: peek_def)
  moreover have "poke pkt off (take t (mac m (d @ e))) = Some (take off pkt @ take t (mac m (d @ e)) @ drop (off + t) pkt)"
    using assms(3) l by (simp add: poke_def)
  ultimately show ?thesis using c l by (simp add: tag_at_def)
qed

lemma authenticate_mac:
  assumes "keyed m t a" "len + length roc < bound" "len + t \<le> length pkt"
  shows "\<exists>a'. authenticate a pkt len roc = Some (err_status_ok, a', take len pkt @ take t (mac m (take len pkt @ roc)) @ drop (len + t) pkt)
           \<and> keyed m t a'"
proof -
  obtain a1 where 1: "auth_start a = (err_status_ok, a1)" "fed m t [] a1" using start[OF assms(1)] by blast
  obtain a2 where 2: "auth_update a1 (take len pkt) = (err_status_ok, a2)" "fed m t (take len pkt) a2" using update[OF 1(2)] by fastforce
  have "peek pkt 0 len = Some (take len pkt)" using assms(3) by (simp add: peek_def)
  moreover have "length (take len pkt @ roc) < bound" using assms(2,3) by simp
  ultimately show ?thesis using 1 2 tag_at_mac[OF 2(2) _ assms(3), of roc] by (auto simp: authenticate_def)
qed

text \<open>The verification tells whether the octets at the place of the tag are the tag.\<close>

lemma verify_mac:
  assumes "keyed m t a" "length msg + length roc < bound" "t \<le> length tmp" "length tag = t"
  shows "\<exists>a'. verify c a tmp (msg @ tag @ rest) (int (length msg)) roc
      = Some (if tag = take t (mac m (msg @ roc)) then err_status_ok else err_status_auth_fail, c, a') \<and> keyed m t a'"
proof -
  note l = lengths[OF assms(1)] length_tag[OF assms(1)]
  obtain a1 where 1: "auth_start a = (err_status_ok, a1)" "fed m t [] a1" using start[OF assms(1)] by blast
  obtain a2 where 2: "auth_update a1 msg = (err_status_ok, a2)" "fed m t msg a2" using update[OF 1(2)] by fastforce
  obtain a3 where 3: "tag_at a2 roc tmp 0 = Some (err_status_ok, a3, take t (mac m (msg @ roc)) @ drop t tmp)" "keyed m t a3"
    using tag_at_mac[OF 2(2), of roc 0 tmp] assms(2,3) by auto
  have p: "peek (msg @ tag @ rest) 0 (length msg) = Some msg" "peek (msg @ tag @ rest) (int (length msg)) t = Some tag"
    using assms(4) by (simp_all add: peek_def)
  have "octet_string_is_eq (take t (mac m (msg @ roc)) @ drop t tmp) tag t = Some (if tag = take t (mac m (msg @ roc)) then 0 else 1)"
    using assms(3,4) l by (auto simp: octet_string_is_eq_take)
  then show ?thesis using 1 2 3 p l lengths[OF 3(2)] by (auto simp: verify_def)
qed

end

subsection \<open>The authentication functions of the library\<close>

text \<open>The key of HMAC, or none for the null function, which has tags without octets here.\<close>

definition auth_keyed :: "u8 list option \<Rightarrow> nat \<Rightarrow> auth \<Rightarrow> bool" where
  "auth_keyed m t a =
    (out_len a = t \<and> prefix_len a = 0 \<and>
     (case (m, auth_st a) of (Some key, Hmac_state s) \<Rightarrow> hmac_ready key s \<and> t \<le> 20
      | (None, Null_auth_state) \<Rightarrow> t = 0
      | _ \<Rightarrow> False))"

definition auth_fed :: "u8 list option \<Rightarrow> nat \<Rightarrow> u8 list \<Rightarrow> auth \<Rightarrow> bool" where
  "auth_fed m t d a =
    (auth_keyed m t a \<and> (case (m, auth_st a) of (Some key, Hmac_state s) \<Rightarrow> hmac_consumed key s d | _ \<Rightarrow> True))"

definition packet_mac :: "u8 list option \<Rightarrow> u8 list \<Rightarrow> u8 list" where
  "packet_mac m d = (case m of None \<Rightarrow> [] | Some key \<Rightarrow> HMAC_SHA1 key d)"

lemma length_HMAC_SHA1 [simp]: "length (HMAC_SHA1 key d) = 20"
  by (simp add: HMAC_SHA1_def)

lemma auth_compute_mac:
  assumes "auth_fed m t d a" "length (d @ e) < 2 ^ 29 - 64"
  shows "\<exists>a'. auth_compute a e old = (err_status_ok, a', take t (packet_mac m (d @ e)) @ drop t old) \<and> auth_keyed m t a'"
proof (cases "auth_st a")
  case (Hmac_state s)
  then obtain key where m: "m = Some key" and s: "hmac_consumed key s d" "t \<le> 20" "out_len a = t" "prefix_len a = 0"
    using assms(1) by (auto simp: auth_fed_def auth_keyed_def split: option.splits)
  show ?thesis using hmac_compute_consumed[OF s(1) assms(2) s(2), of old] Hmac_state s m
    by (auto simp: auth_compute_def case_prod_beta packet_mac_def auth_keyed_def)
next
  case Null_auth_state
  then show ?thesis using assms(1)
    by (auto simp: auth_compute_def null_auth_compute_def auth_fed_def auth_keyed_def packet_mac_def split: option.splits)
qed

interpretation pauth: packet_auth auth_keyed auth_fed packet_mac "2 ^ 29 - 64"
proof unfold_locales
  show "auth_keyed m t a \<Longrightarrow> auth_get_tag_length a = t \<and> auth_get_prefix_length a = 0 \<and> t \<le> length (packet_mac m d)" for m t a d
    by (auto simp: auth_keyed_def auth_get_tag_length_def auth_get_prefix_length_def packet_mac_def split: option.splits auth_state.splits)
  show "auth_keyed m t a \<Longrightarrow> \<exists>a'. auth_start a = (err_status_ok, a') \<and> auth_fed m t [] a'" for m t a
    by (auto simp: auth_keyed_def auth_start_def auth_fed_def null_auth_start_def hmac_start_def hmac_consumed_def hmac_ready_def
        split: option.splits auth_state.splits)
  show "auth_fed m t d a \<Longrightarrow> \<exists>a'. auth_update a e = (err_status_ok, a') \<and> auth_fed m t (d @ e) a'" for m t d a e
    using hmac.update_ready
    by (fastforce simp: auth_keyed_def auth_update_def auth_fed_def null_auth_update_def hmac_update_def hmac_consumed_def
        split: option.splits auth_state.splits)
qed (use auth_compute_mac in \<open>auto simp: auth_fed_def\<close>)

section \<open>Protection of RTP\<close>

definition rtp_packet :: "u8 list \<Rightarrow> bool" where
  "rtp_packet pkt \<longleftrightarrow> (\<exists>off. enc_start pkt = Some off \<and> off \<le> length pkt) \<and> length pkt \<le> 0xffff"

abbreviation pkt_ssrc :: "u8 list \<Rightarrow> u8 list" where
  "pkt_ssrc pkt \<equiv> take 4 (drop 8 pkt)"

definition roc_octets :: "u64 \<Rightarrow> u8 list" where
  "roc_octets est = take 4 (le64 (be64_to_cpu (push_bit 16 est)))"

text \<open>The specification of the protected packet: the keystream is added after the header, and the tag is the code of the
  result and the rollover counter.\<close>

definition clear_part :: "sec_serv \<Rightarrow> u8 list \<Rightarrow> nat" where
  "clear_part serv pkt = (if serv_conf serv then the (enc_start pkt) else length pkt)"

definition rtp_sealed :: "cipher_key \<Rightarrow> sec_serv \<Rightarrow> u64 \<Rightarrow> u8 list \<Rightarrow> u8 list" where
  "rtp_sealed k serv est pkt =
    take (clear_part serv pkt) pkt @ add_stream (rtp_keystream k (pkt_ssrc pkt) est) (drop (clear_part serv pkt) pkt)"

definition rtp_tag :: "u8 list option \<Rightarrow> nat \<Rightarrow> sec_serv \<Rightarrow> u64 \<Rightarrow> u8 list \<Rightarrow> u8 list" where
  "rtp_tag m t serv est sealed = (if serv_auth serv then take t (packet_mac m (sealed @ roc_octets est)) else [])"

lemma peek_same:
  assumes "take n p = take n q" "n \<le> length p" "n \<le> length q" "0 \<le> i" "i + int k \<le> int n"
  shows "peek p i k = peek q i k"
proof -
  have "take k (drop (nat i) p) = take k (drop (nat i) q)"
    using arg_cong[OF assms(1), of "\<lambda>l. take k (drop (nat i) l)"] assms(4,5) by (simp add: drop_take min_def split: if_splits)
  then show ?thesis using assms by (simp add: peek_def)
qed

lemma enc_start_same:
  assumes "enc_start p = Some off" "take off p = take off q" "off \<le> length p" "off \<le> length q"
  shows "enc_start q = Some off"
proof -
  obtain hdr where h: "peek p 0 12 = Some hdr" using assms(1) by (auto simp: enc_start_def split: bind_splits)
  let ?o = "12 + 4 * unat (hdr ! 0 AND 0x0f)"
  have off: "?o \<le> off" "bit (hdr ! 0) 4 \<Longrightarrow> ?o + 4 \<le> off"
    using assms(1) h by (auto simp: enc_start_def Let_def split: bind_splits if_splits)
  have 1: "peek q 0 12 = Some hdr" using peek_same[OF assms(2-4), of 0 12] off(1) h by simp
  have 2: "peek q (int ?o + 2) 2 = peek p (int ?o + 2) 2" if "bit (hdr ! 0) 4"
    by (rule peek_same[OF assms(2-4), symmetric]) (use off(2)[OF that] in linarith)+
  show ?thesis using assms(1) h 1 2 by (auto simp: enc_start_def Let_def)
qed

lemma enc_start_ge12: "enc_start pkt = Some off \<Longrightarrow> 12 \<le> off"
  by (auto simp: enc_start_def Let_def split: bind_splits if_splits)

lemma rtp_packet_D:
  assumes "rtp_packet pkt"
  shows "12 \<le> clear_part serv pkt" "clear_part serv pkt \<le> length pkt" "12 \<le> length pkt" "length pkt \<le> 0xffff"
    "\<exists>off. enc_start pkt = Some off \<and> off \<le> length pkt" "length (pkt_ssrc pkt) = 4"
proof -
  obtain off where o: "enc_start pkt = Some off" "off \<le> length pkt" "length pkt \<le> 0xffff" using assms by (auto simp: rtp_packet_def)
  note g = enc_start_ge12[OF o(1)]
  show "12 \<le> clear_part serv pkt" "clear_part serv pkt \<le> length pkt" "12 \<le> length pkt" "length pkt \<le> 0xffff"
    "\<exists>off. enc_start pkt = Some off \<and> off \<le> length pkt" "length (pkt_ssrc pkt) = 4"
    using o g by (auto simp: clear_part_def)
qed

lemma length_rtp_sealed: "rtp_packet pkt \<Longrightarrow> length (rtp_sealed k serv est pkt) = length pkt"
  using rtp_packet_D(2)[of pkt serv] by (simp add: rtp_sealed_def)

text \<open>A stream whose cipher and authentication function are set up.\<close>

definition stream_keyed :: "srtp_state \<Rightarrow> addr \<Rightarrow> srtp_stream_ctx \<Rightarrow> cipher_key \<Rightarrow> u8 list option \<Rightarrow> nat \<Rightarrow> bool" where
  "stream_keyed s p x k m t \<longleftrightarrow> streams s p = Some x \<and>
     (\<exists>c. ciphers s (rtp_cipher x) = Some c \<and> cipher_keyed k c) \<and> (\<exists>a. auths s (rtp_auth x) = Some a \<and> auth_keyed m t a)"

lemma unat_word_of_nat32: "n < 2 ^ 32 \<Longrightarrow> unat (word_of_int (int n) :: u32) = n"
  by (simp add: unat_of_nat take_bit_nat_eq_self flip: of_nat_eq_iff[where 'a = int])

lemma encrypt_step:
  assumes "cipher_positioned k (rtp_keystream k (pkt_ssrc pkt) est) c" "rtp_packet pkt" "enc_start pkt = Some off"
  shows "\<exists>c'. (case (if serv_conf serv then Some off else None) of None \<Rightarrow> Some (err_status_ok, c, pkt @ rest)
      | Some off \<Rightarrow> encrypt_at c (pkt @ rest) off (unat (word_of_int (int (length pkt) - int off) :: u32))) = Some (err_status_ok, c', rtp_sealed k serv est pkt @ rest) \<and>
      cipher_keyed k c'"
proof (cases "serv_conf serv")
  case True
  have l: "clear_part serv pkt \<le> length pkt" "length pkt - clear_part serv pkt \<le> 0xffff" using rtp_packet_D[OF assms(2)] by (simp_all add: le_diff_conv trans_le_add1)
  have "unat (word_of_int (int (length pkt) - int off) :: u32) = length pkt - off"
    using unat_word_of_nat32[of "length pkt - off"] rtp_packet_D[OF assms(2)] assms(3) by (auto simp: of_nat_diff)
  then show ?thesis using rtp.encrypt_at_stream[OF assms(1), of "clear_part serv pkt" "length pkt - clear_part serv pkt" "pkt @ rest"] l True assms(3)
    by (auto simp: rtp_sealed_def clear_part_def)
next
  case False
  then show ?thesis using rtp.positioned_keyed[OF assms(1)] by (simp add: rtp_sealed_def clear_part_def add_stream_def)
qed

lemma protect_with_seals:
  assumes keyed: "stream_keyed s p x k m t" and pkt: "rtp_packet pkt" "t \<le> length room"
    and idx: "rdbx_estimate_index (rtp_rdbx x) (hdr_seq pkt) = (delta, est)" "rdbx_check (rtp_rdbx x) delta = Some err_status_ok"
      "rdbx_add_index (rtp_rdbx x) delta = Some rx"
  defines "sealed \<equiv> rtp_sealed k (rtp_services x) est pkt"
  defines "tag \<equiv> rtp_tag m t (rtp_services x) est sealed"
  shows "\<exists>c a. protect_with p s (pkt @ room) (int (length pkt)) =
      Some (err_status_ok, s\<lparr>streams := (streams s)(p := Some (x\<lparr>rtp_rdbx := rx\<rparr>)), ciphers := (ciphers s)(rtp_cipher x := Some c),
              auths := (auths s)(rtp_auth x := Some a)\<rparr>, sealed @ tag @ drop (length tag) room, int (length sealed + length tag))
      \<and> cipher_keyed k c \<and> auth_keyed m t a"
proof -
  obtain c a where ca: "streams s p = Some x" "ciphers s (rtp_cipher x) = Some c" "cipher_keyed k c" "auths s (rtp_auth x) = Some a" "auth_keyed m t a"
    using keyed by (auto simp: stream_keyed_def)
  note P = rtp_packet_D[OF pkt(1)]
  let ?hdr = "take 12 pkt"
  have hdr: "peek (pkt @ room) 0 12 = Some ?hdr" "take 4 (drop 8 ?hdr) = pkt_ssrc pkt" "hdr_seq ?hdr = hdr_seq pkt"
    using P(3) by (simp_all add: peek_def drop_take hdr_seq_def)
  obtain off where off: "enc_start pkt = Some off" "off \<le> length pkt" using P(5) by blast
  have enc: "(if serv_conf (rtp_services x) then map_option Some (enc_start (pkt @ room)) else Some None)
      = Some (if serv_conf (rtp_services x) then Some off else None)"
    using enc_start_same[OF off(1)] off(2) by simp
  obtain c1 where c1: "set_rtp_iv c (pkt_ssrc pkt) est = (err_status_ok, c1)" "cipher_positioned k (rtp_keystream k (pkt_ssrc pkt) est) c1"
    using rtp.iv_positions[OF ca(3) P(6)] by blast
  obtain c2 where c2: "(case (if serv_conf (rtp_services x) then Some off else None) of None \<Rightarrow> Some (err_status_ok, c1, pkt @ room)
      | Some off \<Rightarrow> encrypt_at c1 (pkt @ room) off (unat (word_of_int (int (length pkt) - int off) :: u32))) = Some (err_status_ok, c2, sealed @ room)" "cipher_keyed k c2"
    using encrypt_step[OF c1(2) pkt(1) off(1), where serv = "rtp_services x" and rest = room] off by (auto simp: sealed_def)
  have len: "length sealed = length pkt" using length_rtp_sealed[OF pkt(1)] by (simp add: sealed_def)
  obtain a1 where a1: "authenticate a (sealed @ room) (length pkt) (roc_octets est)
      = Some (err_status_ok, a1, sealed @ take t (packet_mac m (sealed @ roc_octets est)) @ drop t room)" "auth_keyed m t a1"
    using pauth.authenticate_mac[OF ca(5), of "length pkt" "roc_octets est" "sealed @ room"] P(4) pkt(2) len
    by (auto simp: roc_octets_def)
  note eval = protect_with_def ca(1,2,4) hdr enc idx c1(1) c2(1) a1(1) pauth.lengths[OF ca(5)] tag_def rtp_tag_def len
  show ?thesis
  proof (cases "serv_auth (rtp_services x)")
    case True
    then show ?thesis using c2(2) a1(2) pauth.length_tag[OF ca(5)]
      by (intro exI[of _ c2] exI[of _ a1]) (simp add: eval flip: roc_octets_def)
  next
    case False
    then show ?thesis using c2(2) ca(4,5) fun_upd_triv[of "auths s" "rtp_auth x"]
      by (intro exI[of _ c2] exI[of _ a]) (simp add: eval flip: roc_octets_def)
  qed
qed

text \<open>The steps around the cipher change the direction of the stream, the key limit and the events only.\<close>

lemma same_events [simp]: "s\<lparr>streams := streams s, events := e\<rparr> = s\<lparr>events := e\<rparr>" "s\<lparr>events := events s\<rparr> = (s :: srtp_state)"
  by simp_all

lemma check_direction_effect:
  assumes "streams s p = Some x"
  shows "\<exists>d ev. check_direction dir p s = Some (s\<lparr>streams := (streams s)(p := Some (x\<lparr>str_direction := d\<rparr>)), events := ev\<rparr>)"
proof -
  have id: "(streams s)(p := Some (x\<lparr>str_direction := str_direction x\<rparr>)) = streams s" using assms by (simp add: fun_upd_idem)
  consider "str_direction x = dir" | "str_direction x \<noteq> dir" "str_direction x = dir_unknown"
    | "str_direction x \<noteq> dir" "str_direction x \<noteq> dir_unknown" by blast
  then show ?thesis
  proof cases
    case 1
    then show ?thesis using assms id by (intro exI[of _ "str_direction x"] exI[of _ "events s"]) (simp add: check_direction_def)
  next
    case 2
    then show ?thesis using assms by (intro exI[of _ dir] exI[of _ "events s"]) (simp add: check_direction_def)
  next
    case 3
    let ?e = "events (srtp_handle_event p event_ssrc_collision s)"
    show ?thesis using 3 assms id
      by (intro exI[of _ "str_direction x"] exI[of _ ?e]) (simp add: check_direction_def srtp_handle_event_def)
  qed
qed

lemma use_key_effect:
  assumes "streams s p = Some x" "limits s (str_limit x) = Some li" "key_limit_update li = (ev, li')"
  shows "\<exists>es. use_key p s = Some (ev = key_event_hard_limit, s\<lparr>limits := (limits s)(str_limit x := Some li'), events := es\<rparr>)"
proof -
  let ?es = "case ev of key_event_normal \<Rightarrow> events s | key_event_soft_limit \<Rightarrow> events (srtp_handle_event p event_key_soft_limit s)
    | key_event_hard_limit \<Rightarrow> events (srtp_handle_event p event_key_hard_limit s)"
  show ?thesis using assms by (cases ev) (intro exI[of _ ?es], simp add: use_key_def srtp_handle_event_def)+
qed

lemma srtp_protect_seals:
  assumes found: "srtp_get_stream s (of_le32 (pkt_ssrc pkt)) = Some (Some p)" and keyed: "stream_keyed s p x k m t"
    and pkt: "rtp_packet pkt" "t \<le> length room"
    and lim: "limits s (str_limit x) = Some li" "key_limit_update li = (ev, li')" "ev \<noteq> key_event_hard_limit"
    and idx: "rdbx_estimate_index (rtp_rdbx x) (hdr_seq pkt) = (delta, est)" "rdbx_check (rtp_rdbx x) delta = Some err_status_ok"
      "rdbx_add_index (rtp_rdbx x) delta = Some rx"
  defines "sealed \<equiv> rtp_sealed k (rtp_services x) est pkt"
  defines "tag \<equiv> rtp_tag m t (rtp_services x) est sealed"
  shows "\<exists>c a d es. srtp_protect env s (pkt @ room) (int (length pkt)) =
      Some (err_status_ok, s\<lparr>streams := (streams s)(p := Some (x\<lparr>str_direction := d, rtp_rdbx := rx\<rparr>)),
              ciphers := (ciphers s)(rtp_cipher x := Some c), auths := (auths s)(rtp_auth x := Some a),
              limits := (limits s)(str_limit x := Some li'), events := es\<rparr>,
            sealed @ tag @ drop (length tag) room, int (length sealed + length tag))
      \<and> cipher_keyed k c \<and> auth_keyed m t a"
proof -
  have x: "streams s p = Some x" using keyed by (simp add: stream_keyed_def)
  have ssrc: "peek (pkt @ room) 8 4 = Some (pkt_ssrc pkt)" using rtp_packet_D[OF pkt(1)] by (simp add: peek_def)
  have out: "outbound_stream env True (of_le32 (pkt_ssrc pkt)) s = Some (Inr p, s)" using found by (simp add: outbound_stream_def)
  obtain d ev1 where d: "check_direction dir_srtp_sender p s = Some (s\<lparr>streams := (streams s)(p := Some (x\<lparr>str_direction := d\<rparr>)), events := ev1\<rparr>)"
    (is "_ = Some ?s1") using check_direction_effect[OF x] by blast
  obtain es where u: "use_key p ?s1 = Some (False, ?s1\<lparr>limits := (limits s)(str_limit x := Some li'), events := es\<rparr>)"
    (is "_ = Some (_, ?s2)") using use_key_effect[of ?s1 p "x\<lparr>str_direction := d\<rparr>" li ev li'] lim by auto
  have "stream_keyed ?s2 p (x\<lparr>str_direction := d\<rparr>) k m t" using keyed by (simp add: stream_keyed_def)
  from protect_with_seals[OF this pkt, of delta est rx] idx obtain c a where
    "protect_with p ?s2 (pkt @ room) (int (length pkt)) = Some (err_status_ok,
       ?s2\<lparr>streams := (streams ?s2)(p := Some (x\<lparr>str_direction := d, rtp_rdbx := rx\<rparr>)), ciphers := (ciphers s)(rtp_cipher x := Some c),
         auths := (auths s)(rtp_auth x := Some a)\<rparr>, sealed @ tag @ drop (length tag) room, int (length sealed + length tag))"
    "cipher_keyed k c" "auth_keyed m t a" by (auto simp: sealed_def tag_def)
  then show ?thesis using rtp_packet_D(3)[OF pkt(1)] ssrc out d u
    by (intro exI[of _ c] exI[of _ a] exI[of _ d] exI[of _ es]) (simp add: srtp_protect_def)
qed

section \<open>Removal of the protection\<close>

lemma sealed_prefix:
  assumes "rtp_packet pkt" "n \<le> clear_part serv pkt"
  shows "take n (rtp_sealed k serv est pkt) = take n pkt"
  using assms rtp_packet_D(2)[OF assms(1), of serv] by (simp add: rtp_sealed_def)

lemma sealed_header:
  assumes "rtp_packet pkt"
  shows "pkt_ssrc (rtp_sealed k serv est pkt) = pkt_ssrc pkt" "hdr_seq (rtp_sealed k serv est pkt) = hdr_seq pkt"
    "serv_conf serv \<Longrightarrow> enc_start (rtp_sealed k serv est pkt @ rest) = enc_start pkt"
proof -
  note P = rtp_packet_D[OF assms]
  have "take 12 (rtp_sealed k serv est pkt) = take 12 pkt" using sealed_prefix[OF assms] P(1) by blast
  then have "take 4 (drop 8 (take 12 (rtp_sealed k serv est pkt))) = take 4 (drop 8 (take 12 pkt))"
    "take 2 (drop 2 (take 12 (rtp_sealed k serv est pkt))) = take 2 (drop 2 (take 12 pkt))" by simp_all
  then show "pkt_ssrc (rtp_sealed k serv est pkt) = pkt_ssrc pkt" "hdr_seq (rtp_sealed k serv est pkt) = hdr_seq pkt"
    by (simp_all add: drop_take hdr_seq_def)
  obtain off where off: "enc_start pkt = Some off" "off \<le> length pkt" using P(5) by blast
  then show "serv_conf serv \<Longrightarrow> enc_start (rtp_sealed k serv est pkt @ rest) = enc_start pkt"
    using enc_start_same[OF off(1), of "rtp_sealed k serv est pkt @ rest"] sealed_prefix[OF assms, of off serv k est] length_rtp_sealed[OF assms]
    by (simp add: clear_part_def)
qed

text \<open>A packet with a wrong tag is refused; only the working state of the cipher and the authentication function
  changes.\<close>

lemma unprotect_with_refuses:
  assumes keyed: "stream_keyed s p x k m t" and q: "rtp_packet q" "length tag = t" "t \<le> length (tag_mem env)"
    and serv: "serv_auth (rtp_services x)" and bad: "tag \<noteq> take t (packet_mac m (q @ roc_octets est))"
  shows "\<exists>c a. unprotect_with env p delta est s (q @ tag @ rest) (int (length q + t)) =
      Some (err_status_auth_fail, s\<lparr>ciphers := (ciphers s)(rtp_cipher x := Some c), auths := (auths s)(rtp_auth x := Some a)\<rparr>,
            q @ tag @ rest, int (length q + t)) \<and> cipher_keyed k c \<and> auth_keyed m t a"
proof -
  obtain c a where ca: "streams s p = Some x" "ciphers s (rtp_cipher x) = Some c" "cipher_keyed k c" "auths s (rtp_auth x) = Some a" "auth_keyed m t a"
    using keyed by (auto simp: stream_keyed_def)
  note P = rtp_packet_D[OF q(1)]
  have hdr: "peek (q @ tag @ rest) 0 12 = Some (take 12 q)" "take 4 (drop 8 (take 12 q)) = pkt_ssrc q"
    using P(3) by (simp_all add: peek_def drop_take)
  obtain c1 where c1: "set_rtp_iv c (pkt_ssrc q) est = (err_status_ok, c1)" "cipher_positioned k (rtp_keystream k (pkt_ssrc q) est) c1"
    using rtp.iv_positions[OF ca(3) P(6)] by blast
  obtain off where off: "enc_start q = Some off" "off \<le> length q" using P(5) by blast
  have enc: "(if serv_conf (rtp_services x) then map_option Some (enc_start (q @ tag @ rest)) else Some None)
      = Some (if serv_conf (rtp_services x) then Some off else None)"
    using enc_start_same[OF off(1)] off(2) by simp
  obtain a1 where a1: "verify c1 a (tag_mem env) (q @ tag @ rest) (int (length q)) (roc_octets est) = Some (err_status_auth_fail, c1, a1)"
    "auth_keyed m t a1"
    using pauth.verify_mac[OF ca(5), of q "roc_octets est" "tag_mem env" tag c1 rest] q(2,3) bad P(4) by (auto simp: roc_octets_def)
  show ?thesis using rtp.positioned_keyed[OF c1(2)] a1(2)
    by (intro exI[of _ c1] exI[of _ a1])
       (simp add: unprotect_with_def ca hdr c1(1) enc serv a1(1) pauth.lengths[OF ca(5)] flip: roc_octets_def)
qed

text \<open>The acceptance of a packet by a stream of its own.\<close>

lemma accept_with_opens:
  assumes keyed: "streams s p = Some x" "ciphers s (rtp_cipher x) = Some c" "auths s (rtp_auth x) = Some a" "auth_keyed m t a"
    and pos: "cipher_positioned k (rtp_keystream k (pkt_ssrc pkt) est) c" and pkt: "rtp_packet pkt" "enc_start pkt = Some off"
    and lim: "limits s (str_limit x) = Some li" "key_limit_update li = (ev, li')" "ev \<noteq> key_event_hard_limit"
    and own: "stream_template s \<noteq> Some p" and idx: "rdbx_add_index (rtp_rdbx x) delta = Some rx" and tag: "length tag = t"
  shows "\<exists>c d es. accept_with env p ssrc delta (if serv_conf (rtp_services x) then Some off else None) s
        (rtp_sealed k (rtp_services x) est pkt @ tag @ rest) (int (length pkt + t)) =
      Some (err_status_ok, s\<lparr>streams := (streams s)(p := Some (x\<lparr>str_direction := d, rtp_rdbx := rx\<rparr>)),
              ciphers := (ciphers s)(rtp_cipher x := Some c), limits := (limits s)(str_limit x := Some li'), events := es\<rparr>,
            pkt @ tag @ rest, int (length pkt)) \<and> cipher_keyed k c"
proof -
  let ?q = "rtp_sealed k (rtp_services x) est pkt"
  obtain es where u: "use_key p s = Some (False, s\<lparr>limits := (limits s)(str_limit x := Some li'), events := es\<rparr>)"
    using use_key_effect[OF keyed(1) lim(1,2)] lim(3) by auto
  obtain c1 where c1: "(case (if serv_conf (rtp_services x) then Some off else None) of None \<Rightarrow> Some (err_status_ok, c, ?q @ tag @ rest)
      | Some off \<Rightarrow> encrypt_at c (?q @ tag @ rest) off (unat (word_of_int (int (length pkt) + int t - int t - int off) :: u32))) = Some (err_status_ok, c1, pkt @ tag @ rest)"
    "cipher_keyed k c1"
  proof (cases "serv_conf (rtp_services x)")
    case True
    note P = rtp_packet_D[OF pkt(1)]
    have off: "clear_part (rtp_services x) pkt = off" using True pkt(2) by (simp add: clear_part_def)
    have "unat (word_of_int (int (length pkt) - int off) :: u32) = length pkt - off"
      using unat_word_of_nat32[of "length pkt - off"] P(4) P(2)[of "rtp_services x"] by (simp add: of_nat_diff off)
    moreover have "off \<le> length pkt" "length pkt - off \<le> 0xffff" using P(4) P(2)[of "rtp_services x"] off by linarith+
    ultimately show ?thesis using that True rtp.encrypt_at_again[OF pos, of off pkt "tag @ rest"]
      by (auto simp: rtp_sealed_def off)
  next
    case False
    then show ?thesis using that rtp.positioned_keyed[OF pos] by (simp add: rtp_sealed_def clear_part_def add_stream_def)
  qed
  let ?s1 = "s\<lparr>limits := (limits s)(str_limit x := Some li'), events := es, ciphers := (ciphers s)(rtp_cipher x := Some c1)\<rparr>"
  obtain d es1 where d: "check_direction dir_srtp_receiver p ?s1 =
      Some (?s1\<lparr>streams := (streams s)(p := Some (x\<lparr>str_direction := d\<rparr>)), events := es1\<rparr>)"
    using check_direction_effect[of ?s1 p x dir_srtp_receiver] keyed(1) by auto
  show ?thesis using c1(2)
    by (intro exI[of _ c1] exI[of _ d] exI[of _ es1])
       (simp add: accept_with_def keyed u c1(1) d pauth.lengths[OF keyed(4)] inbound_stream_def own[symmetric] idx tag)
qed

lemma unprotect_with_opens:
  fixes est :: u64
  assumes keyed: "stream_keyed s p x k m t" and pkt: "rtp_packet pkt" "t \<le> length (tag_mem env)"
    and serv: "serv_auth (rtp_services x) \<or> t = 0"
    and lim: "limits s (str_limit x) = Some li" "key_limit_update li = (ev, li')" "ev \<noteq> key_event_hard_limit"
    and own: "stream_template s \<noteq> Some p" and idx: "rdbx_add_index (rtp_rdbx x) delta = Some rx"
  defines "q \<equiv> rtp_sealed k (rtp_services x) est pkt"
  defines "tag \<equiv> rtp_tag m t (rtp_services x) est q"
  shows "\<exists>c a d es. unprotect_with env p delta est s (q @ tag @ rest) (int (length q + length tag)) =
      Some (err_status_ok, s\<lparr>streams := (streams s)(p := Some (x\<lparr>str_direction := d, rtp_rdbx := rx\<rparr>)),
              ciphers := (ciphers s)(rtp_cipher x := Some c), auths := (auths s)(rtp_auth x := Some a),
              limits := (limits s)(str_limit x := Some li'), events := es\<rparr>, pkt @ tag @ rest, int (length pkt))
      \<and> cipher_keyed k c \<and> auth_keyed m t a"
proof -
  obtain c a where ca: "streams s p = Some x" "ciphers s (rtp_cipher x) = Some c" "cipher_keyed k c" "auths s (rtp_auth x) = Some a" "auth_keyed m t a"
    using keyed by (auto simp: stream_keyed_def)
  note P = rtp_packet_D[OF pkt(1)]
  have len: "length q = length pkt" using length_rtp_sealed[OF pkt(1)] by (simp add: q_def)
  have tlen: "length tag = t" using serv pauth.length_tag[OF ca(5)] by (auto simp: tag_def rtp_tag_def)
  have hdr: "peek (q @ tag @ rest) 0 12 = Some (take 12 q)" "take 4 (drop 8 (take 12 q)) = pkt_ssrc pkt"
    using P(3) sealed_header(1)[OF pkt(1)] by (simp_all add: len peek_def drop_take) (simp add: q_def)
  obtain c1 where c1: "set_rtp_iv c (pkt_ssrc pkt) est = (err_status_ok, c1)" "cipher_positioned k (rtp_keystream k (pkt_ssrc pkt) est) c1"
    using rtp.iv_positions[OF ca(3) P(6)] by blast
  obtain off where off: "enc_start pkt = Some off" "off \<le> length pkt" using P(5) by blast
  have enc: "(if serv_conf (rtp_services x) then map_option Some (enc_start (q @ tag @ rest)) else Some None)
      = Some (if serv_conf (rtp_services x) then Some off else None)"
    using sealed_header(3)[OF pkt(1)] off(1) by (simp add: q_def)
  obtain a1 where a1: "(if serv_auth (rtp_services x)
      then verify c1 a (tag_mem env) (q @ tag @ rest) (int (length pkt) + int t - int (auth_get_tag_length a)) (roc_octets est) else Some (err_status_ok, c1, a))
      = Some (err_status_ok, c1, a1)" "auth_keyed m t a1"
    using pauth.verify_mac[OF ca(5), of q "roc_octets est" "tag_mem env" tag c1 rest] ca(5) pkt(2) tlen P(4)
    by (cases "serv_auth (rtp_services x)") (auto simp: roc_octets_def len tag_def rtp_tag_def pauth.lengths[OF ca(5)])
  let ?s1 = "s\<lparr>ciphers := (ciphers s)(rtp_cipher x := Some c1), auths := (auths s)(rtp_auth x := Some a1)\<rparr>"
  have "\<exists>c d es. accept_with env p (of_le32 (pkt_ssrc pkt)) delta (if serv_conf (rtp_services x) then Some off else None) ?s1
        (q @ tag @ rest) (int (length pkt + t)) =
      Some (err_status_ok, ?s1\<lparr>streams := (streams ?s1)(p := Some (x\<lparr>str_direction := d, rtp_rdbx := rx\<rparr>)),
              ciphers := (ciphers ?s1)(rtp_cipher x := Some c), limits := (limits ?s1)(str_limit x := Some li'), events := es\<rparr>,
            pkt @ tag @ rest, int (length pkt)) \<and> cipher_keyed k c"
    unfolding q_def
    by (rule accept_with_opens[where a = a1 and m = m and li = li and ev = ev and c = c1])
       (use ca(1) a1(2) c1(2) pkt(1) off(1) lim own idx tlen in simp_all)
  then obtain c2 d es where acc: "accept_with env p (of_le32 (pkt_ssrc pkt)) delta (if serv_conf (rtp_services x) then Some off else None) ?s1
        (q @ tag @ rest) (int (length pkt + t)) =
      Some (err_status_ok, ?s1\<lparr>streams := (streams ?s1)(p := Some (x\<lparr>str_direction := d, rtp_rdbx := rx\<rparr>)),
              ciphers := (ciphers ?s1)(rtp_cipher x := Some c2), limits := (limits ?s1)(str_limit x := Some li'), events := es\<rparr>,
            pkt @ tag @ rest, int (length pkt))" "cipher_keyed k c2" by blast
  then show ?thesis using a1(2)
    by (intro exI[of _ c2] exI[of _ a1] exI[of _ d] exI[of _ es])
       (simp add: unprotect_with_def ca hdr c1(1) enc a1(1) pauth.lengths[OF ca(5)] len tlen flip: roc_octets_def)
qed

lemma srtp_unprotect_opens:
  assumes found: "srtp_get_stream s (of_le32 (pkt_ssrc pkt)) = Some (Some p)" and keyed: "stream_keyed s p x k m t"
    and pkt: "rtp_packet pkt" "t \<le> length (tag_mem env)" and serv: "serv_auth (rtp_services x) \<or> t = 0"
    and lim: "limits s (str_limit x) = Some li" "key_limit_update li = (ev, li')" "ev \<noteq> key_event_hard_limit"
    and own: "stream_template s \<noteq> Some p"
    and idx: "rdbx_estimate_index (rtp_rdbx x) (hdr_seq pkt) = (delta, est)" "rdbx_check (rtp_rdbx x) delta = Some err_status_ok"
      "rdbx_add_index (rtp_rdbx x) delta = Some rx"
  defines "q \<equiv> rtp_sealed k (rtp_services x) est pkt"
  defines "tag \<equiv> rtp_tag m t (rtp_services x) est q"
  shows "\<exists>c a d es. srtp_unprotect env s (q @ tag @ rest) (int (length q + length tag)) =
      Some (err_status_ok, s\<lparr>streams := (streams s)(p := Some (x\<lparr>str_direction := d, rtp_rdbx := rx\<rparr>)),
              ciphers := (ciphers s)(rtp_cipher x := Some c), auths := (auths s)(rtp_auth x := Some a),
              limits := (limits s)(str_limit x := Some li'), events := es\<rparr>, pkt @ tag @ rest, int (length pkt))
      \<and> cipher_keyed k c \<and> auth_keyed m t a"
proof -
  note P = rtp_packet_D[OF pkt(1)] and H = sealed_header[OF pkt(1), where k = k and serv = "rtp_services x" and est = est, folded q_def]
  have len: "length q = length pkt" using length_rtp_sealed[OF pkt(1)] by (simp add: q_def)
  have x: "streams s p = Some x" using keyed by (simp add: stream_keyed_def)
  have hdr: "peek (q @ tag @ rest) 0 12 = Some (take 12 q)" "take 4 (drop 8 (take 12 q)) = pkt_ssrc pkt" "hdr_seq (take 12 q) = hdr_seq pkt"
    using P(3) H(1,2) by (simp_all add: len peek_def drop_take hdr_seq_def)
  have "\<not> int (length q + length tag) < 12" using P(3) len by simp
  then have "srtp_unprotect env s (q @ tag @ rest) (int (length q + length tag))
      = unprotect_with env p delta est s (q @ tag @ rest) (int (length q + length tag))"
    by (simp add: srtp_unprotect_def hdr found x idx)
  then show ?thesis
    using unprotect_with_opens[OF keyed pkt serv lim own idx(3), of est rest, folded q_def, folded tag_def] by simp
qed

section \<open>A sender and a receiver\<close>

text \<open>The list of streams depends on the sources and the links of the streams only.\<close>

lemma find_stream_links:
  assumes "find_stream s ssrc q = Some r"
    and "\<And>a x. streams s a = Some x \<Longrightarrow> \<exists>y. streams s' a = Some y \<and> str_ssrc y = str_ssrc x \<and> str_next y = str_next x"
  shows "find_stream s' ssrc q = Some r"
  using assms
proof (induction rule: find_stream.raw_induct[rotated, consumes 1, case_names 1])
  case (1 walk s ssrc q r)
  show ?case
  proof (cases q)
    case None
    then show ?thesis using 1(2) by (simp add: find_stream.simps)
  next
    case (Some a)
    then obtain x where x: "streams s a = Some x" using 1(2) by (auto split: bind_splits)
    from 1(3)[OF x] obtain y where y: "streams s' a = Some y" "str_ssrc y = str_ssrc x" "str_next y = str_next x" by blast
    show ?thesis
    proof (cases "str_ssrc x = ssrc")
      case True
      then show ?thesis using 1(2) x y Some by (subst find_stream.simps) auto
    next
      case False
      then have "walk s ssrc (str_next x) = Some r" using 1(2) x Some by simp
      from 1(1)[OF this 1(3)] have "find_stream s' ssrc (str_next x) = Some r" by blast
      then show ?thesis using x y Some False by (subst find_stream.simps) simp
    qed
  qed
qed

lemma get_stream_kept:
  assumes "srtp_get_stream s ssrc = Some r" "streams s p = Some x" "str_ssrc x' = str_ssrc x" "str_next x' = str_next x"
    "streams s' = (streams s)(p := Some x')" "stream_list s' = stream_list s"
  shows "srtp_get_stream s' ssrc = Some r"
  unfolding srtp_get_stream_def
  by (rule find_stream_links[of s]) (use assms in \<open>auto simp: srtp_get_stream_def\<close>)

lemma protect_with_ok:
  assumes "protect_with p s buf len = Some (err_status_ok, s', buf', len')" "streams s p = Some x"
  obtains delta est rx where "rdbx_estimate_index (rtp_rdbx x) (hdr_seq buf) = (delta, est)"
    "rdbx_check (rtp_rdbx x) delta = Some err_status_ok" "rdbx_add_index (rtp_rdbx x) delta = Some rx"
proof -
  obtain hdr where h: "peek buf 0 12 = Some hdr" using assms(1) by (auto simp: protect_with_def split: bind_splits)
  then have "hdr_seq hdr = hdr_seq buf" by (auto simp: peek_def hdr_seq_def drop_take split: if_splits)
  then show thesis using that assms h
    by (cases "rdbx_estimate_index (rtp_rdbx x) (hdr_seq buf)")
       (auto simp: protect_with_def Let_def split: bind_splits if_splits)
qed

text \<open>Two sessions whose streams for a source have the same keys, the same replay database and the same key limit. The
  receiver's stream is not the template.\<close>

definition rtp_paired :: "u32 \<Rightarrow> srtp_state \<Rightarrow> srtp_state \<Rightarrow> bool" where
  "rtp_paired ssrc s r \<longleftrightarrow> (\<exists>p q x y k m t li.
     srtp_get_stream s ssrc = Some (Some p) \<and> srtp_get_stream r ssrc = Some (Some q) \<and>
     stream_keyed s p x k m t \<and> stream_keyed r q y k m t \<and> t \<le> 12 \<and>
     rtp_services y = rtp_services x \<and> (serv_auth (rtp_services x) \<or> t = 0) \<and> rtp_rdbx y = rtp_rdbx x \<and>
     limits s (str_limit x) = Some li \<and> limits r (str_limit y) = Some li \<and> stream_template r \<noteq> Some q)"

lemma stream_keyed_kept:
  assumes "cipher_keyed k c" "auth_keyed m t a" "streams s' = (streams s)(p := Some x')"
    "ciphers s' = (ciphers s)(rtp_cipher x' := Some c)" "auths s' = (auths s)(rtp_auth x' := Some a)"
  shows "stream_keyed s' p x' k m t"
  using assms by (simp add: stream_keyed_def)

lemma hdr_seq_append: "12 \<le> length pkt \<Longrightarrow> hdr_seq (pkt @ room) = hdr_seq pkt"
  by (simp add: hdr_seq_def)

lemma srtp_protect_ok:
  assumes ok: "srtp_protect env s (pkt @ room) (int (length pkt)) = Some (err_status_ok, s', buf, len)"
    and found: "srtp_get_stream s (of_le32 (pkt_ssrc pkt)) = Some (Some p)" "streams s p = Some x" "limits s (str_limit x) = Some li"
    and pkt: "rtp_packet pkt"
  obtains ev li' delta est rx where "key_limit_update li = (ev, li')" "ev \<noteq> key_event_hard_limit"
    "rdbx_estimate_index (rtp_rdbx x) (hdr_seq pkt) = (delta, est)" "rdbx_check (rtp_rdbx x) delta = Some err_status_ok"
    "rdbx_add_index (rtp_rdbx x) delta = Some rx"
proof -
  obtain ev li' where u: "key_limit_update li = (ev, li')" by force
  note P = rtp_packet_D[OF pkt]
  have ssrc: "peek (pkt @ room) 8 4 = Some (pkt_ssrc pkt)" using P(3) by (simp add: peek_def)
  have out: "outbound_stream env True (of_le32 (pkt_ssrc pkt)) s = Some (Inr p, s)" using found(1) by (simp add: outbound_stream_def)
  obtain d e1 where d: "check_direction dir_srtp_sender p s = Some (s\<lparr>streams := (streams s)(p := Some (x\<lparr>str_direction := d\<rparr>)), events := e1\<rparr>)"
    (is "_ = Some ?s1") using check_direction_effect[OF found(2)] by blast
  obtain es where k: "use_key p ?s1 = Some (ev = key_event_hard_limit, ?s1\<lparr>limits := (limits s)(str_limit x := Some li'), events := es\<rparr>)"
    (is "_ = Some (_, ?s2)") using use_key_effect[of ?s1 p "x\<lparr>str_direction := d\<rparr>" li ev li'] found(3) u by auto
  have ne: "ev \<noteq> key_event_hard_limit"
  proof
    assume "ev = key_event_hard_limit"
    then show False using ok P(3) ssrc out d k by (simp add: srtp_protect_def)
  qed
  then have pw: "protect_with p ?s2 (pkt @ room) (int (length pkt)) = Some (err_status_ok, s', buf, len)"
    using ok P(3) ssrc out d k by (simp add: srtp_protect_def)
  obtain delta est rx where "rdbx_estimate_index (rtp_rdbx x) (hdr_seq (pkt @ room)) = (delta, est)"
    "rdbx_check (rtp_rdbx x) delta = Some err_status_ok" "rdbx_add_index (rtp_rdbx x) delta = Some rx"
    using protect_with_ok[OF pw, of "x\<lparr>str_direction := d\<rparr>"] by auto
  then show thesis using that[OF u ne] P(3) by (simp add: hdr_seq_append)
qed

text \<open>One packet from the sender to the receiver: the receiver gets the packet, and the two stay paired.\<close>

lemma rtp_step:
  assumes paired: "rtp_paired (of_le32 (pkt_ssrc pkt)) s r" and pkt: "rtp_packet pkt" "12 \<le> length room" "length (tag_mem env') = 12"
    and ok: "srtp_protect env s (pkt @ room) (int (length pkt)) = Some (err_status_ok, s', buf, len)"
  shows "\<exists>r' rest. srtp_unprotect env' r (take (nat len) buf @ slack) len = Some (err_status_ok, r', pkt @ rest, int (length pkt))
      \<and> rtp_paired (of_le32 (pkt_ssrc pkt)) s' r' \<and> int (length (take (nat len) buf)) = len"
proof -
  obtain p q x y k m t li where
    A: "srtp_get_stream s (of_le32 (pkt_ssrc pkt)) = Some (Some p)" "stream_keyed s p x k m t" "limits s (str_limit x) = Some li" and
    B: "srtp_get_stream r (of_le32 (pkt_ssrc pkt)) = Some (Some q)" "stream_keyed r q y k m t" "limits r (str_limit y) = Some li" "stream_template r \<noteq> Some q" and
    C: "t \<le> 12" "rtp_services y = rtp_services x" "serv_auth (rtp_services x) \<or> t = 0" "rtp_rdbx y = rtp_rdbx x"
    using paired unfolding rtp_paired_def by blast
  have x: "streams s p = Some x" and y: "streams r q = Some y" using A(2) B(2) by (simp_all add: stream_keyed_def)
  obtain ev li' delta est rx where
    K: "key_limit_update li = (ev, li')" "ev \<noteq> key_event_hard_limit" and
    I: "rdbx_estimate_index (rtp_rdbx x) (hdr_seq pkt) = (delta, est)" "rdbx_check (rtp_rdbx x) delta = Some err_status_ok"
      "rdbx_add_index (rtp_rdbx x) delta = Some rx"
    using srtp_protect_ok[OF ok A(1) x A(3) pkt(1)] by blast
  define sealed where "sealed = rtp_sealed k (rtp_services x) est pkt"
  define tag where "tag = rtp_tag m t (rtp_services x) est sealed"
  obtain c a d es where s': "s' = s\<lparr>streams := (streams s)(p := Some (x\<lparr>str_direction := d, rtp_rdbx := rx\<rparr>)),
      ciphers := (ciphers s)(rtp_cipher x := Some c), auths := (auths s)(rtp_auth x := Some a),
      limits := (limits s)(str_limit x := Some li'), events := es\<rparr>" "cipher_keyed k c" "auth_keyed m t a"
    and buf: "buf = sealed @ tag @ drop (length tag) room" "len = int (length sealed + length tag)"
    using srtp_protect_seals[OF A(1,2) pkt(1) _ A(3) K I, of room env] ok pkt(2) C(1) unfolding sealed_def tag_def by auto
  obtain c' a' d' es' where r': "srtp_unprotect env' r (sealed @ tag @ slack) (int (length sealed + length tag)) =
      Some (err_status_ok, r\<lparr>streams := (streams r)(q := Some (y\<lparr>str_direction := d', rtp_rdbx := rx\<rparr>)),
      ciphers := (ciphers r)(rtp_cipher y := Some c'), auths := (auths r)(rtp_auth y := Some a'),
      limits := (limits r)(str_limit y := Some li'), events := es'\<rparr>, pkt @ tag @ slack, int (length pkt))"
      (is "_ = Some (_, ?r', _)") "cipher_keyed k c'" "auth_keyed m t a'"
    using srtp_unprotect_opens[OF B(1,2) pkt(1) _ _ B(3) K B(4), of env' delta est rx slack] I C pkt(3)
    unfolding sealed_def tag_def by auto
  have "take (nat len) buf @ slack = sealed @ tag @ slack" "int (length (take (nat len) buf)) = len" using buf by simp_all
  moreover have "rtp_paired (of_le32 (pkt_ssrc pkt)) s' ?r'"
    unfolding rtp_paired_def
  proof (intro exI conjI)
    show "srtp_get_stream s' (of_le32 (pkt_ssrc pkt)) = Some (Some p)" by (rule get_stream_kept[OF A(1) x]) (simp_all add: s'(1))
    show "srtp_get_stream ?r' (of_le32 (pkt_ssrc pkt)) = Some (Some q)" by (rule get_stream_kept[OF B(1) y]) simp_all
    show "stream_keyed s' p (x\<lparr>str_direction := d, rtp_rdbx := rx\<rparr>) k m t" by (rule stream_keyed_kept[OF s'(2,3)]) (simp_all add: s'(1))
    show "stream_keyed ?r' q (y\<lparr>str_direction := d', rtp_rdbx := rx\<rparr>) k m t" by (rule stream_keyed_kept[OF r'(2,3)]) simp_all
  qed (use C B(4) s'(1) in simp_all)
  ultimately show ?thesis using r'(1) buf(2) by simp
qed

section \<open>Forgeries and replays\<close>

text \<open>C9. A packet whose tag is not the leading octets of HMAC of the packet and its rollover counter is refused, with the status
  of the replay check or with an authentication failure. The packet stays as it is, and so do the streams with their
  replay databases, the key limits, the list of streams and the events: a forgery costs the session nothing.\<close>

theorem srtp_forgery_refused:
  assumes found: "srtp_get_stream s (of_le32 (pkt_ssrc q)) = Some (Some p)" and keyed: "stream_keyed s p x k m t"
    and q: "rtp_packet q" "length tag = t" "t \<le> length (tag_mem env)" and serv: "serv_auth (rtp_services x)"
    and idx: "rdbx_estimate_index (rtp_rdbx x) (hdr_seq q) = (delta, est)" "rdbx_check (rtp_rdbx x) delta = Some status"
    and bad: "tag \<noteq> take t (packet_mac m (q @ roc_octets est))"
  shows "\<exists>s'. srtp_unprotect env s (q @ tag @ rest) (int (length q + t)) =
      Some (if status \<noteq> err_status_ok then status else err_status_auth_fail, s', q @ tag @ rest, int (length q + t)) \<and>
      streams s' = streams s \<and> limits s' = limits s \<and> stream_list s' = stream_list s \<and> stream_template s' = stream_template s \<and>
      events s' = events s"
proof -
  note P = rtp_packet_D[OF q(1)]
  have x: "streams s p = Some x" using keyed by (simp add: stream_keyed_def)
  have hdr: "peek (q @ tag @ rest) 0 12 = Some (take 12 q)" "take 4 (drop 8 (take 12 q)) = pkt_ssrc q" "hdr_seq (take 12 q) = hdr_seq q"
    using P(3) by (simp_all add: peek_def drop_take hdr_seq_def)
  have u: "srtp_unprotect env s (q @ tag @ rest) (int (length q + t)) =
      (if status \<noteq> err_status_ok then Some (status, s, q @ tag @ rest, int (length q + t))
       else unprotect_with env p delta est s (q @ tag @ rest) (int (length q + t)))"
    using P(3) by (simp add: srtp_unprotect_def hdr found x idx)
  obtain c a where "unprotect_with env p delta est s (q @ tag @ rest) (int (length q + t)) =
      Some (err_status_auth_fail, s\<lparr>ciphers := (ciphers s)(rtp_cipher x := Some c), auths := (auths s)(rtp_auth x := Some a)\<rparr>,
            q @ tag @ rest, int (length q + t))"
    using unprotect_with_refuses[OF keyed q serv bad] by blast
  then show ?thesis unfolding u by simp
qed

text \<open>What a successful removal does to the stream, for any packet.\<close>

lemma accept_with_ok:
  assumes ok: "accept_with env p ssrc delta enc s pkt len = Some (err_status_ok, s', pkt', len')"
    and x: "streams s p = Some x" and own: "stream_template s \<noteq> Some p"
  shows "\<exists>rx d. rdbx_add_index (rtp_rdbx x) delta = Some rx \<and> streams s' = (streams s)(p := Some (x\<lparr>str_direction := d, rtp_rdbx := rx\<rparr>)) \<and>
      stream_list s' = stream_list s \<and> stream_template s' = stream_template s"
proof -
  obtain li where li: "limits s (str_limit x) = Some li" using ok x
    by (cases "limits s (str_limit x)") (auto simp: accept_with_def use_key_def Let_def split: bind_splits)
  obtain ev li' where ev: "key_limit_update li = (ev, li')" by force
  obtain es where u: "use_key p s = Some (ev = key_event_hard_limit, s\<lparr>limits := (limits s)(str_limit x := Some li'), events := es\<rparr>)"
    using use_key_effect[OF x li ev] by blast
  let ?s1 = "\<lambda>c1. s\<lparr>limits := (limits s)(str_limit x := Some li'), events := es, ciphers := (ciphers s)(rtp_cipher x := Some c1)\<rparr>"
  obtain c1 s2 r s3 pkt1 n where
    d: "check_direction dir_srtp_receiver p (?s1 c1) = Some s2" and i: "inbound_stream env p ssrc s2 = Some (r, s3)" and
    rest: "(case r of Inl status \<Rightarrow> Some (status, s3, pkt1, len)
        | Inr q \<Rightarrow> Option.bind (streams s3 q) (\<lambda>y. Option.bind (rdbx_add_index (rtp_rdbx y) delta)
            (\<lambda>rx. Some (err_status_ok, set_stream q (y\<lparr>rtp_rdbx := rx\<rparr>) s3, pkt1, len - int n)))) = Some (err_status_ok, s', pkt', len')"
    using ok x u by (auto simp: accept_with_def Let_def split: bind_splits if_splits)
  obtain d es1 where s2: "s2 = (?s1 c1)\<lparr>streams := (streams s)(p := Some (x\<lparr>str_direction := d\<rparr>)), events := es1\<rparr>"
    using check_direction_effect[of "?s1 c1" p x dir_srtp_receiver] x d by auto
  have "r = Inr p" "s3 = s2" using i own by (auto simp: inbound_stream_def s2)
  then show ?thesis using rest by (auto simp: s2 split: bind_splits)
qed

lemma unprotect_with_ok:
  assumes ok: "unprotect_with env p delta est s pkt len = Some (err_status_ok, s', pkt', len')"
    and x: "streams s p = Some x" and own: "stream_template s \<noteq> Some p"
  shows "\<exists>rx d. rdbx_add_index (rtp_rdbx x) delta = Some rx \<and> streams s' = (streams s)(p := Some (x\<lparr>str_direction := d, rtp_rdbx := rx\<rparr>)) \<and>
      stream_list s' = stream_list s \<and> stream_template s' = stream_template s"
proof -
  obtain s1 hdr enc where "accept_with env p (of_le32 (take 4 (drop 8 hdr))) delta enc s1 pkt len = Some (err_status_ok, s', pkt', len')"
    "streams s1 = streams s" "stream_template s1 = stream_template s" "stream_list s1 = stream_list s"
    using ok x by (auto simp: unprotect_with_def Let_def split: bind_splits if_splits prod.splits)
  from accept_with_ok[OF this(1), of x] this(2-4) x own show ?thesis by simp
qed

text \<open>What the estimate of a packet index is made of.\<close>

lemma estimate_low: "uint (snd (rdbx_estimate_index r s)) mod 65536 = uint s"
proof -
  have s: "0 \<le> uint s" "uint s < 65536" using uint_lt2p[of s] by auto
  have "uint (ucast s :: u64) = uint s" by (simp add: uint_up_ucast is_up)
  then show ?thesis using s
    by (auto simp: rdbx_estimate_index_def index_guess_def Let_def uint_guess mod_simps)
qed

lemma estimate_bound: "fst (rdbx_estimate_index r s) < 65536"
proof -
  obtain v where v: "uint s = v" "0 \<le> v" "v < 65536" using uint_lt2p[of s] by simp
  obtain w where w: "uint (ucast (rdbx_index r) :: u16) = w" "0 \<le> w" "w < 65536" using uint_lt2p[of "ucast (rdbx_index r) :: u16"] by simp
  show ?thesis using v(2,3) w(2,3)
    by (simp add: rdbx_estimate_index_def index_guess_def Let_def seq_num_median_def seq_num_max_def v(1) w(1))
qed

text \<open>Accepting a packet in order: the difference is positive and the estimate is that far from the database's index.\<close>

definition ahead :: "srtp_stream_ctx \<Rightarrow> u8 list \<Rightarrow> int \<Rightarrow> xtd_seq_num \<Rightarrow> bool" where
  "ahead x pkt delta est \<longleftrightarrow> rdbx_estimate_index (rtp_rdbx x) (hdr_seq pkt) = (delta, est) \<and> 0 < delta
     \<and> uint est = uint (rdbx_index (rtp_rdbx x)) + delta"

text \<open>A receiver that accepts packets in order, of any of its streams.\<close>

inductive in_order :: "srtp_state \<Rightarrow> srtp_state \<Rightarrow> bool" where
  in_order_refl: "in_order s s"
| in_order_step: "in_order s t \<Longrightarrow> srtp_unprotect env t pkt len = Some (err_status_ok, u, pkt', len') \<Longrightarrow>
    srtp_get_stream t (of_le32 (pkt_ssrc pkt)) = Some (Some q) \<Longrightarrow> streams t q = Some x \<Longrightarrow> stream_template t \<noteq> Some q \<Longrightarrow>
    ahead x pkt delta est \<Longrightarrow> in_order s u"

text \<open>The packet \<open>j\<close> of the stream \<open>p\<close> has been recorded, or is too old for the database.\<close>

definition recorded :: "srtp_state \<Rightarrow> addr \<Rightarrow> u32 \<Rightarrow> int \<Rightarrow> bool" where
  "recorded s p ssrc j \<longleftrightarrow> srtp_get_stream s ssrc = Some (Some p) \<and> stream_template s \<noteq> Some p
     \<and> (\<exists>x. streams s p = Some x \<and> rdbx_wf (rtp_rdbx x) \<and> j \<le> uint (rdbx_index (rtp_rdbx x))
          \<and> (uint (rdbx_index (rtp_rdbx x)) - 128 < j \<longrightarrow> j \<in> rdbx_seen (rtp_rdbx x)))"

lemma unprotect_ahead:
  assumes ok: "srtp_unprotect env s pkt len = Some (err_status_ok, s', pkt', len')"
    and found: "srtp_get_stream s (of_le32 (pkt_ssrc pkt)) = Some (Some p)" "streams s p = Some x" "stream_template s \<noteq> Some p"
    and new: "ahead x pkt delta est"
  obtains rx d where "rdbx_add_index (rtp_rdbx x) delta = Some rx" "streams s' = (streams s)(p := Some (x\<lparr>str_direction := d, rtp_rdbx := rx\<rparr>))"
    "stream_list s' = stream_list s" "stream_template s' = stream_template s"
    "rdbx_wf (rtp_rdbx x) \<longrightarrow> rdbx_wf rx \<and> uint (rdbx_index rx) = uint est
       \<and> rdbx_seen rx = insert (uint est) {j \<in> rdbx_seen (rtp_rdbx x). uint est - 128 < j}"
proof -
  have len: "12 \<le> len" using ok by (auto simp: srtp_unprotect_def split: if_splits)
  have h: "peek pkt 0 12 = Some (take 12 pkt)" using ok len by (auto simp: srtp_unprotect_def peek_def split: bind_splits if_splits)
  have hdr: "take 4 (drop 8 (take 12 pkt)) = pkt_ssrc pkt" "hdr_seq (take 12 pkt) = hdr_seq pkt"
    by (simp_all add: drop_take hdr_seq_def)
  have n: "rdbx_estimate_index (rtp_rdbx x) (hdr_seq pkt) = (delta, est)" "0 < delta" "uint est = uint (rdbx_index (rtp_rdbx x)) + delta"
    using new by (simp_all add: ahead_def)
  have "unprotect_with env p delta est s pkt len = Some (err_status_ok, s', pkt', len')"
    using ok len h hdr found(1,2) n(1) by (auto simp: srtp_unprotect_def Let_def split: bind_splits if_splits)
  from unprotect_with_ok[OF this found(2,3)] obtain rx d where
    s': "rdbx_add_index (rtp_rdbx x) delta = Some rx" "streams s' = (streams s)(p := Some (x\<lparr>str_direction := d, rtp_rdbx := rx\<rparr>))"
    "stream_list s' = stream_list s" "stream_template s' = stream_template s" by blast
  have "delta < 65536" using estimate_bound[of "rtp_rdbx x" "hdr_seq pkt"] n(1) by simp
  moreover have "uint (rdbx_index (rtp_rdbx x)) + delta < 2 ^ 64" using n(3) uint_lt2p[of est] by simp
  ultimately have "rdbx_wf (rtp_rdbx x) \<longrightarrow> rdbx_wf rx \<and> uint (rdbx_index rx) = uint est
       \<and> rdbx_seen rx = insert (uint est) {j \<in> rdbx_seen (rtp_rdbx x). uint est - 128 < j}"
    using rdbx_add_forward[of "rtp_rdbx x" delta] n(2,3) s'(1) by (metis option.inject)
  then show thesis by (rule that[OF s'])
qed

lemma recorded_first:
  assumes "srtp_unprotect env s pkt len = Some (err_status_ok, s', pkt', len')"
    and found: "srtp_get_stream s (of_le32 (pkt_ssrc pkt)) = Some (Some p)" "streams s p = Some x" "stream_template s \<noteq> Some p"
    and "rdbx_wf (rtp_rdbx x)" "ahead x pkt delta est"
  shows "recorded s' p (of_le32 (pkt_ssrc pkt)) (uint est)"
proof (rule unprotect_ahead[OF assms(1) found assms(6)])
  fix rx d
  assume s': "streams s' = (streams s)(p := Some (x\<lparr>str_direction := d, rtp_rdbx := rx\<rparr>))"
    "stream_list s' = stream_list s" "stream_template s' = stream_template s"
    and rx: "rdbx_wf (rtp_rdbx x) \<longrightarrow> rdbx_wf rx \<and> uint (rdbx_index rx) = uint est
       \<and> rdbx_seen rx = insert (uint est) {j \<in> rdbx_seen (rtp_rdbx x). uint est - 128 < j}"
  have "srtp_get_stream s' (of_le32 (pkt_ssrc pkt)) = Some (Some p)"
    by (rule get_stream_kept[OF found(1,2)]) (simp_all add: s')
  then show ?thesis using found(3) rx assms(5) by (simp add: recorded_def s')
qed

lemma recorded_kept: "in_order s t \<Longrightarrow> recorded s p ssrc j \<Longrightarrow> recorded t p ssrc j"
proof (induction rule: in_order.induct)
  case (in_order_step s t env pkt len u pkt' len' q x delta est)
  obtain y where y: "srtp_get_stream t ssrc = Some (Some p)" "stream_template t \<noteq> Some p" "streams t p = Some y"
    "rdbx_wf (rtp_rdbx y)" "j \<le> uint (rdbx_index (rtp_rdbx y))"
    "uint (rdbx_index (rtp_rdbx y)) - 128 < j \<Longrightarrow> j \<in> rdbx_seen (rtp_rdbx y)"
    using in_order_step.IH in_order_step.prems by (auto simp: recorded_def)
  obtain rx d where u: "rdbx_add_index (rtp_rdbx x) delta = Some rx" "streams u = (streams t)(q := Some (x\<lparr>str_direction := d, rtp_rdbx := rx\<rparr>))"
    "stream_list u = stream_list t" "stream_template u = stream_template t"
    and rx: "rdbx_wf (rtp_rdbx x) \<longrightarrow> rdbx_wf rx \<and> uint (rdbx_index rx) = uint est
       \<and> rdbx_seen rx = insert (uint est) {j \<in> rdbx_seen (rtp_rdbx x). uint est - 128 < j}"
    by (rule unprotect_ahead[OF in_order_step.hyps(2-6)])
  have g: "srtp_get_stream u ssrc = Some (Some p)"
    by (rule get_stream_kept[OF y(1) in_order_step.hyps(4)]) (simp_all add: u)
  show ?case
  proof (cases "q = p")
    case True
    then have "x = y" using y(3) in_order_step.hyps(4) by simp
    moreover have "uint (rdbx_index (rtp_rdbx x)) < uint est" using in_order_step.hyps(6) by (simp add: ahead_def)
    ultimately show ?thesis using g y rx True by (auto simp: recorded_def u)
  next
    case False
    then show ?thesis using g y by (simp add: recorded_def u)
  qed
qed simp

text \<open>C10. A packet that a stream of its own has accepted in order is not accepted again: after any number of further packets
  that the session accepts in order, of this stream and of others, the same header in any buffer is refused, as a
  replay while it is among the last 128 indices of its stream and as too old after that, and the session does not change.
  This needs neither authentication nor a particular cipher. It holds until the next rollover of the sequence number,
  and for 32768 indices at most: then the estimate takes the sequence number for another index.\<close>

theorem srtp_replay_refused:
  assumes ok: "srtp_unprotect env s pkt len = Some (err_status_ok, s', pkt', len')"
    and found: "srtp_get_stream s (of_le32 (pkt_ssrc pkt)) = Some (Some p)" "streams s p = Some x" "stream_template s \<noteq> Some p"
    and wf: "rdbx_wf (rtp_rdbx x)" and new: "ahead x pkt delta est"
    and later: "in_order s' t" "streams t p = Some y"
    and near: "uint (rdbx_index (rtp_rdbx y)) div 65536 = uint est div 65536" "uint (rdbx_index (rtp_rdbx y)) - uint est \<le> 32768"
    and again: "take 12 again = take 12 pkt" "12 \<le> length again" "12 \<le> len2"
  shows "srtp_unprotect env2 t again len2
    = Some (if uint (rdbx_index (rtp_rdbx y)) - uint est < 128 then err_status_replay_fail else err_status_replay_old, t, again, len2)"
proof -
  have hdr: "take 4 (drop 8 (take 12 pkt)) = pkt_ssrc pkt" "hdr_seq (take 12 pkt) = hdr_seq pkt"
    by (simp_all add: drop_take hdr_seq_def)
  have r: "recorded t p (of_le32 (pkt_ssrc pkt)) (uint est)"
    by (rule recorded_kept[OF later(1) recorded_first[OF ok found wf new]])
  let ?r = "rtp_rdbx y" and ?d = "uint est - uint (rdbx_index (rtp_rdbx y))"
  have y: "uint est \<le> uint (rdbx_index ?r)" "uint (rdbx_index ?r) - 128 < uint est \<Longrightarrow> uint est \<in> rdbx_seen ?r"
    using r later(2) by (auto simp: recorded_def)
  have "uint est mod 65536 = uint (hdr_seq pkt)" using estimate_low[of "rtp_rdbx x" "hdr_seq pkt"] new by (simp add: ahead_def)
  then have "hdr_seq pkt = word_of_int (uint est)"
    by (intro word_uint_eqI) (simp add: unsigned_ucast_eq take_bit_eq_mod)
  then have "fst (rdbx_estimate_index ?r (hdr_seq pkt)) = ?d" using estimate_exact[OF y(1) near] by simp
  then obtain est' where e: "rdbx_estimate_index ?r (hdr_seq pkt) = (?d, est')" by (metis prod.collapse)
  have "rdbx_check ?r ?d = Some (if - ?d < 128 then err_status_replay_fail else err_status_replay_old)"
    using y by (auto simp: rdbx_check_seen)
  then show ?thesis using again e r later(2) hdr by (auto simp: srtp_unprotect_def peek_def recorded_def)
qed

end
