(* ===== verification/Srtp_Creation.thy ===== *)
theory Srtp_Creation
  imports Srtp_Protection
begin

text \<open>
  From a policy to a conversation: the keys that a session derives from its master key, the creation of a session
  (\<open>srtp_create\<close> with \<open>srtp_add_stream\<close>, \<open>srtp_stream_alloc\<close> and \<open>srtp_stream_init\<close>), and what two sessions that were
  created with the same policy do with the packets they exchange.
\<close>

section \<open>The keys of a session\<close>

text \<open>The pseudorandom function of RFC 3711: counter mode under the master key, from the master salt with the label in
  octet 7.\<close>

definition master_key :: "u8 list \<Rightarrow> cipher_key" where
  "master_key key = Some ((take 16 (drop 16 key))[15 := 0, 14 := 0], aes_expand_encryption_key (take 16 key))"

definition derived_key :: "u8 list \<Rightarrow> srtp_prf_label \<Rightarrow> nat \<Rightarrow> u8 list" where
  "derived_key key label n = map (counter_stream (master_key key) (kdf_nonce label)) [0..<n]"

lemma length_derived_key [simp]: "length (derived_key key label n) = n"
  by (simp add: derived_key_def)

definition kdf_keyed :: "u8 list \<Rightarrow> srtp_kdf \<Rightarrow> bool" where
  "kdf_keyed key kdf \<longleftrightarrow> 32 \<le> length key \<and> cipher_keyed (master_key key) \<lparr>cipher_st = Aes_icm_state (kdf_c kdf), cipher_key_len = 30\<rparr>"

lemma kdf_init_keyed:
  assumes "32 \<le> length key" "length (icm_keystream_buffer (kdf_c kdf)) = 16"
  shows "\<exists>kdf'. srtp_kdf_init kdf key = Some (err_status_ok, kdf') \<and> kdf_keyed key kdf'"
proof -
  have "drop 14 ((take 16 (drop 16 key))[15 := 0, 14 := 0]) = [0, 0]"
    using assms(1) by (intro nth_equalityI) (auto simp: nth_list_update nth_Cons split: nat.splits)
  then show ?thesis using assms
    by (auto simp: srtp_kdf_init_def aes_icm_context_init_def kdf_keyed_def cipher_keyed_def master_key_def Let_def)
qed

lemma nonce_tail: "length (kdf_nonce l) = 16" "drop 14 (kdf_nonce l) = [0, 0]"
  by (simp_all add: kdf_nonce_def drop_update_cancel)
     (simp add: numeral_eq_Suc)

lemma kdf_generate_key:
  assumes "kdf_keyed key kdf" "off + len < length buf" "len \<le> 0xffff"
  shows "\<exists>kdf' r. srtp_kdf_generate kdf label buf off len = Some (err_status_ok, kdf', take off buf @ derived_key key label len @ r)
      \<and> kdf_keyed key kdf' \<and> off + len + length r = length buf"
proof -
  let ?c = "\<lparr>cipher_st = Aes_icm_state (kdf_c kdf), cipher_key_len = 30\<rparr>"
  obtain salt ek where m: "master_key key = Some (salt, ek)" by (simp add: master_key_def)
  obtain c1 where c1: "cipher_set_iv ?c (kdf_nonce label) = (err_status_ok, c1)"
    "cipher_positioned (master_key key) (counter_stream (master_key key) (kdf_nonce label)) c1"
    using icm_iv_positions[of salt ek ?c, OF _ nonce_tail] assms(1) by (auto simp: kdf_keyed_def m)
  then obtain s1 where s1: "aes_icm_set_iv (kdf_c kdf) (kdf_nonce label) = (err_status_ok, s1)"
    "c1 = \<lparr>cipher_st = Aes_icm_state s1, cipher_key_len = 30\<rparr>"
    by (auto simp: cipher_set_iv_def split: prod.splits)
  let ?z = "replicate (max 1 len) 0 @ drop (off + max 1 len) buf"
  have z: "octet_string_set_to_zero (drop off buf) len = Some ?z"
    using assms(2) by (auto simp: octet_string_set_to_zero_def add.commute)
  have "len \<le> length ?z" by simp
  then obtain c2 where c2: "cipher_encrypt c1 ?z len = Some (err_status_ok, c2, add_stream (counter_stream (master_key key) (kdf_nonce label)) (take len ?z) @ drop len ?z, len)"
    "cipher_keyed (master_key key) c2"
    using cipher_adds_stream[OF c1(2) _ assms(3)] by blast
  have tz: "take len ?z = replicate len 0" by (simp add: min_def)
  have ks: "add_stream (counter_stream (master_key key) (kdf_nonce label)) (replicate len 0) = derived_key key label len"
    by (simp add: add_stream_def derived_key_def)
  obtain s2 where s2: "aes_icm_encrypt s1 (replicate len 0) = (err_status_ok, s2, derived_key key label len)"
    "c2 = \<lparr>cipher_st = Aes_icm_state s2, cipher_key_len = 30\<rparr>"
    using c2(1) unfolding s1(2) tz ks
    by (auto simp: cipher_encrypt_def icm_on_buffer_def tz split: if_splits prod.splits)
  have "srtp_kdf_generate kdf label buf off len = Some (err_status_ok, kdf\<lparr>kdf_c := s2\<rparr>, take off buf @ derived_key key label len @ drop len ?z)"
    using s1(1) s2(1) z by (simp add: srtp_kdf_generate_def aes_icm_output_def tz)
  moreover have "kdf_keyed key (kdf\<lparr>kdf_c := s2\<rparr>)" using c2(2) s2(2) assms(1) by (simp add: kdf_keyed_def)
  moreover have "off + len + length (drop len ?z) = length buf" using assms(2) by (simp add: max_def)
  ultimately show ?thesis by blast
qed

definition stream_key :: "u8 list \<Rightarrow> srtp_prf_label \<Rightarrow> srtp_prf_label \<Rightarrow> cipher_kind \<Rightarrow> cipher_key" where
  "stream_key key enc salt kind =
    (if kind = aes_icm_kind then Some (derived_key key salt 14 @ [0, 0], aes_expand_encryption_key (derived_key key enc 16)) else None)"

definition stream_mac :: "u8 list \<Rightarrow> srtp_prf_label \<Rightarrow> auth_kind \<Rightarrow> nat \<Rightarrow> u8 list option" where
  "stream_mac key label kind n = (if kind = hmac_kind then Some (derived_key key label n) else None)"

text \<open>Ciphers and authentication functions as they come from their allocation.\<close>

definition cipher_fresh :: "cipher \<Rightarrow> bool" where
  "cipher_fresh c \<longleftrightarrow> cipher_key_len c < 256 \<and>
     (case cipher_st c of Aes_icm_state s \<Rightarrow> cipher_key_len c = 30 \<and> length (icm_keystream_buffer s) = 16 | _ \<Rightarrow> True)"

definition auth_fresh :: "auth \<Rightarrow> bool" where
  "auth_fresh a \<longleftrightarrow> auth_key_len a < 256 \<and>
     (case auth_st a of Hmac_state s \<Rightarrow> auth_type a = hmac_kind \<and> auth_key_len a \<le> 20 \<and> out_len a \<le> 20 \<and> prefix_len a = 0 \<and> length (sc_M (h_init_ctx s)) = 64
      | Null_auth_state \<Rightarrow> auth_type a = null_auth_kind \<and> out_len a = 0 \<and> prefix_len a = 0)"

lemma salt_octets:
  fixes d r :: "u8 list"
  assumes "length d = 14" "2 \<le> length r"
  shows "(d @ take 2 r)[15 := 0, 14 := 0] = d @ [0, 0]"
proof -
  obtain a b r' where "r = a # b # r'" using assms(2) by (metis Suc_le_length_iff numeral_2_eq_2)
  then show ?thesis using assms(1) by (simp add: list_update_append)
qed

lemma take_derived_key: "k \<le> n \<Longrightarrow> take k (derived_key key label n) = derived_key key label k"
  by (simp add: derived_key_def take_map)

lemma init_cipher_keyed:
  assumes "kdf_keyed key kdf" "length tmp = 256" "cipher_fresh c"
    and ok: "stream_init_cipher kdf enc salt c tmp = Some (err_status_ok, kdf', c', tmp')"
  shows "cipher_keyed (stream_key key enc salt (kind_of (cipher_st c))) c' \<and> kdf_keyed key kdf' \<and> length tmp' = 256"
proof -
  let ?n = "cipher_key_len c"
  obtain k1 r1 where 1: "srtp_kdf_generate kdf enc tmp 0 ?n = Some (err_status_ok, k1, derived_key key enc ?n @ r1)" "kdf_keyed key k1"
    "?n + length r1 = 256"
    using kdf_generate_key[OF assms(1), of 0 ?n tmp enc] assms(2,3) by (auto simp: cipher_fresh_def)
  show ?thesis
  proof (cases "cipher_st c")
    case (Aes_icm_state s)
    then have n: "?n = 30" "length (icm_keystream_buffer s) = 16" using assms(3) by (simp_all add: cipher_fresh_def)
    let ?t = "derived_key key enc 30 @ r1"
    have "r1 \<noteq> []" using 1(3) n by auto
    then obtain k2 r2 where 2: "srtp_kdf_generate k1 salt ?t 16 14 = Some (err_status_ok, k2, take 16 ?t @ derived_key key salt 14 @ r2)"
      "kdf_keyed key k2" "30 + length r2 = 256"
      using kdf_generate_key[OF 1(2), of 16 14 ?t salt] 1(3) n by auto
    have l: "\<not> length (take 16 ?t @ derived_key key salt 14 @ r2) < 32" using 2(3) n 1(3) by simp
    have "c' = c\<lparr>cipher_st := Aes_icm_state (s\<lparr>icm_counter := derived_key key salt 14 @ [0, 0], icm_offset := derived_key key salt 14 @ [0, 0],
        icm_expanded_key := aes_expand_encryption_key (derived_key key enc 16), icm_bytes_in_buffer := 0\<rparr>)\<rparr> \<and> kdf' = k2 \<and>
        tmp' = derived_key key enc 16 @ derived_key key salt 14 @ r2"
      using ok 1(1) 2(1) l Aes_icm_state 2(3)
      by (auto simp: stream_init_cipher_def cipher_get_key_length_def n kind_of_def cipher_init_def aes_icm_context_init_def Let_def
          take_derived_key salt_octets)
    then show ?thesis using 2(2,3) n by (simp add: cipher_keyed_def stream_key_def kind_of_def Aes_icm_state)
  next
    case Null_cipher_state
    then show ?thesis using ok 1
      by (auto simp: stream_init_cipher_def cipher_get_key_length_def kind_of_def cipher_init_def cipher_keyed_def stream_key_def)
  next
    case (Aes_cbc_state s)
    then show ?thesis using ok 1
      by (auto simp: stream_init_cipher_def cipher_get_key_length_def kind_of_def cipher_init_def aes_cbc_context_init_def)
  qed
qed

lemma init_auth_keyed:
  assumes "kdf_keyed key kdf" "length tmp = 256" "auth_fresh a"
    and ok: "stream_init_auth kdf label a tmp = Some (err_status_ok, kdf', a', tmp')"
  shows "auth_keyed (stream_mac key label (auth_type a) (auth_key_len a)) (out_len a) a' \<and> kdf_keyed key kdf' \<and> length tmp' = 256"
proof -
  let ?n = "auth_key_len a"
  obtain k1 r1 where 1: "srtp_kdf_generate kdf label tmp 0 ?n = Some (err_status_ok, k1, derived_key key label ?n @ r1)" "kdf_keyed key k1"
    "?n + length r1 = 256"
    using kdf_generate_key[OF assms(1), of 0 ?n tmp label] assms(2,3) by (auto simp: auth_fresh_def)
  show ?thesis
  proof (cases "auth_st a")
    case (Hmac_state s)
    then have "fst (hmac_init s (derived_key key label ?n)) = err_status_ok" "hmac_ready (derived_key key label ?n) (snd (hmac_init s (derived_key key label ?n)))"
      using hmac_init_ready[of s "derived_key key label ?n"] assms(3) by (simp_all add: auth_fresh_def hmac_consumed_def)
    then show ?thesis using ok 1 Hmac_state assms(3)
      by (auto simp: stream_init_auth_def auth_get_key_length_def auth_init_def case_prod_beta auth_keyed_def stream_mac_def auth_fresh_def)
  next
    case Null_auth_state
    then show ?thesis using ok 1 assms(3)
      by (auto simp: stream_init_auth_def auth_get_key_length_def auth_init_def auth_keyed_def stream_mac_def auth_fresh_def)
  qed
qed

section \<open>Creation of a session\<close>

text \<open>Fresh memory has any contents, but arrays have their declared lengths.\<close>

definition env_wf :: "srtp_env \<Rightarrow> bool" where
  "env_wf env \<longleftrightarrow> (\<forall>a. length (icm_keystream_buffer (junk_icm (cipher_mem env a))) = 16) \<and>
     (\<forall>a. length (sc_M (h_init_ctx (auth_mem env a))) = 64) \<and>
     length (icm_keystream_buffer (kdf_mem env)) = 16 \<and> length (key_mem env) = 256 \<and> length (tag_mem env) = 12"

text \<open>A policy whose keys fit the buffer of the initialization and which has no tag for the null function.\<close>

definition policy_ok :: "crypto_kernel \<Rightarrow> crypto_policy \<Rightarrow> bool" where
  "policy_ok k p \<longleftrightarrow> cp_cipher_key_len p < 256 \<and> cp_auth_key_len p < 256 \<and>
     (crypto_kernel_get_auth_type (cp_auth_type p) k = Some null_auth_kind \<longrightarrow> cp_auth_tag_len p = 0)"

definition same_types :: "crypto_kernel \<Rightarrow> crypto_kernel \<Rightarrow> bool" where
  "same_types k k' \<longleftrightarrow> cipher_type_list k' = cipher_type_list k \<and> auth_type_list k' = auth_type_list k"

lemma same_types_get:
  "same_types k k' \<Longrightarrow> crypto_kernel_get_cipher_type i k' = crypto_kernel_get_cipher_type i k"
  "same_types k k' \<Longrightarrow> crypto_kernel_get_auth_type i k' = crypto_kernel_get_auth_type i k"
  "same_types k k' \<Longrightarrow> policy_ok k' p = policy_ok k p"
  by (simp_all add: same_types_def crypto_kernel_get_cipher_type_def crypto_kernel_get_auth_type_def policy_ok_def)

lemma alloc_cipher_ok:
  assumes "alloc_cipher env p s = (Inr q, s')" "env_wf env" "policy_ok (kern s) p"
  obtains c k where "s' = s\<lparr>kern := k, brk := brk s + 1, ciphers := (ciphers s)(q := Some c)\<rparr>" "q = brk s" "same_types (kern s) k"
    "cipher_fresh c" "crypto_kernel_get_cipher_type (cp_cipher_type p) (kern s) = Some (kind_of (cipher_st c))"
proof -
  obtain c k where r: "crypto_kernel_alloc_cipher (kern s) (cp_cipher_type p) (env_mem env q) (cipher_mem env q) (cp_cipher_key_len p) = (Inr c, k)"
    "q = brk s" "s' = s\<lparr>kern := k, brk := brk s + 1, ciphers := (ciphers s)(q := Some c)\<rparr>"
    using assms(1) by (auto simp: alloc_cipher_def Let_def split: prod.splits sum.splits)
  then obtain ct cts where ct: "crypto_kernel_get_cipher_type (cp_cipher_type p) (kern s) = Some ct" "k = (kern s)\<lparr>ck_ctypes := cts\<rparr>"
    "cipher_type_alloc ct (env_mem env q) (cipher_mem env q) (ck_ctypes (kern s)) (cp_cipher_key_len p) = (Inr c, cts)"
    by (auto simp: crypto_kernel_alloc_cipher_def Let_def split: if_splits option.splits prod.splits)
  have "cipher_fresh c"
    using ct(3) assms(2,3)
    by (cases ct) (auto simp: cipher_type_alloc_def null_cipher_alloc_def aes_icm_alloc_def aes_icm_alloc_ismacryp_def aes_cbc_alloc_def
        cipher_fresh_def policy_ok_def env_wf_def split: if_splits)
  moreover have "same_types (kern s) k" by (simp add: same_types_def ct(2))
  moreover have "kind_of (cipher_st c) = ct" by (rule cipher_alloc_ok[OF ct(3)])
  ultimately show thesis using that[OF r(3,2)] ct(1) by simp
qed

lemma alloc_auth_ok:
  assumes "alloc_auth env p s = (Inr q, s')" "env_wf env" "policy_ok (kern s) p"
  obtains a k where "s' = s\<lparr>kern := k, brk := brk s + 1, auths := (auths s)(q := Some a)\<rparr>" "q = brk s" "same_types (kern s) k"
    "auth_fresh a" "crypto_kernel_get_auth_type (cp_auth_type p) (kern s) = Some (auth_type a)"
    "auth_key_len a = cp_auth_key_len p" "out_len a = cp_auth_tag_len p"
proof -
  obtain a k where r: "crypto_kernel_alloc_auth (kern s) (cp_auth_type p) (env_mem env q) (auth_mem env q) (cp_auth_key_len p) (cp_auth_tag_len p) = (Inr a, k)"
    "q = brk s" "s' = s\<lparr>kern := k, brk := brk s + 1, auths := (auths s)(q := Some a)\<rparr>"
    using assms(1) by (auto simp: alloc_auth_def Let_def split: prod.splits sum.splits)
  then obtain at ats where at: "crypto_kernel_get_auth_type (cp_auth_type p) (kern s) = Some at" "k = (kern s)\<lparr>ck_atypes := ats\<rparr>"
    "auth_type_alloc at (env_mem env q) (auth_mem env q) (ck_atypes (kern s)) (cp_auth_key_len p) (cp_auth_tag_len p) = (Inr a, ats)"
    by (auto simp: crypto_kernel_alloc_auth_def Let_def split: if_splits option.splits prod.splits)
  have "auth_fresh a \<and> auth_type a = at \<and> auth_key_len a = cp_auth_key_len p \<and> out_len a = cp_auth_tag_len p"
    using at(1,3) assms(2,3)
    by (cases at) (auto simp: auth_type_alloc_def null_auth_alloc_def hmac_alloc_def auth_fresh_def policy_ok_def env_wf_def split: if_splits)
  moreover have "same_types (kern s) k" by (simp add: same_types_def at(2))
  ultimately show thesis using that[OF r(3,2)] at(1) by simp
qed

lemma alloc_stream_ok: "alloc_stream env s = (Some q, s') \<Longrightarrow> q = brk s \<and> s' = s\<lparr>brk := brk s + 1, streams := (streams s)(q := Some (stream_mem env q))\<rparr>"
  by (auto simp: alloc_stream_def crypto_alloc_def split: prod.splits option.splits if_splits)

lemma alloc_limit_ok: "alloc_limit env s = (Some q, s') \<Longrightarrow> q = brk s \<and> s' = s\<lparr>brk := brk s + 1, limits := (limits s)(q := Some (limit_mem env q))\<rparr>"
  by (auto simp: alloc_limit_def crypto_alloc_def split: prod.splits option.splits if_splits)

text \<open>A stream with all its objects, before its initialization.\<close>

definition stream_fresh :: "srtp_policy \<Rightarrow> crypto_kernel \<Rightarrow> srtp_state \<Rightarrow> addr \<Rightarrow> bool" where
  "stream_fresh pol k s p \<longleftrightarrow> (\<exists>x c a li c2 a2. streams s p = Some x \<and>
     ciphers s (rtp_cipher x) = Some c \<and> auths s (rtp_auth x) = Some a \<and> limits s (str_limit x) = Some li \<and>
     ciphers s (rtcp_cipher x) = Some c2 \<and> auths s (rtcp_auth x) = Some a2 \<and>
     rtp_cipher x \<noteq> rtcp_cipher x \<and> rtp_auth x \<noteq> rtcp_auth x \<and>
     cipher_fresh c \<and> cipher_fresh c2 \<and> auth_fresh a \<and> auth_fresh a2 \<and>
     crypto_kernel_get_cipher_type (cp_cipher_type (pol_rtp pol)) k = Some (kind_of (cipher_st c)) \<and>
     crypto_kernel_get_auth_type (cp_auth_type (pol_rtp pol)) k = Some (auth_type a) \<and>
     auth_key_len a = cp_auth_key_len (pol_rtp pol) \<and> out_len a = cp_auth_tag_len (pol_rtp pol) \<and>
     crypto_kernel_get_cipher_type (cp_cipher_type (pol_rtcp pol)) k = Some (kind_of (cipher_st c2)) \<and>
     crypto_kernel_get_auth_type (cp_auth_type (pol_rtcp pol)) k = Some (auth_type a2) \<and>
     auth_key_len a2 = cp_auth_key_len (pol_rtcp pol) \<and> out_len a2 = cp_auth_tag_len (pol_rtcp pol))"

lemma stream_alloc_ok:
  assumes ok: "srtp_stream_alloc env pol s = Some (Inr p, s')"
    and env: "env_wf env" and pol: "policy_ok (kern s) (pol_rtp pol)" "policy_ok (kern s) (pol_rtcp pol)"
  shows "stream_fresh pol (kern s) s' p \<and> stream_list s' = stream_list s \<and> stream_template s' = stream_template s \<and> p = brk s"
proof -
  obtain q s1 where 1: "alloc_stream env s = (Some q, s1)"
    using ok by (cases "alloc_stream env s"; cases "fst (alloc_stream env s)") (auto simp: srtp_stream_alloc_def)
  note s1 = alloc_stream_ok[OF 1]
  obtain rc s2 where 2: "alloc_cipher env (pol_rtp pol) s1 = (Inr rc, s2)"
    using ok 1
    by (cases "alloc_cipher env (pol_rtp pol) s1"; cases "fst (alloc_cipher env (pol_rtp pol) s1)") (auto simp: srtp_stream_alloc_def split: bind_splits)
  obtain c k2 where s2: "s2 = s1\<lparr>kern := k2, brk := brk s1 + 1, ciphers := (ciphers s1)(rc := Some c)\<rparr>" "rc = brk s1" "same_types (kern s1) k2"
    "cipher_fresh c" "crypto_kernel_get_cipher_type (cp_cipher_type (pol_rtp pol)) (kern s1) = Some (kind_of (cipher_st c))"
    using alloc_cipher_ok[OF 2 env] pol s1 by auto
  obtain ra s3 where 3: "alloc_auth env (pol_rtp pol) s2 = (Inr ra, s3)"
    using ok 1 2
    by (cases "alloc_auth env (pol_rtp pol) s2"; cases "fst (alloc_auth env (pol_rtp pol) s2)") (auto simp: srtp_stream_alloc_def split: bind_splits)
  obtain a k3 where s3: "s3 = s2\<lparr>kern := k3, brk := brk s2 + 1, auths := (auths s2)(ra := Some a)\<rparr>" "ra = brk s2" "same_types (kern s2) k3"
    "auth_fresh a" "crypto_kernel_get_auth_type (cp_auth_type (pol_rtp pol)) (kern s2) = Some (auth_type a)"
    "auth_key_len a = cp_auth_key_len (pol_rtp pol)" "out_len a = cp_auth_tag_len (pol_rtp pol)"
    using alloc_auth_ok[OF 3 env] pol s1 s2 same_types_get by auto
  obtain li s4 where 4: "alloc_limit env s3 = (Some li, s4)"
    using ok 1 2 3
    by (cases "alloc_limit env s3"; cases "fst (alloc_limit env s3)") (auto simp: srtp_stream_alloc_def split: bind_splits)
  note s4 = alloc_limit_ok[OF 4]
  have ty: "same_types (kern s) (kern s4)" using s1 s2 s3 s4 by (simp add: same_types_def)
  obtain cc s5 where 5: "alloc_cipher env (pol_rtcp pol) s4 = (Inr cc, s5)"
    using ok 1 2 3 4
    by (cases "alloc_cipher env (pol_rtcp pol) s4"; cases "fst (alloc_cipher env (pol_rtcp pol) s4)") (auto simp: srtp_stream_alloc_def split: bind_splits)
  obtain c2 k5 where s5: "s5 = s4\<lparr>kern := k5, brk := brk s4 + 1, ciphers := (ciphers s4)(cc := Some c2)\<rparr>" "cc = brk s4" "same_types (kern s4) k5" "cipher_fresh c2"
    "crypto_kernel_get_cipher_type (cp_cipher_type (pol_rtcp pol)) (kern s4) = Some (kind_of (cipher_st c2))"
    by (rule alloc_cipher_ok[OF 5 env]) (use same_types_get(3)[OF ty] pol(2) in simp)
  obtain ca s6 where 6: "alloc_auth env (pol_rtcp pol) s5 = (Inr ca, s6)"
    using ok 1 2 3 4 5
    by (cases "alloc_auth env (pol_rtcp pol) s5"; cases "fst (alloc_auth env (pol_rtcp pol) s5)") (auto simp: srtp_stream_alloc_def split: bind_splits)
  have ty5: "same_types (kern s) (kern s5)" using ty s5 by (simp add: same_types_def)
  obtain a2 k6 where s6: "s6 = s5\<lparr>kern := k6, brk := brk s5 + 1, auths := (auths s5)(ca := Some a2)\<rparr>" "ca = brk s5" "auth_fresh a2"
    "crypto_kernel_get_auth_type (cp_auth_type (pol_rtcp pol)) (kern s5) = Some (auth_type a2)"
    "auth_key_len a2 = cp_auth_key_len (pol_rtcp pol)" "out_len a2 = cp_auth_tag_len (pol_rtcp pol)"
    by (rule alloc_auth_ok[OF 6 env]) (use same_types_get(3)[OF ty5] pol(2) in simp)
  have here: "streams s6 q = Some (stream_mem env q)" using s1 s2(1) s3(1) s4 s5(1) s6(1) by simp
  let ?x = "(stream_mem env q)\<lparr>rtp_cipher := rc, rtp_auth := ra, str_limit := li, rtcp_cipher := cc, rtcp_auth := ca\<rparr>"
  have "s' = s6\<lparr>streams := (streams s6)(q := Some ?x)\<rparr> \<and> p = q"
    using ok 1 2 3 4 5 6 here by (auto simp: srtp_stream_alloc_def)
  then have s': "s' = s6\<lparr>streams := (streams s6)(p := Some ?x)\<rparr>" "p = q" by simp_all
  have get: "crypto_kernel_get_auth_type (cp_auth_type (pol_rtp pol)) (kern s) = Some (auth_type a)"
    "crypto_kernel_get_cipher_type (cp_cipher_type (pol_rtp pol)) (kern s) = Some (kind_of (cipher_st c))"
    "crypto_kernel_get_cipher_type (cp_cipher_type (pol_rtcp pol)) (kern s) = Some (kind_of (cipher_st c2))"
    "crypto_kernel_get_auth_type (cp_auth_type (pol_rtcp pol)) (kern s) = Some (auth_type a2)"
    using s3(5) s2(3,5) s1 same_types_get(2)[OF s2(3)] s5(5) same_types_get(1)[OF ty] s6(4) same_types_get(2)[OF ty5] by (simp_all add: s2(1))
  have addrs: "rc = brk s + 1" "ra = brk s + 2" "li = brk s + 3" "cc = brk s + 4" "ca = brk s + 5" "q = brk s"
    using s1 s2(1,2) s3(1,2) s4 s5(1,2) s6(1,2) by simp_all
  have fields: "ciphers s' = (ciphers s)(rc := Some c, cc := Some c2)" "auths s' = (auths s)(ra := Some a, ca := Some a2)"
    "limits s' = (limits s)(li := Some (limit_mem env li))" "stream_list s' = stream_list s" "stream_template s' = stream_template s"
    using s1 s2(1) s3(1) s4 s5(1) s6(1) s'(1) by simp_all
  have "streams s' p = Some ?x" by (simp add: s'(1))
  moreover have "rc \<noteq> cc" "ra \<noteq> ca" using addrs by simp_all
  ultimately have "stream_fresh pol (kern s) s' p"
    unfolding stream_fresh_def using s2(4) s3(4,6,7) s5(4) s6(3,5,6) get fields
    by (intro exI[of _ ?x] exI[of _ c] exI[of _ a] exI[of _ "limit_mem env li"] exI[of _ c2] exI[of _ a2]) simp
  then show ?thesis using fields addrs(6) s'(2) by simp
qed

abbreviation full_limit :: key_limit_ctx where
  "full_limit \<equiv> \<lparr>num_left = 0xffffffffffff, kl_state = key_state_normal\<rparr>"

text \<open>A stream that is set up by a policy, with the keys that the kernel's types and the master key determine.\<close>

definition stream_ready :: "srtp_policy \<Rightarrow> u8 list \<Rightarrow> crypto_kernel \<Rightarrow> srtp_state \<Rightarrow> addr \<Rightarrow> srtp_stream_ctx \<Rightarrow> bool" where
  "stream_ready pol key k s p x \<longleftrightarrow>
     stream_keyed s p x
       (stream_key key label_rtp_encryption label_rtp_salt (the (crypto_kernel_get_cipher_type (cp_cipher_type (pol_rtp pol)) k)))
       (stream_mac key label_rtp_msg_auth (the (crypto_kernel_get_auth_type (cp_auth_type (pol_rtp pol)) k)) (cp_auth_key_len (pol_rtp pol)))
       (cp_auth_tag_len (pol_rtp pol)) \<and>
     rtp_services x = cp_sec_serv (pol_rtp pol) \<and> rtp_rdbx x = rdbx_init \<and> str_ssrc x = htonl (pol_ssrc_value pol) \<and>
     limits s (str_limit x) = Some full_limit \<and>
     (\<exists>c. ciphers s (rtcp_cipher x) = Some c \<and> cipher_keyed
       (stream_key key label_rtcp_encryption label_rtcp_salt (the (crypto_kernel_get_cipher_type (cp_cipher_type (pol_rtcp pol)) k))) c) \<and>
     (\<exists>a. auths s (rtcp_auth x) = Some a \<and> auth_keyed
       (stream_mac key label_rtcp_msg_auth (the (crypto_kernel_get_auth_type (cp_auth_type (pol_rtcp pol)) k)) (cp_auth_key_len (pol_rtcp pol)))
       (cp_auth_tag_len (pol_rtcp pol)) a) \<and>
     rtcp_services x = cp_sec_serv (pol_rtcp pol) \<and> rtcp_rdb x = rdb_init"

lemma stream_init_ok:
  assumes ok: "srtp_stream_init env p pol s = Some (err_status_ok, s')" and key: "pol_key pol = Some key"
    and fresh: "stream_fresh pol k s p" and env: "env_wf env"
  shows "\<exists>x. stream_ready pol key k s' p x \<and> stream_list s' = stream_list s \<and> stream_template s' = stream_template s"
proof -
  obtain x c a li c2 a2 where
    F: "streams s p = Some x" "ciphers s (rtp_cipher x) = Some c" "auths s (rtp_auth x) = Some a" "limits s (str_limit x) = Some li"
      "ciphers s (rtcp_cipher x) = Some c2" "auths s (rtcp_auth x) = Some a2" "rtp_cipher x \<noteq> rtcp_cipher x" "rtp_auth x \<noteq> rtcp_auth x"
      "cipher_fresh c" "auth_fresh a" "cipher_fresh c2" "auth_fresh a2" and
    G: "crypto_kernel_get_cipher_type (cp_cipher_type (pol_rtp pol)) k = Some (kind_of (cipher_st c))"
      "crypto_kernel_get_auth_type (cp_auth_type (pol_rtp pol)) k = Some (auth_type a)"
      "auth_key_len a = cp_auth_key_len (pol_rtp pol)" "out_len a = cp_auth_tag_len (pol_rtp pol)"
      "crypto_kernel_get_cipher_type (cp_cipher_type (pol_rtcp pol)) k = Some (kind_of (cipher_st c2))"
      "crypto_kernel_get_auth_type (cp_auth_type (pol_rtcp pol)) k = Some (auth_type a2)"
      "auth_key_len a2 = cp_auth_key_len (pol_rtcp pol)" "out_len a2 = cp_auth_tag_len (pol_rtcp pol)"
    using fresh unfolding stream_fresh_def by blast
  let ?x = "x\<lparr>rtp_rdbx := rdbx_init, str_ssrc := htonl (pol_ssrc_value pol), rtp_services := cp_sec_serv (pol_rtp pol),
      rtcp_services := cp_sec_serv (pol_rtcp pol), str_direction := dir_unknown\<rparr>"
  have lim: "snd (key_limit_set li 0xffffffffffff) = full_limit" by (simp add: key_limit_set_def soft_limit_def)
  have "32 \<le> length key" using ok key F(1,4)
    by (auto simp: srtp_stream_init_def srtp_kdf_init_def aes_icm_context_init_def Let_def split: bind_splits if_splits)
  then obtain kdf where kdf: "srtp_kdf_init \<lparr>kdf_c = kdf_mem env\<rparr> key = Some (err_status_ok, kdf)" "kdf_keyed key kdf"
    using kdf_init_keyed[of key "\<lparr>kdf_c = kdf_mem env\<rparr>"] env by (auto simp: env_wf_def)
  obtain k1 c1 t1 where 1: "stream_init_cipher kdf label_rtp_encryption label_rtp_salt c (key_mem env) = Some (err_status_ok, k1, c1, t1)"
    using ok key F(1,2,4) kdf(1) by (auto simp: srtp_stream_init_def lim Let_def split: bind_splits if_splits)
  have K1: "cipher_keyed (stream_key key label_rtp_encryption label_rtp_salt (kind_of (cipher_st c))) c1" "kdf_keyed key k1" "length t1 = 256"
    using init_cipher_keyed[OF kdf(2) _ F(9) 1] env by (simp_all add: env_wf_def)
  obtain k2 a1 t2 where 2: "stream_init_auth k1 label_rtp_msg_auth a t1 = Some (err_status_ok, k2, a1, t2)"
    using ok key F(1-4) kdf(1) 1 by (auto simp: srtp_stream_init_def lim Let_def split: bind_splits if_splits)
  have K2: "auth_keyed (stream_mac key label_rtp_msg_auth (auth_type a) (auth_key_len a)) (out_len a) a1" "kdf_keyed key k2" "length t2 = 256"
    using init_auth_keyed[OF K1(2,3) F(10) 2] by simp_all
  obtain k3 c3 t3 where 3: "stream_init_cipher k2 label_rtcp_encryption label_rtcp_salt c2 t2 = Some (err_status_ok, k3, c3, t3)"
    using ok key F(1-5,7) kdf(1) 1 2 by (auto simp: srtp_stream_init_def lim Let_def split: bind_splits if_splits)
  have K3: "cipher_keyed (stream_key key label_rtcp_encryption label_rtcp_salt (kind_of (cipher_st c2))) c3" "kdf_keyed key k3" "length t3 = 256"
    using init_cipher_keyed[OF K2(2,3) F(11) 3] by simp_all
  obtain k4 a4 t4 where 4: "stream_init_auth k3 label_rtcp_msg_auth a2 t3 = Some (err_status_ok, k4, a4, t4)"
    using ok key F(1-8) kdf(1) 1 2 3 by (auto simp: srtp_stream_init_def lim Let_def split: bind_splits if_splits)
  have K4: "auth_keyed (stream_mac key label_rtcp_msg_auth (auth_type a2) (auth_key_len a2)) (out_len a2) a4"
    using init_auth_keyed[OF K3(2,3) F(12) 4] by simp
  have s': "s' = s\<lparr>limits := (limits s)(str_limit x := Some full_limit), streams := (streams s)(p := Some (?x\<lparr>rtcp_rdb := rdb_init\<rparr>)),
      ciphers := (ciphers s)(rtp_cipher x := Some c1, rtcp_cipher x := Some c3), auths := (auths s)(rtp_auth x := Some a1, rtcp_auth x := Some a4)\<rparr>"
    using ok key F(1-8) kdf(1) 1 2 3 4 by (auto simp: srtp_stream_init_def lim Let_def split: bind_splits if_splits prod.splits)
  show ?thesis unfolding stream_ready_def
    by (intro exI[of _ "?x\<lparr>rtcp_rdb := rdb_init\<rparr>"]) (use s' K1(1) K2(1) K3(1) K4 F(7,8) G in \<open>simp add: stream_keyed_def\<close>)
qed

text \<open>An allocation that fails has an error status.\<close>

lemma kernel_alloc_fails:
  "crypto_kernel_alloc_cipher k i mem j n = (Inl st, k') \<Longrightarrow> st \<noteq> err_status_ok"
  "crypto_kernel_alloc_auth k i mem h n t = (Inl st, k') \<Longrightarrow> st \<noteq> err_status_ok"
  by (auto simp: crypto_kernel_alloc_cipher_def crypto_kernel_alloc_auth_def Let_def split: if_splits option.splits prod.splits
      dest: cipher_alloc_fails alloc_fails)

lemma alloc_object_fails:
  "alloc_cipher env p s = (Inl st, s') \<Longrightarrow> st \<noteq> err_status_ok" "alloc_auth env p s = (Inl st, s') \<Longrightarrow> st \<noteq> err_status_ok"
  by (auto simp: alloc_cipher_def alloc_auth_def Let_def split: prod.splits sum.splits dest: kernel_alloc_fails)

lemma stream_alloc_fails: "srtp_stream_alloc env pol s = Some (Inl st, s') \<Longrightarrow> st \<noteq> err_status_ok"
  unfolding srtp_stream_alloc_def
  by (auto split: prod.splits option.splits sum.splits bind_splits dest: alloc_object_fails)

lemma add_stream_ok:
  assumes ok: "srtp_add_stream env pol s = Some (err_status_ok, s')" and key: "pol_key pol = Some key"
    and spec: "pol_ssrc_type pol = ssrc_specific"
    and env: "env_wf env" and pol: "policy_ok (kern s) (pol_rtp pol)" "policy_ok (kern s) (pol_rtcp pol)"
  shows "\<exists>p x. stream_ready pol key (kern s) s' p x \<and> stream_list s' = Some p \<and> str_next x = stream_list s \<and> stream_template s' = stream_template s"
proof -
  obtain p s1 where 1: "srtp_stream_alloc env pol s = Some (Inr p, s1)"
    using ok key stream_alloc_fails[of env pol s] by (auto simp: srtp_add_stream_def split: bind_splits sum.splits)
  note F = stream_alloc_ok[OF 1 env pol]
  obtain s2 where 2: "srtp_stream_init env p pol s1 = Some (err_status_ok, s2)"
    using ok key 1 by (auto simp: srtp_add_stream_def split: bind_splits if_splits)
  obtain x where x: "stream_ready pol key (kern s) s2 p x" "stream_list s2 = stream_list s" "stream_template s2 = stream_template s"
    using stream_init_ok[OF 2 key _ env] F by auto
  have xs: "streams s2 p = Some x" using x(1) by (simp add: stream_ready_def stream_keyed_def)
  have "s' = (set_stream p (x\<lparr>str_next := stream_list s\<rparr>) s2)\<lparr>stream_list := Some p\<rparr>"
    using ok key 1 2 xs spec x(2) by (simp add: srtp_add_stream_def)
  then show ?thesis using x
    by (intro exI[of _ p] exI[of _ "x\<lparr>str_next := stream_list s\<rparr>"]) (simp add: stream_ready_def stream_keyed_def)
qed

lemma create_ok:
  assumes ok: "srtp_create env [pol] s0 = Some (err_status_ok, s)" and key: "pol_key pol = Some key"
    and spec: "pol_ssrc_type pol = ssrc_specific"
    and env: "env_wf env" and pol: "policy_ok (kern s0) (pol_rtp pol)" "policy_ok (kern s0) (pol_rtcp pol)"
  shows "\<exists>p x. stream_ready pol key (kern s0) s p x \<and> srtp_get_stream s (htonl (pol_ssrc_value pol)) = Some (Some p) \<and> stream_template s = None"
proof -
  let ?s1 = "s0\<lparr>brk := brk s0 + 1, stream_template := None, stream_list := None, session_live := True\<rparr>"
  have "srtp_add_stream env pol ?s1 = Some (err_status_ok, s)"
    using ok by (auto simp: srtp_create_def crypto_alloc_def split: if_splits bind_splits)
  from add_stream_ok[OF this key spec env] pol obtain p x where
    x: "stream_ready pol key (kern s0) s p x" "stream_list s = Some p" "stream_template s = None" by auto
  then have "srtp_get_stream s (htonl (pol_ssrc_value pol)) = Some (Some p)"
    by (simp add: srtp_get_stream_def find_stream.simps stream_ready_def stream_keyed_def)
  then show ?thesis using x by blast
qed

lemma created_paired:
  assumes "stream_ready pol key k s p x" "stream_ready pol key k' r q y" "same_types k k'"
    and "srtp_get_stream s (htonl (pol_ssrc_value pol)) = Some (Some p)" "srtp_get_stream r (htonl (pol_ssrc_value pol)) = Some (Some q)"
    and "stream_template r = None" and "cp_auth_tag_len (pol_rtp pol) \<le> 12"
    and "serv_auth (cp_sec_serv (pol_rtp pol)) \<or> cp_auth_tag_len (pol_rtp pol) = 0"
  shows "rtp_paired (htonl (pol_ssrc_value pol)) s r"
  using assms unfolding stream_ready_def rtp_paired_def same_types_get(1,2)[OF assms(3)]
  by (intro exI[of _ p] exI[of _ q] exI[of _ x] exI[of _ y]) auto

text \<open>A policy that the library can serve: its types are loaded, and not AES in chaining mode.\<close>

definition policy_usable :: "crypto_kernel \<Rightarrow> crypto_policy \<Rightarrow> bool" where
  "policy_usable k p \<longleftrightarrow> ck_state k = crypto_kernel_state_secure \<and> policy_ok k p \<and>
     (\<exists>ct. crypto_kernel_get_cipher_type (cp_cipher_type p) k = Some ct \<and> ct \<noteq> aes_cbc_kind \<and> (ct = aes_icm_kind \<longrightarrow> cp_cipher_key_len p = 30)) \<and>
     (\<exists>at. crypto_kernel_get_auth_type (cp_auth_type p) k = Some at \<and> (at = hmac_kind \<longrightarrow> cp_auth_key_len p \<le> 20 \<and> cp_auth_tag_len p \<le> 20))"

lemma alloc_cipher_works:
  assumes "policy_usable (kern s) p" "env_mem env (brk s)"
  shows "\<exists>q s'. alloc_cipher env p s = (Inr q, s') \<and> same_types (kern s) (kern s') \<and> ck_state (kern s') = ck_state (kern s)"
  using assms
  by (auto simp: policy_usable_def alloc_cipher_def crypto_kernel_alloc_cipher_def cipher_type_alloc_def null_cipher_alloc_def
      aes_icm_alloc_def aes_icm_alloc_ismacryp_def aes_cbc_alloc_def Let_def same_types_def split: cipher_kind.splits)

lemma alloc_auth_works:
  assumes "policy_usable (kern s) p" "env_mem env (brk s)"
  shows "\<exists>q s'. alloc_auth env p s = (Inr q, s') \<and> same_types (kern s) (kern s') \<and> ck_state (kern s') = ck_state (kern s)"
  using assms
  by (auto simp: policy_usable_def alloc_auth_def crypto_kernel_alloc_auth_def auth_type_alloc_def null_auth_alloc_def
      hmac_alloc_def Let_def same_types_def split: auth_kind.splits)

lemma policy_usable_kept: "same_types k k' \<Longrightarrow> ck_state k' = ck_state k \<Longrightarrow> policy_usable k p \<Longrightarrow> policy_usable k' p"
  by (simp add: policy_usable_def same_types_get)

lemma stream_alloc_works:
  assumes mem: "\<And>a. env_mem env a" and pol: "policy_usable (kern s) (pol_rtp p)" "policy_usable (kern s) (pol_rtcp p)"
  shows "\<exists>q s'. srtp_stream_alloc env p s = Some (Inr q, s') \<and> same_types (kern s) (kern s') \<and> ck_state (kern s') = ck_state (kern s)"
proof -
  obtain s1 where 1: "alloc_stream env s = (Some (brk s), s1)" "kern s1 = kern s" using mem by (simp add: alloc_stream_def crypto_alloc_def)
  obtain s2 rc where 2: "alloc_cipher env (pol_rtp p) s1 = (Inr rc, s2)" "same_types (kern s) (kern s2)" "ck_state (kern s2) = ck_state (kern s)"
    using alloc_cipher_works[of s1 "pol_rtp p" env] pol(1) mem 1(2) by auto
  obtain s3 ra where 3: "alloc_auth env (pol_rtp p) s2 = (Inr ra, s3)" "same_types (kern s2) (kern s3)" "ck_state (kern s3) = ck_state (kern s)"
    using alloc_auth_works[of s2 "pol_rtp p" env] policy_usable_kept[OF 2(2,3) pol(1)] mem 2(3) by auto
  obtain s4 where 4: "alloc_limit env s3 = (Some (brk s3), s4)" "kern s4 = kern s3" using mem by (simp add: alloc_limit_def crypto_alloc_def)
  have t3: "same_types (kern s) (kern s3)" using 2(2) 3(2) by (simp add: same_types_def)
  obtain s5 cc where 5: "alloc_cipher env (pol_rtcp p) s4 = (Inr cc, s5)" "same_types (kern s3) (kern s5)" "ck_state (kern s5) = ck_state (kern s)"
    using alloc_cipher_works[of s4 "pol_rtcp p" env] policy_usable_kept[OF t3 3(3) pol(2)] mem 3(3) 4(2) by auto
  have t5: "same_types (kern s) (kern s5)" using t3 5(2) by (simp add: same_types_def)
  obtain s6 ca where 6: "alloc_auth env (pol_rtcp p) s5 = (Inr ca, s6)" "same_types (kern s5) (kern s6)" "ck_state (kern s6) = ck_state (kern s)"
    using alloc_auth_works[of s5 "pol_rtcp p" env] policy_usable_kept[OF t5 5(3) pol(2)] mem 5(3) by auto
  show ?thesis using 6(2,3) t5
    by (simp add: srtp_stream_alloc_def 1(1) 2(1) 3(1) 4(1) 5(1) 6(1) same_types_def)
qed

lemma init_cipher_works:
  assumes "kdf_keyed key kdf" "length tmp = 256" "cipher_fresh c" "kind_of (cipher_st c) \<noteq> aes_cbc_kind"
  shows "\<exists>kdf' c' tmp'. stream_init_cipher kdf enc salt c tmp = Some (err_status_ok, kdf', c', tmp') \<and> kdf_keyed key kdf' \<and> length tmp' = 256"
proof -
  let ?n = "cipher_key_len c"
  obtain k1 r1 where 1: "srtp_kdf_generate kdf enc tmp 0 ?n = Some (err_status_ok, k1, derived_key key enc ?n @ r1)" "kdf_keyed key k1"
    "?n + length r1 = 256"
    using kdf_generate_key[OF assms(1), of 0 ?n tmp enc] assms(2,3) by (auto simp: cipher_fresh_def)
  show ?thesis
  proof (cases "cipher_st c")
    case (Aes_icm_state s)
    then have n: "?n = 30" using assms(3) by (simp add: cipher_fresh_def)
    have "16 + 14 < length (derived_key key enc 30 @ r1)" using 1(3) n by simp
    from kdf_generate_key[OF 1(2) this, of salt] show ?thesis using 1 n Aes_icm_state
      by (auto simp: stream_init_cipher_def cipher_get_key_length_def kind_of_def cipher_init_def aes_icm_context_init_def Let_def)
  next
    case Null_cipher_state
    then show ?thesis using 1
      by (simp add: stream_init_cipher_def cipher_get_key_length_def kind_of_def cipher_init_def null_cipher_init_def)
  qed (use assms(4) in \<open>simp add: kind_of_def\<close>)
qed

lemma init_auth_works:
  assumes "kdf_keyed key kdf" "length tmp = 256" "auth_fresh a"
  shows "\<exists>kdf' a' tmp'. stream_init_auth kdf label a tmp = Some (err_status_ok, kdf', a', tmp') \<and> kdf_keyed key kdf' \<and> length tmp' = 256"
proof -
  let ?n = "auth_key_len a"
  obtain k1 r1 where 1: "srtp_kdf_generate kdf label tmp 0 ?n = Some (err_status_ok, k1, derived_key key label ?n @ r1)" "kdf_keyed key k1"
    "?n + length r1 = 256"
    using kdf_generate_key[OF assms(1), of 0 ?n tmp label] assms(2,3) by (auto simp: auth_fresh_def)
  then show ?thesis using assms(3)
    by (cases "auth_st a") (auto simp: stream_init_auth_def auth_get_key_length_def auth_init_def null_auth_init_def hmac_init_def Let_def auth_fresh_def)
qed

lemma stream_init_works:
  assumes key: "pol_key pol = Some key" "32 \<le> length key" and fresh: "stream_fresh pol k s p" and env: "env_wf env"
    and pol: "policy_usable k (pol_rtp pol)" "policy_usable k (pol_rtcp pol)"
  shows "\<exists>s'. srtp_stream_init env p pol s = Some (err_status_ok, s')"
proof -
  obtain x c a li c2 a2 where
    F: "streams s p = Some x" "ciphers s (rtp_cipher x) = Some c" "auths s (rtp_auth x) = Some a" "limits s (str_limit x) = Some li"
      "ciphers s (rtcp_cipher x) = Some c2" "auths s (rtcp_auth x) = Some a2" "rtp_cipher x \<noteq> rtcp_cipher x" "rtp_auth x \<noteq> rtcp_auth x"
      "cipher_fresh c" "auth_fresh a" "cipher_fresh c2" "auth_fresh a2" and
    G: "kind_of (cipher_st c) \<noteq> aes_cbc_kind" "kind_of (cipher_st c2) \<noteq> aes_cbc_kind"
    using fresh pol unfolding stream_fresh_def policy_usable_def by fastforce
  obtain kdf where kdf: "srtp_kdf_init \<lparr>kdf_c = kdf_mem env\<rparr> key = Some (err_status_ok, kdf)" "kdf_keyed key kdf"
    using kdf_init_keyed[of key "\<lparr>kdf_c = kdf_mem env\<rparr>"] key(2) env by (auto simp: env_wf_def)
  have t0: "length (key_mem env) = 256" using env by (simp add: env_wf_def)
  obtain k1 c1 t1 where 1: "stream_init_cipher kdf label_rtp_encryption label_rtp_salt c (key_mem env) = Some (err_status_ok, k1, c1, t1)"
    "kdf_keyed key k1" "length t1 = 256" using init_cipher_works[OF kdf(2) t0 F(9) G(1)] by blast
  obtain k2 a1 t2 where 2: "stream_init_auth k1 label_rtp_msg_auth a t1 = Some (err_status_ok, k2, a1, t2)" "kdf_keyed key k2" "length t2 = 256"
    using init_auth_works[OF 1(2,3) F(10)] by blast
  obtain k3 c3 t3 where 3: "stream_init_cipher k2 label_rtcp_encryption label_rtcp_salt c2 t2 = Some (err_status_ok, k3, c3, t3)"
    "kdf_keyed key k3" "length t3 = 256" using init_cipher_works[OF 2(2,3) F(11) G(2)] by blast
  obtain k4 a4 t4 where 4: "stream_init_auth k3 label_rtcp_msg_auth a2 t3 = Some (err_status_ok, k4, a4, t4)" "length t4 = 256"
    using init_auth_works[OF 3(2,3) F(12)] by blast
  show ?thesis
    using key(1) F(1-8) kdf(1) 1(1) 2(1) 3(1) 4
    by (simp add: srtp_stream_init_def Let_def octet_string_set_to_zero_def MAX_SRTP_KEY_LEN_def case_prod_beta)
qed

text \<open>With memory for its objects a session can be created for every policy that the library can serve.\<close>

lemma create_works:
  assumes mem: "\<And>a. env_mem env a" and env: "env_wf env"
    and pol: "policy_usable (kern s) (pol_rtp pol)" "policy_usable (kern s) (pol_rtcp pol)"
    and key: "pol_key pol = Some key" "32 \<le> length key" and spec: "pol_ssrc_type pol = ssrc_specific"
  shows "\<exists>s'. srtp_create env [pol] s = Some (err_status_ok, s')"
proof -
  let ?s1 = "s\<lparr>brk := Suc (brk s), stream_template := None, stream_list := None, session_live := True\<rparr>"
  obtain p s2 where 1: "srtp_stream_alloc env pol ?s1 = Some (Inr p, s2)"
    using stream_alloc_works[OF mem, of ?s1 pol] pol by auto
  have "stream_fresh pol (kern s) s2 p" using stream_alloc_ok[OF 1 env] pol by (auto simp: policy_usable_def)
  from stream_init_works[OF key this env pol] obtain s3 where 2: "srtp_stream_init env p pol s2 = Some (err_status_ok, s3)" by blast
  obtain x where "streams s3 p = Some x"
    using stream_init_ok[OF 2 key(1) \<open>stream_fresh pol (kern s) s2 p\<close> env] by (auto simp: stream_ready_def stream_keyed_def)
  then show ?thesis using mem 1 2 key(1) spec by (simp add: srtp_create_def crypto_alloc_def srtp_add_stream_def)
qed

section \<open>A conversation\<close>

text \<open>An operation applied to packets one after another, each in a buffer with some room behind it: a sender that
  protects its packets, or a receiver that removes the protection of what arrives.\<close>

type_synonym packet_op = "srtp_state \<Rightarrow> u8 list \<Rightarrow> int \<Rightarrow> (err_status \<times> srtp_state \<times> u8 list \<times> int) option"

fun process_all :: "packet_op \<Rightarrow> u8 list \<Rightarrow> srtp_state \<Rightarrow> u8 list list \<Rightarrow> (u8 list list \<times> srtp_state) option" where
  "process_all f room s [] = Some ([], s)"
| "process_all f room s (pkt # pkts) = do {
     (status, s, buf, len) \<leftarrow> f s (pkt @ room) (int (length pkt));
     if status \<noteq> err_status_ok then None
     else do {
       (out, s) \<leftarrow> process_all f room s pkts;
       Some (take (nat len) buf # out, s) }}"

lemma conversation:
  assumes "process_all (srtp_protect env) room s pkts = Some (wires, s')" "rtp_paired ssrc s r"
    and "\<forall>pkt \<in> set pkts. rtp_packet pkt \<and> of_le32 (pkt_ssrc pkt) = ssrc" "12 \<le> length room" "length (tag_mem env') = 12"
  shows "\<exists>r'. process_all (srtp_unprotect env') slack r wires = Some (pkts, r')"
  using assms(1-3)
proof (induction pkts arbitrary: s r wires)
  case (Cons pkt pkts)
  obtain s1 buf len wires' where 1: "srtp_protect env s (pkt @ room) (int (length pkt)) = Some (err_status_ok, s1, buf, len)"
    and 2: "process_all (srtp_protect env) room s1 pkts = Some (wires', s')" "wires = take (nat len) buf # wires'"
    using Cons.prems(1) by (auto split: bind_splits if_splits)
  have pkt: "rtp_packet pkt" "of_le32 (pkt_ssrc pkt) = ssrc" using Cons.prems(3) by simp_all
  obtain r1 rest where 3: "srtp_unprotect env' r (take (nat len) buf @ slack) len = Some (err_status_ok, r1, pkt @ rest, int (length pkt))" "rtp_paired ssrc s1 r1"
    "int (length (take (nat len) buf)) = len"
    using rtp_step[OF _ pkt(1) assms(4,5) 1, of r slack] Cons.prems(2) pkt(2) by auto
  obtain r' where "process_all (srtp_unprotect env') slack r1 wires' = Some (pkts, r')"
    using Cons.IH[OF 2(1) 3(2)] Cons.prems(3) by auto
  then show ?case using 3(1,3) 2(2) by simp
qed simp

text \<open>C6. Two sessions that are created with the same policy for a source, on any two hosts whose kernels have loaded the same
  types and whatever the allocated memory holds, carry a conversation: whatever packets of that source the sender
  protects, one after another, the receiver gets back exactly these packets when it removes their protection in the same
  order. The policy may use counter mode or the null cipher, HMAC or the null function, and any services, as long as its
  tags fit the receiver's buffer of 12 octets and are empty when authentication is not among the services.\<close>

theorem srtp_conversation:
  assumes create: "srtp_create env [pol] s0 = Some (err_status_ok, s)" "srtp_create env' [pol] r0 = Some (err_status_ok, r)"
    and key: "pol_key pol = Some key" and spec: "pol_ssrc_type pol = ssrc_specific" and mem: "env_wf env" "env_wf env'"
    and pol: "policy_ok (kern s0) (pol_rtp pol)" "policy_ok (kern s0) (pol_rtcp pol)" and types: "same_types (kern s0) (kern r0)"
    and tag: "cp_auth_tag_len (pol_rtp pol) \<le> 12" "serv_auth (cp_sec_serv (pol_rtp pol)) \<or> cp_auth_tag_len (pol_rtp pol) = 0"
    and pkts: "\<forall>pkt \<in> set pkts. rtp_packet pkt \<and> of_le32 (pkt_ssrc pkt) = htonl (pol_ssrc_value pol)"
    and sent: "process_all (srtp_protect env) room s pkts = Some (wires, s')" "12 \<le> length room"
  shows "\<exists>r'. process_all (srtp_unprotect env') slack r wires = Some (pkts, r')"
proof -
  obtain p x where S: "stream_ready pol key (kern s0) s p x" "srtp_get_stream s (htonl (pol_ssrc_value pol)) = Some (Some p)"
    using create_ok[OF create(1) key spec mem(1) pol] by blast
  obtain q y where R: "stream_ready pol key (kern r0) r q y" "srtp_get_stream r (htonl (pol_ssrc_value pol)) = Some (Some q)" "stream_template r = None"
    using create_ok[OF create(2) key spec mem(2)] pol same_types_get(3)[OF types] by blast
  have "rtp_paired (htonl (pol_ssrc_value pol)) s r" by (rule created_paired[OF S(1) R(1) types S(2) R(2,3) tag])
  then show ?thesis using conversation[OF sent(1) _ pkts sent(2)] mem(2) by (simp add: env_wf_def)
qed

definition zero_stream :: srtp_stream_ctx where
  "zero_stream = \<lparr>str_ssrc = 0, rtp_cipher = 0, rtp_auth = 0, rtp_rdbx = rdbx_init, rtp_services = sec_serv_none, rtcp_cipher = 0, rtcp_auth = 0,
     rtcp_rdb = rdb_init, rtcp_services = sec_serv_none, str_limit = 0, str_direction = dir_unknown, str_next = None\<rparr>"

definition blank_env :: srtp_env where
  "blank_env = \<lparr>env_mem = (\<lambda>_. True), cipher_mem = (\<lambda>_. \<lparr>junk_icm = zero_icm_ctx, junk_cbc = \<lparr>cbc_state = [], cbc_previous = [], cbc_expanded_key = []\<rparr>\<rparr>),
     auth_mem = (\<lambda>_. zero_hmac_ctx), stream_mem = (\<lambda>_. zero_stream), limit_mem = (\<lambda>_. full_limit), kdf_mem = zero_icm_ctx,
     key_mem = replicate 256 0, tag_mem = replicate 12 0\<rparr>"

definition empty_state :: srtp_state where
  "empty_state = \<lparr>stream_list = None, stream_template = None, session_live = False, streams = (\<lambda>_. None), ciphers = (\<lambda>_. None), auths = (\<lambda>_. None),
     limits = (\<lambda>_. None), kern = kernel_ready, brk = 0, event_handler = True, events = []\<rparr>"

definition default_policy :: srtp_policy where
  "default_policy = (let p = \<lparr>cp_cipher_type = 0, cp_cipher_key_len = 0, cp_auth_type = 0, cp_auth_key_len = 0, cp_auth_tag_len = 0, cp_sec_serv = sec_serv_none\<rparr>
     in \<lparr>pol_ssrc_type = ssrc_specific, pol_ssrc_value = 0, pol_rtp = crypto_policy_set_rtp_default p, pol_rtcp = crypto_policy_set_rtcp_default p,
         pol_key = Some (replicate 32 0)\<rparr>)"

definition small_packet :: "u8 list" where
  "small_packet = [0x80, 0, 0, 1, 0, 0, 0, 0, 0, 0, 0, 0, 1, 2, 3, 4]"

lemma blank_env_wf: "env_wf blank_env" "env_mem blank_env a"
  by (simp_all add: env_wf_def blank_env_def zero_icm_ctx_def zero_hmac_ctx_def zero_sha1_ctx_def)

lemma default_policy_usable:
  "policy_usable (kern empty_state) (pol_rtp default_policy)" "policy_usable (kern empty_state) (pol_rtcp default_policy)"
  "pol_key default_policy = Some (replicate 32 0)" "pol_ssrc_type default_policy = ssrc_specific" "pol_ssrc_value default_policy = 0"
  "cp_auth_tag_len (pol_rtp default_policy) = 10" "cp_sec_serv (pol_rtp default_policy) = sec_serv_conf_and_auth"
  by (simp_all add: default_policy_def empty_state_def kernel_ready_def crypto_policy_defs policy_usable_def policy_ok_def
      crypto_kernel_get_cipher_type_def crypto_kernel_get_auth_type_def crypto_ids)

lemma default_session: "\<exists>s. srtp_create blank_env [default_policy] empty_state = Some (err_status_ok, s)"
  by (rule create_works[OF blank_env_wf(2,1) default_policy_usable(1-3) _ default_policy_usable(4)]) simp

lemma small_packet_ok: "rtp_packet small_packet" "of_le32 (pkt_ssrc small_packet) = htonl 0" "hdr_seq small_packet = 1"
proof -
  have "\<not> bit (0x80 :: u8) 4" "(0x80 :: u8) AND 0x0f = 0" by (simp_all add: bit_numeral_rec)
  then show "rtp_packet small_packet" by (simp add: rtp_packet_def enc_start_def small_packet_def peek_def)
  show "of_le32 (pkt_ssrc small_packet) = htonl 0" "hdr_seq small_packet = 1"
    by (simp_all add: small_packet_def of_le32_def htonl_def le32_def hdr_seq_def htons_def of_le16_def le16_def)
qed

lemma first_packet: "rdbx_estimate_index rdbx_init 1 = (1, 1)" "rdbx_check rdbx_init 1 = Some err_status_ok"
  "\<exists>rx. rdbx_add_index rdbx_init 1 = Some rx"
proof -
  show "rdbx_estimate_index rdbx_init 1 = (1, 1)" "rdbx_check rdbx_init 1 = Some err_status_ok"
    by (simp_all add: rdbx_estimate_index_def index_guess_def rdbx_init_def index_init_def seq_num_median_def seq_num_max_def rdbx_check_def)
  show "\<exists>rx. rdbx_add_index rdbx_init 1 = Some rx"
    by (rule rdbx_add_forward[of rdbx_init 1]) (simp_all add: rdbx_init_def index_init_def rdbx_wf_init[unfolded rdbx_init_def index_init_def])
qed

lemma default_first_packet:
  assumes "srtp_create blank_env [default_policy] empty_state = Some (err_status_ok, s)"
  shows "\<exists>wire s'. process_all (srtp_protect blank_env) (replicate 12 0) s [small_packet] = Some ([wire], s') \<and> take 12 wire = take 12 small_packet \<and> 12 \<le> length wire"
proof -
  obtain p x where x: "stream_ready default_policy (replicate 32 0) (kern empty_state) s p x" "srtp_get_stream s (htonl 0) = Some (Some p)"
    using create_ok[OF assms default_policy_usable(3,4) blank_env_wf(1)] default_policy_usable(1,2,5) by (auto simp: policy_usable_def)
  obtain k m where km: "stream_keyed s p x k m 10" "rtp_rdbx x = rdbx_init" "limits s (str_limit x) = Some full_limit"
    using x(1) default_policy_usable(6) by (auto simp: stream_ready_def)
  obtain rx where rx: "rdbx_add_index rdbx_init 1 = Some rx" using first_packet(3) by blast
  have lim: "key_limit_update full_limit = (key_event_normal, \<lparr>num_left = 0xfffffffffffe, kl_state = key_state_normal\<rparr>)"
    by (simp add: key_limit_update_def soft_limit_def)
  define sealed where "sealed = rtp_sealed k (rtp_services x) 1 small_packet"
  obtain s' tag rest where "srtp_protect blank_env s (small_packet @ replicate 12 0) (int (length small_packet)) =
      Some (err_status_ok, s', sealed @ tag @ rest, int (length sealed + length tag))"
    using srtp_protect_seals[OF _ km(1) small_packet_ok(1) _ km(3) lim, of "replicate 12 0" 1 1 rx blank_env] x(2) km(2) rx first_packet(1,2) small_packet_ok(2,3)
    unfolding sealed_def by auto
  moreover have "take 12 sealed = take 12 small_packet" "length sealed = length small_packet"
    using sealed_prefix[OF small_packet_ok(1) rtp_packet_D(1)[OF small_packet_ok(1)]] length_rtp_sealed[OF small_packet_ok(1)] by (simp_all add: sealed_def)
  moreover have "length small_packet = 16" by (simp add: small_packet_def)
  ultimately show ?thesis by simp
qed

theorem srtp_conversation_witness:
  "\<exists>s wire s' r'. srtp_create blank_env [default_policy] empty_state = Some (err_status_ok, s) \<and>
     process_all (srtp_protect blank_env) (replicate 12 0) s [small_packet] = Some ([wire], s') \<and> process_all (srtp_unprotect blank_env) [] s [wire] = Some ([small_packet], r')"
proof -
  obtain s where s: "srtp_create blank_env [default_policy] empty_state = Some (err_status_ok, s)" using default_session by blast
  obtain wire s' where w: "process_all (srtp_protect blank_env) (replicate 12 0) s [small_packet] = Some ([wire], s')" using default_first_packet[OF s] by blast
  have "\<exists>r'. process_all (srtp_unprotect blank_env) [] s [wire] = Some ([small_packet], r')"
    by (rule srtp_conversation[OF s s default_policy_usable(3,4) blank_env_wf(1,1) _ _ _ _ _ _ w])
       (use default_policy_usable small_packet_ok in \<open>auto simp: policy_usable_def same_types_def serv_auth_def\<close>)
  then show ?thesis using s w by blast
qed

text \<open>The stream of the default session, and the delivery of its first packet.\<close>

lemma default_stream:
  assumes "srtp_create blank_env [default_policy] empty_state = Some (err_status_ok, s)"
  obtains p x k m where "srtp_get_stream s (of_le32 (pkt_ssrc small_packet)) = Some (Some p)" "stream_keyed s p x k m 10"
    "rtp_rdbx x = rdbx_init" "serv_auth (rtp_services x)" "stream_template s = None" "streams s p = Some x"
proof -
  obtain p x where x: "stream_ready default_policy (replicate 32 0) (kern empty_state) s p x" "srtp_get_stream s (htonl 0) = Some (Some p)" "stream_template s = None"
    using create_ok[OF assms default_policy_usable(3,4) blank_env_wf(1)] default_policy_usable(1,2,5) by (auto simp: policy_usable_def)
  obtain k m where k: "stream_keyed s p x k m 10" "rtp_rdbx x = rdbx_init" "rtp_services x = sec_serv_conf_and_auth"
    using x(1) default_policy_usable(6,7) unfolding stream_ready_def by auto
  show thesis
    by (rule that[OF _ k(1,2)]) (use x(2,3) k small_packet_ok(2) in \<open>simp_all add: serv_auth_def stream_keyed_def\<close>)
qed

lemma default_delivery:
  assumes s: "srtp_create blank_env [default_policy] empty_state = Some (err_status_ok, s)"
    and w: "process_all (srtp_protect blank_env) (replicate 12 0) s [small_packet] = Some ([wire], s1)"
  shows "\<exists>s' pkt' len'. srtp_unprotect blank_env s wire (int (length wire)) = Some (err_status_ok, s', pkt', len')"
proof -
  obtain p x where x: "stream_ready default_policy (replicate 32 0) (kern empty_state) s p x"
    "srtp_get_stream s (htonl (pol_ssrc_value default_policy)) = Some (Some p)" "stream_template s = None"
    using create_ok[OF s default_policy_usable(3,4) blank_env_wf(1)] default_policy_usable(1,2) by (auto simp: policy_usable_def)
  have "rtp_paired (htonl (pol_ssrc_value default_policy)) s s"
    by (rule created_paired[OF x(1,1) _ x(2,2,3)]) (simp_all add: same_types_def default_policy_usable serv_auth_def)
  from conversation[OF w this, of blank_env "[]"] show ?thesis
    using small_packet_ok default_policy_usable(5) blank_env_wf(1) by (auto simp: env_wf_def split: bind_splits if_splits)
qed

lemma wrong_tag: "0 < n \<Longrightarrow> \<exists>tag :: u8 list. length tag = n \<and> tag \<noteq> right"
proof -
  assume "0 < n"
  then have "replicate n (0 :: u8) \<noteq> replicate n 1" by simp
  then show ?thesis by (metis length_replicate)
qed

theorem srtp_forgery_refused_witness:
  "\<exists>s tag s'. srtp_create blank_env [default_policy] empty_state = Some (err_status_ok, s) \<and>
     srtp_unprotect blank_env s (small_packet @ tag @ []) (int (length small_packet + 10)) =
       Some (err_status_auth_fail, s', small_packet @ tag @ [], int (length small_packet + 10)) \<and> streams s' = streams s"
proof -
  obtain s where s: "srtp_create blank_env [default_policy] empty_state = Some (err_status_ok, s)" using default_session by blast
  obtain p x k m where p: "srtp_get_stream s (of_le32 (pkt_ssrc small_packet)) = Some (Some p)" "stream_keyed s p x k m 10"
    "rtp_rdbx x = rdbx_init" "serv_auth (rtp_services x)" "stream_template s = None" "streams s p = Some x" by (rule default_stream[OF s])
  obtain tag where tag: "length tag = 10" "tag \<noteq> take 10 (packet_mac m (small_packet @ roc_octets 1))"
    using wrong_tag[of 10 "take 10 (packet_mac m (small_packet @ roc_octets 1))"] by (metis zero_less_numeral)
  have "\<exists>s'. srtp_unprotect blank_env s (small_packet @ tag @ []) (int (length small_packet + 10)) =
       Some (if err_status_ok \<noteq> err_status_ok then err_status_ok else err_status_auth_fail, s', small_packet @ tag @ [], int (length small_packet + 10)) \<and>
      streams s' = streams s \<and> limits s' = limits s \<and> stream_list s' = stream_list s \<and> stream_template s' = stream_template s \<and> events s' = events s"
    by (rule srtp_forgery_refused[OF p(1,2) small_packet_ok(1) tag(1) _ p(4) _ _ tag(2)])
       (use p(3) first_packet small_packet_ok(3) blank_env_wf(1) in \<open>simp_all add: env_wf_def\<close>)
  then obtain s' where "srtp_unprotect blank_env s (small_packet @ tag @ []) (int (length small_packet + 10)) =
       Some (err_status_auth_fail, s', small_packet @ tag @ [], int (length small_packet + 10))" "streams s' = streams s" by force
  then show ?thesis using s by blast
qed

lemma first_index: "rdbx_index rdbx_init = 0"
  by (simp add: rdbx_init_def index_init_def)

theorem srtp_replay_refused_witness:
  "\<exists>s s1 wire s' pkt' len'. srtp_create blank_env [default_policy] empty_state = Some (err_status_ok, s) \<and>
     process_all (srtp_protect blank_env) (replicate 12 0) s [small_packet] = Some ([wire], s1) \<and>
     srtp_unprotect blank_env s wire (int (length wire)) = Some (err_status_ok, s', pkt', len') \<and>
     srtp_unprotect blank_env s' wire (int (length wire)) = Some (err_status_replay_fail, s', wire, int (length wire))"
proof -
  obtain s where s: "srtp_create blank_env [default_policy] empty_state = Some (err_status_ok, s)" using default_session by blast
  obtain p x k m where p: "srtp_get_stream s (of_le32 (pkt_ssrc small_packet)) = Some (Some p)" "stream_keyed s p x k m 10"
    "rtp_rdbx x = rdbx_init" "serv_auth (rtp_services x)" "stream_template s = None" "streams s p = Some x" by (rule default_stream[OF s])
  obtain wire s1 where w: "process_all (srtp_protect blank_env) (replicate 12 0) s [small_packet] = Some ([wire], s1)"
    and h: "take 12 wire = take 12 small_packet" "12 \<le> length wire" using default_first_packet[OF s] by blast
  obtain s' pkt' len' where u: "srtp_unprotect blank_env s wire (int (length wire)) = Some (err_status_ok, s', pkt', len')"
    using default_delivery[OF s w] by blast
  have "take 4 (drop 8 (take 12 wire)) = take 4 (drop 8 (take 12 small_packet))" "take 2 (drop 2 (take 12 wire)) = take 2 (drop 2 (take 12 small_packet))"
    using h(1) by simp_all
  then have hd: "pkt_ssrc wire = pkt_ssrc small_packet" "hdr_seq wire = 1" using small_packet_ok(3) by (simp_all add: drop_take hdr_seq_def)
  have a: "ahead x wire 1 1" using p(3) hd first_packet(1) by (simp add: ahead_def first_index)
  have f: "srtp_get_stream s (of_le32 (pkt_ssrc wire)) = Some (Some p)" "stream_template s \<noteq> Some p" "rdbx_wf (rtp_rdbx x)"
    using p hd by simp_all
  obtain rx y where y: "streams s' p = Some y" "rtp_rdbx y = rx" "uint (rdbx_index rx) = 1"
    by (rule unprotect_ahead[OF u f(1) p(6) f(2) a]) (use f(3) in simp)
  have "srtp_unprotect blank_env s' wire (int (length wire)) = Some (err_status_replay_fail, s', wire, int (length wire))"
    using srtp_replay_refused[OF u f(1) p(6) f(2,3) a in_order_refl y(1), of wire "int (length wire)" blank_env] h(2) y(2,3) by simp
  then show ?thesis using s w u by blast
qed

end
