(* ===== verification/Srtp_Rtcp.thy ===== *)
theory Srtp_Rtcp
  imports Srtp_Creation
begin

text \<open>
  What the protection of RTCP packets guarantees. The keystream is added after the header of eight octets, then come the
  trailer with the index of the packet and the bit that tells whether it is encrypted, and the tag over all of it. Two
  sessions with the same policy carry RTCP packets as they carry RTP packets, for as many packets as the index counts.
\<close>

section \<open>The trailer\<close>

lemma le32_or: "le32 (a OR b) = map2 (OR) (le32 a) (le32 b)"
  by (auto simp: le32_def bit_simps intro!: bit_word_eqI)

lemma htonl_or: "htonl (a OR b) = htonl a OR htonl b"
proof -
  have "le32 (htonl (a OR b)) = le32 (htonl a OR htonl b)"
    by (simp add: htonl_def le32_or le32_of_le32 rev_map zip_rev)
  then show ?thesis by (metis of_le32_le32)
qed

definition rtcp_trailer :: "sec_serv \<Rightarrow> u32 \<Rightarrow> u8 list" where
  "rtcp_trailer serv seq_num = le32 (htonl ((if serv_conf serv then SRTCP_E_BIT else 0) OR seq_num))"

lemma length_rtcp_trailer [simp]: "length (rtcp_trailer serv i) = 4"
  by (simp add: rtcp_trailer_def)

lemma bit_small_31: "i < (0x80000000 :: u32) \<Longrightarrow> \<not> bit i 31"
  using bit_31_big[of i] by (auto simp: word_less_nat_alt)

lemma trailer_e_bit:
  assumes "i < 0x80000000"
  shows "bit (rtcp_trailer serv i ! 0) 7 \<longleftrightarrow> serv_conf serv"
proof -
  have "rtcp_trailer serv i ! 0 = ucast (drop_bit 24 ((if serv_conf serv then SRTCP_E_BIT else 0) OR i))"
    by (simp add: rtcp_trailer_def htonl_def le32_of_le32) (simp add: le32_def)
  then show ?thesis using bit_small_31[OF assms] by (simp add: SRTCP_E_BIT_def bit_simps)
qed

lemma trailer_index:
  assumes "i < 0x80000000"
  shows "ntohl (of_le32 (rtcp_trailer serv i)) AND SRTCP_INDEX_MASK = i"
proof -
  have "((if serv_conf serv then SRTCP_E_BIT else 0) OR i) AND SRTCP_INDEX_MASK = i AND SRTCP_INDEX_MASK"
    by (simp add: bit.conj_disj_distrib2 SRTCP_E_BIT_def SRTCP_INDEX_MASK_def)
  also have "\<dots> = take_bit 31 i" by (simp add: SRTCP_INDEX_MASK_def take_bit_eq_mask mask_eq_exp_minus_1)
  also have "\<dots> = i"
    by (rule word_uint_eqI) (use assms in \<open>simp add: unsigned_take_bit_eq take_bit_int_eq_self word_less_def\<close>)
  finally show ?thesis by (simp add: rtcp_trailer_def)
qed

section \<open>Protection of RTCP\<close>

definition rtcp_packet :: "u8 list \<Rightarrow> bool" where
  "rtcp_packet pkt \<longleftrightarrow> 8 \<le> length pkt \<and> length pkt \<le> 0xffff"

abbreviation rtcp_ssrc :: "u8 list \<Rightarrow> u8 list" where
  "rtcp_ssrc pkt \<equiv> take 4 (drop 4 pkt)"

text \<open>The specification of the protected packet before the trailer.\<close>

definition rtcp_sealed :: "cipher_key \<Rightarrow> sec_serv \<Rightarrow> u32 \<Rightarrow> u8 list \<Rightarrow> u8 list" where
  "rtcp_sealed k serv seq_num pkt =
    (if serv_conf serv then take 8 pkt @ add_stream (rtcp_keystream k (rtcp_ssrc pkt) seq_num) (drop 8 pkt) else pkt)"

definition rtcp_tag :: "u8 list option \<Rightarrow> nat \<Rightarrow> u8 list \<Rightarrow> u8 list" where
  "rtcp_tag m t msg = take t (packet_mac m msg)"

lemma rtcp_sealed_octets:
  assumes "rtcp_packet pkt"
  shows "length (rtcp_sealed k serv i pkt) = length pkt" "rtcp_ssrc (rtcp_sealed k serv i pkt) = rtcp_ssrc pkt"
  using assms by (auto simp: rtcp_sealed_def rtcp_packet_def drop_take)

definition rtcp_keyed :: "srtp_state \<Rightarrow> addr \<Rightarrow> srtp_stream_ctx \<Rightarrow> cipher_key \<Rightarrow> u8 list option \<Rightarrow> nat \<Rightarrow> bool" where
  "rtcp_keyed s p x k m t \<longleftrightarrow> streams s p = Some x \<and>
     (\<exists>c. ciphers s (rtcp_cipher x) = Some c \<and> cipher_keyed k c) \<and> (\<exists>a. auths s (rtcp_auth x) = Some a \<and> auth_keyed m t a)"

text \<open>Encryption is its own inverse, and both directions do it in the same way.\<close>

lemma rtcp_encrypt_step:
  assumes "cipher_positioned k (rtcp_keystream k (rtcp_ssrc pkt) i) c" "rtcp_packet pkt"
  shows "\<exists>c'. (if serv_conf serv then encrypt_at c (pkt @ rest) 8 (length pkt - 8) else Some (err_status_ok, c, pkt @ rest))
      = Some (err_status_ok, c', rtcp_sealed k serv i pkt @ rest) \<and> cipher_keyed k c'"
  using rtcp.encrypt_at_stream[OF assms(1), of 8 "length pkt - 8" "pkt @ rest"] assms(2) rtcp.positioned_keyed[OF assms(1)]
  by (auto simp: rtcp_sealed_def rtcp_packet_def)

lemma rtcp_sealed_twice:
  assumes "rtcp_packet pkt"
  shows "rtcp_sealed k serv i (rtcp_sealed k serv i pkt) = pkt"
proof (cases "serv_conf serv")
  case True
  note ssrc = rtcp_sealed_octets(2)[OF assms, of k serv i]
  show ?thesis using assms True unfolding rtcp_sealed_def[of k serv i "rtcp_sealed k serv i pkt"] ssrc
    by (simp add: rtcp_sealed_def rtcp_packet_def add_stream_twice)
qed (simp add: rtcp_sealed_def)

lemma protect_rtcp_with_seals:
  fixes i :: u32 and serv :: sec_serv
  assumes keyed: "rtcp_keyed s p x k m t" and pkt: "rtcp_packet pkt" "unat n = length pkt - 8"
    and room: "length tr = 4" "room \<noteq> []" "t \<le> length room"
  defines "sealed \<equiv> rtcp_sealed k serv i pkt"
  defines "tag \<equiv> rtcp_tag m t (sealed @ tr)"
  shows "\<exists>c a rest. protect_rtcp_with p i (serv_conf serv) n s (pkt @ tr @ room) (int (length pkt)) =
      Some (err_status_ok, s\<lparr>ciphers := (ciphers s)(rtcp_cipher x := Some c), auths := (auths s)(rtcp_auth x := Some a)\<rparr>,
            sealed @ tr @ tag @ rest, int (length pkt + t + 4)) \<and> cipher_keyed k c \<and> auth_keyed m t a"
proof -
  obtain c a where ca: "streams s p = Some x" "ciphers s (rtcp_cipher x) = Some c" "cipher_keyed k c" "auths s (rtcp_auth x) = Some a" "auth_keyed m t a"
    using keyed by (auto simp: rtcp_keyed_def)
  note l = pauth.lengths[OF ca(5)]
  have P: "8 \<le> length pkt" "length pkt \<le> 0xffff" using pkt(1) by (simp_all add: rtcp_packet_def)
  have ssrc: "peek (pkt @ tr @ room) 4 4 = Some (rtcp_ssrc pkt)" "length (rtcp_ssrc pkt) = 4" using P by (simp_all add: peek_def)
  have len: "nat (int (length pkt) + 4) = length (pkt @ tr)" using room(1) by simp
  obtain c1 where c1: "set_rtcp_iv c (rtcp_ssrc pkt) i = (err_status_ok, c1)" "cipher_positioned k (rtcp_keystream k (rtcp_ssrc pkt) i) c1"
    using rtcp.iv_positions[OF ca(3) ssrc(2)] by blast
  define room' where "room' = 0 # tl room"
  have o: "output_at c1 (pkt @ tr @ room) (length (pkt @ tr)) 0 = Some (err_status_ok, c1, pkt @ tr @ room')"
    using rtcp.output_nothing[OF c1(2), of "length (pkt @ tr)" "pkt @ tr @ room"] room by (simp add: room'_def drop_Suc)
  obtain c2 where c2: "(if serv_conf serv then encrypt_at c1 (pkt @ tr @ room') 8 (unat n) else Some (err_status_ok, c1, pkt @ tr @ room'))
      = Some (err_status_ok, c2, sealed @ tr @ room')" "cipher_keyed k c2"
    using rtcp_encrypt_step[OF c1(2) pkt(1), where serv = serv and rest = "tr @ room'"] unfolding pkt(2) sealed_def by blast
  obtain a1 where a1: "auth_start a = (err_status_ok, a1)" "auth_fed m t [] a1" using pauth.start[OF ca(5)] by blast
  have sl: "length sealed = length pkt" using rtcp_sealed_octets(1)[OF pkt(1)] by (simp add: sealed_def)
  then have msg: "peek (sealed @ tr @ room') 0 (length (pkt @ tr)) = Some (sealed @ tr)" by (simp add: peek_def)
  obtain a2 where a2: "tag_at a1 (sealed @ tr) (sealed @ tr @ room') (length (pkt @ tr)) = Some (err_status_ok, a2, sealed @ tr @ tag @ drop t room')"
    "auth_keyed m t a2"
    using pauth.tag_at_mac[OF a1(2), of "sealed @ tr" "length (pkt @ tr)" "sealed @ tr @ room'"] P(2) room sl
    by (auto simp: tag_def rtcp_tag_def room'_def)
  show ?thesis using c2(2) a2(2)
    by (intro exI[of _ c2] exI[of _ a2] exI[of _ "drop t room'"])
       (simp add: protect_rtcp_with_def ca ssrc c1(1) len[unfolded length_append] o[unfolded length_append] l c2(1) a1(1) msg[unfolded length_append]
         a2(1)[unfolded length_append] pauth.lengths[OF a2(2)])
qed

lemma srtp_protect_rtcp_seals:
  fixes s :: srtp_state and x :: srtp_stream_ctx
  assumes found: "srtp_get_stream s (of_le32 (rtcp_ssrc pkt)) = Some (Some p)" and keyed: "rtcp_keyed s p x k m t"
    and pkt: "rtcp_packet pkt" "5 \<le> length room" "4 + t \<le> length room" and idx: "window_start (rtcp_rdb x) \<le> 0x7fffffff"
  defines "i \<equiv> window_start (rtcp_rdb x) + 1"
  defines "sealed \<equiv> rtcp_sealed k (rtcp_services x) i pkt"
  defines "tr \<equiv> rtcp_trailer (rtcp_services x) i"
  defines "tag \<equiv> rtcp_tag m t (sealed @ tr)"
  shows "\<exists>c a d es rest. srtp_protect_rtcp env s (pkt @ room) (int (length pkt)) =
      Some (err_status_ok, s\<lparr>streams := (streams s)(p := Some (x\<lparr>str_direction := d, rtcp_rdb := (rtcp_rdb x)\<lparr>window_start := i\<rparr>\<rparr>)),
              ciphers := (ciphers s)(rtcp_cipher x := Some c), auths := (auths s)(rtcp_auth x := Some a), events := es\<rparr>,
            sealed @ tr @ tag @ rest, int (length pkt + t + 4)) \<and> cipher_keyed k c \<and> auth_keyed m t a"
proof -
  have x: "streams s p = Some x" using keyed by (simp add: rtcp_keyed_def)
  have P: "8 \<le> length pkt" "length pkt \<le> 0xffff" using pkt(1) by (simp_all add: rtcp_packet_def)
  have ssrc: "peek (pkt @ room) 4 4 = Some (rtcp_ssrc pkt)" using P by (simp add: peek_def)
  have out: "outbound_stream env False (of_le32 (rtcp_ssrc pkt)) s = Some (Inr p, s)" using found by (simp add: outbound_stream_def)
  obtain d es where d: "check_direction dir_srtp_sender p s = Some (s\<lparr>streams := (streams s)(p := Some (x\<lparr>str_direction := d\<rparr>)), events := es\<rparr>)"
    (is "_ = Some ?s1") using check_direction_effect[OF x] by blast
  define n :: u32 where "n = word_of_int (int (length pkt) - 8)"
  have n: "unat n = length pkt - 8" using unat_word_of_nat32[of "length pkt - 8"] P by (simp add: n_def of_nat_diff)
  have nd: "word_of_nat (length pkt) - 8 = n" by (simp add: n_def)
  have room: "drop 4 room \<noteq> []" "t \<le> length (drop 4 room)" using pkt(2,3) by simp_all
  have tr8: "8 + (length pkt - 8) = length pkt" using P by simp
  let ?e = "le32 (if serv_conf (rtcp_services x) then htonl SRTCP_E_BIT else 0)"
  have p1: "poke (pkt @ room) (length pkt) ?e = Some (pkt @ ?e @ drop 4 room)" using pkt(2) by (simp add: poke_def)
  have w: "peek (pkt @ ?e @ drop 4 room) (int (length pkt)) 4 = Some ?e" using pkt(2) by (simp add: peek_def)
  have z: "htonl 0 = 0" by (simp add: htonl_def le32_def of_le32_def)
  have "le32 ((if serv_conf (rtcp_services x) then htonl SRTCP_E_BIT else 0) OR htonl i) = tr"
    by (simp add: tr_def rtcp_trailer_def htonl_or z)
  then have p2: "poke (pkt @ ?e @ drop 4 room) (length pkt) (le32 ((if serv_conf (rtcp_services x) then htonl SRTCP_E_BIT else 0) OR htonl i))
      = Some (pkt @ tr @ drop 4 room)"
    using pkt(2) by (simp add: poke_def tr_def)
  let ?s2 = "?s1\<lparr>streams := (streams s)(p := Some (x\<lparr>str_direction := d, rtcp_rdb := (rtcp_rdb x)\<lparr>window_start := i\<rparr>\<rparr>))\<rparr>"
  have inc: "rdb_increment (rtcp_rdb x) = (err_status_ok, (rtcp_rdb x)\<lparr>window_start := i\<rparr>)"
    using idx by (simp add: rdb_increment_def i_def)
  have "rtcp_keyed ?s2 p (x\<lparr>str_direction := d, rtcp_rdb := (rtcp_rdb x)\<lparr>window_start := i\<rparr>\<rparr>) k m t"
    using keyed by (simp add: rtcp_keyed_def)
  from protect_rtcp_with_seals[OF this pkt(1) n, where tr = tr and room = "drop 4 room" and serv = "rtcp_services x" and i = i] room
  obtain c a rest where pw: "protect_rtcp_with p i (serv_conf (rtcp_services x)) n ?s2 (pkt @ tr @ drop 4 room) (int (length pkt)) =
      Some (err_status_ok, ?s2\<lparr>ciphers := (ciphers s)(rtcp_cipher x := Some c), auths := (auths s)(rtcp_auth x := Some a)\<rparr>,
            sealed @ tr @ tag @ rest, int (length pkt + t + 4))" "cipher_keyed k c" "auth_keyed m t a"
    unfolding tag_def sealed_def by (auto simp: tr_def)
  show ?thesis using pw(2,3)
    by (intro exI[of _ c] exI[of _ a] exI[of _ d] exI[of _ es] exI[of _ rest])
       (simp add: srtp_protect_rtcp_def Let_def ssrc out d nd n tr8 p1 w p2 inc rdb_get_value_def pw(1)[simplified])
qed

section \<open>Removal of the protection of RTCP\<close>

text \<open>The checks in front of the acceptance, for any packet, trailer and tag.\<close>

lemma unprotect_rtcp_checks:
  assumes found: "srtp_get_stream s (of_le32 (rtcp_ssrc q)) = Some (Some p)" and keyed: "rtcp_keyed s p x k m t"
    and q: "rtcp_packet q" "length tr = 4" "length tag = t" "t \<le> length (tag_mem env)"
    and idx: "ntohl (of_le32 tr) AND SRTCP_INDEX_MASK = i" "rdb_check (rtcp_rdb x) i = Some status"
  shows "\<exists>c a. srtp_unprotect_rtcp env s (q @ tr @ tag @ rest) (int (length q + 4 + t)) =
      (if status \<noteq> err_status_ok then Some (status, s, q @ tr @ tag @ rest, int (length q + 4 + t))
       else let s = s\<lparr>ciphers := (ciphers s)(rtcp_cipher x := Some c), auths := (auths s)(rtcp_auth x := Some a)\<rparr> in
         if tag \<noteq> rtcp_tag m t (q @ tr) then Some (err_status_auth_fail, s, q @ tr @ tag @ rest, int (length q + 4 + t))
         else accept_rtcp_with env p (of_le32 (rtcp_ssrc q)) i (if bit (tr ! 0) 7 then Some (length q - 8) else None) s
                (q @ tr @ tag @ rest) (int (length q + 4 + t)))
      \<and> cipher_positioned k (rtcp_keystream k (rtcp_ssrc q) i) c \<and> auth_keyed m t a"
proof -
  obtain c a where ca: "streams s p = Some x" "ciphers s (rtcp_cipher x) = Some c" "cipher_keyed k c" "auths s (rtcp_auth x) = Some a" "auth_keyed m t a"
    using keyed by (auto simp: rtcp_keyed_def)
  note l = pauth.lengths[OF ca(5)]
  let ?pkt = "q @ tr @ tag @ rest"
  have P: "8 \<le> length q" "length q \<le> 0xffff" using q(1) by (simp_all add: rtcp_packet_def)
  have ssrc: "peek ?pkt 4 4 = Some (rtcp_ssrc q)" "length (rtcp_ssrc q) = 4" using P by (simp_all add: peek_def)
  have tr: "peek ?pkt (int (length q)) 4 = Some tr" using q(2) by (simp add: peek_def)
  have n: "unat (word_of_int (int (length q) - 8) :: u32) = length q - 8"
    using unat_word_of_nat32[of "length q - 8"] P by (simp add: of_nat_diff)
  obtain c1 where c1: "set_rtcp_iv c (rtcp_ssrc q) i = (err_status_ok, c1)" "cipher_positioned k (rtcp_keystream k (rtcp_ssrc q) i) c1"
    using rtcp.iv_positions[OF ca(3) ssrc(2)] by blast
  obtain a1 where a1: "auth_start a = (err_status_ok, a1)" "auth_fed m t [] a1" using pauth.start[OF ca(5)] by blast
  have msg: "peek ?pkt 0 (length q + 4) = Some (q @ tr)" using q(2) by (simp add: peek_def)
  obtain a2 where a2: "tag_at a1 (q @ tr) (tag_mem env) 0 = Some (err_status_ok, a2, rtcp_tag m t (q @ tr) @ drop t (tag_mem env))" "auth_keyed m t a2"
    using pauth.tag_at_mac[OF a1(2), of "q @ tr" 0 "tag_mem env"] P(2) q(2,4) by (auto simp: rtcp_tag_def)
  have tag: "peek ?pkt (int (length q) + 4) t = Some tag" using q(2,3) by (simp add: peek_def nat_add_distrib)
  have eq: "octet_string_is_eq (rtcp_tag m t (q @ tr) @ drop t (tag_mem env)) tag t = Some (if tag = rtcp_tag m t (q @ tr) then 0 else 1)"
    using q(3,4) pauth.length_tag[OF ca(5), of "q @ tr"] by (auto simp: octet_string_is_eq_take rtcp_tag_def)
  have len: "nat (int (length q) + 4) = length q + 4" by simp
  show ?thesis
    by (rule exI[of _ c1], rule exI[of _ a2])
       (simp add: srtp_unprotect_rtcp_def ssrc found ca l tr n[simplified] idx c1 a1(1) a2 msg tag eq len Let_def)
qed

lemma accept_rtcp_with_opens:
  assumes keyed: "streams s p = Some x" "ciphers s (rtcp_cipher x) = Some c" "auths s (rtcp_auth x) = Some a" "auth_keyed m t a"
    and pos: "cipher_positioned k (rtcp_keystream k (rtcp_ssrc pkt) i) c" and pkt: "rtcp_packet pkt" and own: "stream_template s \<noteq> Some p"
    and idx: "rdb_add_index (rtcp_rdb x) i = Some rd" and tag: "length tag = t"
  shows "\<exists>c d es. accept_rtcp_with env p ssrc i (if serv_conf serv then Some (length pkt - 8) else None) s
        (rtcp_sealed k serv i pkt @ tr @ tag @ rest) (int (length pkt + 4 + t)) =
      Some (err_status_ok, s\<lparr>streams := (streams s)(p := Some (x\<lparr>str_direction := d, rtcp_rdb := rd\<rparr>)),
              ciphers := (ciphers s)(rtcp_cipher x := Some c), events := es\<rparr>,
            pkt @ tr @ tag @ rest, int (length pkt)) \<and> cipher_keyed k c"
proof -
  let ?q = "rtcp_sealed k serv i pkt"
  note Q = rtcp_sealed_octets[OF pkt, of k serv i]
  have "rtcp_packet ?q" using pkt Q(1) by (simp add: rtcp_packet_def)
  from rtcp_encrypt_step[of k ?q i c serv "tr @ tag @ rest", unfolded Q rtcp_sealed_twice[OF pkt], OF pos this]
  obtain c1 where "(if serv_conf serv then encrypt_at c (?q @ tr @ tag @ rest) 8 (length pkt - 8) else Some (err_status_ok, c, ?q @ tr @ tag @ rest))
      = Some (err_status_ok, c1, pkt @ tr @ tag @ rest)" and k: "cipher_keyed k c1" by blast
  then have c1: "(case if serv_conf serv then Some (length pkt - 8) else None of None \<Rightarrow> Some (err_status_ok, c, ?q @ tr @ tag @ rest)
      | Some n \<Rightarrow> encrypt_at c (?q @ tr @ tag @ rest) 8 n) = Some (err_status_ok, c1, pkt @ tr @ tag @ rest)" by (simp split: if_splits)
  let ?s1 = "s\<lparr>ciphers := (ciphers s)(rtcp_cipher x := Some c1)\<rparr>"
  obtain d es where d: "check_direction dir_srtp_receiver p ?s1 =
      Some (?s1\<lparr>streams := (streams s)(p := Some (x\<lparr>str_direction := d\<rparr>)), events := es\<rparr>)"
    using check_direction_effect[of ?s1 p x dir_srtp_receiver] keyed(1) by auto
  show ?thesis using k
    by (intro exI[of _ c1] exI[of _ d] exI[of _ es])
       (simp add: accept_rtcp_with_def keyed c1 d pauth.lengths[OF keyed(4)] inbound_stream_def own[symmetric] idx tag)
qed

lemma srtp_unprotect_rtcp_opens:
  fixes serv :: sec_serv
  assumes found: "srtp_get_stream s (of_le32 (rtcp_ssrc pkt)) = Some (Some p)" and keyed: "rtcp_keyed s p x k m t"
    and pkt: "rtcp_packet pkt" "t \<le> length (tag_mem env)" and own: "stream_template s \<noteq> Some p"
    and idx: "i < 0x80000000" "rdb_check (rtcp_rdb x) i = Some err_status_ok" "rdb_add_index (rtcp_rdb x) i = Some rd"
  defines "q \<equiv> rtcp_sealed k serv i pkt @ rtcp_trailer serv i"
  shows "\<exists>c a d es rest'. srtp_unprotect_rtcp env s (q @ rtcp_tag m t q @ rest) (int (length pkt + 4 + t)) =
      Some (err_status_ok, s\<lparr>streams := (streams s)(p := Some (x\<lparr>str_direction := d, rtcp_rdb := rd\<rparr>)),
              ciphers := (ciphers s)(rtcp_cipher x := Some c), auths := (auths s)(rtcp_auth x := Some a), events := es\<rparr>,
            pkt @ rest', int (length pkt)) \<and> cipher_keyed k c \<and> auth_keyed m t a"
proof -
  note Q = rtcp_sealed_octets[OF pkt(1), of k serv i]
  have x: "streams s p = Some x" and tlen: "length (rtcp_tag m t q) = t"
    using keyed pauth.length_tag by (auto simp: rtcp_keyed_def rtcp_tag_def)
  have "rtcp_packet (rtcp_sealed k serv i pkt)" using pkt(1) Q(1) by (simp add: rtcp_packet_def)
  from unprotect_rtcp_checks[of s "rtcp_sealed k serv i pkt" p x k m t "rtcp_trailer serv i" "rtcp_tag m t q" env i, unfolded Q, OF found keyed this _ tlen pkt(2) trailer_index[OF idx(1)] idx(2), of rest]
  obtain c a where u: "srtp_unprotect_rtcp env s (q @ rtcp_tag m t q @ rest) (int (length pkt + 4 + t)) =
      accept_rtcp_with env p (of_le32 (rtcp_ssrc pkt)) i (if serv_conf serv then Some (length pkt - 8) else None)
        (s\<lparr>ciphers := (ciphers s)(rtcp_cipher x := Some c), auths := (auths s)(rtcp_auth x := Some a)\<rparr>)
        (q @ rtcp_tag m t q @ rest) (int (length pkt + 4 + t))"
    "cipher_positioned k (rtcp_keystream k (rtcp_ssrc pkt) i) c" "auth_keyed m t a"
    by (auto simp: q_def trailer_e_bit[OF idx(1)])
  let ?s1 = "s\<lparr>ciphers := (ciphers s)(rtcp_cipher x := Some c), auths := (auths s)(rtcp_auth x := Some a)\<rparr>"
  have "\<exists>c d es. accept_rtcp_with env p (of_le32 (rtcp_ssrc pkt)) i (if serv_conf serv then Some (length pkt - 8) else None) ?s1
        (q @ rtcp_tag m t q @ rest) (int (length pkt + 4 + t)) =
      Some (err_status_ok, ?s1\<lparr>streams := (streams ?s1)(p := Some (x\<lparr>str_direction := d, rtcp_rdb := rd\<rparr>)),
              ciphers := (ciphers ?s1)(rtcp_cipher x := Some c), events := es\<rparr>,
            pkt @ rtcp_trailer serv i @ rtcp_tag m t q @ rest, int (length pkt)) \<and> cipher_keyed k c"
    unfolding q_def append_assoc
    by (rule accept_rtcp_with_opens[where a = a and m = m and c = c])
       (use x u(2,3) pkt(1) own idx(3) tlen in \<open>simp_all add: q_def\<close>)
  then obtain c' d es where "accept_rtcp_with env p (of_le32 (rtcp_ssrc pkt)) i (if serv_conf serv then Some (length pkt - 8) else None) ?s1
        (q @ rtcp_tag m t q @ rest) (int (length pkt + 4 + t)) =
      Some (err_status_ok, ?s1\<lparr>streams := (streams ?s1)(p := Some (x\<lparr>str_direction := d, rtcp_rdb := rd\<rparr>)),
              ciphers := (ciphers ?s1)(rtcp_cipher x := Some c'), events := es\<rparr>,
            pkt @ rtcp_trailer serv i @ rtcp_tag m t q @ rest, int (length pkt))" "cipher_keyed k c'" by blast
  then show ?thesis unfolding u(1) using u(3)
    by (intro exI[of _ c'] exI[of _ a] exI[of _ d] exI[of _ es] exI[of _ "rtcp_trailer serv i @ rtcp_tag m t q @ rest"]) simp
qed

section \<open>A conversation\<close>

text \<open>The receiver's replay database while the indices come in order: \<open>n\<close> is the last one.\<close>

definition rdb_follows :: "rdb \<Rightarrow> int \<Rightarrow> bool" where
  "rdb_follows r n \<longleftrightarrow> rdb_wf r \<and> uint (window_start r) \<le> n + 1 \<and> n < uint (window_start r) + 128 \<and> (\<forall>j \<in> rdb_seen r. j \<le> n)"

lemma rdb_follows_step:
  assumes "rdb_follows r n" "uint i = n + 1"
  shows "rdb_check r i = Some err_status_ok" "\<exists>r'. rdb_add_index r i = Some r' \<and> rdb_follows r' (n + 1)"
proof -
  have f: "rdb_wf r" "uint (window_start r) \<le> n + 1" "n < uint (window_start r) + 128" "\<And>j. j \<in> rdb_seen r \<Longrightarrow> j \<le> n"
    using assms(1) by (auto simp: rdb_follows_def)
  show "rdb_check r i = Some err_status_ok"
    using f(2-4) f(4)[of "uint i"] assms(2) by (auto simp: rdb_check_seen[OF f(1)] word_less_def)
  obtain r' where r': "rdb_add_index r i = Some r'" "rdb_wf r'"
    "uint (window_start r') = uint (window_start r) + (if n + 1 - uint (window_start r) = 128 then 1 else 0)"
    "rdb_seen r' = insert (uint i) {j \<in> rdb_seen r. uint (window_start r') \<le> j}"
    using rdb_add_near[OF f(1), of i "n + 1 - uint (window_start r)"] f(2,3) assms(2) by auto
  then show "\<exists>r'. rdb_add_index r i = Some r' \<and> rdb_follows r' (n + 1)"
    using f assms(2) by (force simp: rdb_follows_def)
qed

definition rtcp_paired :: "u32 \<Rightarrow> int \<Rightarrow> srtp_state \<Rightarrow> srtp_state \<Rightarrow> bool" where
  "rtcp_paired ssrc n s r \<longleftrightarrow> (\<exists>p q x y k m t.
     srtp_get_stream s ssrc = Some (Some p) \<and> srtp_get_stream r ssrc = Some (Some q) \<and>
     rtcp_keyed s p x k m t \<and> rtcp_keyed r q y k m t \<and> t \<le> 12 \<and> stream_template r \<noteq> Some q \<and>
     uint (window_start (rtcp_rdb x)) = n \<and> rdb_follows (rtcp_rdb y) n)"

lemma rtcp_keyed_kept:
  assumes "cipher_keyed k c" "auth_keyed m t a" "streams s' p = Some y" "ciphers s' (rtcp_cipher y) = Some c" "auths s' (rtcp_auth y) = Some a"
  shows "rtcp_keyed s' p y k m t"
  using assms by (simp add: rtcp_keyed_def)

text \<open>One packet from the sender to the receiver.\<close>

lemma rtcp_step:
  assumes paired: "rtcp_paired (of_le32 (rtcp_ssrc pkt)) n s r" "n < 0x7fffffff" and pkt: "rtcp_packet pkt"
    and room: "16 \<le> length room" "length (tag_mem env') = 12"
  shows "\<exists>s' buf len r' rest. srtp_protect_rtcp env s (pkt @ room) (int (length pkt)) = Some (err_status_ok, s', buf, len) \<and>
      srtp_unprotect_rtcp env' r (take (nat len) buf @ slack) len = Some (err_status_ok, r', pkt @ rest, int (length pkt)) \<and>
      rtcp_paired (of_le32 (rtcp_ssrc pkt)) (n + 1) s' r' \<and> int (length (take (nat len) buf)) = len"
proof -
  obtain p q x y k m t where
    A: "srtp_get_stream s (of_le32 (rtcp_ssrc pkt)) = Some (Some p)" "rtcp_keyed s p x k m t" and
    B: "srtp_get_stream r (of_le32 (rtcp_ssrc pkt)) = Some (Some q)" "rtcp_keyed r q y k m t" "stream_template r \<noteq> Some q" and
    C: "t \<le> 12" "uint (window_start (rtcp_rdb x)) = n" "rdb_follows (rtcp_rdb y) n"
    using paired(1) unfolding rtcp_paired_def by blast
  have x: "streams s p = Some x" and y: "streams r q = Some y" using A(2) B(2) by (simp_all add: rtcp_keyed_def)
  define i where "i = window_start (rtcp_rdb x) + 1"
  have lt: "window_start (rtcp_rdb x) \<le> 0x7fffffff" using C(2) paired(2) by (simp add: word_le_def)
  have n: "0 \<le> n" using C(2) by auto
  have ui: "uint i = n + 1" using C(2) paired(2) n by (simp add: i_def uint_word_ariths)
  then have i: "i < 0x80000000" using paired(2) by (simp add: word_less_def)
  define w where "w = rtcp_sealed k (rtcp_services x) i pkt @ rtcp_trailer (rtcp_services x) i"
  have wlen: "length w = length pkt + 4" using rtcp_sealed_octets(1)[OF pkt] by (simp add: w_def)
  have tlen: "length (rtcp_tag m t w) = t" using A(2) pauth.length_tag by (auto simp: rtcp_keyed_def rtcp_tag_def)
  have rm: "5 \<le> length room" "4 + t \<le> length room" using room(1) C(1) by simp_all
  obtain c a d es rest where S: "srtp_protect_rtcp env s (pkt @ room) (int (length pkt)) =
      Some (err_status_ok, s\<lparr>streams := (streams s)(p := Some (x\<lparr>str_direction := d, rtcp_rdb := (rtcp_rdb x)\<lparr>window_start := i\<rparr>\<rparr>)),
              ciphers := (ciphers s)(rtcp_cipher x := Some c), auths := (auths s)(rtcp_auth x := Some a), events := es\<rparr>,
            w @ rtcp_tag m t w @ rest, int (length pkt + t + 4))" (is "_ = Some (_, ?s', ?buf, ?len)") "cipher_keyed k c" "auth_keyed m t a"
    using srtp_protect_rtcp_seals[OF A pkt rm lt, of env, folded i_def] by (auto simp: w_def)
  obtain rd where rd: "rdb_add_index (rtcp_rdb y) i = Some rd" "rdb_follows rd (n + 1)"
    using rdb_follows_step(2)[OF C(3) ui] by blast
  have "t \<le> length (tag_mem env')" using C(1) room(2) by simp
  from srtp_unprotect_rtcp_opens[OF B(1,2) pkt this B(3) i rdb_follows_step(1)[OF C(3) ui] rd(1), of "rtcp_services x" slack]
  obtain c' a' d' es' rest' where R: "srtp_unprotect_rtcp env' r (w @ rtcp_tag m t w @ slack) (int (length pkt + 4 + t)) =
      Some (err_status_ok, r\<lparr>streams := (streams r)(q := Some (y\<lparr>str_direction := d', rtcp_rdb := rd\<rparr>)),
              ciphers := (ciphers r)(rtcp_cipher y := Some c'), auths := (auths r)(rtcp_auth y := Some a'), events := es'\<rparr>,
            pkt @ rest', int (length pkt))" (is "_ = Some (_, ?r', _)") "cipher_keyed k c'" "auth_keyed m t a'"
    unfolding w_def by blast
  have take: "take (nat ?len) ?buf = w @ rtcp_tag m t w" using wlen tlen by (simp add: nat_add_distrib)
  moreover have "int (length (w @ rtcp_tag m t w)) = ?len" using wlen tlen by simp
  moreover have "rtcp_paired (of_le32 (rtcp_ssrc pkt)) (n + 1) ?s' ?r'"
    unfolding rtcp_paired_def
  proof (intro exI conjI)
    show "srtp_get_stream ?s' (of_le32 (rtcp_ssrc pkt)) = Some (Some p)" by (rule get_stream_kept[OF A(1) x]) simp_all
    show "srtp_get_stream ?r' (of_le32 (rtcp_ssrc pkt)) = Some (Some q)" by (rule get_stream_kept[OF B(1) y]) simp_all
    show "rtcp_keyed ?s' p (x\<lparr>str_direction := d, rtcp_rdb := (rtcp_rdb x)\<lparr>window_start := i\<rparr>\<rparr>) k m t" by (rule rtcp_keyed_kept[OF S(2,3)]) simp_all
    show "rtcp_keyed ?r' q (y\<lparr>str_direction := d', rtcp_rdb := rd\<rparr>) k m t" by (rule rtcp_keyed_kept[OF R(2,3)]) simp_all
  qed (use C(1) B(3) ui rd(2) in simp_all)
  moreover have "int (length pkt + 4 + t) = ?len" by simp
  ultimately show ?thesis using S(1) R(1) by (metis append_assoc)
qed

lemma rtcp_conversation_step:
  assumes "rtcp_paired ssrc n s r" "n + int (length pkts) < 0x80000000" "\<forall>pkt \<in> set pkts. rtcp_packet pkt \<and> of_le32 (rtcp_ssrc pkt) = ssrc"
    and room: "16 \<le> length room" "length (tag_mem env') = 12"
  shows "\<exists>wires s' r'. process_all (srtp_protect_rtcp env) room s pkts = Some (wires, s') \<and>
      process_all (srtp_unprotect_rtcp env') slack r wires = Some (pkts, r')"
  using assms(1-3)
proof (induction pkts arbitrary: n s r)
  case (Cons pkt pkts)
  have pkt: "rtcp_packet pkt" "of_le32 (rtcp_ssrc pkt) = ssrc" "n < 0x7fffffff" using Cons.prems(2,3) by simp_all
  obtain s1 buf len r1 rest where 1: "srtp_protect_rtcp env s (pkt @ room) (int (length pkt)) = Some (err_status_ok, s1, buf, len)"
    "srtp_unprotect_rtcp env' r (take (nat len) buf @ slack) len = Some (err_status_ok, r1, pkt @ rest, int (length pkt))"
    "rtcp_paired ssrc (n + 1) s1 r1" "int (length (take (nat len) buf)) = len"
    using rtcp_step[OF _ pkt(3,1) room, of s r] Cons.prems(1) pkt(2) by blast
  obtain wires s' r' where 2: "process_all (srtp_protect_rtcp env) room s1 pkts = Some (wires, s')"
    "process_all (srtp_unprotect_rtcp env') slack r1 wires = Some (pkts, r')"
    using Cons.IH[OF 1(3)] Cons.prems(2,3) by auto
  have "process_all (srtp_protect_rtcp env) room s (pkt # pkts) = Some (take (nat len) buf # wires, s')" using 1(1) 2(1) by simp
  moreover have "process_all (srtp_unprotect_rtcp env') slack r (take (nat len) buf # wires) = Some (pkt # pkts, r')"
    using 1(2,4) 2(2) by simp
  ultimately show ?case by blast
qed simp

lemma created_rtcp_paired:
  assumes "stream_ready pol key k s p x" "stream_ready pol key k' r q y" "same_types k k'"
    and "srtp_get_stream s ssrc = Some (Some p)" "srtp_get_stream r ssrc = Some (Some q)"
    and "stream_template r = None" and "cp_auth_tag_len (pol_rtcp pol) \<le> 12"
  shows "rtcp_paired ssrc 0 s r"
proof -
  have "streams s p = Some x" "streams r q = Some y" using assms(1,2) by (simp_all add: stream_ready_def stream_keyed_def)
  moreover have "rdb_follows rdb_init 0" by (simp add: rdb_follows_def rdb_seen_def rdb_init_def seen_zero rdb_wf_def)
  moreover have "window_start rdb_init = 0" by (simp add: rdb_init_def)
  ultimately show ?thesis
    using assms unfolding stream_ready_def rtcp_paired_def rtcp_keyed_def same_types_get(1,2)[OF assms(3)]
    by (intro exI[of _ p] exI[of _ q] exI[of _ x] exI[of _ y]) auto
qed

text \<open>C7. Two sessions that are created with the same policy for a source carry RTCP packets too: the sender protects any
  sequence of fewer than \<open>2 ^ 31\<close> packets, and the receiver gets back exactly these packets when it removes their
  protection in the same order. Nothing is assumed of the memory the two hosts allocate, and a cipher, an authentication
  function or a service may be missing from the policy.\<close>

theorem srtcp_conversation:
  assumes create: "srtp_create env [pol] s0 = Some (err_status_ok, s)" "srtp_create env' [pol] r0 = Some (err_status_ok, r)"
    and key: "pol_key pol = Some key" and spec: "pol_ssrc_type pol = ssrc_specific" and mem: "env_wf env" "env_wf env'"
    and pol: "policy_ok (kern s0) (pol_rtp pol)" "policy_ok (kern s0) (pol_rtcp pol)" and types: "same_types (kern s0) (kern r0)"
    and tag: "cp_auth_tag_len (pol_rtcp pol) \<le> 12"
    and pkts: "\<forall>pkt \<in> set pkts. rtcp_packet pkt \<and> of_le32 (rtcp_ssrc pkt) = htonl (pol_ssrc_value pol)" "length pkts < 2 ^ 31"
    and room: "16 \<le> length room"
  shows "\<exists>wires s' r'. process_all (srtp_protect_rtcp env) room s pkts = Some (wires, s') \<and>
      process_all (srtp_unprotect_rtcp env') slack r wires = Some (pkts, r')"
proof -
  obtain p x where S: "stream_ready pol key (kern s0) s p x" "srtp_get_stream s (htonl (pol_ssrc_value pol)) = Some (Some p)"
    using create_ok[OF create(1) key spec mem(1) pol] by blast
  obtain q y where R: "stream_ready pol key (kern r0) r q y" "srtp_get_stream r (htonl (pol_ssrc_value pol)) = Some (Some q)" "stream_template r = None"
    using create_ok[OF create(2) key spec mem(2)] pol same_types_get(3)[OF types] by blast
  have "rtcp_paired (htonl (pol_ssrc_value pol)) 0 s r" by (rule created_rtcp_paired[OF S(1) R(1) types S(2) R(2,3) tag])
  then show ?thesis using rtcp_conversation_step[of _ 0 s r pkts room env'] pkts room mem(2) by (simp add: env_wf_def)
qed

definition small_report :: "u8 list" where
  "small_report = [0x80, 200, 0, 1, 0, 0, 0, 0, 9, 9, 9, 9]"

lemma small_report_ok: "rtcp_packet small_report" "of_le32 (rtcp_ssrc small_report) = htonl 0"
  by (simp_all add: rtcp_packet_def small_report_def of_le32_def htonl_def le32_def)

lemma default_policy_rtcp: "cp_auth_tag_len (pol_rtcp default_policy) = 10"
  by (simp add: default_policy_def crypto_policy_defs)

theorem srtcp_conversation_witness:
  "\<exists>s wires s' r'. srtp_create blank_env [default_policy] empty_state = Some (err_status_ok, s) \<and>
     process_all (srtp_protect_rtcp blank_env) (replicate 16 0) s [small_report, small_report] = Some (wires, s') \<and>
     process_all (srtp_unprotect_rtcp blank_env) [] s wires = Some ([small_report, small_report], r')"
proof -
  obtain s where s: "srtp_create blank_env [default_policy] empty_state = Some (err_status_ok, s)" using default_session by blast
  have "\<exists>wires s' r'. process_all (srtp_protect_rtcp blank_env) (replicate 16 0) s [small_report, small_report] = Some (wires, s') \<and>
      process_all (srtp_unprotect_rtcp blank_env) [] s wires = Some ([small_report, small_report], r')"
    by (rule srtcp_conversation[OF s s default_policy_usable(3,4) blank_env_wf(1,1)])
       (use default_policy_usable default_policy_rtcp small_report_ok in \<open>auto simp: policy_usable_def same_types_def\<close>)
  then show ?thesis using s by blast
qed

text \<open>C36. The sender's check of the index lets one packet too many pass. When the \<open>2 ^ 31\<close>-th packet is protected, the index
  spills into the bit that says whether the packet is encrypted: the sender reports success, and a receiver that has
  followed it reads the index 0 and refuses the packet as too old.\<close>

theorem srtcp_last_index_lost:
  assumes paired: "rtcp_paired (of_le32 (rtcp_ssrc pkt)) 0x7fffffff s r" and pkt: "rtcp_packet pkt"
    and room: "16 \<le> length room" "length (tag_mem env') = 12"
  shows "\<exists>s' buf len. srtp_protect_rtcp env s (pkt @ room) (int (length pkt)) = Some (err_status_ok, s', buf, len) \<and>
      srtp_unprotect_rtcp env' r (take (nat len) buf @ slack) len = Some (err_status_replay_old, r, take (nat len) buf @ slack, len)"
proof -
  obtain p q x y k m t where
    A: "srtp_get_stream s (of_le32 (rtcp_ssrc pkt)) = Some (Some p)" "rtcp_keyed s p x k m t" and
    B: "srtp_get_stream r (of_le32 (rtcp_ssrc pkt)) = Some (Some q)" "rtcp_keyed r q y k m t" and
    C: "t \<le> 12" "uint (window_start (rtcp_rdb x)) = 0x7fffffff" "rdb_follows (rtcp_rdb y) 0x7fffffff"
    using paired unfolding rtcp_paired_def by blast
  have ws: "window_start (rtcp_rdb x) = 0x7fffffff" by (rule word_uint_eqI) (simp add: C(2))
  define w where "w = rtcp_sealed k (rtcp_services x) 0x80000000 pkt"
  define tr where "tr = rtcp_trailer (rtcp_services x) 0x80000000"
  define tag where "tag = rtcp_tag m t (w @ tr)"
  have len: "length w = length pkt" "length tr = 4" "length tag = t" "rtcp_packet w" "rtcp_ssrc w = rtcp_ssrc pkt"
    using rtcp_sealed_octets[OF pkt] A(2) pauth.length_tag pkt
    by (auto simp: w_def tr_def tag_def rtcp_keyed_def rtcp_tag_def rtcp_packet_def)
  have rm: "5 \<le> length room" "4 + t \<le> length room" using room(1) C(1) by simp_all
  obtain s' rest where S: "srtp_protect_rtcp env s (pkt @ room) (int (length pkt)) = Some (err_status_ok, s', w @ tr @ tag @ rest, int (length w + 4 + t))"
    using srtp_protect_rtcp_seals[OF A pkt rm, of env] len by (auto simp: ws w_def tr_def tag_def algebra_simps)
  have i: "ntohl (of_le32 tr) AND SRTCP_INDEX_MASK = 0"
    by (simp add: tr_def rtcp_trailer_def bit.conj_disj_distrib2 SRTCP_E_BIT_def SRTCP_INDEX_MASK_def)
  have "rdb_check (rtcp_rdb y) 0 = Some err_status_replay_old"
    using C(3) by (auto simp: rdb_follows_def rdb_check_def word_less_def)
  from unprotect_rtcp_checks[OF _ B(2) len(4,2,3) _ i this, of env' slack] B(1) C(1) room(2) len(5)
  have "srtp_unprotect_rtcp env' r (w @ tr @ tag @ slack) (int (length w + 4 + t)) =
      Some (err_status_replay_old, r, w @ tr @ tag @ slack, int (length w + 4 + t))" by auto
  moreover have "take (nat (int (length w + 4 + t))) (w @ tr @ tag @ rest) = w @ tr @ tag" using len by (simp add: nat_add_distrib)
  ultimately show ?thesis using S by (metis append_assoc)
qed

theorem srtcp_last_index_lost_witness:
  "\<exists>s s' buf len. srtp_protect_rtcp blank_env s (small_report @ replicate 16 0) (int (length small_report)) = Some (err_status_ok, s', buf, len) \<and>
     srtp_unprotect_rtcp blank_env s (take (nat len) buf @ []) len = Some (err_status_replay_old, s, take (nat len) buf @ [], len)"
proof -
  obtain s where s: "srtp_create blank_env [default_policy] empty_state = Some (err_status_ok, s)" using default_session by blast
  obtain p x where x: "stream_ready default_policy (replicate 32 0) (kern empty_state) s p x" "srtp_get_stream s (htonl 0) = Some (Some p)" "stream_template s = None"
    using create_ok[OF s default_policy_usable(3,4) blank_env_wf(1)] default_policy_usable(1,2,5) by (auto simp: policy_usable_def)
  obtain k m where k: "rtcp_keyed s p x k m 10"
    using x(1) default_policy_rtcp unfolding stream_ready_def rtcp_keyed_def stream_keyed_def by auto
  let ?y = "x\<lparr>rtcp_rdb := \<lparr>window_start = 0x7fffffff, rdb_bitmask = v128_set_to_zero\<rparr>\<rparr>"
  let ?s = "set_stream p ?y s"
  have y: "streams s p = Some x" using k by (simp add: rtcp_keyed_def)
  have "rtcp_paired (of_le32 (rtcp_ssrc small_report)) 0x7fffffff ?s ?s"
    unfolding rtcp_paired_def
  proof (intro exI conjI)
    show "srtp_get_stream ?s (of_le32 (rtcp_ssrc small_report)) = Some (Some p)"
      by (rule get_stream_kept[OF _ y]) (use x(2) small_report_ok(2) in simp_all)
    then show "srtp_get_stream ?s (of_le32 (rtcp_ssrc small_report)) = Some (Some p)" .
    show "rtcp_keyed ?s p ?y k m 10" using k by (simp add: rtcp_keyed_def)
    then show "rtcp_keyed ?s p ?y k m 10" .
  qed (use x(3) in \<open>simp_all add: rdb_follows_def rdb_seen_def seen_zero rdb_wf_def\<close>)
  then have "\<exists>s' buf len. srtp_protect_rtcp blank_env ?s (small_report @ replicate 16 0) (int (length small_report)) = Some (err_status_ok, s', buf, len) \<and>
     srtp_unprotect_rtcp blank_env ?s (take (nat len) buf @ []) len = Some (err_status_replay_old, ?s, take (nat len) buf @ [], len)"
    by (rule srtcp_last_index_lost[OF _ small_report_ok(1)]) (use blank_env_wf(1) in \<open>simp_all add: env_wf_def\<close>)
  then show ?thesis by blast
qed

end
