(* ===== verification/Srtp_Lifecycle.thy ===== *)
theory Srtp_Lifecycle
  imports Srtp_Creation
begin

text \<open>
  The life of a session: its list of streams as a chain in memory, the removal of a stream from it, and the release of
  everything that the creation of the session has allocated.
\<close>

section \<open>The chain of streams\<close>

fun chain :: "srtp_state \<Rightarrow> addr option \<Rightarrow> addr list \<Rightarrow> bool" where
  "chain s p [] \<longleftrightarrow> p = None"
| "chain s p (a # as) \<longleftrightarrow> p = Some a \<and> (\<exists>x. streams s a = Some x \<and> chain s (str_next x) as)"

abbreviation ssrc_of :: "srtp_state \<Rightarrow> addr \<Rightarrow> u32" where
  "ssrc_of s a \<equiv> str_ssrc (the (streams s a))"

text \<open>On a chain the walks end, and find the first stream with the source.\<close>

lemma find_stream_chain: "chain s p as \<Longrightarrow> find_stream s i p = Some (find (\<lambda>a. ssrc_of s a = i) as)"
  by (induction as arbitrary: p) (subst find_stream.simps, auto)+

lemma get_stream_chain: "chain s (stream_list s) as \<Longrightarrow> srtp_get_stream s i = Some (find (\<lambda>a. ssrc_of s a = i) as)"
  by (simp add: srtp_get_stream_def find_stream_chain)

lemma find_last_chain:
  assumes "chain s p (as @ a # bs)" "\<forall>b \<in> set as. ssrc_of s b \<noteq> i" "ssrc_of s a = i"
  shows "find_last s i l p = Some (if as = [] then l else Some (last as), Some a)"
  using assms by (induction as arbitrary: p l) (subst find_last.simps, auto)+

lemma find_last_none: "chain s p as \<Longrightarrow> \<forall>b \<in> set as. ssrc_of s b \<noteq> i \<Longrightarrow> \<exists>l'. find_last s i l p = Some (l', None)"
proof (induction as arbitrary: p l)
  case Nil
  then show ?case by (subst find_last.simps) simp
next
  case (Cons a as)
  then obtain x where "p = Some a" "streams s a = Some x" "chain s (str_next x) as" "str_ssrc x \<noteq> i" by auto
  then show ?case using Cons by (subst find_last.simps) auto
qed

lemma chain_cong:
  assumes "chain s p as" "\<And>a. a \<in> set as \<Longrightarrow> map_option str_next (streams s' a) = map_option str_next (streams s a)"
  shows "chain s' p as"
  using assms
proof (induction as arbitrary: p)
  case (Cons a as)
  then obtain x where x: "p = Some a" "streams s a = Some x" "chain s (str_next x) as" by auto
  moreover obtain y where "streams s' a = Some y" "str_next y = str_next x" using Cons.prems(2)[of a] x(2) by auto
  ultimately show ?case using Cons by auto
qed simp

text \<open>Unlinking \<open>a\<close> from the stream before it.\<close>

lemma chain_unlink:
  assumes "chain s p (as @ l # a # bs)" "distinct (as @ l # a # bs)" "streams s l = Some y" "streams s a = Some x"
  shows "chain (set_stream l (y\<lparr>str_next := str_next x\<rparr>) s) p (as @ l # bs)"
  using assms
proof (induction as arbitrary: p)
  case Nil
  define s1 where "s1 = set_stream l (y\<lparr>str_next := str_next x\<rparr>) s"
  have "chain s1 (str_next x) bs" by (rule chain_cong[of s]) (use Nil in \<open>auto simp: s1_def\<close>)
  moreover have "streams s1 l = Some (y\<lparr>str_next := str_next x\<rparr>)" by (simp add: s1_def)
  ultimately have "chain s1 p ([] @ l # bs)" using Nil by simp
  then show ?case by (simp only: s1_def)
next
  case (Cons b as)
  then show ?case by auto
qed

lemma chain_bound: "chain s p (as @ a # bs) \<Longrightarrow> \<exists>x. streams s a = Some x"
  by (induction as arbitrary: p) auto

lemma find_split: "find P l = Some a \<Longrightarrow> \<exists>as bs. l = as @ a # bs \<and> P a \<and> (\<forall>b \<in> set as. \<not> P b)"
proof (induction l)
  case (Cons b l)
  show ?case
  proof (cases "P b")
    case True
    then show ?thesis using Cons.prems by (intro exI[of _ "[]"] exI[of _ l]) auto
  next
    case False
    then obtain as bs where "l = as @ a # bs" "P a" "\<forall>b \<in> set as. \<not> P b" using Cons by auto
    then show ?thesis using False by (intro exI[of _ "b # as"] exI[of _ bs]) auto
  qed
qed simp

section \<open>Removal of a stream\<close>

lemma release_cipher_keeps:
  "release_cipher f x s = Some (status, s') \<Longrightarrow> streams s' = streams s \<and> stream_list s' = stream_list s \<and> stream_template s' = stream_template s"
  by (auto simp: release_cipher_def free_cipher_def Let_def split: bind_splits if_splits prod.splits)

lemma release_auth_keeps:
  "release_auth f x s = Some (status, s') \<Longrightarrow> streams s' = streams s \<and> stream_list s' = stream_list s \<and> stream_template s' = stream_template s"
  by (auto simp: release_auth_def free_auth_def Let_def split: bind_splits if_splits prod.splits)

lemma dealloc_keeps:
  assumes "srtp_stream_dealloc a s = Some (err_status_ok, s')"
  shows "streams s' = (streams s)(a := None)" "stream_list s' = stream_list s"
  using assms
  by (auto simp: srtp_stream_dealloc_def free_stream_def free_limit_def split: bind_splits if_splits
      dest!: release_cipher_keeps release_auth_keeps)

text \<open>C25. The removal of a stream that is not the first of the list takes exactly this stream out: every other source finds the
  stream it found before. The removal of the first one leaves the list pointing to the stream that was released, and the
  next lookup, of any source, reads freed memory. An unknown source is reported, and nothing changes.\<close>

theorem srtp_remove_stream_list:
  assumes list: "chain s (stream_list s) l" "distinct l"
    and found: "srtp_get_stream s ssrc = Some r" and removed: "srtp_remove_stream ssrc s = Some (status, s')"
  shows "case r of None \<Rightarrow> status = err_status_no_ctx \<and> s' = s
    | Some a \<Rightarrow> status = err_status_ok \<longrightarrow>
        srtp_get_stream s' i = (if hd l = a then None else Some (find (\<lambda>b. ssrc_of s b = i) (remove1 a l)))"
proof (cases r)
  case None
  then have "\<forall>b \<in> set l. ssrc_of s b \<noteq> ssrc" using found get_stream_chain[OF list(1), of ssrc] by (simp add: find_None_iff)
  then show ?thesis using find_last_none[OF list(1), of ssrc "stream_list s"] removed None by (auto simp: srtp_remove_stream_def)
next
  case (Some a)
  then have "find (\<lambda>b. ssrc_of s b = ssrc) l = Some a" using found get_stream_chain[OF list(1), of ssrc] by simp
  from find_split[OF this] obtain as bs where l: "l = as @ a # bs" "\<forall>b \<in> set as. ssrc_of s b \<noteq> ssrc" "ssrc_of s a = ssrc"
    by blast
  obtain x where x: "streams s a = Some x" using chain_bound[OF list(1)[unfolded l(1)]] by blast
  have rem: "status = err_status_ok \<Longrightarrow> srtp_stream_dealloc a (set_stream q (z\<lparr>str_next := str_next x\<rparr>) s) = Some (err_status_ok, s')"
    if "(if as = [] then stream_list s else Some (last as)) = Some q" "streams s q = Some z" for q z
    using removed find_last_chain[OF list(1)[unfolded l(1)] l(2,3), of "stream_list s"] x that
    by (simp add: srtp_remove_stream_def split: bind_splits if_splits prod.splits)
  show ?thesis
  proof (cases "as = []")
    case True
    then have head: "stream_list s = Some a" using list(1) l(1) by simp
    have "srtp_get_stream s' i = None" if "status = err_status_ok"
      using dealloc_keeps[OF rem[of a x]] that True head x by (simp add: srtp_get_stream_def find_stream.simps)
    then show ?thesis using True Some l(1) by simp
  next
    case False
    then obtain as' p where as: "as = as' @ [p]" by (metis append_butlast_last_id)
    have d: "distinct (as' @ p # a # bs)" and c: "chain s (stream_list s) (as' @ p # a # bs)" using list l(1) as by simp_all
    obtain y where y: "streams s p = Some y" using chain_bound[OF c] by blast
    have "srtp_get_stream s' i = Some (find (\<lambda>b. ssrc_of s b = i) (as @ bs))" if "status = err_status_ok"
    proof -
      note k = dealloc_keeps[OF rem[OF _ y that, unfolded as]]
      have "chain s' (stream_list s) (as' @ p # bs)"
        by (rule chain_cong[OF chain_unlink[OF c d y x]]) (use d k(1) in auto)
      moreover have "find (\<lambda>b. ssrc_of s' b = i) (as' @ p # bs) = find (\<lambda>b. ssrc_of s b = i) (as' @ p # bs)"
        by (rule find_cong) (use k(1) d y in auto)
      ultimately show ?thesis using get_stream_chain[of s' "as' @ p # bs" i] k(2) as by simp
    qed
    moreover have "hd l \<noteq> a" "remove1 a l = as @ bs" using False d l(1) as by (auto simp: hd_append remove1_append)
    ultimately show ?thesis using Some by simp
  qed
qed

section \<open>Release of a session\<close>

text \<open>The effects of the releases.\<close>

definition cipher_gone :: "cipher \<Rightarrow> crypto_kernel \<Rightarrow> crypto_kernel" where
  "cipher_gone c k = k\<lparr>ck_ctypes := snd (cipher_dealloc c (ck_ctypes k))\<rparr>"

definition auth_gone :: "auth \<Rightarrow> crypto_kernel \<Rightarrow> crypto_kernel" where
  "auth_gone a k = k\<lparr>ck_atypes := snd (auth_dealloc a (ck_atypes k))\<rparr>"

lemma dealloc_always: "fst (cipher_dealloc c cts) = err_status_ok" "fst (auth_dealloc a ats) = err_status_ok"
  by (simp_all add: cipher_dealloc_def null_cipher_dealloc_def aes_icm_dealloc_def aes_cbc_dealloc_def auth_dealloc_def
      hmac_dealloc_def null_auth_dealloc_def split: cipher_kind.splits auth_kind.splits)

lemma frees:
  "ciphers s p = Some c \<Longrightarrow> free_cipher p s = Some (err_status_ok, s\<lparr>ciphers := (ciphers s)(p := None), kern := cipher_gone c (kern s)\<rparr>)"
  "auths s p = Some a \<Longrightarrow> free_auth p s = Some (err_status_ok, s\<lparr>auths := (auths s)(p := None), kern := auth_gone a (kern s)\<rparr>)"
  "limits s p = Some li \<Longrightarrow> free_limit p s = Some (s\<lparr>limits := (limits s)(p := None)\<rparr>)"
  "streams s p = Some x \<Longrightarrow> free_stream p s = Some (s\<lparr>streams := (streams s)(p := None)\<rparr>)"
  using dealloc_always(1)[of c "ck_ctypes (kern s)"] dealloc_always(2)[of a "ck_atypes (kern s)"]
  by (simp_all add: free_cipher_def free_auth_def free_limit_def free_stream_def cipher_gone_def auth_gone_def case_prod_beta)

text \<open>A stream that \<open>srtp_stream_alloc\<close> has made, with its objects in the allocations that follow its own.\<close>

definition laid :: "srtp_state \<Rightarrow> addr \<Rightarrow> bool" where
  "laid s a \<longleftrightarrow> (\<exists>x rc ra li cc ca. streams s a = Some x \<and> rtp_cipher x = a + 1 \<and> rtp_auth x = a + 2 \<and> str_limit x = a + 3 \<and>
     rtcp_cipher x = a + 4 \<and> rtcp_auth x = a + 5 \<and> ciphers s (a + 1) = Some rc \<and> auths s (a + 2) = Some ra \<and>
     limits s (a + 3) = Some li \<and> ciphers s (a + 4) = Some cc \<and> auths s (a + 5) = Some ca)"

text \<open>The memory of \<open>s\<close> is that of \<open>s0\<close> except for the streams \<open>A\<close> and their objects.\<close>

definition frame :: "srtp_state \<Rightarrow> addr set \<Rightarrow> srtp_state \<Rightarrow> bool" where
  "frame s0 A s \<longleftrightarrow> (\<forall>b. b \<notin> A \<longrightarrow> streams s b = streams s0 b) \<and>
     (\<forall>b. (\<forall>a \<in> A. b \<noteq> a + 1 \<and> b \<noteq> a + 4) \<longrightarrow> ciphers s b = ciphers s0 b) \<and>
     (\<forall>b. (\<forall>a \<in> A. b \<noteq> a + 2 \<and> b \<noteq> a + 5) \<longrightarrow> auths s b = auths s0 b) \<and>
     (\<forall>b. (\<forall>a \<in> A. b \<noteq> a + 3) \<longrightarrow> limits s b = limits s0 b)"

definition apart :: "addr set \<Rightarrow> bool" where
  "apart A \<longleftrightarrow> (\<forall>a \<in> A. \<forall>b \<in> A. a \<noteq> b \<longrightarrow> a + 6 \<le> b \<or> b + 6 \<le> a)"

definition fresh_from :: "srtp_state \<Rightarrow> addr \<Rightarrow> bool" where
  "fresh_from s n \<longleftrightarrow> (\<forall>a \<ge> n. streams s a = None \<and> ciphers s a = None \<and> auths s a = None \<and> limits s a = None)"

text \<open>What remains when the stream \<open>a\<close> has been released.\<close>

definition without :: "addr \<Rightarrow> srtp_state \<Rightarrow> srtp_state \<Rightarrow> bool" where
  "without a s s' \<longleftrightarrow> streams s' = (streams s)(a := None) \<and> ciphers s' = (ciphers s)(a + 1 := None, a + 4 := None) \<and>
     auths s' = (auths s)(a + 2 := None, a + 5 := None) \<and> limits s' = (limits s)(a + 3 := None) \<and>
     stream_list s' = stream_list s \<and> stream_template s' = stream_template s"

lemma without_frame:
  assumes "without a s s'" "frame s0 A s" "a \<in> A" "fresh_from s0 a"
  shows "frame s0 (A - {a}) s'"
proof -
  have f: "streams s0 a = None" "ciphers s0 (a + 1) = None" "ciphers s0 (a + 4) = None" "auths s0 (a + 2) = None" "auths s0 (a + 5) = None"
    "limits s0 (a + 3) = None" using assms(4) by (simp_all add: fresh_from_def)
  show ?thesis using assms(1,2) f unfolding frame_def without_def by (auto split: if_splits)
qed

lemma without_laid:
  assumes "without a s s'" "laid s b" "a + 6 \<le> b \<or> b + 6 \<le> a"
  shows "laid s' b" "streams s' b = streams s b"
  using assms by (auto simp: without_def laid_def)

lemma stream_dealloc_without:
  assumes "laid s a" "stream_template s = None \<or> (\<exists>t. stream_template s = Some t \<and> laid s t \<and> t \<noteq> a)"
  shows "\<exists>s'. srtp_stream_dealloc a s = Some (err_status_ok, s') \<and> without a s s'"
proof -
  obtain x rc ra li cc ca where x: "streams s a = Some x" "rtp_cipher x = a + 1" "rtp_auth x = a + 2" "str_limit x = a + 3"
    "rtcp_cipher x = a + 4" "rtcp_auth x = a + 5" "ciphers s (a + 1) = Some rc" "auths s (a + 2) = Some ra" "limits s (a + 3) = Some li"
    "ciphers s (a + 4) = Some cc" "auths s (a + 5) = Some ca" using assms(1) unfolding laid_def by blast
  have sh: "shared s1 f x = Some False" if "streams s1 = streams s" "stream_template s1 = stream_template s"
    "f \<in> {rtp_cipher, rtp_auth, str_limit, rtcp_cipher, rtcp_auth}" for s1 f
    using assms(2) that x(1-6) by (auto simp: shared_def laid_def)
  show ?thesis
    by (simp add: srtp_stream_dealloc_def x[simplified] release_cipher_def release_auth_def sh frees without_def)
qed

text \<open>The loop over the list, and the release of the template after it.\<close>

lemma dealloc_streams_frame:
  assumes "chain s p as" "distinct as" "frame s0 (set as \<union> T) s" "\<forall>a \<in> set as \<union> T. laid s a \<and> fresh_from s0 a" "apart (set as \<union> T)" "set as \<inter> T = {}"
    and "stream_template s = None \<and> T = {} \<or> (\<exists>t. stream_template s = Some t \<and> T = {t})"
  shows "\<exists>s'. dealloc_streams s p = Some (err_status_ok, s') \<and> frame s0 T s' \<and> (\<forall>t \<in> T. laid s' t) \<and> stream_template s' = stream_template s"
  using assms
proof (induction as arbitrary: p s)
  case Nil
  then show ?case by (subst dealloc_streams.simps) auto
next
  case (Cons a as)
  obtain x where x: "p = Some a" "streams s a = Some x" "chain s (str_next x) as" using Cons.prems(1) by auto
  obtain s1 where s1: "srtp_stream_dealloc a s = Some (err_status_ok, s1)" "without a s s1"
    using stream_dealloc_without[of s a] Cons.prems(4,6,7) by auto
  have ap: "a + 6 \<le> b \<or> b + 6 \<le> a" if "b \<in> set as \<union> T" for b
  proof -
    have "b \<noteq> a" using that Cons.prems(2,6) by auto
    then show ?thesis using Cons.prems(5) that unfolding apart_def by auto
  qed
  have kept: "laid s1 b \<and> streams s1 b = streams s b" if "b \<in> set as \<union> T" for b
    using without_laid[OF s1(2), of b] Cons.prems(4) ap[OF that] that by auto
  have "set (a # as) \<union> T - {a} = set as \<union> T" using Cons.prems(2,6) by auto
  then have fr: "frame s0 (set as \<union> T) s1" using without_frame[OF s1(2) Cons.prems(3), of] Cons.prems(4) by auto
  have ch: "chain s1 (str_next x) as" by (rule chain_cong[OF x(3)]) (use kept in auto)
  have l2: "\<forall>b \<in> set as \<union> T. laid s1 b \<and> fresh_from s0 b" using kept Cons.prems(4) by auto
  have ap2: "apart (set as \<union> T)" using Cons.prems(5) by (auto simp: apart_def)
  have tm: "stream_template s1 = stream_template s" using s1(2) by (simp add: without_def)
  obtain s' where "dealloc_streams s1 (str_next x) = Some (err_status_ok, s')" "frame s0 T s'" "\<forall>t \<in> T. laid s' t" "stream_template s' = stream_template s1"
    using Cons.IH[OF ch _ fr l2 ap2] Cons.prems(2,6,7) tm by auto
  then show ?case using x s1(1) tm by (subst dealloc_streams.simps) auto
qed

lemma srtp_dealloc_frame:
  assumes "chain s (stream_list s) as" "distinct as" "frame s0 (set as \<union> T) s" "\<forall>a \<in> set as \<union> T. laid s a \<and> fresh_from s0 a" "apart (set as \<union> T)" "set as \<inter> T = {}"
    and "stream_template s = None \<and> T = {} \<or> (\<exists>t. stream_template s = Some t \<and> T = {t})"
  shows "\<exists>s'. srtp_dealloc s = Some (err_status_ok, s') \<and> frame s0 {} s'"
proof -
  obtain s1 where s1: "dealloc_streams s (stream_list s) = Some (err_status_ok, s1)" "frame s0 T s1" "\<forall>t \<in> T. laid s1 t" "stream_template s1 = stream_template s"
    using dealloc_streams_frame[OF assms] by blast
  show ?thesis
  proof (cases "stream_template s")
    case None
    then show ?thesis using s1 assms(7) by (auto simp: srtp_dealloc_def frame_def)
  next
    case (Some t)
    then have T: "T = {t}" using assms(7) by auto
    then obtain x rc ra li cc ca where x: "streams s1 t = Some x" "rtp_cipher x = t + 1" "rtp_auth x = t + 2" "str_limit x = t + 3"
      "rtcp_cipher x = t + 4" "rtcp_auth x = t + 5" "ciphers s1 (t + 1) = Some rc" "auths s1 (t + 2) = Some ra" "limits s1 (t + 3) = Some li"
      "ciphers s1 (t + 4) = Some cc" "auths s1 (t + 5) = Some ca" using s1(3) unfolding laid_def by blast
    have "\<exists>s'. srtp_dealloc s = Some (err_status_ok, s') \<and> without t s1 s'"
      using s1(1,4) Some by (simp add: srtp_dealloc_def x[simplified] frees without_def) (simp add: fun_eq_iff)
    then show ?thesis using without_frame[OF _ s1(2)] assms(4) T by fastforce
  qed
qed

section \<open>Creation of a session\<close>

lemma frame_trans: "frame s0 A s \<Longrightarrow> frame s B s' \<Longrightarrow> frame s0 (A \<union> B) s'"
  unfolding frame_def by auto

lemma frame_laid:
  assumes "frame s {p} s'" "laid s b" "p + 6 \<le> b \<or> b + 6 \<le> p"
  shows "laid s' b" "streams s' b = streams s b"
  using assms by (auto simp: frame_def laid_def)

lemma alloc_object_shape:
  "alloc_cipher env p s = (Inr q, s1) \<Longrightarrow> q = brk s \<and> (\<exists>c k. s1 = s\<lparr>kern := k, brk := brk s + 1, ciphers := (ciphers s)(brk s := Some c)\<rparr>)"
  "alloc_cipher env p s = (Inl st, s1) \<Longrightarrow> \<exists>k. s1 = s\<lparr>kern := k, brk := brk s + 1\<rparr>"
  "alloc_auth env p s = (Inr q, s1) \<Longrightarrow> q = brk s \<and> (\<exists>a k. s1 = s\<lparr>kern := k, brk := brk s + 1, auths := (auths s)(brk s := Some a)\<rparr>)"
  "alloc_auth env p s = (Inl st, s1) \<Longrightarrow> \<exists>k. s1 = s\<lparr>kern := k, brk := brk s + 1\<rparr>"
  by (auto simp: alloc_cipher_def alloc_auth_def Let_def split: prod.splits sum.splits)

lemma stream_alloc_shape:
  assumes "srtp_stream_alloc env pol s = Some (Inr p, s')"
  shows "p = brk s \<and> brk s' = p + 6 \<and> laid s' p \<and> frame s {p} s' \<and> stream_list s' = stream_list s \<and> stream_template s' = stream_template s"
proof -
  obtain s1 s2 s3 s4 s5 s6 rc ra li cc ca where
    1: "alloc_stream env s = (Some p, s1)" and 2: "alloc_cipher env (pol_rtp pol) s1 = (Inr rc, s2)" and 3: "alloc_auth env (pol_rtp pol) s2 = (Inr ra, s3)"
    and 4: "alloc_limit env s3 = (Some li, s4)" and 5: "alloc_cipher env (pol_rtcp pol) s4 = (Inr cc, s5)" and 6: "alloc_auth env (pol_rtcp pol) s5 = (Inr ca, s6)"
    and s': "s' = s6\<lparr>streams := (streams s6)(p := map_option
       (\<lambda>x. x\<lparr>rtp_cipher := rc, rtp_auth := ra, str_limit := li, rtcp_cipher := cc, rtcp_auth := ca\<rparr>) (streams s6 p))\<rparr>"
    using assms unfolding srtp_stream_alloc_def by (auto split: prod.splits option.splits sum.splits bind_splits)
  note 1 = alloc_stream_ok[OF 1] and 4 = alloc_limit_ok[OF 4]
  from alloc_object_shape(1)[OF 2] obtain c2 k2 where 2: "rc = brk s1" "s2 = s1\<lparr>kern := k2, brk := brk s1 + 1, ciphers := (ciphers s1)(brk s1 := Some c2)\<rparr>" by blast
  from alloc_object_shape(3)[OF 3] obtain a3 k3 where 3: "ra = brk s2" "s3 = s2\<lparr>kern := k3, brk := brk s2 + 1, auths := (auths s2)(brk s2 := Some a3)\<rparr>" by blast
  from alloc_object_shape(1)[OF 5] obtain c5 k5 where 5: "cc = brk s4" "s5 = s4\<lparr>kern := k5, brk := brk s4 + 1, ciphers := (ciphers s4)(brk s4 := Some c5)\<rparr>" by blast
  from alloc_object_shape(3)[OF 6] obtain a6 k6 where 6: "ca = brk s5" "s6 = s5\<lparr>kern := k6, brk := brk s5 + 1, auths := (auths s5)(brk s5 := Some a6)\<rparr>" by blast
  show ?thesis using 1 2 3 4 5 6 s' by (simp add: laid_def frame_def)
qed

text \<open>A failed allocation gives back whatever it had got.\<close>

lemma stream_alloc_clean:
  assumes "srtp_stream_alloc env pol s = Some (Inl st, s')" "fresh_from s (brk s)"
  shows "frame s {} s' \<and> stream_list s' = stream_list s \<and> stream_template s' = stream_template s"
proof -
  have f: "streams s a = None" "ciphers s a = None" "auths s a = None" "limits s a = None" if "brk s \<le> a" for a
    using assms(2) that by (simp_all add: fresh_from_def)
  note run = assms(1)[unfolded srtp_stream_alloc_def]
  note eval = frame_def fun_upd_def frees f Let_def
  obtain r1 s1 where 1: "alloc_stream env s = (r1, s1)" by force
  show ?thesis
  proof (cases r1)
    case None
    then have "s1 = s\<lparr>brk := brk s + 1\<rparr>" using 1 by (auto simp: alloc_stream_def crypto_alloc_def split: if_splits)
    then show ?thesis using run 1 None by (auto simp: frame_def)
  next
    case (Some p)
    note 1 = 1[unfolded Some]
    have p: "p = brk s" "s1 = s\<lparr>brk := brk s + 1, streams := (streams s)(p := Some (stream_mem env p))\<rparr>" using alloc_stream_ok[OF 1] by auto
    obtain r2 s2 where 2: "alloc_cipher env (pol_rtp pol) s1 = (r2, s2)" by force
    show ?thesis
    proof (cases r2)
      case (Inl st)
      obtain k where "s2 = s1\<lparr>kern := k, brk := brk s1 + 1\<rparr>" using alloc_object_shape(2)[OF 2[unfolded Inl]] by blast
      then show ?thesis using run 1 2 Inl p by (auto simp: eval)
    next
      case (Inr rc)
      note 2 = 2[unfolded Inr]
      obtain c2 k2 where s2: "rc = brk s1" "s2 = s1\<lparr>kern := k2, brk := brk s1 + 1, ciphers := (ciphers s1)(brk s1 := Some c2)\<rparr>"
        using alloc_object_shape(1)[OF 2] by blast
      obtain r3 s3 where 3: "alloc_auth env (pol_rtp pol) s2 = (r3, s3)" by force
      show ?thesis
      proof (cases r3)
        case (Inl st)
        obtain k where "s3 = s2\<lparr>kern := k, brk := brk s2 + 1\<rparr>" using alloc_object_shape(4)[OF 3[unfolded Inl]] by blast
        then show ?thesis using run 1 2 3 Inl p s2 by (auto simp: eval)
      next
        case (Inr ra)
        note 3 = 3[unfolded Inr]
        obtain a3 k3 where s3: "ra = brk s2" "s3 = s2\<lparr>kern := k3, brk := brk s2 + 1, auths := (auths s2)(brk s2 := Some a3)\<rparr>"
          using alloc_object_shape(3)[OF 3] by blast
        obtain r4 s4 where 4: "alloc_limit env s3 = (r4, s4)" by force
        show ?thesis
        proof (cases r4)
          case None
          then have "s4 = s3\<lparr>brk := brk s3 + 1\<rparr>" using 4 by (auto simp: alloc_limit_def crypto_alloc_def split: if_splits)
          then show ?thesis using run 1 2 3 4 None p s2 s3 by (auto simp: eval)
        next
          case (Some li)
          note 4 = 4[unfolded Some]
          have s4: "li = brk s3" "s4 = s3\<lparr>brk := brk s3 + 1, limits := (limits s3)(li := Some (limit_mem env li))\<rparr>" using alloc_limit_ok[OF 4] by auto
          obtain r5 s5 where 5: "alloc_cipher env (pol_rtcp pol) s4 = (r5, s5)" by force
          show ?thesis
          proof (cases r5)
            case (Inl st)
            obtain k where "s5 = s4\<lparr>kern := k, brk := brk s4 + 1\<rparr>" using alloc_object_shape(2)[OF 5[unfolded Inl]] by blast
            then show ?thesis using run 1 2 3 4 5 Inl p s2 s3 s4 by (auto simp: eval)
          next
            case (Inr cc)
            note 5 = 5[unfolded Inr]
            obtain c5 k5 where s5: "cc = brk s4" "s5 = s4\<lparr>kern := k5, brk := brk s4 + 1, ciphers := (ciphers s4)(brk s4 := Some c5)\<rparr>"
              using alloc_object_shape(1)[OF 5] by blast
            obtain s6 k st where "alloc_auth env (pol_rtcp pol) s5 = (Inl st, s6)" "s6 = s5\<lparr>kern := k, brk := brk s5 + 1\<rparr>"
              using run 1 2 3 4 5 alloc_object_shape(4)[of env "pol_rtcp pol" s5] by (auto split: sum.splits prod.splits)
            then show ?thesis using run 1 2 3 4 5 p s2 s3 s4 s5 by (auto simp: eval)
          qed
        qed
      qed
    qed
  qed
qed

text \<open>The initialization changes the stream and its objects, but not where they are.\<close>

definition places :: "addr \<Rightarrow> srtp_stream_ctx \<Rightarrow> bool" where
  "places a x \<longleftrightarrow> rtp_cipher x = a + 1 \<and> rtp_auth x = a + 2 \<and> str_limit x = a + 3 \<and> rtcp_cipher x = a + 4 \<and> rtcp_auth x = a + 5"

definition stays :: "srtp_state \<Rightarrow> addr \<Rightarrow> srtp_state \<Rightarrow> bool" where
  "stays s p s' \<longleftrightarrow> laid s' p \<and> frame s {p} s' \<and> brk s' = brk s \<and> stream_list s' = stream_list s \<and> stream_template s' = stream_template s"

lemma stays_upd:
  assumes "stays s p s1"
  shows "q = p + 1 \<or> q = p + 4 \<Longrightarrow> stays s p (set_cipher q c s1)" "q = p + 2 \<or> q = p + 5 \<Longrightarrow> stays s p (set_auth q a s1)"
    "q = p + 3 \<Longrightarrow> stays s p (set_limit q li s1)" "places p x \<Longrightarrow> stays s p (set_stream p x s1)"
  using assms by (auto simp: stays_def laid_def frame_def places_def)

text \<open>Every result of a computation has the property.\<close>

definition leads :: "('r \<Rightarrow> bool) \<Rightarrow> 'r option \<Rightarrow> bool" where
  "leads P m \<longleftrightarrow> (\<forall>r. m = Some r \<longrightarrow> P r)"

lemma leads_rules:
  "P r \<Longrightarrow> leads P (Some r)"
  "(\<And>v. leads P (f v)) \<Longrightarrow> leads P (Option.bind m f)"
  "leads P k \<Longrightarrow> leads P k' \<Longrightarrow> leads P (if b then k else k')"
  "(\<And>v w. leads P (g v w)) \<Longrightarrow> leads P (case z of (v, w) \<Rightarrow> g v w)"
  by (auto simp: leads_def bind_eq_Some_conv split: prod.splits)

lemma stream_init_shape:
  assumes "srtp_stream_init env p pol s = Some (status, s')" "laid s p"
  shows "stays s p s'"
proof -
  obtain x li where x: "streams s p = Some x" "places p x" "limits s (p + 3) = Some li" using assms(2) unfolding laid_def places_def by blast
  have s: "stays s p s" using assms(2) by (simp add: stays_def frame_def)
  have pl: "rtp_cipher x = p + 1" "rtp_auth x = p + 2" "str_limit x = p + 3" "rtcp_cipher x = p + 4" "rtcp_auth x = p + 5"
    using x(2) by (simp_all add: places_def)
  have "leads (\<lambda>r. stays s p (snd r)) (srtp_stream_init env p pol s)"
    unfolding srtp_stream_init_def x(1) Option.bind.simps pl Let_def
    by (intro leads_rules; unfold snd_conv; intro stays_upd s) (use pl in \<open>simp_all add: places_def\<close>)
  then show ?thesis using assms(1) by (simp add: leads_def)
qed

lemma add_stream_shape:
  assumes add: "srtp_add_stream env pol s = Some (err_status_ok, s')"
  shows "\<exists>p. p = brk s \<and> brk s' = p + 6 \<and> laid s' p \<and> frame s {p} s' \<and>
    (stream_list s' = Some p \<and> map_option str_next (streams s' p) = Some (stream_list s) \<and> stream_template s' = stream_template s \<or>
     stream_list s' = stream_list s \<and> stream_template s = None \<and> stream_template s' = Some p)"
proof -
  obtain key where key: "pol_key pol = Some key" using add by (cases "pol_key pol") (auto simp: srtp_add_stream_def)
  obtain p s1 where 1: "srtp_stream_alloc env pol s = Some (Inr p, s1)"
    using add key stream_alloc_fails[of env pol s] by (auto simp: srtp_add_stream_def split: bind_splits sum.splits)
  obtain s2 where 2: "srtp_stream_init env p pol s1 = Some (err_status_ok, s2)"
    using add key 1 by (auto simp: srtp_add_stream_def split: bind_splits if_splits)
  note A = stream_alloc_shape[OF 1]
  have B: "laid s2 p" "frame s {p} s2" "brk s2 = p + 6" "stream_list s2 = stream_list s" "stream_template s2 = stream_template s"
    using stream_init_shape[OF 2] A unfolding stays_def using frame_trans[of s "{p}" s1 "{p}" s2] by auto
  obtain x where x: "streams s2 p = Some x" using B(1) by (auto simp: laid_def)
  have kept: "laid s3 p \<and> frame s {p} s3" if "streams s3 = (streams s2)(p := Some y)" "places p y" "ciphers s3 = ciphers s2" "auths s3 = auths s2" "limits s3 = limits s2" for s3 y
    using that B(1,2) by (auto simp: laid_def frame_def places_def)
  have "places p x" using B(1) x by (auto simp: laid_def places_def)
  then have y: "places p (x\<lparr>str_next := n\<rparr>)" "places p (x\<lparr>str_direction := d\<rparr>)" for n d by (simp_all add: places_def)
  note add = add[unfolded srtp_add_stream_def key 1 option.simps Option.bind.simps prod.case sum.case 2 x]
  show ?thesis
  proof (cases "pol_ssrc_type pol = ssrc_specific")
    case True
    then have "s' = (set_stream p (x\<lparr>str_next := stream_list s2\<rparr>) s2)\<lparr>stream_list := Some p\<rparr>" using add by simp
    then show ?thesis using kept[OF _ y(1), of s' "stream_list s2"] A B by simp
  next
    case False
    then obtain d where "s' = (set_stream p (x\<lparr>str_direction := d\<rparr>) s2)\<lparr>stream_template := Some p\<rparr>" "stream_template s2 = None"
      using add by (auto split: ssrc_type.splits if_splits bind_splits)
    then show ?thesis using kept[OF _ y(2), of s' d] A B by simp
  qed
qed

definition session_inv :: "srtp_state \<Rightarrow> srtp_state \<Rightarrow> addr list \<Rightarrow> addr set \<Rightarrow> bool" where
  "session_inv s0 s as T \<longleftrightarrow> chain s (stream_list s) as \<and> distinct as \<and> frame s0 (set as \<union> T) s \<and>
     (\<forall>a \<in> set as \<union> T. laid s a \<and> brk s0 \<le> a \<and> a + 6 \<le> brk s) \<and> apart (set as \<union> T) \<and> set as \<inter> T = {} \<and> brk s0 \<le> brk s \<and>
     (stream_template s = None \<and> T = {} \<or> (\<exists>t. stream_template s = Some t \<and> T = {t}))"

lemma session_inv_fresh:
  assumes "session_inv s0 s as T" "fresh_from s0 (brk s0)"
  shows "fresh_from s (brk s)"
proof -
  have o: "a + 6 \<le> brk s" if "a \<in> set as \<union> T" for a using assms(1) that by (auto simp: session_inv_def)
  have out: "b \<notin> set as \<union> T" "\<forall>a \<in> set as \<union> T. b \<noteq> a + 1 \<and> b \<noteq> a + 4" "\<forall>a \<in> set as \<union> T. b \<noteq> a + 2 \<and> b \<noteq> a + 5"
    "\<forall>a \<in> set as \<union> T. b \<noteq> a + 3" if "brk s \<le> b" for b
    using o that by fastforce+
  have "frame s0 (set as \<union> T) s" "brk s0 \<le> brk s" using assms(1) by (simp_all add: session_inv_def)
  then show ?thesis using out assms(2) by (simp add: frame_def fresh_from_def)
qed

lemma dealloc_frees_session: "srtp_dealloc s = Some (err_status_ok, s') \<Longrightarrow> \<not> session_live s'"
  by (auto simp: srtp_dealloc_def split: bind_splits if_splits option.splits)

lemma session_inv_released:
  assumes "session_inv s0 s as T" "fresh_from s0 (brk s0)" "frame s {} s'" "stream_list s' = stream_list s" "stream_template s' = stream_template s"
  shows "\<exists>s''. srtp_dealloc s' = Some (err_status_ok, s'') \<and> frame s0 {} s''"
proof (rule srtp_dealloc_frame)
  have same: "streams s' = streams s" "ciphers s' = ciphers s" "auths s' = auths s" "limits s' = limits s" using assms(3) by (auto simp: frame_def)
  show "chain s' (stream_list s') as" by (rule chain_cong[of s]) (use assms(1,4) in \<open>auto simp: session_inv_def same\<close>)
  show "frame s0 (set as \<union> T) s'" using assms(1) by (simp add: session_inv_def frame_def same)
  have "laid s' a = laid s a" for a by (simp add: laid_def same)
  moreover have "fresh_from s0 a" if "brk s0 \<le> a" for a using assms(2) that by (auto simp: fresh_from_def)
  ultimately show "\<forall>a \<in> set as \<union> T. laid s' a \<and> fresh_from s0 a" using assms(1) by (simp add: session_inv_def)
qed (use assms(1,5) in \<open>auto simp: session_inv_def\<close>)

lemma session_inv_add:
  assumes inv: "session_inv s0 s as T" and add: "srtp_add_stream env pol s = Some (err_status_ok, s')"
  shows "\<exists>as' T'. session_inv s0 s' as' T'"
proof -
  obtain p where p: "p = brk s" "brk s' = p + 6" "laid s' p" "frame s {p} s'" and
    link: "stream_list s' = Some p \<and> map_option str_next (streams s' p) = Some (stream_list s) \<and> stream_template s' = stream_template s \<or>
     stream_list s' = stream_list s \<and> stream_template s = None \<and> stream_template s' = Some p"
    using add_stream_shape[OF add] by blast
  have I: "chain s (stream_list s) as" "distinct as" "frame s0 (set as \<union> T) s" "apart (set as \<union> T)" "set as \<inter> T = {}" "brk s0 \<le> brk s"
    "stream_template s = None \<and> T = {} \<or> (\<exists>t. stream_template s = Some t \<and> T = {t})"
    and old: "\<And>a. a \<in> set as \<union> T \<Longrightarrow> laid s a \<and> brk s0 \<le> a \<and> a + 6 \<le> p"
    using inv p(1) by (auto simp: session_inv_def)
  have new: "laid s' a \<and> streams s' a = streams s a \<and> a \<noteq> p \<and> brk s0 \<le> a \<and> a + 6 \<le> brk s'" if "a \<in> set as \<union> T" for a
    using frame_laid[OF p(4), of a] old[OF that] p(2) by auto
  have ch: "chain s' (stream_list s) as" by (rule chain_cong[OF I(1)]) (use new in auto)
  have fr: "frame s0 (insert p (set as \<union> T)) s'" using frame_trans[OF I(3) p(4)] by (simp add: Un_commute)
  have ap: "apart (insert p (set as \<union> T))" using I(4) old by (auto simp: apart_def)
  from link show ?thesis
  proof
    assume "stream_list s' = Some p \<and> map_option str_next (streams s' p) = Some (stream_list s) \<and> stream_template s' = stream_template s"
    then have "session_inv s0 s' (p # as) T" unfolding session_inv_def using ch fr ap new I p by auto
    then show ?thesis by blast
  next
    assume l: "stream_list s' = stream_list s \<and> stream_template s = None \<and> stream_template s' = Some p"
    then have "T = {}" using I(7) by auto
    then have "session_inv s0 s' as {p}" unfolding session_inv_def using ch fr ap new I p l by auto
    then show ?thesis by blast
  qed
qed

lemma add_stream_out_of_memory:
  assumes "srtp_add_stream env pol s = Some (err_status_alloc_fail, s')" "fresh_from s (brk s)"
  shows "frame s {} s' \<and> stream_list s' = stream_list s \<and> stream_template s' = stream_template s"
proof -
  have "leads (\<lambda>r. fst r \<noteq> err_status_alloc_fail) (srtp_stream_init env p pol s1)" for p s1
    unfolding srtp_stream_init_def Let_def by (intro leads_rules) simp_all
  then have i: "srtp_stream_init env p pol s1 \<noteq> Some (err_status_alloc_fail, s2)" for p s1 s2
    by (force simp: leads_def)
  obtain key where key: "pol_key pol = Some key" using assms(1) by (cases "pol_key pol") (auto simp: srtp_add_stream_def)
  obtain r s1 where r: "srtp_stream_alloc env pol s = Some (r, s1)"
    using assms(1) key by (cases "srtp_stream_alloc env pol s") (auto simp: srtp_add_stream_def)
  have "r \<noteq> Inr p" for p
  proof
    assume "r = Inr p"
    then obtain st s2 where 2: "srtp_stream_init env p pol s1 = Some (st, s2)"
      using assms(1) key r by (cases "srtp_stream_init env p pol s1") (auto simp: srtp_add_stream_def)
    then have "st \<noteq> err_status_alloc_fail" using i by blast
    then show False using assms(1) key r 2 \<open>r = Inr p\<close>
      by (auto simp: srtp_add_stream_def split: if_splits bind_splits ssrc_type.splits)
  qed
  then obtain st where "srtp_stream_alloc env pol s = Some (Inl st, s')"
    using assms(1) key r by (cases r) (auto simp: srtp_add_stream_def)
  then show ?thesis using stream_alloc_clean assms(2) by blast
qed

lemma add_streams_released:
  assumes "add_streams env pols s = Some (status, s')" "session_inv s0 s as T" "fresh_from s0 (brk s0)"
  shows "status = err_status_ok \<Longrightarrow> \<exists>as T. session_inv s0 s' as T" "status = err_status_alloc_fail \<Longrightarrow> frame s0 {} s' \<and> \<not> session_live s'"
proof -
  have "(status = err_status_ok \<longrightarrow> (\<exists>as T. session_inv s0 s' as T)) \<and> (status = err_status_alloc_fail \<longrightarrow> frame s0 {} s' \<and> \<not> session_live s')"
    using assms(1,2)
  proof (induction pols arbitrary: s as T)
    case (Cons pol pols)
    obtain st s1 where 1: "srtp_add_stream env pol s = Some (st, s1)" using Cons.prems(1) by (auto split: bind_splits)
    show ?case
    proof (cases "st = err_status_ok")
      case True
      then obtain as' T' where inv: "session_inv s0 s1 as' T'" using session_inv_add[OF Cons.prems(2)] 1 by blast
      have "add_streams env pols s1 = Some (status, s')" using Cons.prems(1) 1 True by simp
      from Cons.IH[OF this inv] show ?thesis .
    next
      case False
      then have s': "status = st" "\<exists>st2. srtp_dealloc s1 = Some (st2, s')" using Cons.prems(1) 1 by (auto split: bind_splits)
      have "frame s0 {} s' \<and> \<not> session_live s'" if "st = err_status_alloc_fail"
      proof -
        note m = add_stream_out_of_memory[OF 1[unfolded that] session_inv_fresh[OF Cons.prems(2) assms(3)]]
        obtain s'' where "srtp_dealloc s1 = Some (err_status_ok, s'')" "frame s0 {} s''"
          using session_inv_released[OF Cons.prems(2) assms(3) m[THEN conjunct1]] m by blast
        then show ?thesis using s'(2) dealloc_frees_session by auto
      qed
      then show ?thesis using s'(1) False by simp
    qed
  next
    case Nil
    have "status = err_status_ok" "s' = s" using Nil(1) by simp_all
    then show ?case using Nil(2) by (intro conjI impI) (rule exI, rule exI, assumption | simp)+
  qed
  then show "status = err_status_ok \<Longrightarrow> \<exists>as T. session_inv s0 s' as T" "status = err_status_alloc_fail \<Longrightarrow> frame s0 {} s' \<and> \<not> session_live s'" by blast+
qed

text \<open>C11. A session gives back all the memory it takes. Whatever the policies are, specific or for any source, when its creation
  has succeeded its release succeeds too, without releasing anything twice, and afterwards exactly the objects are
  allocated that were allocated before its creation, the session context included; and when its creation fails because
  some allocation fails, nothing of it stays allocated, the context included.\<close>

theorem srtp_session_released:
  assumes "srtp_create env pols s0 = Some (status, s)" "fresh_from s0 (brk s0)" "\<not> session_live s0" "status = err_status_ok \<or> status = err_status_alloc_fail"
  shows "\<exists>s'. (if status = err_status_ok then srtp_dealloc s = Some (err_status_ok, s') else s' = s) \<and>
    streams s' = streams s0 \<and> ciphers s' = ciphers s0 \<and> auths s' = auths s0 \<and> limits s' = limits s0 \<and> \<not> session_live s'"
proof -
  have heap: "frame s0 {} s' \<Longrightarrow> streams s' = streams s0 \<and> ciphers s' = ciphers s0 \<and> auths s' = auths s0 \<and> limits s' = limits s0" for s'
    by (auto simp: frame_def)
  let ?s1 = "s0\<lparr>brk := brk s0 + 1, stream_template := None, stream_list := None, session_live := True\<rparr>"
  show ?thesis
  proof (cases "env_mem env (brk s0)")
    case False
    then have "status = err_status_alloc_fail" "s = s0\<lparr>brk := brk s0 + 1\<rparr>" using assms(1) by (auto simp: srtp_create_def crypto_alloc_def)
    then show ?thesis using assms(3) by simp
  next
    case True
    then have add: "add_streams env pols ?s1 = Some (status, s)" using assms(1) by (simp add: srtp_create_def crypto_alloc_def)
    have "session_inv s0 ?s1 [] {}" by (simp add: session_inv_def frame_def apart_def)
    note A = add_streams_released[OF add this assms(2)]
    show ?thesis
    proof (cases "status = err_status_ok")
      case True
      then obtain as T where inv: "session_inv s0 s as T" using A(1) by blast
      have "frame s {} s" by (simp add: frame_def)
      from session_inv_released[OF inv assms(2) this refl refl]
      obtain s' where "srtp_dealloc s = Some (err_status_ok, s')" "frame s0 {} s'" by blast
      then show ?thesis using heap[of s'] dealloc_frees_session[of s s'] True by simp
    next
      case False
      then have "frame s0 {} s" "\<not> session_live s" using A(2) assms(4) by simp_all
      then show ?thesis using heap[of s] False by simp
    qed
  qed
qed

theorem srtp_session_released_witness:
  "\<exists>s s'. srtp_create blank_env [default_policy] empty_state = Some (err_status_ok, s) \<and> srtp_dealloc s = Some (err_status_ok, s') \<and>
     ciphers s' = ciphers empty_state \<and> streams s' = streams empty_state \<and> \<not> session_live s'"
proof -
  obtain s where s: "srtp_create blank_env [default_policy] empty_state = Some (err_status_ok, s)" using default_session by blast
  have "fresh_from empty_state (brk empty_state)" "\<not> session_live empty_state" by (simp_all add: fresh_from_def empty_state_def)
  from srtp_session_released[OF s this] s show ?thesis by auto
qed

text \<open>The only stream of the default session.\<close>

lemma default_chain:
  assumes "srtp_create blank_env [default_policy] empty_state = Some (err_status_ok, s)"
  obtains p where "stream_list s = Some p" "chain s (Some p) [p]" "laid s p" "ssrc_of s p = htonl 0" "stream_template s = None"
proof -
  let ?s1 = "empty_state\<lparr>brk := brk empty_state + 1, stream_template := None, stream_list := None, session_live := True\<rparr>"
  have add: "srtp_add_stream blank_env default_policy ?s1 = Some (err_status_ok, s)"
    using assms by (auto simp: srtp_create_def crypto_alloc_def split: if_splits bind_splits)
  obtain p x where p: "stream_ready default_policy (replicate 32 0) (kern empty_state) s p x" "stream_list s = Some p" "str_next x = None" "stream_template s = None"
    using add_stream_ok[OF add default_policy_usable(3,4) blank_env_wf(1)] default_policy_usable(1,2) by (auto simp: policy_usable_def)
  have x: "streams s p = Some x" "str_ssrc x = htonl 0" using p(1) default_policy_usable(5) by (simp_all add: stream_ready_def stream_keyed_def)
  have "laid s p" using add_stream_shape[OF add] p(2,4) by auto
  then show thesis using that[of p] p(2-4) x by simp
qed

theorem srtp_remove_stream_list_witness:
  "\<exists>s s'. srtp_create blank_env [default_policy] empty_state = Some (err_status_ok, s) \<and>
     srtp_remove_stream (htonl 0) s = Some (err_status_ok, s') \<and> srtp_get_stream s' 7 = None"
proof -
  obtain s where s: "srtp_create blank_env [default_policy] empty_state = Some (err_status_ok, s)" using default_session by blast
  obtain p where p: "stream_list s = Some p" "chain s (Some p) [p]" "laid s p" "ssrc_of s p = htonl 0" "stream_template s = None"
    by (rule default_chain[OF s])
  obtain x where x: "streams s p = Some x" using p(2) by auto
  have f: "srtp_get_stream s (htonl 0) = Some (Some p)" using get_stream_chain[of s "[p]"] p by simp
  have "laid (set_stream p (x\<lparr>str_next := None\<rparr>) s) p" using p(3) x by (simp add: laid_def)
  then obtain s' where "srtp_stream_dealloc p (set_stream p (x\<lparr>str_next := None\<rparr>) s) = Some (err_status_ok, s')"
    using stream_dealloc_without[of "set_stream p (x\<lparr>str_next := None\<rparr>) s" p] p(5) by auto
  then have r: "srtp_remove_stream (htonl 0) s = Some (err_status_ok, s')"
    using find_last_chain[of s "Some p" "[]" p "[]" "htonl 0" "Some p"] p x by (simp add: srtp_remove_stream_def)
  have "srtp_get_stream s' 7 = None"
    using srtp_remove_stream_list[of s "[p]" "htonl 0" "Some p" err_status_ok s' 7] p f r by simp
  then show ?thesis using s r by blast
qed

end
