(* ===== verification/Srtp_Stat.thy ===== *)
theory Srtp_Stat
  imports Complex_Main Srtp_Err Srtp_Datatypes
begin

text \<open>
  The statistical tests of random number generators in libSRTP, \<open>crypto/math/stat.c\<close>: the monobit test, the poker test and
  the test of runs of FIPS 140-2 on 20000 bits, for data in memory and for a source that is read in pieces, and the
  repetition of the test. A source is a function on a state of its own, which fills a buffer of a given length.
\<close>

section \<open>The tests\<close>

definition RAND_SRC_BUF_OCTETS :: nat where "RAND_SRC_BUF_OCTETS = 50"


text \<open>The frequencies of the nibbles.\<close>

definition poker_octet :: "u16 list \<Rightarrow> u8 \<Rightarrow> u16 list" where
  "poker_octet f x =
    (let i = unat (x AND 0x0f); f = f[i := f ! i + 1]; j = unat (drop_bit 4 x) in f[j := f ! j + 1])"

text \<open>Numbers of type \<open>double\<close> as quotients: rounding to 53 significant bits for quotients from 1 to \<open>2 ^ 53\<close>, and the
  constants \<open>16.0 / 5000.0\<close>, \<open>2.16\<close> and \<open>46.17\<close>.\<close>

definition to_double :: "nat \<times> nat \<Rightarrow> nat \<times> nat" where
  "to_double x = (let sh = 53 - binary_digits (fst x div snd x) in (round_even (fst x * 2 ^ sh) (snd x), 2 ^ sh))"

definition poker_scale :: "nat \<times> nat" where "poker_scale = (round_even (16 * 2 ^ 61) 5000, 2 ^ 61)"
definition poker_low :: "nat \<times> nat" where "poker_low = (round_even (216 * 2 ^ 51) 100, 2 ^ 51)"
definition poker_high :: "nat \<times> nat" where "poker_high = (round_even (4617 * 2 ^ 47) 100, 2 ^ 47)"

text \<open>The sum of the squares is below \<open>2 ^ 53\<close> and so exact. The product has an integer part, and the subtraction of 5000
  is exact for products of at least 2500 and negative below. The result is whether the value lies outside the bounds.\<close>

definition poker_fails :: "u16 list \<Rightarrow> bool" where
  "poker_fails f =
    (let poker = sum_list (map (\<lambda>c. unat c * unat c) f);
         (a, b) = to_double (poker * fst poker_scale, snd poker_scale);
         d = int a - 5000 * int b
     in d * int (snd poker_low) < int (fst poker_low) * int b \<or> d * int (snd poker_high) > int (fst poker_high) * int b)"


text \<open>The test of runs. \<open>rs_state\<close> is the number of bits in the current run, negative in a run of zeros (a gap).\<close>

record run_counts =
  rs_runs :: "u16 list"
  rs_gaps :: "u16 list"
  rs_state :: int

definition runs_start :: run_counts where
  "runs_start = \<lparr>rs_runs = replicate 6 0, rs_gaps = replicate 6 0, rs_state = 0\<rparr>"

definition runs_bit :: "bool \<Rightarrow> run_counts \<Rightarrow> err_status + run_counts" where
  "runs_bit b r =
    (let state = rs_state r in
     if b then
       if state > 0 then
         let state = state + 1 in if state > 25 then Inl err_status_algo_fail else Inr (r\<lparr>rs_state := state\<rparr>)
       else if state < 0 then
         if state < -25 then Inl err_status_algo_fail
         else let state = (if state < -6 then -6 else state); i = nat (-1 - state) in
           Inr (r\<lparr>rs_gaps := (rs_gaps r)[i := rs_gaps r ! i + 1], rs_state := 1\<rparr>)
       else Inr (r\<lparr>rs_state := 1\<rparr>)
     else
       if state > 0 then
         if state > 25 then Inl err_status_algo_fail
         else let state = (if state > 6 then 6 else state); i = nat (state - 1) in
           Inr (r\<lparr>rs_runs := (rs_runs r)[i := rs_runs r ! i + 1], rs_state := -1\<rparr>)
       else if state < 0 then
         let state = state - 1 in if state < -25 then Inl err_status_algo_fail else Inr (r\<lparr>rs_state := state\<rparr>)
       else Inr (r\<lparr>rs_state := -1\<rparr>))"

fun runs_bits :: "bool list \<Rightarrow> run_counts \<Rightarrow> err_status + run_counts" where
  "runs_bits [] r = Inr r"
| "runs_bits (b # bs) r = (case runs_bit b r of Inl e \<Rightarrow> Inl e | Inr r \<Rightarrow> runs_bits bs r)"

text \<open>The bits of an octet from the least significant one on.\<close>

definition octet_bits :: "u8 \<Rightarrow> bool list" where
  "octet_bits x = map (bit x) [0..<8]"


definition lo_value :: "nat list" where "lo_value = [2315, 1114, 527, 240, 103, 103]"
definition hi_value :: "nat list" where "hi_value = [2685, 1386, 723, 384, 209, 209]"

definition runs_fail :: "run_counts \<Rightarrow> bool" where
  "runs_fail r \<longleftrightarrow> list_ex (\<lambda>i. unat (rs_runs r ! i) < lo_value ! i \<or> hi_value ! i < unat (rs_runs r ! i)
     \<or> unat (rs_gaps r ! i) < lo_value ! i \<or> hi_value ! i < unat (rs_gaps r ! i)) [0..<6]"


section \<open>The test of a source\<close>

type_synonym 'r rand_source = "'r \<Rightarrow> nat \<Rightarrow> err_status \<times> u8 list \<times> 'r"

record stat_counts =
  st_ones :: int
  st_f :: "u16 list"
  st_runs :: run_counts

text \<open>One buffer of data: all the counters are updated octet by octet.\<close>

fun stat_octets :: "u8 list \<Rightarrow> stat_counts \<Rightarrow> err_status + stat_counts" where
  "stat_octets [] c = Inr c"
| "stat_octets (x # xs) c =
    (case runs_bits (octet_bits x) (st_runs c) of Inl e \<Rightarrow> Inl e
     | Inr r \<Rightarrow> stat_octets xs \<lparr>st_ones = st_ones c + int (octet_get_weight x), st_f = poker_octet (st_f c) x, st_runs = r\<rparr>)"

text \<open>The main loop; \<open>n\<close> is the number of buffers still to read.\<close>

fun stat_loop :: "'r rand_source \<Rightarrow> nat \<Rightarrow> 'r \<Rightarrow> stat_counts \<Rightarrow> (err_status + stat_counts) \<times> 'r" where
  "stat_loop src 0 r c = (Inr c, r)"
| "stat_loop src (Suc n) r c =
    (let (status, buffer, r) = src r RAND_SRC_BUF_OCTETS in
     if status \<noteq> err_status_ok then (Inl status, r)
     else case stat_octets buffer c of Inl e \<Rightarrow> (Inl e, r) | Inr c \<Rightarrow> stat_loop src n r c)"

definition stat_test_rand_source :: "'r rand_source \<Rightarrow> 'r \<Rightarrow> err_status \<times> 'r" where
  "stat_test_rand_source src r =
    (let (res, r) = stat_loop src (2500 div RAND_SRC_BUF_OCTETS) r \<lparr>st_ones = 0, st_f = replicate 16 0, st_runs = runs_start\<rparr> in
     (case res of Inl e \<Rightarrow> e
      | Inr c \<Rightarrow>
          if st_ones c < 9725 \<or> st_ones c > 10275 then err_status_algo_fail
          else if poker_fails (st_f c) then err_status_algo_fail
          else if runs_fail (st_runs c) then err_status_algo_fail
          else err_status_ok, r))"

fun stat_trials :: "nat \<Rightarrow> 'r rand_source \<Rightarrow> err_status \<Rightarrow> 'r \<Rightarrow> err_status \<times> 'r" where
  "stat_trials 0 src err r = (err, r)"
| "stat_trials (Suc n) src err r =
    (let (err, r) = stat_test_rand_source src r in if err = err_status_ok then (err_status_ok, r) else stat_trials n src err r)"

definition stat_test_rand_source_with_repetition :: "'r rand_source \<Rightarrow> nat \<Rightarrow> 'r \<Rightarrow> err_status \<times> 'r" where
  "stat_test_rand_source_with_repetition src num_trials r = stat_trials num_trials src err_status_algo_fail r"

section \<open>What the tests decide\<close>









subsection \<open>Monobit\<close>








subsection \<open>Poker\<close>

definition bump :: "u16 list \<Rightarrow> nat \<Rightarrow> u16 list" where
  "bump f i = f[i := f ! i + 1]"

lemma length_bump [simp]: "length (bump f i) = length f"
  by (simp add: bump_def)









subsection \<open>Runs\<close>















section \<open>A source that is read in pieces\<close>







end
