(* ===== verification/Srtp_Random.thy ===== *)
theory Srtp_Random
  imports Srtp_Stat Srtp_Cipher
begin

text \<open>
  The random number generators of libSRTP: the random device of the operating system (\<open>crypto/rng/rand_source.c\<close>), the
  generator in counter mode that the crypto kernel uses (\<open>crypto/rng/ctr_prng.c\<close>) and the older X9.17 generator
  (\<open>crypto/rng/prng.c\<close>). The global structure of each is a record that its operations return updated; the field with
  the random source is the function pointer of the code. The system calls and the time are parameters. Memory is
  the list of the octets from the pointer on, and \<^const>\<open>None\<close> is an access outside of it.
\<close>

section \<open>The random device\<close>

text \<open>\<open>open\<close> and \<open>read\<close>, on a state of the system: the descriptor, and the returned count with the octets written.\<close>

record 'r rand_system =
  sys_open :: "'r \<Rightarrow> int \<times> 'r"
  sys_read :: "int \<Rightarrow> nat \<Rightarrow> 'r \<Rightarrow> int \<times> u8 list \<times> 'r"
  sys_close :: "int \<Rightarrow> 'r \<Rightarrow> 'r"

definition dev_random_closed :: int where "dev_random_closed = -1"

definition rand_source_init :: "'r rand_system \<Rightarrow> int \<Rightarrow> 'r \<Rightarrow> err_status \<times> int \<times> 'r" where
  "rand_source_init sys dev_random_fdes r =
    (if dev_random_fdes \<ge> 0 then (err_status_ok, dev_random_fdes, r)
     else let (dev_random_fdes, r) = sys_open sys r
       in if dev_random_fdes < 0 then (err_status_init_fail, dev_random_fdes, r)
          else (err_status_ok, dev_random_fdes, r))"

definition rand_source_get_octet_string :: "'r rand_system \<Rightarrow> int \<Rightarrow> u8 list \<Rightarrow> u32 \<Rightarrow> 'r \<Rightarrow> (err_status \<times> u8 list \<times> 'r) option" where
  "rand_source_get_octet_string sys dev_random_fdes dest len r = do {
     let (n, octets, r) = sys_read sys dev_random_fdes (unat len) r;
     dest \<leftarrow> (if length octets \<le> length dest then Some (octets @ drop (length octets) dest) else None);
     Some (if n \<noteq> int (unat len) then err_status_fail else err_status_ok, dest, r) }"

definition rand_source_deinit :: "'r rand_system \<Rightarrow> int \<Rightarrow> 'r \<Rightarrow> err_status \<times> int \<times> 'r" where
  "rand_source_deinit sys dev_random_fdes r =
    (if dev_random_fdes < 0 then (err_status_dealloc_fail, dev_random_fdes, r)
     else (err_status_ok, dev_random_closed, sys_close sys dev_random_fdes r))"

text \<open>The variant without a random device, which takes the low octet of each value of the C library's \<open>rand\<close>.\<close>

fun rand_octets :: "('r \<Rightarrow> int \<times> 'r) \<Rightarrow> nat \<Rightarrow> 'r \<Rightarrow> u8 list \<times> 'r" where
  "rand_octets rand 0 r = ([], r)"
| "rand_octets rand (Suc len) r =
    (let (val, r) = rand r; (rest, r) = rand_octets rand len r
     in (of_int (val mod 256) # rest, r))"

section \<open>The generator in counter mode\<close>

definition MAX_PRNG_OUT_LEN :: u32 where "MAX_PRNG_OUT_LEN = 0xffffffff"

record 'r ctr_prng =
  ctr_octet_count :: u32
  ctr_state :: aes_icm_ctx
  ctr_rand :: "'r rand_source"

definition ctr_prng_init :: "'r ctr_prng \<Rightarrow> 'r rand_source \<Rightarrow> 'r \<Rightarrow> (err_status \<times> 'r ctr_prng \<times> 'r) option" where
  "ctr_prng_init p random_source r = do {
     let p = p\<lparr>ctr_octet_count := 0, ctr_rand := random_source\<rparr>;
     let (status, tmp_key, r) = random_source r 32;
     if status \<noteq> err_status_ok then Some (status, p, r)
     else do {
       (status, c) \<leftarrow> aes_icm_context_init (ctr_state p) tmp_key;
       Some (status, p\<lparr>ctr_state := c\<rparr>, r) } }"

text \<open>\<open>aes_icm_output\<close> takes the length as an \<open>int\<close>; a length that is negative there is outside of this model.\<close>

definition ctr_prng_get_octet_string :: "'r ctr_prng \<Rightarrow> u8 list \<Rightarrow> u32 \<Rightarrow> 'r \<Rightarrow> (err_status \<times> u8 list \<times> 'r ctr_prng \<times> 'r) option" where
  "ctr_prng_get_octet_string p dest len r = do {
     (status, p, r) \<leftarrow> (if ctr_octet_count p > MAX_PRNG_OUT_LEN - len then ctr_prng_init p (ctr_rand p) r
                        else Some (err_status_ok, p, r));
     if status \<noteq> err_status_ok then Some (status, dest, p, r)
     else do {
       let p = p\<lparr>ctr_octet_count := ctr_octet_count p + len\<rparr>;
       (status, c, dest) \<leftarrow> (if unat len < 2 ^ 31 then aes_icm_output (ctr_state p) dest (unat len) else None);
       Some (status, dest, p\<lparr>ctr_state := c\<rparr>, r) } }"

definition ctr_prng_deinit :: err_status where
  "ctr_prng_deinit = err_status_ok"

section \<open>The X9.17 generator\<close>

record 'r x917_prng =
  x917_state :: block
  x917_key :: "block list"
  x917_octet_count :: u32
  x917_rand :: "'r rand_source"

definition x917_prng_init :: "'r x917_prng \<Rightarrow> 'r rand_source \<Rightarrow> 'r \<Rightarrow> err_status \<times> 'r x917_prng \<times> 'r" where
  "x917_prng_init p random_source r =
    (let p = p\<lparr>x917_octet_count := 0, x917_rand := random_source\<rparr>;
         (status, tmp_key, r) = random_source r 16
     in if status \<noteq> err_status_ok then (status, p, r)
        else let p = p\<lparr>x917_key := aes_expand_encryption_key tmp_key\<rparr>;
                 (status, state, r) = x917_rand p r 16
          in (status, p\<lparr>x917_state := state\<rparr>, r))"

definition xor_time :: "u32 \<Rightarrow> block \<Rightarrow> block" where
  "xor_time t b = map2 (XOR) (take 4 b) (le32 t) @ drop 4 b"

text \<open>One step: the block of output and the new state.\<close>

definition x917_step :: "u32 \<Rightarrow> block list \<Rightarrow> block \<Rightarrow> block \<times> block" where
  "x917_step t key state =
    (let state = xor_time t state; buffer = aes_encrypt state key
     in (buffer, aes_encrypt (xor_time t buffer) key))"

fun x917_blocks :: "nat \<Rightarrow> u32 \<Rightarrow> block list \<Rightarrow> block \<Rightarrow> u8 list \<times> block" where
  "x917_blocks 0 t key state = ([], state)"
| "x917_blocks (Suc n) t key state =
    (let (buffer, state) = x917_step t key state; (rest, state) = x917_blocks n t key state
     in (buffer @ rest, state))"

definition x917_output :: "nat \<Rightarrow> u32 \<Rightarrow> block list \<Rightarrow> block \<Rightarrow> u8 list \<times> block" where
  "x917_output len t key state =
    (let (out, state) = x917_blocks (len div 16) t key state; tail_len = len mod 16
     in if tail_len \<noteq> 0
        then let (buffer, state) = x917_step t key state in (out @ take tail_len buffer, state)
        else (out, state))"

definition x917_prng_get_octet_string :: "'r x917_prng \<Rightarrow> u8 list \<Rightarrow> u32 \<Rightarrow> u32 \<Rightarrow> 'r \<Rightarrow> (err_status \<times> u8 list \<times> 'r x917_prng \<times> 'r) option" where
  "x917_prng_get_octet_string p dest len t r =
    (let (status, p, r) = (if x917_octet_count p > MAX_PRNG_OUT_LEN - len then x917_prng_init p (x917_rand p) r
                           else (err_status_ok, p, r))
     in if status \<noteq> err_status_ok then Some (status, dest, p, r)
        else if unat len > length dest then None
        else let p = p\<lparr>x917_octet_count := x917_octet_count p + len\<rparr>;
                 (out, state) = x917_output (unat len) t (x917_key p) (x917_state p)
          in Some (err_status_ok, out @ drop (unat len) dest, p\<lparr>x917_state := state\<rparr>, r))"

definition x917_prng_deinit :: err_status where
  "x917_prng_deinit = err_status_ok"

section \<open>The counter blocks\<close>

text \<open>The counter block number \<open>k\<close> of a key and salt, and the keystream that it stands for.\<close>

definition ctr_block :: "u8 list \<Rightarrow> nat \<Rightarrow> block" where
  "ctr_block key k = take 14 (drop 16 key) @ [of_nat (k div 256), of_nat k]"

definition ctr_keystream :: "u8 list \<Rightarrow> nat \<Rightarrow> u8" where
  "ctr_keystream key i = aes_encrypt (ctr_block key (i div 16)) (aes_expand_encryption_key (take 16 key)) ! (i mod 16)"

lemma ctr_block_Suc: "icm_clock False (ctr_block key k) = ctr_block key (Suc k)" if "30 \<le> length key"
proof -
  have z: "(of_nat k + 1 :: u8) = 0 \<longleftrightarrow> 256 dvd Suc k"
    unfolding of_nat_Suc[symmetric] add.commute[of _ 1] word_of_nat_eq_0_iff by simp
  have l: "length (take 14 (drop 16 key)) = 14" using that by simp
  show ?thesis
  proof (cases "256 dvd Suc k")
    case True
    then have "Suc k div 256 = Suc (k div 256)" by (simp add: div_Suc dvd_eq_mod_eq_0)
    then show ?thesis using True z l by (simp add: icm_clock_def ctr_block_def nth_append list_update_append add.commute)
  next
    case False
    then have "Suc k div 256 = k div 256" by (simp add: div_Suc dvd_eq_mod_eq_0)
    then show ?thesis using False z l by (simp add: icm_clock_def ctr_block_def nth_append list_update_append add.commute)
  qed
qed

lemma ctr_block_power: "30 \<le> length key \<Longrightarrow> (icm_clock False ^^ j) (ctr_block key k) = ctr_block key (j + k)"
  by (induction j) (simp_all add: ctr_block_Suc)

lemma le16_of_nat: "le16 (of_nat k) = [of_nat k, of_nat (k div 256)]"
proof -
  have "k div 256 = drop_bit 8 k" by (simp add: drop_bit_eq_div)
  then show ?thesis by (auto simp: le16_def bit_simps intro!: bit_word_eqI)
qed

lemma ctr_block_number:
  assumes "30 \<le> length key" "k \<le> 0xffff"
  shows "unat (htons (of_le16 (drop 14 (ctr_block key k)))) = k"
proof -
  have "drop 14 (ctr_block key k) = rev (le16 (of_nat k))" using assms by (simp add: ctr_block_def le16_of_nat)
  moreover have "htons (of_le16 (rev (le16 (of_nat k)))) = of_nat k" by (simp add: htons_def)
  ultimately show ?thesis using assms(2) by (simp add: unat_of_nat)
qed

section \<open>Progress of a context\<close>

lemma icm_blocks_counter:
  "icm_counter (fst (icm_blocks k c ism buf)) = (icm_clock ism ^^ k) (icm_counter c)"
  by (induction k arbitrary: c buf) (simp_all add: case_prod_beta Let_def aes_icm_advance_ismacryp_def funpow_swap1)

lemma icm_encrypt_progress:
  assumes "aes_icm_encrypt c buf = (err_status_ok, c', out)" "icm_bytes_in_buffer c < 16"
  defines "k \<equiv> (length buf + 15 - icm_bytes_in_buffer c) div 16"
  shows "icm_counter c' = (icm_clock False ^^ k) (icm_counter c) \<and> icm_bytes_in_buffer c' < 16
    \<and> length buf + icm_bytes_in_buffer c' = icm_bytes_in_buffer c + 16 * k"
proof (cases "length buf \<le> icm_bytes_in_buffer c")
  case True
  then have "k = 0" using assms(2) by (simp add: k_def)
  moreover have "c' = c\<lparr>icm_bytes_in_buffer := icm_bytes_in_buffer c - length buf\<rparr>"
    using assms(1) True by (auto simp: aes_icm_encrypt_def aes_icm_encrypt_ismacryp_def Let_def split: if_splits)
  ultimately show ?thesis using True assms(2) by simp
next
  case False
  define n where "n = icm_bytes_in_buffer c"
  define m where "m = length buf - n"
  define d where "d = fst (icm_blocks (m div 16) (c\<lparr>icm_bytes_in_buffer := 0\<rparr>) False (drop n buf))"
  define rest where "rest = drop (16 * (m div 16)) (drop n buf)"
  have c': "c' = fst (icm_tail d False rest)"
    using assms(1) False by (auto simp: aes_icm_encrypt_def aes_icm_encrypt_ismacryp_def Let_def case_prod_beta d_def m_def n_def
        rest_def split: if_splits)
  have d: "icm_counter d = (icm_clock False ^^ (m div 16)) (icm_counter c)"
    by (simp add: d_def icm_blocks_counter)
  have l: "length rest = m mod 16"
    by (simp add: rest_def m_def modulo_nat_def mult.commute add.commute)
  have k: "k = (m + 15) div 16" "length buf = n + m" using False by (auto simp: m_def n_def k_def)
  show ?thesis
  proof (cases "m mod 16 = 0")
    case True
    then obtain q where "m = 16 * q" by auto
    then have "k = m div 16" "m = 16 * (m div 16)" using k(1) by simp_all
    then show ?thesis using c' d l True k(2) by (simp add: icm_tail_def n_def)
  next
    case False
    define q r where "q = m div 16" and "r = m mod 16"
    have m: "m = 16 * q + r" "r < 16" "r \<noteq> 0" using False by (simp_all add: q_def r_def)
    then have "k = Suc q" unfolding k(1) by (intro div_nat_eqI) simp_all
    moreover have "c' = (aes_icm_advance_ismacryp d False)\<lparr>icm_bytes_in_buffer := 16 - r\<rparr>"
      using c' l m(3) by (simp add: icm_tail_def Let_def r_def)
    moreover have "icm_counter d = (icm_clock False ^^ q) (icm_counter c)" using d by (simp add: q_def)
    ultimately show ?thesis using k(2) m by (simp add: n_def aes_icm_advance_ismacryp_def)
  qed
qed

text \<open>A context that has delivered the first \<open>m\<close> octets of the keystream of a key.\<close>

definition blocks_of :: "nat \<Rightarrow> nat" where
  "blocks_of m = (m + 15) div 16"

definition icm_at :: "u8 list \<Rightarrow> nat \<Rightarrow> aes_icm_ctx \<Rightarrow> bool" where
  "icm_at key m c \<longleftrightarrow> 32 \<le> length key \<and> icm_wf c \<and> icm_bytes_in_buffer c < 16 \<and> m + icm_bytes_in_buffer c = 16 * blocks_of m
     \<and> blocks_of m \<le> 0xffff \<and> icm_counter c = ctr_block key (blocks_of m)
     \<and> (\<forall>i. icm_stream False c i = ctr_keystream key (m + i))"

lemma blocks_of_eqI: "m + b = 16 * j \<Longrightarrow> b < 16 \<Longrightarrow> blocks_of m = j"
  unfolding blocks_of_def by (rule div_nat_eqI) auto

lemma icm_at_init:
  assumes "aes_icm_context_init c key = Some (err_status_ok, c')" "length (icm_keystream_buffer c) = 16"
  shows "icm_at key 0 c'"
proof -
  have l: "32 \<le> length key" using assms(1) by (auto simp: aes_icm_context_init_def split: if_splits)
  have "(take 16 (drop 16 key))[15 := 0, 14 := 0] = ctr_block key 0"
    using l by (intro nth_equalityI) (auto simp: ctr_block_def nth_append nth_list_update less_Suc_eq)
  then have c': "c' = c\<lparr>icm_counter := ctr_block key 0, icm_offset := ctr_block key 0,
      icm_expanded_key := aes_expand_encryption_key (take 16 key), icm_bytes_in_buffer := 0\<rparr>"
    using assms(1) l by (auto simp: aes_icm_context_init_def Let_def)
  moreover have "icm_stream False c' i = ctr_keystream key i" for i
    using l by (simp add: c' icm_stream_def ctr_keystream_def ctr_block_power)
  ultimately show ?thesis using l assms(2) by (simp add: icm_at_def icm_wf_def blocks_of_def)
qed

lemma icm_at_room: "icm_at key m c \<Longrightarrow> icm_room False c n \<longleftrightarrow> n + blocks_of m \<le> 0xffff"
  by (auto simp: icm_at_def icm_room_def ctr_block_number)

lemma icm_at_encrypt:
  assumes "icm_at key m c" "aes_icm_encrypt c buf = (err_status_ok, c', out)" "length buf + blocks_of m \<le> 0xffff"
  shows "icm_at key (m + length buf) c'" "out = add_stream (\<lambda>i. ctr_keystream key (m + i)) buf"
proof -
  have wf: "icm_wf c" and b: "icm_bytes_in_buffer c < 16" and mb: "m + icm_bytes_in_buffer c = 16 * blocks_of m"
    and ctr: "icm_counter c = ctr_block key (blocks_of m)" and l: "32 \<le> length key"
    and s: "icm_stream False c = (\<lambda>i. ctr_keystream key (m + i))"
    using assms(1) by (auto simp: icm_at_def)
  define k where "k = (length buf + 15 - icm_bytes_in_buffer c) div 16"
  from icm_encrypt_progress[OF assms(2) b, folded k_def] icm_encrypt_ok[OF assms(2) wf]
  have c': "icm_counter c' = ctr_block key (k + blocks_of m)" "icm_bytes_in_buffer c' < 16"
      "length buf + icm_bytes_in_buffer c' = icm_bytes_in_buffer c + 16 * k" "icm_wf c'"
    and st: "icm_stream False c' i = ctr_keystream key (m + length buf + i)"
    and out: "out = add_stream (\<lambda>i. ctr_keystream key (m + i)) buf" for i
    using l by (simp_all add: ctr ctr_block_power s ac_simps)
  have "m + length buf + icm_bytes_in_buffer c' = 16 * (k + blocks_of m)" using c'(3) mb by simp
  then have "blocks_of (m + length buf) = k + blocks_of m" using blocks_of_eqI c'(2) by blast
  moreover have "k \<le> length buf" using c'(2,3) by linarith
  ultimately show "icm_at key (m + length buf) c'" using assms(3) c' st l mb by (simp add: icm_at_def)
  show "out = add_stream (\<lambda>i. ctr_keystream key (m + i)) buf" by (rule out)
qed

lemma add_stream_zero: "add_stream (\<lambda>i. f (m + i)) (replicate n 0) = map f [m..<m + n]"
  by (rule nth_equalityI) auto

lemma icm_at_output:
  assumes "icm_at key m c" "0 < n" "n \<le> length dest"
  shows "n + blocks_of m \<le> 0xffff \<Longrightarrow> \<exists>c'. icm_at key (m + n) c'
      \<and> aes_icm_output c dest n = Some (err_status_ok, c', map (ctr_keystream key) [m..<m + n] @ drop n dest)"
    and "\<not> n + blocks_of m \<le> 0xffff \<Longrightarrow> aes_icm_output c dest n = Some (err_status_terminus, c, replicate n 0 @ drop n dest)"
proof -
  have z: "octet_string_set_to_zero dest n = Some (replicate n 0 @ drop n dest)"
    using assms(2,3) by (simp add: octet_string_set_to_zero_def max_def)
  {
    assume r: "n + blocks_of m \<le> 0xffff"
    then have "icm_room False c (length (replicate n (0 :: u8)))" using icm_at_room[OF assms(1), of n] by simp
    moreover have "icm_wf c" using assms(1) by (simp add: icm_at_def)
    ultimately obtain c' out where e: "aes_icm_encrypt c (replicate n 0) = (err_status_ok, c', out)"
      using icm_encrypt_stream unfolding aes_icm_encrypt_def by blast
    note at = icm_at_encrypt[OF assms(1) e, simplified, OF r]
    show "\<exists>c'. icm_at key (m + n) c' \<and> aes_icm_output c dest n
        = Some (err_status_ok, c', map (ctr_keystream key) [m..<m + n] @ drop n dest)"
      using at z e by (auto simp: aes_icm_output_def add_stream_zero)
  next
    assume r: "\<not> n + blocks_of m \<le> 0xffff"
    then have "\<not> icm_room False c n" using icm_at_room[OF assms(1)] by blast
    then have "aes_icm_encrypt c (replicate n 0) = (err_status_terminus, c, replicate n 0)"
      by (auto simp: icm_room_def aes_icm_encrypt_def aes_icm_encrypt_ismacryp_def)
    then show "aes_icm_output c dest n = Some (err_status_terminus, c, replicate n 0 @ drop n dest)"
      using z by (simp add: aes_icm_output_def)
  }
qed

section \<open>The generator as a tape\<close>

text \<open>The specification: the number of octets asked for since the last key, the position on the tape of the keystream, and
  the key. A request gives the next octets of the tape while the 16 bits of the block counter last, and otherwise
  zeros; when 32 bits cannot count the octets any more, the next tape is taken.\<close>

type_synonym tape = "nat \<times> nat \<times> u8 list"

definition tape_read :: "nat \<Rightarrow> tape \<Rightarrow> err_status \<times> u8 list \<times> tape" where
  "tape_read n t = (case t of (count, pos, key) \<Rightarrow>
     if n + blocks_of pos \<le> 0xffff
     then (err_status_ok, map (ctr_keystream key) [pos..<pos + n], count + n, pos + n, key)
     else (err_status_terminus, replicate n 0, count + n, pos, key))"

definition tape_request :: "'r rand_source \<Rightarrow> nat \<Rightarrow> tape \<Rightarrow> 'r \<Rightarrow> err_status \<times> u8 list \<times> tape \<times> 'r" where
  "tape_request src n t r = (case t of (count, pos, key) \<Rightarrow>
     if count + n \<le> 0xffffffff then (let (status, out, t) = tape_read n t in (status, out, t, r))
     else let (status, new_key, r) = src r 32
       in if status \<noteq> err_status_ok then (status, [], (0, pos, key), r)
          else let (status, out, t) = tape_read n (0, 0, new_key) in (status, out, t, r))"

text \<open>A sequence of requests, each with the buffer that it fills.\<close>

fun tape_requests :: "'r rand_source \<Rightarrow> u8 list list \<Rightarrow> tape \<Rightarrow> 'r \<Rightarrow> (err_status \<times> u8 list) list" where
  "tape_requests src [] t r = []"
| "tape_requests src (dest # dests) t r =
    (let (status, out, t, r) = tape_request src (length dest) t r
     in (status, out @ drop (length out) dest) # tape_requests src dests t r)"

fun ctr_requests :: "u8 list list \<Rightarrow> 'r ctr_prng \<Rightarrow> 'r \<Rightarrow> (err_status \<times> u8 list) list option" where
  "ctr_requests [] p r = Some []"
| "ctr_requests (dest # dests) p r = do {
     (status, out, p, r) \<leftarrow> ctr_prng_get_octet_string p dest (of_nat (length dest)) r;
     rest \<leftarrow> ctr_requests dests p r;
     Some ((status, out) # rest) }"

text \<open>What \<open>rand_source.h\<close> asks of a source: a call that succeeds writes all the octets.\<close>

definition fills :: "'r rand_source \<Rightarrow> bool" where
  "fills src \<longleftrightarrow> (\<forall>r n status octets r'. src r n = (status, octets, r') \<longrightarrow> status = err_status_ok \<longrightarrow> length octets = n)"

definition on_tape :: "'r rand_source \<Rightarrow> tape \<Rightarrow> 'r ctr_prng \<Rightarrow> bool" where
  "on_tape src t p \<longleftrightarrow> (case t of (count, pos, key) \<Rightarrow> count \<le> 0xffffffff
     \<and> unat (ctr_octet_count p) = count \<and> ctr_rand p = src \<and> icm_at key pos (ctr_state p))"

lemma fillsD: "fills src \<Longrightarrow> src r n = (err_status_ok, octets, r') \<Longrightarrow> length octets = n"
  by (auto simp: fills_def)

lemma icm_context_init_ok: "32 \<le> length key \<Longrightarrow> \<exists>c'. aes_icm_context_init c key = Some (err_status_ok, c')"
  by (simp add: aes_icm_context_init_def Let_def)

text \<open>A new key puts the generator at the start of its tape.\<close>

lemma ctr_prng_init_tape:
  assumes "fills src" "length (icm_keystream_buffer (ctr_state p)) = 16" "src r 32 = (err_status_ok, key, r')"
  shows "\<exists>p'. ctr_prng_init p src r = Some (err_status_ok, p', r') \<and> on_tape src (0, 0, key) p'"
proof -
  have l: "length key = 32" by (rule fillsD[OF assms(1,3)])
  then obtain c where c: "aes_icm_context_init (ctr_state p) key = Some (err_status_ok, c)"
    using icm_context_init_ok by (metis order_refl)
  then have "icm_at key 0 c" using icm_at_init assms(2) by blast
  then show ?thesis using c assms(3) by (simp add: ctr_prng_init_def on_tape_def)
qed

lemma ctr_prng_init_error:
  "src r 32 = (status, key, r') \<Longrightarrow> status \<noteq> err_status_ok
    \<Longrightarrow> ctr_prng_init p src r = Some (status, p\<lparr>ctr_octet_count := 0, ctr_rand := src\<rparr>, r')"
  by (simp add: ctr_prng_init_def)

text \<open>The request itself, once there is room to count it.\<close>

lemma ctr_output_tape:
  assumes "on_tape src (count, pos, key) p" "0 < length dest" "length dest < 2 ^ 31" "count + length dest \<le> 0xffffffff"
    and "tape_read (length dest) (count, pos, key) = (status, out, t)"
  shows "\<exists>c'. aes_icm_output (ctr_state p) dest (length dest) = Some (status, c', out @ drop (length out) dest)
    \<and> on_tape src t (p\<lparr>ctr_octet_count := ctr_octet_count p + of_nat (length dest), ctr_state := c'\<rparr>)"
proof -
  let ?n = "length dest"
  have at: "icm_at key pos (ctr_state p)" and cnt: "unat (ctr_octet_count p) = count" using assms(1) by (auto simp: on_tape_def)
  have sum: "unat (ctr_octet_count p + of_nat ?n) = count + ?n"
    using cnt assms(3,4) by (simp add: unat_word_ariths unat_of_nat)
  note served = icm_at_output[OF at assms(2) order_refl]
  show ?thesis
  proof (cases "?n + blocks_of pos \<le> 0xffff")
    case True
    with served(1) obtain c' where "icm_at key (pos + ?n) c'"
      "aes_icm_output (ctr_state p) dest ?n = Some (err_status_ok, c', map (ctr_keystream key) [pos..<pos + ?n])"
      by auto
    then show ?thesis using True assms(1,4,5) sum by (auto simp: tape_read_def on_tape_def)
  next
    case False
    then show ?thesis using served(2) assms(1,4,5) sum by (auto simp: tape_read_def on_tape_def)
  qed
qed

lemma ctr_request_tape:
  assumes "fills src" "on_tape src t p" "0 < length dest" "length dest < 2 ^ 31"
    and "tape_request src (length dest) t r = (status, out, t', r')"
  shows "\<exists>p'. ctr_prng_get_octet_string p dest (of_nat (length dest)) r = Some (status, out @ drop (length out) dest, p', r')
    \<and> on_tape src t' p'"
proof -
  obtain count pos key where t: "t = (count, pos, key)" by (cases t)
  let ?n = "length dest"
  have n: "unat (of_nat ?n :: u32) = ?n" using assms(4) by (simp add: unat_of_nat)
  have cnt: "unat (ctr_octet_count p) = count" "ctr_rand p = src" and at: "icm_at key pos (ctr_state p)"
    using assms(2) by (auto simp: on_tape_def t)
  have full: "ctr_octet_count p > MAX_PRNG_OUT_LEN - of_nat ?n \<longleftrightarrow> \<not> count + ?n \<le> 0xffffffff"
  proof -
    have "of_nat ?n \<le> MAX_PRNG_OUT_LEN" using n assms(4) by (simp add: word_le_nat_alt MAX_PRNG_OUT_LEN_def)
    then have "unat (MAX_PRNG_OUT_LEN - of_nat ?n) = 0xffffffff - ?n" by (simp add: unat_sub n) (simp add: MAX_PRNG_OUT_LEN_def)
    then show ?thesis using cnt(1) assms(4) by (auto simp: word_less_nat_alt)
  qed
  have get: "ctr_prng_get_octet_string p dest (of_nat ?n) r = do {
     (status, p, r) \<leftarrow> (if count + ?n \<le> 0xffffffff then Some (err_status_ok, p, r) else ctr_prng_init p src r);
     if status \<noteq> err_status_ok then Some (status, dest, p, r)
     else do {
       let p = p\<lparr>ctr_octet_count := ctr_octet_count p + of_nat ?n\<rparr>;
       (status, c, dest) \<leftarrow> aes_icm_output (ctr_state p) dest ?n;
       Some (status, dest, p\<lparr>ctr_state := c\<rparr>, r) } }"
    unfolding ctr_prng_get_octet_string_def full cnt(2) n using assms(4) by (simp only: if_True if_not_P if_cancel if_P not_not split: if_split) simp
  consider (room) "count + ?n \<le> 0xffffffff" | (new) key' r2 where "\<not> count + ?n \<le> 0xffffffff" "src r 32 = (err_status_ok, key', r2)"
    | (error) e key' r2 where "\<not> count + ?n \<le> 0xffffffff" "src r 32 = (e, key', r2)" "e \<noteq> err_status_ok"
    by (metis prod_cases3)
  then show ?thesis
  proof cases
    case room
    then have "tape_read ?n (count, pos, key) = (status, out, t')" "r' = r"
      using assms(5) by (simp_all add: tape_request_def t split: prod.splits)
    with ctr_output_tape[OF assms(2)[unfolded t] assms(3,4) room] obtain c' where
      "aes_icm_output (ctr_state p) dest ?n = Some (status, c', out @ drop (length out) dest)"
      "on_tape src t' (p\<lparr>ctr_octet_count := ctr_octet_count p + of_nat ?n, ctr_state := c'\<rparr>)" by blast
    then show ?thesis using room \<open>r' = r\<close> by (simp add: get)
  next
    case new
    then have read: "tape_read ?n (0, 0, key') = (status, out, t')" "r' = r2"
      using assms(5) by (simp_all add: tape_request_def t split: prod.splits)
    from ctr_prng_init_tape[OF assms(1) _ new(2), of p] at obtain p' where
      p': "ctr_prng_init p src r = Some (err_status_ok, p', r2)" "on_tape src (0, 0, key') p'"
      unfolding icm_at_def icm_wf_def by blast
    have "0 + ?n \<le> 0xffffffff" using assms(4) by simp
    from ctr_output_tape[OF p'(2) assms(3,4) this read(1)] obtain c' where
      "aes_icm_output (ctr_state p') dest ?n = Some (status, c', out @ drop (length out) dest)"
      "on_tape src t' (p'\<lparr>ctr_octet_count := ctr_octet_count p' + of_nat ?n, ctr_state := c'\<rparr>)" by blast
    then show ?thesis using new(1) p'(1) read(2) by (simp add: get)
  next
    case error
    then have "status = e" "out = []" "t' = (0, pos, key)" "r' = r2" using assms(5) by (simp_all add: tape_request_def t)
    then show ?thesis using ctr_prng_init_error[of src r, OF error(2,3), of p] error(1,3) at by (simp add: get on_tape_def)
  qed
qed

lemma ctr_requests_tape:
  assumes "fills src" "on_tape src t p" "\<And>dest. dest \<in> set dests \<Longrightarrow> 0 < length dest \<and> length dest < 2 ^ 31"
  shows "ctr_requests dests p r = Some (tape_requests src dests t r)"
  using assms(2,3)
proof (induction dests arbitrary: t p r)
  case (Cons dest dests)
  obtain status out t' r' where q: "tape_request src (length dest) t r = (status, out, t', r')"
    by (cases "tape_request src (length dest) t r")
  have "0 < length dest" "length dest < 2 ^ 31" using Cons.prems(2)[of dest] by auto
  from ctr_request_tape[OF assms(1) Cons.prems(1) this q] obtain p' where
    "ctr_prng_get_octet_string p dest (of_nat (length dest)) r = Some (status, out @ drop (length out) dest, p', r')"
    "on_tape src t' p'" by blast
  then show ?case using Cons.IH[of t' p' r'] Cons.prems(2) q by simp
qed simp

text \<open>C22. The generator in counter mode refines a tape: after a successful initialization every sequence of requests (of 1
  to \<open>2^31 - 1\<close> octets each, into buffers of that length) returns, with just the statuses and octets of the
  specification. A request is served with the next octets of the AES counter mode keystream of the current
  key, without gap or repetition, as long as its length plus the number of blocks used is at most 65535, and
  otherwise fails with \<^const>\<open>err_status_terminus\<close>, clears its buffer and uses up no keystream; a new key is only
  fetched when \<open>2^32 - 1\<close> octets have been asked for; and a key that cannot be fetched is an error for
  that request alone, after which the old key goes on with its count at zero.\<close>

theorem ctr_prng_refines_tape:
  assumes "fills src" "length (icm_keystream_buffer (ctr_state p)) = 16"
    and "ctr_prng_init p src r = Some (err_status_ok, p1, r1)" "src r 32 = (err_status_ok, key, r1)"
    and "\<forall>dest \<in> set dests. 0 < length dest \<and> length dest < 2 ^ 31"
  shows "ctr_requests dests p1 r1 = Some (tape_requests src dests (0, 0, key) r1)"
proof -
  from ctr_prng_init_tape[OF assms(1,2,4)] assms(3) have "on_tape src (0, 0, key) p1" by auto
  then show ?thesis using assms(1,5) by (intro ctr_requests_tape) auto
qed

theorem ctr_prng_refines_tape_witness:
  "\<exists>p1. ctr_prng_init \<lparr>ctr_octet_count = 0, ctr_state = zero_icm_ctx, ctr_rand = \<lambda>r n. (err_status_ok, replicate n 0, r)\<rparr>
      (\<lambda>r n. (err_status_ok, replicate n 0, r)) () = Some (err_status_ok, p1, ())
    \<and> ctr_requests [replicate 70000 1, [1, 2]] p1 ()
      = Some [(err_status_terminus, replicate 70000 0),
          (err_status_ok, [ctr_keystream (replicate 32 0) 0, ctr_keystream (replicate 32 0) 1])]"
proof -
  let ?src = "\<lambda>(r :: unit) n. (err_status_ok, replicate n (0 :: u8), r)"
  let ?p = "\<lparr>ctr_octet_count = 0, ctr_state = zero_icm_ctx, ctr_rand = ?src\<rparr>"
  have f: "fills ?src" by (simp add: fills_def)
  have l: "length (icm_keystream_buffer (ctr_state ?p)) = 16" by (simp add: zero_icm_ctx_def)
  have "?src () 32 = (err_status_ok, replicate 32 0, ())" by simp
  from ctr_prng_init_tape[OF f l this] obtain p1 where p1: "ctr_prng_init ?p ?src () = Some (err_status_ok, p1, ())" by blast
  have "\<forall>dest \<in> set [replicate 70000 (1 :: u8), [1, 2]]. 0 < length dest \<and> length dest < 2 ^ 31" by simp
  from ctr_prng_refines_tape[OF f l p1 _ this, of "replicate 32 0"] p1 show ?thesis
    by (simp add: tape_request_def tape_read_def blocks_of_def upt_rec)
qed

section \<open>The output of the X9.17 generator\<close>

lemma length_x917_step [simp]: "length (fst (x917_step t key state)) = 16"
  by (simp add: x917_step_def Let_def)

lemma length_x917_blocks [simp]: "length (fst (x917_blocks n t key state)) = 16 * n"
  by (induction n arbitrary: state) (simp_all add: case_prod_beta)

lemma length_x917_output [simp]: "length (fst (x917_output len t key state)) = len"
  by (auto simp: x917_output_def case_prod_beta Let_def min_def)

lemma x917_blocks_add:
  "x917_blocks (m + n) t key state
    = (let (a, state) = x917_blocks m t key state; (b, state) = x917_blocks n t key state in (a @ b, state))"
  by (induction m arbitrary: state) (simp_all add: case_prod_beta Let_def)

text \<open>Within one second, requests of whole blocks can be joined with what follows.\<close>

lemma x917_output_split:
  "x917_output (16 * m + len) t key state
    = (let (a, state) = x917_output (16 * m) t key state; (b, state) = x917_output len t key state in (a @ b, state))"
  by (simp add: x917_output_def x917_blocks_add case_prod_beta Let_def)

lemma x917_prng_get_octet_string_ok:
  assumes "unat len \<le> length dest" "x917_octet_count p \<le> MAX_PRNG_OUT_LEN - len"
  shows "\<exists>p' out. x917_prng_get_octet_string p dest len t r = Some (err_status_ok, out @ drop (unat len) dest, p', r)
    \<and> length out = unat len \<and> x917_key p' = x917_key p \<and> x917_octet_count p' = x917_octet_count p + len
    \<and> (out, x917_state p') = x917_output (unat len) t (x917_key p) (x917_state p)"
  using assms length_x917_output[of "unat len" t "x917_key p" "x917_state p"]
  by (cases "x917_output (unat len) t (x917_key p) (x917_state p)")
    (simp add: x917_prng_get_octet_string_def Let_def leD)

end
