(* ===== verification/Srpp_Message.thy ===== *)
theory Srpp_Message
  imports C_Prelude
begin

text \<open>
  The SRPP message (\<open>src/libSRPP/include/SRPPMessage.hpp\<close>): its header with bit fields, the
  encrypted part, construction, the wire format written by \<open>srpp_to_network\<close> and read by
  \<open>network_to_srpp\<close>, and the XOR encryption.

  A \<open>vector<char>\<close> is the list of its octets and a buffer is the list of the octets it holds
  before the call, so that what is left uninitialised stays visible. \<^const>\<open>None\<close> is undefined
  behaviour. The operator \<open>^\<close> in the constants \<open>2^15\<close>, \<open>2^17\<close> and \<open>2^32\<close> of the source is
  the exclusive or of C++.
\<close>

section \<open>Data\<close>

record SRPPHeader =
  sh_version :: "2 word"
  sh_p :: "1 word"
  sh_x :: "1 word"
  sh_cc :: "4 word"
  sh_m :: "1 word"
  sh_pt :: "7 word"
  sh_seq :: u16
  sh_ts :: u32
  sh_ssrc :: u32
  sh_csrc :: "u32 list"
  sh_defined_by_profile :: u16
  sh_extension_header :: u16
  sh_srpp_signalling :: u32

record SRPPEncrypted =
  original_payload :: "u8 list"
  srpp_padding :: "u8 list"
  pad_count :: u32
  dummy_flag :: "15 word"
  original_padding_bit :: "1 word"
  original_seq_number :: u16

record SRPPMessage =
  srpp_header :: SRPPHeader
  encrypted_part :: SRPPEncrypted
  authentication_tag :: u32

text \<open>The constructor: \<open>seq\<close> is the incremented global \<open>lastSequenceNo\<close>, \<open>ts\<close> the time of
  day in microseconds, \<open>ssrc\<close> the global \<open>srppssrc\<close>. The field \<open>srpp_signalling\<close> is not
  initialised: it holds whatever \<open>junk\<close> the storage had.\<close>

definition new_SRPPMessage :: "u16 \<Rightarrow> u32 \<Rightarrow> u32 \<Rightarrow> u32 \<Rightarrow> SRPPMessage" where
  "new_SRPPMessage seq ts ssrc junk =
    \<lparr>srpp_header =
       \<lparr>sh_version = 2, sh_p = 0, sh_x = 1, sh_cc = ucast (htons 15), sh_m = 0, sh_pt = 121,
        sh_seq = seq, sh_ts = ts, sh_ssrc = ssrc, sh_csrc = replicate 15 0,
        sh_defined_by_profile = 9999, sh_extension_header = 1, sh_srpp_signalling = junk\<rparr>,
     encrypted_part =
       \<lparr>original_payload = [], srpp_padding = [], pad_count = 0, dummy_flag = 0,
        original_padding_bit = 0, original_seq_number = 0\<rparr>,
     authentication_tag = 0\<rparr>"

section \<open>Wire format\<close>

text \<open>The first 16-bit unit of the header, with the bit fields of a little-endian host.\<close>

definition header_flags :: "SRPPHeader \<Rightarrow> u16" where
  "header_flags h = ucast (sh_cc h) OR push_bit 4 (ucast (sh_x h)) OR push_bit 5 (ucast (sh_p h))
     OR push_bit 6 (ucast (sh_version h)) OR push_bit 8 (ucast (sh_pt h)) OR push_bit 15 (ucast (sh_m h))"

text \<open>The header as stored by \<open>srpp_to_network\<close>. \<open>rand_of s\<close> is the first \<open>rand()\<close> after
  \<open>srand(s)\<close>; the multiplication is taken modulo \<open>2^32\<close>. A CSRC count above 15 indexes
  outside \<open>csrc\<close>.\<close>

definition srpp_header_bytes :: "(u32 \<Rightarrow> u32) \<Rightarrow> SRPPHeader \<Rightarrow> u8 list option" where
  "srpp_header_bytes rand_of h =
    (let n = unat (ntohs (ucast (sh_cc h))) in
     if n > 15 then None
     else Some
       (le16 (header_flags h) @ le16 (htons (sh_seq h)) @ le32 (htonl (sh_ts h)) @ le32 (htonl (sh_ssrc h)) @
        concat (map (\<lambda>i. le32 (if i < n then htonl (sh_csrc h ! i)
                              else rand_of (sh_ts h + of_nat i * 50) * (2 XOR 32) + 1)) [0..<15]) @
        le16 (htons (sh_defined_by_profile h)) @ le16 (htons (sh_extension_header h)) @
        le32 (htonl (sh_srpp_signalling h))))"

text \<open>The eight octets of \<open>pad_count\<close>, the flags and \<open>original_seq_number\<close> in memory.\<close>

definition trailer_bytes :: "SRPPEncrypted \<Rightarrow> u8 list" where
  "trailer_bytes e = le32 (pad_count e)
     @ le16 (ucast (dummy_flag e) OR push_bit 15 (ucast (original_padding_bit e)))
     @ le16 (original_seq_number e)"

definition xor_pad_count :: "u32 \<Rightarrow> SRPPMessage \<Rightarrow> SRPPMessage" where
  "xor_pad_count k msg =
     msg\<lparr>encrypted_part := (encrypted_part msg)\<lparr>pad_count := pad_count (encrypted_part msg) XOR k\<rparr>\<rparr>"

definition srpp_to_network ::
    "(u32 \<Rightarrow> u32) \<Rightarrow> SRPPMessage \<Rightarrow> u8 list \<Rightarrow> int \<Rightarrow> (SRPPMessage \<times> u8 list) option" where
  "srpp_to_network rand_of msg buff key = do {
     hb \<leftarrow> srpp_header_bytes rand_of (srpp_header msg);
     buff \<leftarrow> poke buff 0 hb;
     let signalling = sh_srpp_signalling (srpp_header msg);
     let payload = original_payload (encrypted_part msg);
     buff \<leftarrow> strcpy buff 80 payload;
     let data = 80 + length payload;
     let msg = (if key > 0 \<and> signalling = 0 then xor_pad_count (word_of_int key) msg else msg);
     let count = pad_count (encrypted_part msg);
     (buff, data) \<leftarrow>
       (if count > 0 \<and> signalling = 0
        then do { buff \<leftarrow> strcpy buff data (srpp_padding (encrypted_part msg));
                  Some (buff, data + unat count) }
        else Some (buff, data));
     let msg = (if key > 0 \<and> signalling = 0 then xor_pad_count (word_of_int key) msg else msg);
     buff \<leftarrow> poke buff data (trailer_bytes (encrypted_part msg));
     buff \<leftarrow> poke buff (data + 8) (le32 (htonl (authentication_tag msg)));
     Some (msg, buff) }"

text \<open>The CSRC entries of a message without any, as sent.\<close>

definition wire_csrc :: "(u32 \<Rightarrow> u32) \<Rightarrow> SRPPHeader \<Rightarrow> u32 list" where
  "wire_csrc rand_of h = map (\<lambda>i. rand_of (sh_ts h + of_nat i * 50) * (2 XOR 32) + 1) [0..<15]"

text \<open>Reading the header: the CSRC entries up to the count are converted, the others copied.\<close>

definition header_of_bytes :: "u8 list \<Rightarrow> SRPPHeader" where
  "header_of_bytes b =
    (let w = of_le16 b; cc = ucast w :: 4 word in
     \<lparr>sh_version = ucast (drop_bit 6 w), sh_p = ucast (drop_bit 5 w), sh_x = ucast (drop_bit 4 w),
      sh_cc = cc, sh_m = ucast (drop_bit 15 w), sh_pt = ucast (drop_bit 8 w),
      sh_seq = ntohs (of_le16 (drop 2 b)), sh_ts = ntohl (of_le32 (drop 4 b)),
      sh_ssrc = ntohl (of_le32 (drop 8 b)),
      sh_csrc = map (\<lambda>i. let c = of_le32 (drop (12 + 4 * i) b)
                        in if i < unat cc then ntohl c else c) [0..<15],
      sh_defined_by_profile = ntohs (of_le16 (drop 72 b)),
      sh_extension_header = ntohs (of_le16 (drop 74 b)),
      sh_srpp_signalling = ntohl (of_le32 (drop 76 b))\<rparr>)"

definition set_trailer :: "u8 list \<Rightarrow> SRPPEncrypted \<Rightarrow> SRPPEncrypted" where
  "set_trailer b e =
     e\<lparr>pad_count := of_le32 b, dummy_flag := ucast (of_le16 (drop 4 b)),
       original_padding_bit := ucast (drop_bit 15 (of_le16 (drop 4 b))),
       original_seq_number := of_le16 (drop 6 b)\<rparr>"

text \<open>\<open>network_to_srpp\<close> returns a status, or leaves by the \<open>std::length_error\<close> that constructing
  a string of negative length raises; in both cases the message has been written to.\<close>

datatype n2s_result = Returns int SRPPMessage | Throws_length_error SRPPMessage

definition network_to_srpp :: "SRPPMessage \<Rightarrow> u8 list \<Rightarrow> int \<Rightarrow> int \<Rightarrow> n2s_result option" where
  "network_to_srpp msg buff bytes key = do {
     hb \<leftarrow> peek buff 0 80;
     let h = header_of_bytes hb;
     let msg = msg\<lparr>srpp_header := h\<rparr>;
     tag \<leftarrow> peek buff (bytes - 4) 4;
     let msg = msg\<lparr>authentication_tag := ntohl (of_le32 tag)\<rparr>;
     tr \<leftarrow> peek buff (bytes - 12) 8;
     let msg = msg\<lparr>encrypted_part := set_trailer tr (encrypted_part msg)\<rparr>;
     let msg = (if sh_srpp_signalling h = 0 \<and> key > 0 then xor_pad_count (word_of_int key) msg else msg);
     let count = pad_count (encrypted_part msg);
     if count > 1500 then Some (Returns (-1) msg)
     else do {
       let (data, msg) =
         (if count > 0 \<and> sh_srpp_signalling h = 0
          then (bytes - 12 - uint count, xor_pad_count (word_of_int key) msg)
          else (bytes - 4, msg\<lparr>encrypted_part := (encrypted_part msg)\<lparr>pad_count := 0\<rparr>\<rparr>));
       let bytes = data - 80;
       if bytes < 0 then Some (Throws_length_error msg)
       else do {
         str \<leftarrow> peek buff 80 (nat bytes);
         Some (Returns 0 (msg\<lparr>encrypted_part := (encrypted_part msg)\<lparr>original_payload := str\<rparr>\<rparr>)) }}}"

definition get_sequence_number :: "SRPPMessage \<Rightarrow> int" where
  "get_sequence_number msg = uint (sh_seq (srpp_header msg))"

section \<open>Encryption\<close>

definition srpp_encrypt :: "u32 \<Rightarrow> SRPPMessage \<Rightarrow> SRPPMessage" where
  "srpp_encrypt key msg =
    (let e = encrypted_part msg in
     msg\<lparr>encrypted_part :=
       \<lparr>original_payload = map (\<lambda>c. c XOR ucast key) (original_payload e),
        srpp_padding = map (\<lambda>c. c XOR ucast key) (srpp_padding e),
        pad_count = pad_count e XOR key,
        dummy_flag = dummy_flag e XOR ucast key,
        original_padding_bit = original_padding_bit e XOR ucast key,
        original_seq_number = original_seq_number e XOR ucast key\<rparr>\<rparr>)"

definition srpp_decrypt :: "u32 \<Rightarrow> SRPPMessage \<Rightarrow> SRPPMessage" where
  "srpp_decrypt key msg =
    (let e = encrypted_part msg in
     msg\<lparr>encrypted_part :=
       \<lparr>original_payload = map (\<lambda>c. c XOR ucast key) (original_payload e),
        srpp_padding = map (\<lambda>c. c XOR ucast key) (srpp_padding e),
        pad_count = pad_count e XOR key,
        dummy_flag = dummy_flag e XOR ucast key,
        original_padding_bit = original_padding_bit e XOR ucast key,
        original_seq_number = original_seq_number e XOR ucast key\<rparr>\<rparr>)"

section \<open>A sample message\<close>

definition sample_msg :: "u32 \<Rightarrow> u8 list \<Rightarrow> u8 list \<Rightarrow> SRPPMessage" where
  "sample_msg signalling p q =
    (let m = new_SRPPMessage 10001 77 5 signalling in
     m\<lparr>encrypted_part := (encrypted_part m)
        \<lparr>original_payload := p, srpp_padding := q, pad_count := of_nat (length q), original_seq_number := 9\<rparr>\<rparr>)"

section \<open>Reading what was written\<close>

text \<open>Reading a header back.\<close>

lemma drop_concat_le32: "drop (4 * i) (concat (map (\<lambda>j. le32 (f j)) xs) @ r)
    = concat (map (\<lambda>j. le32 (f j)) (drop i xs)) @ (if i \<le> length xs then r else drop (4 * (i - length xs)) r)"
proof (induction xs arbitrary: i)
  case (Cons x xs)
  then show ?case by (cases i) (auto simp: drop_append)
qed simp

lemma length_concat_le32 [simp]: "length (concat (map (\<lambda>j. le32 (f j)) xs)) = 4 * length xs"
  by (induction xs) simp_all

lemma of_le32_concat:
  assumes "i < length xs"
  shows "of_le32 (drop (4 * i) (concat (map (\<lambda>j. le32 (f j)) xs) @ r)) = f (xs ! i)"
proof -
  have "drop i xs = xs ! i # drop (Suc i) xs" using assms by (simp add: Cons_nth_drop_Suc)
  then show ?thesis using assms by (subst drop_concat_le32) simp
qed

lemma header_flags_fields:
  "ucast (header_flags h) = sh_cc h"
  "ucast (drop_bit 4 (header_flags h)) = sh_x h"
  "ucast (drop_bit 5 (header_flags h)) = sh_p h"
  "ucast (drop_bit 6 (header_flags h)) = sh_version h"
  "ucast (drop_bit 8 (header_flags h)) = sh_pt h"
  "ucast (drop_bit 15 (header_flags h)) = sh_m h"
  by (rule word_eqI_lt, auto simp: header_flags_def bit_simps dest: bit_imp_le_length)+

lemma header_bytes_cc0:
  assumes "sh_cc h = 0"
  obtains hb where "srpp_header_bytes rand_of h = Some hb" "length hb = 80"
    "header_of_bytes hb = h\<lparr>sh_csrc := wire_csrc rand_of h\<rparr>"
proof -
  define f where "f i = rand_of (sh_ts h + of_nat i * 50) * (2 XOR 32) + 1" for i :: nat
  define rest where "rest = le16 (htons (sh_defined_by_profile h)) @ le16 (htons (sh_extension_header h)) @
        le32 (htonl (sh_srpp_signalling h))"
  define cs where "cs = concat (map (\<lambda>i. le32 (f i)) [0..<15])"
  define hb where "hb = le16 (header_flags h) @ le16 (htons (sh_seq h)) @ le32 (htonl (sh_ts h))
     @ le32 (htonl (sh_ssrc h)) @ cs @ rest"
  have lcs: "length cs = 60" by (simp add: cs_def)
  have h0: "htons 0 = 0" by (simp add: htons_def le16_def of_le16_def)
  have 1: "srpp_header_bytes rand_of h = Some hb"
    using assms by (simp add: srpp_header_bytes_def h0 hb_def cs_def rest_def f_def)
  have 2: "length hb = 80" by (simp add: hb_def lcs rest_def)
  have c: "of_le32 (drop (12 + 4 * i) hb) = f i" if "i < 15" for i
    using that of_le32_concat[of i "[0..<15]" f rest] by (simp add: hb_def cs_def drop_append)
  have m: "map (\<lambda>i. of_le32 (drop (12 + 4 * i) hb)) [0..<15] = wire_csrc rand_of h"
    using c by (auto simp: wire_csrc_def f_def)
  have d: "drop 2 hb = le16 (htons (sh_seq h)) @ drop 4 hb" "drop 4 hb = le32 (htonl (sh_ts h)) @ drop 8 hb"
    "drop 8 hb = le32 (htonl (sh_ssrc h)) @ cs @ rest"
    "drop 72 hb = le16 (htons (sh_defined_by_profile h)) @ drop 74 hb"
    "drop 74 hb = le16 (htons (sh_extension_header h)) @ drop 76 hb"
    "drop 76 hb = le32 (htonl (sh_srpp_signalling h))"
    by (simp_all add: hb_def rest_def lcs)
  have w: "of_le16 hb = header_flags h" by (simp add: hb_def)
  have 3: "header_of_bytes hb = h\<lparr>sh_csrc := wire_csrc rand_of h\<rparr>"
    using assms m unfolding header_of_bytes_def Let_def w header_flags_fields
    by (simp add: d)
  show ?thesis using that 1 2 3 by blast
qed

lemma length_trailer [simp]: "length (trailer_bytes e) = 8"
  by (simp add: trailer_bytes_def)

lemma flag_word_fields:
  fixes d :: "15 word" and p :: "1 word"
  shows "ucast (ucast d OR push_bit 15 (ucast p) :: u16) = d"
    "ucast (drop_bit 15 (ucast d OR push_bit 15 (ucast p) :: u16)) = p"
  by (rule word_eqI_lt, auto simp: bit_simps dest: bit_imp_le_length)+

lemma set_trailer_trailer:
  "set_trailer (trailer_bytes e) e' =
     e'\<lparr>pad_count := pad_count e, dummy_flag := dummy_flag e,
        original_padding_bit := original_padding_bit e, original_seq_number := original_seq_number e\<rparr>"
  by (simp add: set_trailer_def trailer_bytes_def flag_word_fields del: drop_bit_or)

lemma xor_pad_count_twice [simp]: "xor_pad_count k (xor_pad_count k msg) = msg"
  by (simp add: xor_pad_count_def)

lemma xor_pad_count_sel [simp]:
  "srpp_header (xor_pad_count k msg) = srpp_header msg"
  "authentication_tag (xor_pad_count k msg) = authentication_tag msg"
  "pad_count (encrypted_part (xor_pad_count k msg)) = pad_count (encrypted_part msg) XOR k"
  "srpp_padding (encrypted_part (xor_pad_count k msg)) = srpp_padding (encrypted_part msg)"
  "original_payload (encrypted_part (xor_pad_count k msg)) = original_payload (encrypted_part msg)"
  by (simp_all add: xor_pad_count_def)

text \<open>Under the key 0 encryption does nothing, and the code does not call it.\<close>

lemma xor_positive_key:
  assumes "0 \<le> sint k"
  shows "(if 0 < sint k then xor_pad_count (word_of_int (sint k)) m else m) = xor_pad_count k m"
proof (cases "0 < sint k")
  case False
  then have "sint k = 0" using assms by simp
  then have "k = 0" by (simp only: signed_eq_0_iff)
  then show ?thesis by (simp add: xor_pad_count_def)
qed simp

text \<open>The wire image of a message without CSRC entries that carries padding.\<close>

lemma srpp_to_network_media:
  fixes msg :: SRPPMessage and k :: u32
  defines "p \<equiv> original_payload (encrypted_part msg)" and "q \<equiv> srpp_padding (encrypted_part msg)"
  assumes hdr: "srpp_header_bytes rand_of (srpp_header msg) = Some hb" "length hb = 80"
    and media: "sh_srpp_signalling (srpp_header msg) = 0" and key: "0 \<le> sint k"
    and count: "unat (pad_count (encrypted_part msg) XOR k) = length q" and q: "q \<noteq> []"
    and lens: "length b0 = 80" "length bp = length p" "length bq = length q" "length bt = 8" "length bg = 4"
  shows "srpp_to_network rand_of msg (b0 @ bp @ bq @ bt @ bg @ r) (sint k)
    = Some (msg, hb @ str_region p bp @ str_region q bq
        @ trailer_bytes (encrypted_part msg) @ le32 (htonl (authentication_tag msg)) @ r)"
proof -
  let ?c = "pad_count (encrypted_part msg) XOR k"
  have cpos: "0 < ?c" using count q by (metis length_0_conv unat_eq_zero word_gt_0)
  define bq' where "bq' = (if 0 \<in> set p then hd bq else 0) # tl bq"
  have bq: "bq \<noteq> []" "length bq' = length q" using lens q by (auto simp: bq'_def)
  have r': "str_region q bq' = str_region q bq"
    unfolding bq'_def using str_region_cong[OF q] bq(1) by (metis list.collapse)
  obtain t ts where bt: "bt = t # ts" using lens by (cases bt) auto
  have 1: "poke (b0 @ bp @ bq @ bt @ bg @ r) 0 hb = Some (hb @ bp @ bq @ bt @ bg @ r)"
    using hdr lens poke_exact[of 0 "[]" b0 hb] by simp
  have 2: "strcpy (hb @ bp @ bq @ bt @ bg @ r) 80 p = Some (hb @ str_region p bp @ bq' @ bt @ bg @ r)"
    using strcpy_region_nonempty[of 80 hb bp p "bq @ bt @ bg @ r"] hdr lens bq by (simp add: bq'_def)
  obtain t' where 3: "strcpy (hb @ str_region p bp @ bq' @ bt @ bg @ r) (80 + length p) q
      = Some (hb @ str_region p bp @ str_region q bq @ (t' # ts) @ bg @ r)"
    using strcpy_region[of "80 + length p" "hb @ str_region p bp" bq' q t "ts @ bg @ r"] hdr lens bq
    by (simp add: r' bt)
  have 4: "poke (hb @ str_region p bp @ str_region q bq @ (t' # ts) @ bg @ r) (80 + length p + length q) tb
      = Some (hb @ str_region p bp @ str_region q bq @ tb @ bg @ r)" if "length tb = 8" for tb
    using poke_exact[of "80 + length p + length q" "hb @ str_region p bp @ str_region q bq" "t' # ts" tb "bg @ r"]
      hdr lens that by (simp add: bt)
  have 5: "poke (hb @ str_region p bp @ str_region q bq @ tb @ bg @ r) (80 + length p + length q + 8) gb
      = Some (hb @ str_region p bp @ str_region q bq @ tb @ gb @ r)" if "length tb = 8" "length gb = 4" for tb gb
    using poke_exact[of "80 + length p + length q + 8" "hb @ str_region p bp @ str_region q bq @ tb" bg gb r]
      hdr lens that by simp
  have x: "(if 0 < sint k then xor_pad_count (word_of_int (sint k)) m else m) = xor_pad_count k m" for m
    by (rule xor_positive_key[OF key])
  show ?thesis
    unfolding srpp_to_network_def Let_def hdr(1)
    using 1 2 3 4 5 media cpos count
    by (simp add: x flip: p_def q_def)
qed

lemma network_to_srpp_media:
  fixes e :: SRPPEncrypted and k :: u32
  assumes hdr: "length hb = 80" "header_of_bytes hb = h" "sh_srpp_signalling h = 0" and key: "0 \<le> sint k"
    and count: "unat (pad_count e XOR k) = length q" "0 < length q" "length q \<le> 1500"
  shows "network_to_srpp m0 (hb @ p @ q @ trailer_bytes e @ le32 (htonl tag))
           (int (length (hb @ p @ q @ trailer_bytes e @ le32 (htonl tag)))) (sint k)
    = Some (Returns 0
        \<lparr>srpp_header = h,
         encrypted_part = (encrypted_part m0)\<lparr>original_payload := p, pad_count := pad_count e,
           dummy_flag := dummy_flag e, original_padding_bit := original_padding_bit e,
           original_seq_number := original_seq_number e\<rparr>,
         authentication_tag = tag\<rparr>)"
proof -
  let ?w = "hb @ p @ q @ trailer_bytes e @ le32 (htonl tag)"
  let ?n = "int (length ?w)"
  let ?c = "pad_count e XOR k"
  have cpos: "0 < ?c" using count(1,2) by (metis less_not_refl unat_eq_zero word_gt_0)
  have "unat ?c \<le> 1500" using count by simp
  then have cle: "\<not> 1500 < ?c" by (simp add: word_less_nat_alt)
  have uc: "uint ?c = int (length q)" using count(1) by (metis uint_nat)
  have 1: "peek ?w 0 80 = Some hb" by (rule peek_at[of _ "[]"]) (simp_all add: hdr)
  have 2: "peek ?w (?n - 4) 4 = Some (le32 (htonl tag))"
    by (rule peek_at[of _ "hb @ p @ q @ trailer_bytes e" _ "[]"]) simp_all
  have 3: "peek ?w (?n - 12) 8 = Some (trailer_bytes e)"
    by (rule peek_at[of _ "hb @ p @ q"]) simp_all
  have 4: "peek ?w 80 (length p) = Some p"
    by (rule peek_at[of _ hb]) (simp_all add: hdr)
  have n: "?n - 12 - int (length q) - 80 = int (length p)" using hdr by simp
  have nn: "\<not> ?n - int (length q) < 92" using hdr by simp
  have x: "(if 0 < sint k then xor_pad_count (word_of_int (sint k)) m else m) = xor_pad_count k m" for m
    by (rule xor_positive_key[OF key])
  show ?thesis
    unfolding network_to_srpp_def Let_def 1 2 3 Option.bind.simps
    using hdr cpos cle
    by (simp add: x 4 n nn set_trailer_trailer uc del: length_append of_nat_add add: xor_pad_count_def)
qed

lemma split_buffer:
  assumes "92 + m + n \<le> length buff"
  obtains b0 bp bq bt bg r where "buff = b0 @ bp @ bq @ bt @ bg @ r" "length b0 = 80" "length bp = m"
    "length bq = n" "length bt = 8" "length bg = (4::nat)"
proof
  have s: "take i (drop j buff) @ drop (j + i) buff = drop j buff" for i j
    by (metis append_take_drop_id drop_drop add.commute)
  have sums: "80 + m + n + 8 = 88 + m + n" "88 + m + n + 4 = 92 + m + n" by simp_all
  note seg = s[of m 80] s[of n "80 + m"] s[of 8 "80 + m + n", unfolded sums] s[of 4 "88 + m + n", unfolded sums]
  let ?d = "\<lambda>i j. take i (drop j buff)"
  show "buff = ?d 80 0 @ ?d m 80 @ ?d n (80 + m) @ ?d 8 (80 + m + n) @ ?d 4 (88 + m + n) @ drop (92 + m + n) buff"
    by (simp only: seg(4) seg(3) seg(2) seg(1) drop_0 append_take_drop_id)
qed (use assms in simp_all)

text \<open>A payload as it arrives under the low octet \<open>k\<close> of the key, when the buffer it was written to held \<open>old\<close> before: the
  first octet equal to \<open>k\<close> is encrypted to a zero, and behind it \<open>strcpy\<close> writes nothing.\<close>

definition delivered :: "u8 \<Rightarrow> u8 list \<Rightarrow> u8 list \<Rightarrow> u8 list" where
  "delivered k old p = (let n = length (takeWhile (\<lambda>c. c \<noteq> k) p) in take (Suc n) p @ map (\<lambda>c. c XOR k) (drop (Suc n) (take (length p) old)))"

lemma delivered_all: "k \<notin> set p \<Longrightarrow> delivered k old p = p"
proof -
  assume "k \<notin> set p"
  then have "takeWhile (\<lambda>c. c \<noteq> k) p = p" by (auto simp: takeWhile_eq_all_conv)
  then show ?thesis by (simp only: delivered_def Let_def) simp
qed

lemma delivered_region:
  assumes "length old = length p"
  shows "map (\<lambda>c. c XOR k) (str_region (map (\<lambda>c. c XOR k) p) old) = delivered k old p"
proof -
  have c: "c_str (map (\<lambda>c. c XOR k) p) = map (\<lambda>c. c XOR k) (takeWhile (\<lambda>c. c \<noteq> k) p)"
    by (simp add: c_str_def takeWhile_map comp_def xor_eq_0_conv)
  show ?thesis
  proof (cases "k \<in> set p")
    case True
    then have n: "length (takeWhile (\<lambda>c. c \<noteq> k) p) < length p" by (induction p) auto
    then have "p ! length (takeWhile (\<lambda>c. c \<noteq> k) p) = k" using nth_length_takeWhile by fastforce
    then have "take (Suc (length (takeWhile (\<lambda>c. c \<noteq> k) p))) p = takeWhile (\<lambda>c. c \<noteq> k) p @ [k]"
      using n by (simp add: take_Suc_conv_app_nth takeWhile_eq_take[symmetric])
    then show ?thesis using n assms by (simp add: str_region_def c delivered_def comp_def Let_def)
  next
    case False
    then have "0 \<notin> set (map (\<lambda>c. c XOR k) p)" by (auto simp: xor_eq_0_conv)
    then show ?thesis using False by (simp add: str_region_id delivered_all comp_def)
  qed
qed

text \<open>The same for a payload that is written behind the header of 80 octets into fresh memory.\<close>

definition arrives :: "(nat \<Rightarrow> u8) \<Rightarrow> u8 \<Rightarrow> u8 list \<Rightarrow> u8 list" where
  "arrives memory k p = delivered k (map memory [80..<80 + length p]) p"

lemma arrives_all: "k \<notin> set p \<Longrightarrow> arrives memory k p = p"
  by (simp add: arrives_def delivered_all)

lemma length_arrives [simp]: "length (arrives memory k p) = length p"
  using length_takeWhile_le[of "\<lambda>c. c \<noteq> k" p] by (simp add: arrives_def delivered_def Let_def)

lemma delivered_fresh: "80 + length p \<le> n \<Longrightarrow> delivered k (drop 80 (map memory [0..<n])) p = arrives memory k p"
  by (simp add: arrives_def delivered_def drop_map take_map)

lemma media_trip:
  fixes msg m0 :: SRPPMessage and k :: u32 and buff :: "u8 list"
  defines "p \<equiv> original_payload (encrypted_part msg)" and "q \<equiv> srpp_padding (encrypted_part msg)"
  defines "n \<equiv> 92 + length p + length q"
  assumes "sh_cc (srpp_header msg) = 0" "sh_srpp_signalling (srpp_header msg) = 0" "0 \<le> sint k"
    and "pad_count (encrypted_part msg) = of_nat (length q)" "0 < length q" "length q \<le> 1500" "n \<le> length buff"
  shows "\<exists>wire msg2. srpp_to_network rand_of (srpp_encrypt k msg) buff (sint k) = Some (srpp_encrypt k msg, wire)
    \<and> length wire = length buff
    \<and> network_to_srpp m0 (take n wire) (int n) (sint k) = Some (Returns 0 msg2)
    \<and> srpp_decrypt k msg2 = msg
        \<lparr>srpp_header := (srpp_header msg)\<lparr>sh_csrc := wire_csrc rand_of (srpp_header msg)\<rparr>,
         encrypted_part := (encrypted_part msg)
           \<lparr>original_payload := delivered (ucast k) (drop 80 buff) p,
            srpp_padding := srpp_padding (encrypted_part (srpp_decrypt k m0))\<rparr>\<rparr>"
proof -
  let ?m = "srpp_encrypt k msg" and ?x = "map (\<lambda>c. c XOR ucast k)"
  obtain hb where hb: "srpp_header_bytes rand_of (srpp_header msg) = Some hb" "length hb = 80"
    "header_of_bytes hb = (srpp_header msg)\<lparr>sh_csrc := wire_csrc rand_of (srpp_header msg)\<rparr>"
    using header_bytes_cc0 assms(4) by blast
  obtain b0 bp bq bt bg r where b: "buff = b0 @ bp @ bq @ bt @ bg @ r" "length b0 = 80" "length bp = length p"
    "length bq = length q" "length bt = 8" "length bg = 4"
    using assms(10) split_buffer[of "length p" "length q" buff] unfolding n_def by blast
  have sel: "srpp_header ?m = srpp_header msg" "authentication_tag ?m = authentication_tag msg"
    "original_payload (encrypted_part ?m) = ?x p" "srpp_padding (encrypted_part ?m) = ?x q"
    "pad_count (encrypted_part ?m) XOR k = of_nat (length q)"
    using assms(7) by (simp_all add: srpp_encrypt_def Let_def p_def q_def)
  have u: "unat (of_nat (length q) :: u32) = length q" using assms(9) by (simp add: unsigned_of_nat take_bit_nat_eq_self)
  let ?p = "str_region (?x p) bp" and ?q = "str_region (?x q) bq"
  have lq: "length ?q = length q" "length ?p = length p"
    using length_str_region[of bq "?x q"] length_str_region[of bp "?x p"] b(3,4) by simp_all
  let ?w = "hb @ ?p @ ?q @ trailer_bytes (encrypted_part ?m) @ le32 (htonl (authentication_tag msg))"
  have 1: "srpp_to_network rand_of ?m buff (sint k) = Some (?m, ?w @ r)"
    using srpp_to_network_media[of rand_of ?m hb k b0 bp bq bt bg r] hb(1,2) b assms(5,6,8) u by (simp add: sel)
  have w: "length ?w = n" by (simp add: hb(2) n_def lq)
  have 2: "network_to_srpp m0 ?w (int n) (sint k) = Some (Returns 0
        \<lparr>srpp_header = (srpp_header msg)\<lparr>sh_csrc := wire_csrc rand_of (srpp_header msg)\<rparr>,
         encrypted_part = (encrypted_part m0)\<lparr>original_payload := ?p, pad_count := pad_count (encrypted_part ?m),
           dummy_flag := dummy_flag (encrypted_part ?m), original_padding_bit := original_padding_bit (encrypted_part ?m),
           original_seq_number := original_seq_number (encrypted_part ?m)\<rparr>,
         authentication_tag = authentication_tag msg\<rparr>)"
    unfolding w[symmetric] using assms(5,6,8,9) hb u lq
    by (intro network_to_srpp_media) (simp_all add: sel)
  have d: "?x ?p = delivered (ucast k) (drop 80 buff) p"
    using delivered_region[OF b(3), of "ucast k"] b(1-3) by (simp add: delivered_def)
  have "take n (?w @ r) = ?w" by (simp add: w[symmetric])
  moreover have "length (?w @ r) = length buff" by (simp add: b hb(2) lq)
  ultimately show ?thesis using 1 2 d
    by (auto simp: srpp_decrypt_def srpp_encrypt_def Let_def p_def comp_def)
qed

lemma header_bytes_cc:
  assumes "sh_cc h \<noteq> 0"
  shows "srpp_header_bytes rand_of h = None"
proof -
  have c: "v \<noteq> 0 \<Longrightarrow> 0 \<le> v \<Longrightarrow> v < 16 \<Longrightarrow> v \<in> {1, 2, 3, 4, 5, 6, 7, 8, 9, 10, 11, 12, 13, 14, 15}" for v :: int
    by simp presburger
  have "uint (sh_cc h) \<in> {1, 2, 3, 4, 5, 6, 7, 8, 9, 10, 11, 12, 13, 14, 15}"
    by (rule c) (use assms uint_lt2p[of "sh_cc h"] in \<open>simp_all add: uint_0_iff\<close>)
  then have "sh_cc h \<in> {1, 2, 3, 4, 5, 6, 7, 8, 9, 10, 11, 12, 13, 14, 15}"
    by (simp add: word_uint_eq_iff)
  then show ?thesis by (auto simp: srpp_header_bytes_def Let_def htons_def le16_def of_le16_def)
qed

text \<open>C20. What becomes of a media message that is encrypted, written to the wire, read back and decrypted under a key that
  is not negative, with 1 to 1500 octets of padding whose number is the pad count. It has the pad count, the dummy flag,
  the original padding bit and sequence number, the authentication tag and every header field it started with, except the
  CSRC entries, which the sender replaces by random numbers. Its payload arrives up to the first octet that equals the low
  octet of the key, and so completely if there is none; the octets behind that one are whatever the buffer held before
  the message was written to it. The padding octets are not read. A message that claims to have CSRC entries is not
  sent: writing it indexes outside of them.\<close>

theorem media_round_trip:
  fixes msg m0 :: SRPPMessage and k :: u32 and buff :: "u8 list"
  defines "p \<equiv> original_payload (encrypted_part msg)" and "q \<equiv> srpp_padding (encrypted_part msg)"
  defines "n \<equiv> 92 + length p + length q"
  assumes "sh_srpp_signalling (srpp_header msg) = 0" "0 \<le> sint k"
    and "pad_count (encrypted_part msg) = of_nat (length q)" "0 < length q" "length q \<le> 1500" "n \<le> length buff"
  shows "if sh_cc (srpp_header msg) \<noteq> 0 then srpp_to_network rand_of (srpp_encrypt k msg) buff (sint k) = None
    else \<exists>msg' wire msg2. srpp_to_network rand_of (srpp_encrypt k msg) buff (sint k) = Some (msg', wire)
    \<and> network_to_srpp m0 (take n wire) (int n) (sint k) = Some (Returns 0 msg2)
    \<and> srpp_decrypt k msg2 = msg
        \<lparr>srpp_header := (srpp_header msg)\<lparr>sh_csrc := wire_csrc rand_of (srpp_header msg)\<rparr>,
         encrypted_part := (encrypted_part msg)
           \<lparr>original_payload := delivered (ucast k) (drop 80 buff) p,
            srpp_padding := srpp_padding (encrypted_part (srpp_decrypt k m0))\<rparr>\<rparr>
    \<and> (ucast k \<notin> set p \<longrightarrow> original_payload (encrypted_part (srpp_decrypt k msg2)) = p)"
proof (cases "sh_cc (srpp_header msg) = 0")
  case True
  from media_trip[of msg k buff rand_of m0] this assms(4-9) show ?thesis unfolding p_def q_def n_def
    by (auto simp: delivered_all)
next
  case False
  then show ?thesis by (simp add: srpp_to_network_def srpp_encrypt_def Let_def header_bytes_cc)
qed

lemma htons_15_cc: "(ucast (htons 15) :: 4 word) = 0"
  by (simp add: htons_def le16_def of_le16_def)

theorem media_round_trip_witness:
  "\<exists>msg' wire msg2. srpp_to_network (\<lambda>s. s) (srpp_encrypt 1655 (sample_msg 0 [1, 0, 2] [7])) (replicate 100 255) 1655
      = Some (msg', wire)
    \<and> network_to_srpp (sample_msg 3 [] []) (take 96 wire) 96 1655 = Some (Returns 0 msg2)
    \<and> original_payload (encrypted_part (srpp_decrypt 1655 msg2)) = [1, 0, 2]"
  using media_round_trip[of "sample_msg 0 [1, 0, 2] [7]" 1655 "replicate 100 255" "\<lambda>s. s" "sample_msg 3 [] []"]
  by (auto simp: sample_msg_def new_SRPPMessage_def htons_15_cc)

lemma signalling_trip:
  fixes msg m0 :: SRPPMessage and buff :: "u8 list"
  defines "p \<equiv> original_payload (encrypted_part msg)"
  defines "n \<equiv> 92 + length p"
  assumes "sh_cc (srpp_header msg) = 0" "sh_srpp_signalling (srpp_header msg) \<noteq> 0"
    and "pad_count (encrypted_part msg) = 0" "0 \<notin> set p" "n \<le> length buff"
  shows "\<exists>wire msg2. srpp_to_network rand_of msg buff key = Some (msg, wire) \<and> length wire = length buff
    \<and> network_to_srpp m0 (take n wire) (int n) key' = Some (Returns 0 msg2)
    \<and> srpp_header msg2 = (srpp_header msg)\<lparr>sh_csrc := wire_csrc rand_of (srpp_header msg)\<rparr>
    \<and> original_payload (encrypted_part msg2) = p @ trailer_bytes (encrypted_part msg)"
proof -
  obtain hb where hb: "srpp_header_bytes rand_of (srpp_header msg) = Some hb" "length hb = 80"
    "header_of_bytes hb = (srpp_header msg)\<lparr>sh_csrc := wire_csrc rand_of (srpp_header msg)\<rparr>"
    using header_bytes_cc0 assms(3) by blast
  obtain b0 bp bq bt bg r where b: "buff = b0 @ bp @ bq @ bt @ bg @ r" "length b0 = 80" "length bp = length p"
    "length bq = 0" "length bt = 8" "length bg = 4"
    using assms(7)[unfolded n_def] split_buffer[of "length p" 0 buff] by (metis add_0_right)
  obtain t ts where bt: "bt = t # ts" using b by (cases bt) auto
  let ?t = "trailer_bytes (encrypted_part msg)" and ?g = "le32 (htonl (authentication_tag msg))"
  have 1: "poke buff 0 hb = Some (hb @ bp @ bt @ bg @ r)"
    using hb b poke_exact[of 0 "[]" b0 hb] by simp
  have 2: "strcpy (hb @ bp @ bt @ bg @ r) 80 p = Some (hb @ p @ (0 # ts) @ bg @ r)"
    using strcpy_region[of 80 hb bp p t "ts @ bg @ r"] assms(6) hb(2) b by (simp add: bt str_region_id)
  have 3: "poke (hb @ p @ (0 # ts) @ bg @ r) (80 + length p) ?t = Some (hb @ p @ ?t @ bg @ r)"
    using poke_exact[of "80 + length p" "hb @ p" "0 # ts" ?t "bg @ r"] hb(2) b by (simp add: bt)
  have 4: "poke (hb @ p @ ?t @ bg @ r) (80 + length p + 8) ?g = Some (hb @ p @ ?t @ ?g @ r)"
    using poke_exact[of "80 + length p + 8" "hb @ p @ ?t" bg ?g r] hb(2) b by simp
  have s: "srpp_to_network rand_of msg buff key = Some (msg, (hb @ p @ ?t @ ?g) @ r)"
    unfolding srpp_to_network_def Let_def hb(1) using 1 2 3 4 assms(4) by (simp flip: p_def)
  let ?w = "hb @ p @ ?t @ ?g"
  have t: "take n (?w @ r) = ?w" by (simp add: n_def hb(2))
  have 5: "peek ?w 0 80 = Some hb" by (rule peek_at[of _ "[]"]) (simp_all add: hb)
  have 6: "peek ?w (int n - 4) 4 = Some ?g"
    by (rule peek_at[of _ "hb @ p @ ?t" _ "[]"]) (simp_all add: n_def hb(2))
  have 7: "peek ?w (int n - 12) 8 = Some ?t"
    by (rule peek_at[of _ "hb @ p"]) (simp_all add: n_def hb(2))
  have 8: "peek ?w 80 (length p + 8) = Some (p @ ?t)"
    by (rule peek_at[of _ hb]) (simp_all add: hb(2))
  have n: "nat (int n - 84) = length p + 8" "\<not> n < 84" by (simp_all add: n_def)
  have "\<exists>msg2. network_to_srpp m0 ?w (int n) key' = Some (Returns 0 msg2)
    \<and> srpp_header msg2 = (srpp_header msg)\<lparr>sh_csrc := wire_csrc rand_of (srpp_header msg)\<rparr>
    \<and> original_payload (encrypted_part msg2) = p @ ?t"
    unfolding network_to_srpp_def Let_def 5 6 7 Option.bind.simps
    using assms(4,5) by (simp add: hb(3) set_trailer_trailer 8 n)
  moreover have "length (?w @ r) = length buff" by (simp add: b hb(2) n_def)
  ultimately show ?thesis using s t by auto
qed

text \<open>A signalling message without padding and without zero octets in its payload is read back with the
  header it was written with, whatever the keys, but its payload has grown by eight octets: the receiver steps
  back over the authentication tag only and takes the pad count, the flags and the sequence number for payload.\<close>

theorem signalling_round_trip:
  fixes msg m0 :: SRPPMessage and buff :: "u8 list"
  defines "p \<equiv> original_payload (encrypted_part msg)"
  defines "n \<equiv> 92 + length p"
  assumes "sh_cc (srpp_header msg) = 0" "sh_srpp_signalling (srpp_header msg) \<noteq> 0"
    and "pad_count (encrypted_part msg) = 0" "0 \<notin> set p" "n \<le> length buff"
  shows "\<exists>wire msg2. srpp_to_network rand_of msg buff key = Some (msg, wire)
    \<and> network_to_srpp m0 (take n wire) (int n) key' = Some (Returns 0 msg2)
    \<and> srpp_header msg2 = (srpp_header msg)\<lparr>sh_csrc := wire_csrc rand_of (srpp_header msg)\<rparr>
    \<and> original_payload (encrypted_part msg2) = p @ trailer_bytes (encrypted_part msg)"
  using signalling_trip[of msg buff rand_of key m0 key'] assms(3-7) unfolding p_def n_def by blast

theorem signalling_round_trip_witness:
  "\<exists>wire msg2. srpp_to_network (\<lambda>s. s) (sample_msg 12 [65, 66] []) (replicate 94 255) 0 = Some (sample_msg 12 [65, 66] [], wire)
    \<and> network_to_srpp (sample_msg 3 [] []) (take 94 wire) 94 0 = Some (Returns 0 msg2)
    \<and> original_payload (encrypted_part msg2) = [65, 66, 0, 0, 0, 0, 0, 0, 9, 0]"
  using signalling_round_trip[of "sample_msg 12 [65, 66] []" "replicate 94 255" "\<lambda>s. s" 0 "sample_msg 3 [] []" 0]
  by (auto simp: sample_msg_def new_SRPPMessage_def htons_15_cc trailer_bytes_def le32_def le16_def)

text \<open>C34. When a payload octet equals the low octet of the key, the encrypted payload contains a zero octet and
  \<open>strcpy\<close> stops there: every later payload position of the packet holds what the (uninitialised) buffer held
  before the call, not the payload.\<close>

theorem payload_after_zero_not_sent:
  fixes msg :: SRPPMessage and k :: u32 and buff :: "u8 list"
  defines "m \<equiv> srpp_encrypt k msg"
  defines "p \<equiv> original_payload (encrypted_part msg)" and "q \<equiv> srpp_padding (encrypted_part msg)"
  assumes "sh_cc (srpp_header msg) = 0" "sh_srpp_signalling (srpp_header msg) = 0" "0 < sint k"
    and "pad_count (encrypted_part msg) = of_nat (length q)" "0 < length q" "length q \<le> 1500"
    and "92 + length p + length q \<le> length buff" and "i < j" "j < length p" "p ! i = ucast k"
  shows "\<exists>wire. srpp_to_network rand_of m buff (sint k) = Some (m, wire) \<and> wire ! (80 + j) = buff ! (80 + j)"
proof -
  let ?x = "map (\<lambda>c. c XOR ucast k)"
  obtain hb where hb: "srpp_header_bytes rand_of (srpp_header msg) = Some hb" "length hb = 80"
    using header_bytes_cc0 assms(4) by blast
  obtain b0 bp bq bt bg r where b: "buff = b0 @ bp @ bq @ bt @ bg @ r" "length b0 = 80" "length bp = length p"
    "length bq = length q" "length bt = 8" "length bg = 4"
    using assms(10) split_buffer[of "length p" "length q" buff] by blast
  have sel: "srpp_header m = srpp_header msg" "authentication_tag m = authentication_tag msg"
    "original_payload (encrypted_part m) = ?x p" "srpp_padding (encrypted_part m) = ?x q"
    "pad_count (encrypted_part m) XOR k = of_nat (length q)"
    using assms(7) by (simp_all add: srpp_encrypt_def Let_def p_def q_def m_def)
  have u: "unat (of_nat (length q) :: u32) = length q" using assms(9) by (simp add: unsigned_of_nat take_bit_nat_eq_self)
  have 1: "srpp_to_network rand_of m buff (sint k) = Some (m, hb @ str_region (?x p) bp @ str_region (?x q) bq
      @ trailer_bytes (encrypted_part m) @ le32 (htonl (authentication_tag msg)) @ r)"
    using srpp_to_network_media[of rand_of m hb k b0 bp bq bt bg r] hb(1,2) b assms(5,6,8) u
    by (simp add: sel)
  have z: "?x p ! i = 0" using assms(11,12,13) by simp
  have l: "length (c_str (?x p)) \<le> i" 
    unfolding c_str_def using z assms(11,12) 
    by (metis (mono_tags, lifting) length_map less_trans not_le nth_mem takeWhile_nth set_takeWhileD)
  have "str_region (?x p) bp ! j = bp ! j"
    using l assms(11,12) b(3) by (simp add: str_region_def nth_append nth_Cons')
  then show ?thesis using 1 assms(11,12) hb(2) b(1,2,3) by (auto simp: nth_append)
qed

theorem payload_after_zero_not_sent_witness:
  "\<exists>wire. srpp_to_network (\<lambda>s. s) (srpp_encrypt 1655 (sample_msg 0 [1, 119, 2] [7])) (replicate 96 255) 1655
      = Some (srpp_encrypt 1655 (sample_msg 0 [1, 119, 2] [7]), wire) \<and> wire ! 82 = 255"
  using payload_after_zero_not_sent[of "sample_msg 0 [1, 119, 2] [7]" 1655 "replicate 96 255" 1 2 "\<lambda>s. s"]
  by (simp add: sample_msg_def new_SRPPMessage_def htons_15_cc)

end
