(* ===== verification/Srpp_State.thy ===== *)
theory Srpp_State
  imports Srpp_Message
begin

text \<open>
  The state of libSRPP and the operations all its parts share: the global variables of
  \<open>SRPP_functions.cpp\<close> and \<open>Padding_Algorithms.cpp\<close>, the session of \<open>SRPPSession.hpp\<close>, the
  static members of the timer, the flags of the signalling state machine, and the dummy cache; the pseudo-random
  numbers, construction, encryption and sending of messages.

  What comes from outside the program is a parameter, the record \<open>env\<close>: the time of day at each
  reading, the C library's generator (\<open>rand()\<close> has 31 bits), the contents of memory that was
  never written, and the status the network reports for a datagram. \<open>sent\<close> is the list of the
  datagrams handed to the network or to the send functor, oldest first, \<open>sent_at\<close> the value of
  \<open>lastSequenceNo\<close> at each of them, and \<open>inbox\<close> the datagrams still to arrive with the port they come from.

  Counters of messages have the 32 bits of \<open>int\<close> and wrap.
\<close>

section \<open>Environment and state\<close>

record env =
  rand_after :: "u32 \<Rightarrow> 31 word"
  clock :: "nat \<Rightarrow> u32"
  heap :: "nat \<Rightarrow> u8"
  stack :: "nat \<Rightarrow> u8"
  junk :: "nat \<Rightarrow> u32"
  send_status :: "u8 list \<Rightarrow> int"

record SRPPTimer =
  packet_counter :: int
  silence_counter :: int
  packet_interval :: int
  silence_interval :: int
  packet_ON :: bool
  silence_ON :: bool

record SRPPSession =
  receiverIP :: "u8 list"
  receiverPort :: int
  myPort :: int
  encryption_key :: u32
  ses_maxpacketsize :: int
  sin_port :: u16

record PaddingAlgos =
  is_full_bandwidth :: int
  gradual_ascent_bandwidth :: int
  is_burst_padding :: int
  is_min_bin_padding :: int
  is_small_perturbation :: int
  lastmaxbandwidth :: int
  cbp_packet_count :: int

record SignalingFunctions =
  hellosent :: int
  hellorecvd :: int
  helloacksent :: int
  helloackrecvd :: int
  byesent :: int
  byerecvd :: int
  byeacksent :: int
  byeackrecvd :: int
  signaling_complete :: int
  session_complete :: int

record srpp =
  ticks :: nat
  lastSequenceNo :: u32
  maxpacketsize :: int
  srppssrc :: u32
  rtpSequenceNo :: u32
  nonsrpp_message_count :: int
  packet_to_send :: int
  srpp_enabled :: int
  signaling_by_srpp :: int
  session :: SRPPSession
  timer :: SRPPTimer
  algos :: PaddingAlgos
  signals :: SignalingFunctions
  dummy_cache :: "SRPPMessage list"
  sent :: "u8 list list"
  sent_at :: "u32 list"
  inbox :: "(u16 \<times> u8 list) list"

section \<open>Constants\<close>

definition MAXPAYLOADSIZE :: int where "MAXPAYLOADSIZE = 1464"
definition PACKET_INTERVAL_TIME :: int where "PACKET_INTERVAL_TIME = 300"
definition SILENCE_INTERVAL_TIME :: int where "SILENCE_INTERVAL_TIME = 400"
definition max_nonsrpp_messages :: int where "max_nonsrpp_messages = 1000"

section \<open>Pseudo-random numbers\<close>

text \<open>Every call reads the clock, seeds the generator with it and takes one number; the remainder
  of a non-negative number has the sign of the dividend, whatever the sign of \<open>max\<close>.\<close>

definition srpp_rand :: "env \<Rightarrow> int \<Rightarrow> int \<Rightarrow> 'd srpp_scheme \<Rightarrow> int \<times> 'd srpp_scheme" where
  "srpp_rand e mn mx s =
    (if mx = 0 then (0, s)
     else (uint (rand_after e (clock e (ticks s))) mod \<bar>mx\<bar> + mn, s\<lparr>ticks := ticks s + 1\<rparr>))"

section \<open>Messages\<close>

definition construct_message :: "env \<Rightarrow> 'd srpp_scheme \<Rightarrow> SRPPMessage \<times> 'd srpp_scheme" where
  "construct_message e s =
    (let n = lastSequenceNo s + 1 in
     (new_SRPPMessage (ucast n) (clock e (ticks s)) (srppssrc s) (junk e (ticks s)),
      s\<lparr>lastSequenceNo := n, ticks := ticks s + 1\<rparr>))"

definition create_srpp_message :: "env \<Rightarrow> u8 list \<Rightarrow> 'd srpp_scheme \<Rightarrow> SRPPMessage \<times> 'd srpp_scheme" where
  "create_srpp_message e data s =
    (let (m, s) = construct_message e s in
     (if data \<noteq> [] then m\<lparr>encrypted_part := (encrypted_part m)\<lparr>original_payload := data\<rparr>\<rparr> else m, s))"

text \<open>\<open>2^15\<close> is 13.\<close>

definition encrypt_srpp :: "env \<Rightarrow> SRPPMessage \<Rightarrow> 'd srpp_scheme \<Rightarrow> SRPPMessage \<times> 'd srpp_scheme" where
  "encrypt_srpp e m s =
    (let (val, s) = srpp_rand e 0 (2 XOR 15) s;
         val = val OR 1;
         m = m\<lparr>encrypted_part := (encrypted_part m)
               \<lparr>dummy_flag := dummy_flag (encrypted_part m) AND word_of_int val\<rparr>\<rparr>
     in (srpp_encrypt (encryption_key (session s)) m, s))"

definition create_and_encrypt_srpp :: "env \<Rightarrow> u8 list \<Rightarrow> 'd srpp_scheme \<Rightarrow> SRPPMessage \<times> 'd srpp_scheme" where
  "create_and_encrypt_srpp e data s =
    (let (m, s) = construct_message e s;
         m = (if data \<noteq> [] then m\<lparr>encrypted_part := (encrypted_part m)\<lparr>original_payload := data\<rparr>\<rparr> else m)
     in encrypt_srpp e m s)"

definition decrypt_srpp :: "SRPPMessage \<Rightarrow> 'd srpp_scheme \<Rightarrow> SRPPMessage" where
  "decrypt_srpp m s =
    (let m = srpp_decrypt (encryption_key (session s)) m in
     m\<lparr>encrypted_part := (encrypted_part m)\<lparr>dummy_flag := dummy_flag (encrypted_part m) AND 1\<rparr>\<rparr>)"

text \<open>Whether a message, or a packet as it is in a buffer, is a signalling message: 1 for yes, -1
  for no, 0 when payload type and signalling field contradict each other.\<close>

definition signalling_kind :: "u32 \<Rightarrow> 7 word \<Rightarrow> int" where
  "signalling_kind signalling pt =
    (if signalling = 0 \<and> pt \<noteq> 124 then -1 else if signalling \<noteq> 0 \<and> pt = 124 then 1 else 0)"

definition isSignalingMessage :: "SRPPMessage \<Rightarrow> int" where
  "isSignalingMessage m = signalling_kind (sh_srpp_signalling (srpp_header m)) (sh_pt (srpp_header m))"

definition isSignalingMessage_buff :: "u8 list \<Rightarrow> int option" where
  "isSignalingMessage_buff buff1 = do {
     hb \<leftarrow> peek buff1 0 80;
     Some (signalling_kind (of_le32 (drop 76 hb)) (ucast (drop_bit 8 (of_le16 hb)))) }"

section \<open>Sending\<close>

text \<open>\<open>new char[size]\<close> is not initialised. A message without payload is not sent.\<close>

definition send_message :: "env \<Rightarrow> SRPPMessage \<Rightarrow> 'd srpp_scheme \<Rightarrow> (int \<times> 'd srpp_scheme) option" where
  "send_message e m s =
    (let ep = encrypted_part m in
     if length (original_payload ep) = 0 then Some (0, s)
     else do {
       let size = 80 + length (original_payload ep) + length (srpp_padding ep) + 12;
       let buff = map (heap e) [0..<size];
       (m, buff) \<leftarrow> srpp_to_network (\<lambda>t. ucast (rand_after e t)) m buff
          (if isSignalingMessage m = 1 then 0 else sint (encryption_key (session s)));
       Some (send_status e buff, s\<lparr>sent := sent s @ [buff], sent_at := sent_at s @ [lastSequenceNo s], packet_to_send := 0\<rparr>) })"

section \<open>Session, timers and options\<close>

definition setKey :: "int \<Rightarrow> 'd srpp_scheme \<Rightarrow> 'd srpp_scheme" where
  "setKey key s = s\<lparr>session := (session s)\<lparr>encryption_key := word_of_int key\<rparr>\<rparr>"

definition getKey :: "'d srpp_scheme \<Rightarrow> int" where
  "getKey s = sint (encryption_key (session s))"

definition reset_packet :: "'d srpp_scheme \<Rightarrow> 'd srpp_scheme" where
  "reset_packet s = s\<lparr>timer := (timer s)\<lparr>packet_counter := 0\<rparr>\<rparr>"

definition reset_silence :: "'d srpp_scheme \<Rightarrow> 'd srpp_scheme" where
  "reset_silence s = s\<lparr>timer := (timer s)\<lparr>silence_counter := 0\<rparr>\<rparr>"

definition start_packet :: "'d srpp_scheme \<Rightarrow> 'd srpp_scheme" where
  "start_packet s = s\<lparr>timer := (timer s)\<lparr>packet_ON := True\<rparr>\<rparr>"

definition start_silence :: "'d srpp_scheme \<Rightarrow> 'd srpp_scheme" where
  "start_silence s = s\<lparr>timer := (timer s)\<lparr>silence_ON := True\<rparr>\<rparr>"

definition pause_packet :: "'d srpp_scheme \<Rightarrow> 'd srpp_scheme" where
  "pause_packet s = s\<lparr>timer := (timer s)\<lparr>packet_ON := False\<rparr>\<rparr>"

definition pause_silence :: "'d srpp_scheme \<Rightarrow> 'd srpp_scheme" where
  "pause_silence s = s\<lparr>timer := (timer s)\<lparr>silence_ON := False\<rparr>\<rparr>"

definition pauseTimer :: "'d srpp_scheme \<Rightarrow> 'd srpp_scheme" where
  "pauseTimer s = s\<lparr>timer := (timer s)\<lparr>packet_ON := False, silence_ON := False\<rparr>\<rparr>"

definition startTimer :: "'d srpp_scheme \<Rightarrow> 'd srpp_scheme" where
  "startTimer s = s\<lparr>timer := (timer s)\<lparr>packet_ON := True, silence_ON := True\<rparr>\<rparr>"

definition setPacketTimer :: "int \<Rightarrow> 'd srpp_scheme \<Rightarrow> 'd srpp_scheme" where
  "setPacketTimer i s = s\<lparr>timer := (timer s)\<lparr>packet_interval := i\<rparr>\<rparr>"

definition setSilenceTimer :: "int \<Rightarrow> 'd srpp_scheme \<Rightarrow> 'd srpp_scheme" where
  "setSilenceTimer i s = s\<lparr>timer := (timer s)\<lparr>silence_interval := i\<rparr>\<rparr>"

text \<open>The constructor of \<open>SRPPTimer\<close> sets the intervals; the interval timer of the operating
  system that it starts calls \<open>timer_fired\<close> every millisecond.\<close>

definition new_SRPPTimer :: "int \<Rightarrow> int \<Rightarrow> 'd srpp_scheme \<Rightarrow> 'd srpp_scheme" where
  "new_SRPPTimer p q s = setSilenceTimer q (setPacketTimer p s)"

definition new_SRPPSession :: "u8 list \<Rightarrow> int \<Rightarrow> int \<Rightarrow> int \<Rightarrow> int \<Rightarrow> 'd srpp_scheme \<Rightarrow> 'd srpp_scheme" where
  "new_SRPPSession ip port my p q s =
    (new_SRPPTimer p q s)\<lparr>session := (session s)
       \<lparr>receiverIP := ip, receiverPort := port, myPort := my, encryption_key := 1655,
        ses_maxpacketsize := MAXPAYLOADSIZE\<rparr>\<rparr>"

definition create_session :: "u8 list \<Rightarrow> int \<Rightarrow> 'd srpp_scheme \<Rightarrow> 'd srpp_scheme" where
  "create_session address port s =
     new_SRPPSession address port port PACKET_INTERVAL_TIME SILENCE_INTERVAL_TIME s"

definition session_start :: "'d srpp_scheme \<Rightarrow> 'd srpp_scheme" where
  "session_start s = start_silence (start_packet s)"

definition session_stop :: "'d srpp_scheme \<Rightarrow> 'd srpp_scheme" where
  "session_stop s = pauseTimer s"

definition set_starting_sequenceno :: "int \<Rightarrow> 'd srpp_scheme \<Rightarrow> 'd srpp_scheme" where
  "set_starting_sequenceno n s = s\<lparr>lastSequenceNo := word_of_int n\<rparr>"

definition set_packet_to_send :: "'d srpp_scheme \<Rightarrow> 'd srpp_scheme" where
  "set_packet_to_send s = s\<lparr>packet_to_send := 1\<rparr>"

definition disable_srpp :: "'d srpp_scheme \<Rightarrow> 'd srpp_scheme" where
  "disable_srpp s = s\<lparr>srpp_enabled := 0\<rparr>"

definition enable_srpp :: "'d srpp_scheme \<Rightarrow> 'd srpp_scheme" where
  "enable_srpp s = s\<lparr>srpp_enabled := 1\<rparr>"

text \<open>The state at program start, before any constructor of a class has run: \<open>srppssrc\<close> is
  computed from the clock, and \<open>PaddingFunctions\<close> fills the cache later.\<close>

definition no_signals :: SignalingFunctions where
  "no_signals = \<lparr>hellosent = 0, hellorecvd = 0, helloacksent = 0, helloackrecvd = 0, byesent = 0,
     byerecvd = 0, byeacksent = 0, byeackrecvd = 0, signaling_complete = 0, session_complete = 0\<rparr>"

definition no_padding_options :: PaddingAlgos where
  "no_padding_options = \<lparr>is_full_bandwidth = 0, gradual_ascent_bandwidth = 0, is_burst_padding = 0,
     is_min_bin_padding = 0, is_small_perturbation = 0, lastmaxbandwidth = 100, cbp_packet_count = 0\<rparr>"

definition timer_off :: SRPPTimer where
  "timer_off = \<lparr>packet_counter = 0, silence_counter = 0, packet_interval = 0, silence_interval = 0,
     packet_ON = False, silence_ON = False\<rparr>"

section \<open>Facts on the shared operations\<close>

lemma srpp_rand_range:
  assumes "0 < mx"
  shows "mn \<le> fst (srpp_rand e mn mx s)" "fst (srpp_rand e mn mx s) < mn + mx"
  using assms by (simp_all add: srpp_rand_def)

text \<open>A call of \<^const>\<open>srpp_rand\<close> changes nothing but the clock.\<close>

lemma srpp_rand_state: "\<exists>n. snd (srpp_rand e mn mx s) = s\<lparr>ticks := n\<rparr>"
  by (cases "mx = 0") (auto simp: srpp_rand_def intro: exI[of _ "ticks s"])

lemma encrypt_srpp_fst:
  obtains v :: "15 word" where "bit v 0"
    "fst (encrypt_srpp e m s) = srpp_encrypt (encryption_key (session s))
       (m\<lparr>encrypted_part := (encrypted_part m)\<lparr>dummy_flag := dummy_flag (encrypted_part m) AND v\<rparr>\<rparr>)"
proof
  let ?r = "srpp_rand e 0 (2 XOR 15) s"
  show "bit (word_of_int (fst ?r OR 1) :: 15 word) 0"
    by (simp add: bit_simps)
  obtain n where "snd ?r = s\<lparr>ticks := n\<rparr>" using srpp_rand_state by blast
  then show "fst (encrypt_srpp e m s) = srpp_encrypt (encryption_key (session s))
       (m\<lparr>encrypted_part := (encrypted_part m)\<lparr>dummy_flag := dummy_flag (encrypted_part m) AND word_of_int (fst ?r OR 1)\<rparr>\<rparr>)"
    by (simp add: encrypt_srpp_def Let_def split_beta)
qed

lemma encrypt_srpp_state: "\<exists>n. snd (encrypt_srpp e m s) = s\<lparr>ticks := n\<rparr>"
  using srpp_rand_state[of e 0 "2 XOR 15" s] by (simp add: encrypt_srpp_def Let_def split_beta)

end
