(* ===== verification/Srpp_Padding.thy ===== *)
theory Srpp_Padding
  imports Srpp_State
begin

text \<open>
  Padding (\<open>src/libSRPP/src/Padding_functions.cpp\<close> and \<open>Padding_Algorithms.cpp\<close>): the cache of
  dummy messages, packet size padding, dummy packets, and the algorithms that the timers call.

  \<open>generate_dummy_data\<close> copies octets from the \<open>vector\<close> object of a cached message and the
  memory behind it, not from the payload the vector manages; that memory is \<^const>\<open>stack\<close>. Its loop
  is a partial function: \<^const>\<open>None\<close> there is that the loop never ends. The two calls of
  \<open>srpp_rand\<close> in one expression, whose order C++ leaves open, are taken from left to right. The
  single-precision arithmetic of the gradual ascent is computed exactly.
\<close>

section \<open>The dummy cache\<close>

definition MAXDUMMYCACHESIZE :: int where "MAXDUMMYCACHESIZE = 99"

definition random_octet :: "env \<Rightarrow> 'd srpp_scheme \<Rightarrow> u8 \<times> 'd srpp_scheme" where
  "random_octet e s =
    (let (a, s) = srpp_rand e 1 255 s; (b, s) = srpp_rand e 0 65536 s in (word_of_int (a XOR b), s))"

primrec random_octets :: "env \<Rightarrow> nat \<Rightarrow> 'd srpp_scheme \<Rightarrow> u8 list \<times> 'd srpp_scheme" where
  "random_octets e 0 s = ([], s)"
| "random_octets e (Suc n) s =
    (let (c, s) = random_octet e s; (cs, s) = random_octets e n s in (c # cs, s))"

text \<open>One round of the constructor's loop, and the constructor.\<close>

definition fill_dummy :: "env \<Rightarrow> nat \<Rightarrow> 'd srpp_scheme \<Rightarrow> 'd srpp_scheme" where
  "fill_dummy e i s =
    (let (m, s) = construct_message e s;
         (thisdummysize, s) = srpp_rand e 1 (maxpacketsize s) s;
         (payload, s) = random_octets e (nat thisdummysize) s;
         m = m\<lparr>encrypted_part := (encrypted_part m)\<lparr>original_payload := payload, dummy_flag := 1\<rparr>\<rparr>
     in s\<lparr>dummy_cache := (dummy_cache s)[i := m]\<rparr>)"

definition new_PaddingFunctions :: "env \<Rightarrow> 'd srpp_scheme \<Rightarrow> 'd srpp_scheme" where
  "new_PaddingFunctions e s = fold (fill_dummy e) [0..<nat MAXDUMMYCACHESIZE] s"

definition init_SRPP :: "env \<Rightarrow> 'd srpp_scheme \<Rightarrow> 'd srpp_scheme" where
  "init_SRPP e s = new_PaddingFunctions e s"

section \<open>Dummy data and dummy packets\<close>

partial_function (option) dummy_data_loop :: "env \<Rightarrow> int \<Rightarrow> int \<Rightarrow> int \<Rightarrow> u8 list \<Rightarrow> u8 list option" where
  "dummy_data_loop e payload_size sz size_recvd return_str =
    (if size_recvd < sz
     then dummy_data_loop e payload_size sz (size_recvd + min payload_size (sz - size_recvd))
            (return_str @ map (stack e) [0..<nat (min payload_size (sz - size_recvd))])
     else Some return_str)"

definition generate_dummy_data :: "env \<Rightarrow> int \<Rightarrow> 'd srpp_scheme \<Rightarrow> (u8 list \<times> 'd srpp_scheme) option" where
  "generate_dummy_data e sz s =
    (let (dummy_index, s) = srpp_rand e 0 MAXDUMMYCACHESIZE s;
         (_, s) = construct_message e s;
         payload = original_payload (encrypted_part (dummy_cache s ! nat dummy_index)) in
     do { str \<leftarrow> dummy_data_loop e (int (length payload)) sz 0 []; Some (str, s) })"

definition cut_payload :: "nat \<Rightarrow> SRPPMessage \<Rightarrow> SRPPMessage" where
  "cut_payload n m = m\<lparr>encrypted_part := (encrypted_part m)
     \<lparr>original_payload := take n (original_payload (encrypted_part m))\<rparr>\<rparr>"

definition cut_padding :: "nat \<Rightarrow> SRPPMessage \<Rightarrow> SRPPMessage" where
  "cut_padding n m = m\<lparr>encrypted_part := (encrypted_part m)
     \<lparr>srpp_padding := take n (srpp_padding (encrypted_part m))\<rparr>\<rparr>"

definition set_pad_count :: "int \<Rightarrow> SRPPMessage \<Rightarrow> SRPPMessage" where
  "set_pad_count n m = m\<lparr>encrypted_part := (encrypted_part m)\<lparr>pad_count := word_of_int n\<rparr>\<rparr>"

definition set_seq :: "u32 \<Rightarrow> SRPPMessage \<Rightarrow> SRPPMessage" where
  "set_seq n m = m\<lparr>srpp_header := (srpp_header m)\<lparr>sh_seq := ucast n\<rparr>\<rparr>"

text \<open>\<open>0.8 * n\<close> truncated is \<open>4 * n div 5\<close>.\<close>

definition generate_dummy_pkt :: "env \<Rightarrow> 'd srpp_scheme \<Rightarrow> SRPPMessage \<times> 'd srpp_scheme" where
  "generate_dummy_pkt e s =
    (let (dummy_index, s) = srpp_rand e 0 MAXDUMMYCACHESIZE s;
         i = nat dummy_index;
         m = set_seq (lastSequenceNo s) (dummy_cache s ! i);
         pay_size = length (original_payload (encrypted_part m));
         pad_size = length (srpp_padding (encrypted_part m));
         m = (if pay_size + pad_size > 1200
              then cut_padding (4 * pad_size div 5) (cut_payload (4 * pay_size div 5) m) else m)
     in (m, s\<lparr>lastSequenceNo := lastSequenceNo s + 1, dummy_cache := (dummy_cache s)[i := m]\<rparr>))"

definition generate_dummy_pkt_size :: "env \<Rightarrow> int \<Rightarrow> 'd srpp_scheme \<Rightarrow> (SRPPMessage \<times> 'd srpp_scheme) option" where
  "generate_dummy_pkt_size e sz s =
    (let (dummy_index, s) = srpp_rand e 0 MAXDUMMYCACHESIZE s;
         i = nat dummy_index;
         m = set_seq (lastSequenceNo s) (dummy_cache s ! i);
         pay_size = int (length (original_payload (encrypted_part m)));
         pad_size = int (length (srpp_padding (encrypted_part m))) in
     do {
       m \<leftarrow> (if pay_size > sz
             then if sz < 0 then None
                  else Some (set_pad_count 0 (cut_padding 0 (cut_payload (nat sz) m)))
             else if pad_size > sz - pay_size
             then Some (set_pad_count (sz - pay_size) (cut_padding (nat (sz - pay_size)) m))
             else Some m);
       Some (m, s\<lparr>lastSequenceNo := lastSequenceNo s + 1, dummy_cache := (dummy_cache s)[i := m]\<rparr>) })"

primrec xor_octets :: "env \<Rightarrow> u8 list \<Rightarrow> 'd srpp_scheme \<Rightarrow> u8 list \<times> 'd srpp_scheme" where
  "xor_octets e [] s = ([], s)"
| "xor_octets e (c # cs) s =
    (let (r, s) = srpp_rand e 0 65536 s; (ds, s) = xor_octets e cs s in ((c XOR word_of_int r) # ds, s))"

definition add_to_dummy_cache :: "env \<Rightarrow> SRPPMessage \<Rightarrow> 'd srpp_scheme \<Rightarrow> 'd srpp_scheme" where
  "add_to_dummy_cache e m s =
    (let (dummy_index, s) = srpp_rand e 0 MAXDUMMYCACHESIZE s;
         (thisdummysize, s) = srpp_rand e 1 500 s;
         payload = original_payload (encrypted_part m);
         (xored, s) = xor_octets e payload s;
         (more, s) = random_octets e (nat thisdummysize - length payload) s;
         m = m\<lparr>encrypted_part := (encrypted_part m)\<lparr>original_payload := xored @ more, dummy_flag := 1\<rparr>\<rparr>
     in s\<lparr>dummy_cache := (dummy_cache s)[nat dummy_index := m]\<rparr>)"

section \<open>Single-precision scaling\<close>

text \<open>A quotient of at least 1 rounded to 24 significant bits, again as a quotient.\<close>

definition to_float :: "nat \<times> nat \<Rightarrow> nat \<times> nat" where
  "to_float x = (let sh = 24 - binary_digits (fst x div snd x) in
     (round_even (fst x * 2 ^ sh) (snd x), 2 ^ sh))"

text \<open>\<open>(int) (pay_size * (m / l))\<close> in single precision, for \<open>1 \<le> l \<le> m\<close>.\<close>

definition float_scale :: "nat \<Rightarrow> nat \<Rightarrow> nat \<Rightarrow> nat" where
  "float_scale pay_size m l =
    (let (a, b) = to_float (m, l); (c, d) = to_float (pay_size * a, b) in c div d)"

section \<open>Padding algorithms\<close>

definition set_options :: "int \<Rightarrow> 'd srpp_scheme \<Rightarrow> 'd srpp_scheme" where
  "set_options i s = s\<lparr>algos :=
    (if i = 1 then (algos s)\<lparr>is_full_bandwidth := 1\<rparr>
     else if i = 2 then (algos s)\<lparr>is_burst_padding := 1\<rparr>
     else if i = 3 then (algos s)\<lparr>gradual_ascent_bandwidth := 1\<rparr>
     else if i = 4 then (algos s)\<lparr>is_min_bin_padding := 1\<rparr>
     else if i = 5 then (algos s)\<lparr>is_small_perturbation := 1\<rparr>
     else algos s)\<rparr>"

definition set_padding_options :: "int \<Rightarrow> 'd srpp_scheme \<Rightarrow> 'd srpp_scheme" where
  "set_padding_options i s = set_options i s"

definition set_full_bandwidth :: "'d srpp_scheme \<Rightarrow> 'd srpp_scheme" where "set_full_bandwidth s = set_padding_options 1 s"
definition set_burst_padding :: "'d srpp_scheme \<Rightarrow> 'd srpp_scheme" where "set_burst_padding s = set_padding_options 2 s"
definition set_gradual_ascent :: "'d srpp_scheme \<Rightarrow> 'd srpp_scheme" where "set_gradual_ascent s = set_padding_options 3 s"
definition set_min_prob_bin :: "'d srpp_scheme \<Rightarrow> 'd srpp_scheme" where "set_min_prob_bin s = set_padding_options 5 s"
definition set_small_perturbation :: "'d srpp_scheme \<Rightarrow> 'd srpp_scheme" where "set_small_perturbation s = set_padding_options 5 s"

definition ascend :: "env \<Rightarrow> int \<Rightarrow> 'd srpp_scheme \<Rightarrow> 'd srpp_scheme" where
  "ascend e pay_size s =
    (if lastmaxbandwidth (algos s) < pay_size
     then let (l, s) = srpp_rand e pay_size 1366 s;
              (m, s) = srpp_rand e l 1366 s
          in s\<lparr>algos := (algos s)\<lparr>lastmaxbandwidth := int (float_scale (nat pay_size) (nat m) (nat l))\<rparr>\<rparr>
     else s)"

definition psp_extra_size :: "env \<Rightarrow> int \<Rightarrow> 'd srpp_scheme \<Rightarrow> int \<times> 'd srpp_scheme" where
  "psp_extra_size e pay_size s =
    (let extra_size = 1366 - pay_size;
         (extra_size, s) = (if is_full_bandwidth (algos s) = 0 then srpp_rand e 1 extra_size s else (extra_size, s));
         (extra_size, s) =
           (if gradual_ascent_bandwidth (algos s) = 1
            then let s = ascend e pay_size s in srpp_rand e 1 (lastmaxbandwidth (algos s) - pay_size) s
            else (extra_size, s))
     in if is_small_perturbation (algos s) = 1 \<or> is_burst_padding (algos s) = 1
        then srpp_rand e 0 10 s else (extra_size, s))"

definition default_psp_pad_algo :: "env \<Rightarrow> SRPPMessage \<Rightarrow> 'd srpp_scheme \<Rightarrow> (SRPPMessage \<times> 'd srpp_scheme) option" where
  "default_psp_pad_algo e m s =
    (let pay_size = int (length (original_payload (encrypted_part m)));
         (extra_size, s) = psp_extra_size e pay_size s in
     do {
       (status, s) \<leftarrow> generate_dummy_data e extra_size s;
       let m = m\<lparr>encrypted_part := (encrypted_part m)
                 \<lparr>srpp_padding := status, pad_count := word_of_int extra_size\<rparr>\<rparr>;
       Some (m, reset_silence (reset_packet s)) })"

text \<open>The main padding function.\<close>

definition pad :: "env \<Rightarrow> SRPPMessage \<Rightarrow> 'd srpp_scheme \<Rightarrow> (SRPPMessage \<times> 'd srpp_scheme) option" where
  "pad e m s = do {
     (m, s) \<leftarrow> default_psp_pad_algo e m s;
     let m = m\<lparr>encrypted_part := (encrypted_part m)\<lparr>dummy_flag := 0\<rparr>\<rparr>;
     let (coin, s) = srpp_rand e 0 10 s;
     Some (m, if coin \<le> 5 then add_to_dummy_cache e m s else s) }"

definition unpad :: "SRPPMessage \<Rightarrow> int \<times> SRPPMessage" where
  "unpad m =
    (if dummy_flag (encrypted_part m) = 1 then (-1, m)
     else (1, m\<lparr>encrypted_part := (encrypted_part m)\<lparr>srpp_padding := [], pad_count := 0\<rparr>\<rparr>))"

primrec cbp_loop :: "env \<Rightarrow> nat \<Rightarrow> 'd srpp_scheme \<Rightarrow> 'd srpp_scheme option" where
  "cbp_loop e 0 s = Some s"
| "cbp_loop e (Suc n) s =
    (let (dummy_size, s) = srpp_rand e 100 (lastmaxbandwidth (algos s)) s in
     do {
       (m, s) \<leftarrow> generate_dummy_pkt_size e dummy_size s;
       let (m, s) = encrypt_srpp e m s;
       s \<leftarrow> (if packet_to_send s = 0 then do { (_, s) \<leftarrow> send_message e m s; Some s }
            else Some (s\<lparr>packet_to_send := 0\<rparr>));
       cbp_loop e n (reset_silence (reset_packet s)) })"

definition default_cbp_pad_algo :: "env \<Rightarrow> 'd srpp_scheme \<Rightarrow> 'd srpp_scheme option" where
  "default_cbp_pad_algo e s =
    (if is_burst_padding (algos s) = 0 then Some s
     else let (calculated_burst_dummies, s) = srpp_rand e 0 3 s in
       do {
         s \<leftarrow> cbp_loop e (nat calculated_burst_dummies) s;
         Some (reset_packet (s\<lparr>algos := (algos s)\<lparr>cbp_packet_count := calculated_burst_dummies + 1\<rparr>\<rparr>)) })"

definition default_ebp_pad_algo :: "env \<Rightarrow> 'd srpp_scheme \<Rightarrow> 'd srpp_scheme option" where
  "default_ebp_pad_algo e s =
    (if is_burst_padding (algos s) = 0 then Some s
     else let (dummy_size, s) = srpp_rand e 100 (lastmaxbandwidth (algos s)) s in
       do {
         (m, s) \<leftarrow> generate_dummy_pkt_size e dummy_size s;
         let (m, s) = encrypt_srpp e m s;
         (_, s) \<leftarrow> send_message e m s;
         Some s })"

section \<open>What the random operations leave alone\<close>

lemma srpp_rand_sel [simp]:
  "dummy_cache (snd (srpp_rand e a b s)) = dummy_cache s" "algos (snd (srpp_rand e a b s)) = algos s"
  "session (snd (srpp_rand e a b s)) = session s" "sent (snd (srpp_rand e a b s)) = sent s" "sent_at (snd (srpp_rand e a b s)) = sent_at s"
  "packet_to_send (snd (srpp_rand e a b s)) = packet_to_send s" "timer (snd (srpp_rand e a b s)) = timer s"
  "lastSequenceNo (snd (srpp_rand e a b s)) = lastSequenceNo s" "maxpacketsize (snd (srpp_rand e a b s)) = maxpacketsize s"
  by (simp_all add: srpp_rand_def)

lemma construct_message_sel [simp]:
  "dummy_cache (snd (construct_message e s)) = dummy_cache s" "algos (snd (construct_message e s)) = algos s"
  "session (snd (construct_message e s)) = session s" "sent (snd (construct_message e s)) = sent s" "sent_at (snd (construct_message e s)) = sent_at s"
  "packet_to_send (snd (construct_message e s)) = packet_to_send s" "timer (snd (construct_message e s)) = timer s"
  "maxpacketsize (snd (construct_message e s)) = maxpacketsize s"
  by (simp_all add: construct_message_def Let_def)

lemma encrypt_srpp_sel [simp]:
  "dummy_cache (snd (encrypt_srpp e m s)) = dummy_cache s" "algos (snd (encrypt_srpp e m s)) = algos s"
  "session (snd (encrypt_srpp e m s)) = session s" "sent (snd (encrypt_srpp e m s)) = sent s" "sent_at (snd (encrypt_srpp e m s)) = sent_at s"
  "packet_to_send (snd (encrypt_srpp e m s)) = packet_to_send s" "timer (snd (encrypt_srpp e m s)) = timer s"
  "lastSequenceNo (snd (encrypt_srpp e m s)) = lastSequenceNo s" "maxpacketsize (snd (encrypt_srpp e m s)) = maxpacketsize s"
  by (simp_all add: encrypt_srpp_def Let_def split_beta)

lemma reset_sel [simp]:
  "dummy_cache (reset_packet s) = dummy_cache s" "algos (reset_packet s) = algos s"
  "session (reset_packet s) = session s" "sent (reset_packet s) = sent s" "sent_at (reset_packet s) = sent_at s"
  "packet_to_send (reset_packet s) = packet_to_send s" "lastSequenceNo (reset_packet s) = lastSequenceNo s"
  "dummy_cache (reset_silence s) = dummy_cache s" "algos (reset_silence s) = algos s"
  "session (reset_silence s) = session s" "sent (reset_silence s) = sent s" "sent_at (reset_silence s) = sent_at s"
  "packet_to_send (reset_silence s) = packet_to_send s" "lastSequenceNo (reset_silence s) = lastSequenceNo s"
  "maxpacketsize (reset_packet s) = maxpacketsize s" "maxpacketsize (reset_silence s) = maxpacketsize s"
  by (simp_all add: reset_packet_def reset_silence_def)

text \<open>A sequence of random numbers keeps every field but the clock.\<close>

lemma ticks_upd_trans:
  "t = s\<lparr>ticks := m\<rparr> \<Longrightarrow> u = t\<lparr>ticks := n\<rparr> \<Longrightarrow> \<exists>n. u = s\<lparr>ticks := n\<rparr>"
  by auto

lemma random_octet_state: "\<exists>n. snd (random_octet e s) = s\<lparr>ticks := n\<rparr>"
  using srpp_rand_state[of e 1 255 s] srpp_rand_state[of e 0 65536 "snd (srpp_rand e 1 255 s)"]
  by (auto simp: random_octet_def split_beta)

lemma random_octets_state: "\<exists>n. snd (random_octets e k s) = s\<lparr>ticks := n\<rparr>"
proof (induction k arbitrary: s)
  case 0
  show ?case by (auto intro: exI[of _ "ticks s"])
next
  case (Suc k)
  show ?case using random_octet_state[of e s] Suc[of "snd (random_octet e s)"] by (auto simp: split_beta)
qed

lemma xor_octets_state: "\<exists>n. snd (xor_octets e cs s) = s\<lparr>ticks := n\<rparr>"
proof (induction cs arbitrary: s)
  case Nil
  show ?case by (auto intro: exI[of _ "ticks s"])
next
  case (Cons c cs)
  show ?case using srpp_rand_state[of e 0 65536 s] Cons[of "snd (srpp_rand e 0 65536 s)"] by (auto simp: split_beta)
qed

lemma length_random_octets [simp]: "length (fst (random_octets e n s)) = n"
  by (induction n arbitrary: s) (simp_all add: split_beta)

lemma length_xor_octets [simp]: "length (fst (xor_octets e cs s)) = length cs"
  by (induction cs arbitrary: s) (simp_all add: split_beta)

section \<open>Dummy data\<close>

lemma dummy_data_loop_length:
  assumes "0 < p"
  shows "\<exists>out. dummy_data_loop e p sz r str = Some out \<and> length out = length str + nat (sz - r)"
proof (induction "nat (sz - r)" arbitrary: r str rule: less_induct)
  case less
  show ?case
  proof (cases "r < sz")
    case True
    let ?k = "min p (sz - r)"
    have k: "0 < ?k" "?k \<le> sz - r" using assms True by auto
    then have "nat (sz - (r + ?k)) < nat (sz - r)" by linarith
    from less[OF this, of "str @ map (stack e) [0..<nat ?k]"]
    obtain out where out: "dummy_data_loop e p sz (r + ?k) (str @ map (stack e) [0..<nat ?k]) = Some out"
      "length out = length (str @ map (stack e) [0..<nat ?k]) + nat (sz - (r + ?k))" by blast
    have "nat ?k + nat (sz - (r + ?k)) = nat (sz - r)" using k by linarith
    then have "length out = length str + nat (sz - r)" using out(2) by simp
    then show ?thesis using out(1) True by (subst dummy_data_loop.simps) simp
  next
    case False
    then show ?thesis by (subst dummy_data_loop.simps) simp
  qed
qed

lemma dummy_data_loop_diverges:
  assumes "r < sz"
  shows "dummy_data_loop e 0 sz r str = None"
proof -
  have "p = 0 \<longrightarrow> sz \<le> r" if "dummy_data_loop e p sz r str = Some out" for p out
  proof (rule dummy_data_loop.raw_induct[OF _ that, where P = "\<lambda>e p sz r str out. p = 0 \<longrightarrow> sz \<le> r"])
    fix f e p sz r str out
    assume ih: "\<And>e p sz r str out. f e p sz r str = Some out \<Longrightarrow> p = 0 \<longrightarrow> sz \<le> r"
      and run: "(if r < sz then f e p sz (r + min p (sz - r)) (str @ map (stack e) [0..<nat (min p (sz - r))])
                 else Some str) = Some out"
    show "p = 0 \<longrightarrow> sz \<le> r" using run ih[of e p sz r] by (cases "r < sz") auto
  qed
  then show ?thesis using assms by (metis not_le not_None_eq)
qed

section \<open>The invariant of the padding state\<close>

text \<open>The entries of the cache that are in use have a payload, and as much padding as they say.\<close>

definition entry_ok :: "SRPPMessage \<Rightarrow> bool" where
  "entry_ok m \<longleftrightarrow> original_payload (encrypted_part m) \<noteq> []
     \<and> pad_count (encrypted_part m) = of_nat (length (srpp_padding (encrypted_part m)))
     \<and> length (srpp_padding (encrypted_part m)) < 2 ^ 32 \<and> sh_cc (srpp_header m) = 0"

definition padding_inv :: "'d srpp_scheme \<Rightarrow> bool" where
  "padding_inv s \<longleftrightarrow> length (dummy_cache s) = 100 \<and> (\<forall>i<99. entry_ok (dummy_cache s ! i))
     \<and> 100 \<le> lastmaxbandwidth (algos s)"

lemma padding_inv_cong:
  "dummy_cache s = dummy_cache t \<Longrightarrow> algos s = algos t \<Longrightarrow> padding_inv s \<longleftrightarrow> padding_inv t"
  by (simp add: padding_inv_def)

lemma padding_inv_update:
  fixes s t :: "'d srpp_scheme"
  assumes "padding_inv s" "entry_ok m" "dummy_cache t = (dummy_cache s)[i := m]" "algos t = algos s"
  shows "padding_inv t"
  using assms unfolding padding_inv_def
  by (cases "i < 100") (auto simp: nth_list_update list_update_beyond)

lemma dummy_index:
  "nat (fst (srpp_rand e 0 MAXDUMMYCACHESIZE s)) < 99"
  using srpp_rand_range(2)[of 99 e 0 s] by (simp add: MAXDUMMYCACHESIZE_def)

subsection \<open>The constructor\<close>

lemma fill_dummy_sel:
  shows "algos (fill_dummy e i s) = algos s" "maxpacketsize (fill_dummy e i s) = maxpacketsize s"
    "\<exists>m. dummy_cache (fill_dummy e i s) = (dummy_cache s)[i := m] \<and> dummy_flag (encrypted_part m) = 1
       \<and> srpp_padding (encrypted_part m) = [] \<and> pad_count (encrypted_part m) = 0 \<and> sh_cc (srpp_header m) = 0
       \<and> (original_payload (encrypted_part m) = [] \<longleftrightarrow> maxpacketsize s = 0)"
proof -
  let ?s1 = "snd (construct_message e s)"
  let ?r = "srpp_rand e 1 (maxpacketsize s) ?s1"
  obtain n where n: "snd (random_octets e (nat (fst ?r)) (snd ?r)) = (snd ?r)\<lparr>ticks := n\<rparr>"
    using random_octets_state by blast
  have z: "nat (fst ?r) = 0 \<longleftrightarrow> maxpacketsize s = 0"
    by (auto simp: srpp_rand_def split: if_splits) (smt (verit) pos_mod_sign zero_less_abs_iff)
  have len: "fst (random_octets e k (snd ?r)) = [] \<longleftrightarrow> k = 0" for k
    using length_random_octets[of e k "snd ?r"] by (metis length_0_conv)
  show "algos (fill_dummy e i s) = algos s" "maxpacketsize (fill_dummy e i s) = maxpacketsize s"
    by (simp_all add: fill_dummy_def Let_def split_beta n)
  show "\<exists>m. dummy_cache (fill_dummy e i s) = (dummy_cache s)[i := m] \<and> dummy_flag (encrypted_part m) = 1
       \<and> srpp_padding (encrypted_part m) = [] \<and> pad_count (encrypted_part m) = 0 \<and> sh_cc (srpp_header m) = 0
       \<and> (original_payload (encrypted_part m) = [] \<longleftrightarrow> maxpacketsize s = 0)"
  proof -
    let ?m = "fst (construct_message e s)"
    let ?m' = "?m\<lparr>encrypted_part := (encrypted_part ?m)
      \<lparr>original_payload := fst (random_octets e (nat (fst ?r)) (snd ?r)), dummy_flag := 1\<rparr>\<rparr>"
    have "dummy_cache (fill_dummy e i s) = (dummy_cache s)[i := ?m']"
      by (simp add: fill_dummy_def Let_def split_beta n)
    moreover have "srpp_padding (encrypted_part ?m) = []" "pad_count (encrypted_part ?m) = 0" "sh_cc (srpp_header ?m) = 0"
      by (simp_all add: construct_message_def Let_def new_SRPPMessage_def htons_15_cc)
    ultimately show ?thesis using z len by (intro exI[of _ ?m']) simp
  qed
qed

lemma fold_fill_dummy:
  fixes s e n
  defines "t \<equiv> fold (fill_dummy e) [0..<n] s"
  assumes "n \<le> length (dummy_cache s)"
  shows "algos t = algos s \<and> maxpacketsize t = maxpacketsize s \<and> length (dummy_cache t) = length (dummy_cache s)
    \<and> (\<forall>i<n. let m = dummy_cache t ! i in srpp_padding (encrypted_part m) = [] \<and> pad_count (encrypted_part m) = 0
         \<and> sh_cc (srpp_header m) = 0 \<and> (original_payload (encrypted_part m) = [] \<longleftrightarrow> maxpacketsize s = 0))"
  using assms(2) unfolding t_def
proof (induction n)
  case (Suc n)
  let ?t = "fold (fill_dummy e) [0..<n] s"
  have n: "n < length (dummy_cache ?t)" using Suc by auto
  obtain m where m: "dummy_cache (fill_dummy e n ?t) = (dummy_cache ?t)[n := m]"
    "srpp_padding (encrypted_part m) = []" "pad_count (encrypted_part m) = 0" "sh_cc (srpp_header m) = 0"
    "original_payload (encrypted_part m) = [] \<longleftrightarrow> maxpacketsize ?t = 0"
    using fill_dummy_sel(3)[of e n ?t] by blast
  show ?case using Suc fill_dummy_sel(1,2)[of e n ?t] m n
    by (auto simp: nth_list_update Let_def less_Suc_eq)
qed simp

lemma new_PaddingFunctions_inv:
  assumes "length (dummy_cache s) = 100" "100 \<le> lastmaxbandwidth (algos s)" "maxpacketsize s \<noteq> 0"
  shows "padding_inv (new_PaddingFunctions e s)"
  using fold_fill_dummy[of 99 s e] assms
  by (simp add: new_PaddingFunctions_def MAXDUMMYCACHESIZE_def padding_inv_def entry_ok_def Let_def)

lemma generate_dummy_data_ok:
  assumes "padding_inv s"
  obtains str t where "generate_dummy_data e sz s = Some (str, t)" "length str = nat sz"
    "dummy_cache t = dummy_cache s" "algos t = algos s" "session t = session s" "sent t = sent s"
    "packet_to_send t = packet_to_send s"
proof -
  let ?r = "srpp_rand e 0 MAXDUMMYCACHESIZE s"
  let ?p = "original_payload (encrypted_part (dummy_cache s ! nat (fst ?r)))"
  have "0 < int (length ?p)" using assms dummy_index[of e s] by (auto simp: padding_inv_def entry_ok_def)
  from dummy_data_loop_length[OF this, of e sz 0 "[]"] obtain out where
    "dummy_data_loop e (int (length ?p)) sz 0 [] = Some out" "length out = nat sz" by auto
  then show ?thesis by (intro that[of out "snd (construct_message e (snd ?r))"])
    (simp_all add: generate_dummy_data_def split_beta)
qed

subsection \<open>Packet size padding\<close>

lemma le_div_power:
  assumes "0 < (b :: nat)" "b \<le> a" shows "2 ^ k \<le> a * 2 ^ k div b"
  using assms by (metis div_le_mono mult_le_mono1 nonzero_mult_div_cancel_left less_not_refl)

lemma float_scale_ge:
  assumes "0 < l" "l \<le> m"
  shows "p \<le> float_scale p m l"
proof -
  obtain a k where a: "to_float (m, l) = (a, 2 ^ k)" "2 ^ k \<le> a"
    using order_trans[OF le_div_power[OF assms] round_even_ge] by (auto simp: to_float_def Let_def)
  obtain c j where c: "to_float (p * a, 2 ^ k) = (c, 2 ^ j)" "(p * a * 2 ^ j) div 2 ^ k \<le> c"
    using round_even_ge by (auto simp: to_float_def Let_def)
  have "p * 2 ^ k * 2 ^ j \<le> p * a * 2 ^ j" using a(2) by simp
  then have "(p * 2 ^ k * 2 ^ j) div 2 ^ k \<le> c" using c(2) by (meson div_le_mono order_trans)
  moreover have "(p * 2 ^ k * 2 ^ j) div 2 ^ k = p * 2 ^ j"
    by (metis mult.assoc mult.commute nonzero_mult_div_cancel_left power_not_zero zero_neq_numeral)
  ultimately have "(p * 2 ^ j) div 2 ^ j \<le> c div 2 ^ j" by (metis div_le_mono)
  then show ?thesis by (simp add: float_scale_def a(1) c(1))
qed

lemma ascend_sel [simp]:
  "dummy_cache (ascend e p s) = dummy_cache s" "session (ascend e p s) = session s" "sent (ascend e p s) = sent s" "sent_at (ascend e p s) = sent_at s"
  "packet_to_send (ascend e p s) = packet_to_send s"
  "is_small_perturbation (algos (ascend e p s)) = is_small_perturbation (algos s)"
  "is_burst_padding (algos (ascend e p s)) = is_burst_padding (algos s)"
  by (simp_all add: ascend_def Let_def split_beta)

lemma ascend_grows:
  assumes "0 \<le> lastmaxbandwidth (algos s)"
  shows "lastmaxbandwidth (algos s) \<le> lastmaxbandwidth (algos (ascend e p s))"
    "p \<le> lastmaxbandwidth (algos (ascend e p s))"
proof -
  let ?l = "srpp_rand e p 1366 s"
  let ?m = "srpp_rand e (fst ?l) 1366 (snd ?l)"
  have "p \<le> int (float_scale (nat p) (nat (fst ?m)) (nat (fst ?l)))" if "0 < p"
  proof -
    have "p \<le> fst ?l" "fst ?l \<le> fst ?m" by (rule srpp_rand_range, simp)+
    then have "nat p \<le> float_scale (nat p) (nat (fst ?m)) (nat (fst ?l))" using that by (intro float_scale_ge) auto
    then show ?thesis by linarith
  qed
  then show "lastmaxbandwidth (algos s) \<le> lastmaxbandwidth (algos (ascend e p s))"
    "p \<le> lastmaxbandwidth (algos (ascend e p s))"
    using assms by (auto simp: ascend_def Let_def split_beta)
qed

lemma srpp_rand_nonneg: "0 \<le> mn \<Longrightarrow> 0 \<le> fst (srpp_rand e mn mx s)"
  by (simp add: srpp_rand_def)

lemma srpp_rand_small: "mn < 2 ^ 31 \<Longrightarrow> 0 \<le> mn \<Longrightarrow> fst (srpp_rand e mn mx s) < 2 ^ 32"
proof (cases "mx = 0")
  case False
  let ?r = "uint (rand_after e (clock e (ticks s)))"
  have "?r mod \<bar>mx\<bar> \<le> ?r" by (simp add: zmod_le_nonneg_dividend)
  moreover have "?r < 2 ^ 31" using uint_bounded[of "rand_after e (clock e (ticks s))"] by simp
  ultimately show "mn < 2 ^ 31 \<Longrightarrow> 0 \<le> mn \<Longrightarrow> ?thesis" using False by (simp add: srpp_rand_def)
qed (simp add: srpp_rand_def)

text \<open>The amount of padding is negative only for a payload of more than 1366 octets in full
  bandwidth mode.\<close>

lemma psp_extra_size_state:
  fixes s e p
  defines "t \<equiv> snd (psp_extra_size e p s)"
  shows "dummy_cache t = dummy_cache s" "session t = session s" "sent t = sent s" "packet_to_send t = packet_to_send s"
    "0 \<le> lastmaxbandwidth (algos s) \<Longrightarrow> lastmaxbandwidth (algos s) \<le> lastmaxbandwidth (algos t)"
    "is_burst_padding (algos t) = is_burst_padding (algos s)"
  unfolding t_def
proof -
  let ?s1 = "snd (srpp_rand e 1 (1366 - p) s)"
  show "dummy_cache (snd (psp_extra_size e p s)) = dummy_cache s" "session (snd (psp_extra_size e p s)) = session s"
    "sent (snd (psp_extra_size e p s)) = sent s" "packet_to_send (snd (psp_extra_size e p s)) = packet_to_send s"
    "is_burst_padding (algos (snd (psp_extra_size e p s))) = is_burst_padding (algos s)"
    by (simp_all add: psp_extra_size_def Let_def split_beta)
  show "lastmaxbandwidth (algos s) \<le> lastmaxbandwidth (algos (snd (psp_extra_size e p s)))"
    if "0 \<le> lastmaxbandwidth (algos s)"
    using ascend_grows(1)[of s e p] ascend_grows(1)[of ?s1 e p] that
    by (simp add: psp_extra_size_def Let_def split_beta)
qed

lemma psp_extra_size_bounds:
  assumes "0 \<le> p" "p \<le> 1366 \<or> is_full_bandwidth (algos s) = 0"
  shows "0 \<le> fst (psp_extra_size e p s)" "fst (psp_extra_size e p s) < 2 ^ 32"
  using assms unfolding psp_extra_size_def Let_def split_beta
  by (auto intro: srpp_rand_nonneg srpp_rand_small[simplified])

lemma psp_extra_size_full:
  assumes "is_full_bandwidth (algos s) \<noteq> 0" "gradual_ascent_bandwidth (algos s) \<noteq> 1"
    "is_small_perturbation (algos s) \<noteq> 1" "is_burst_padding (algos s) \<noteq> 1"
  shows "psp_extra_size e p s = (1366 - p, s)"
  using assms by (simp add: psp_extra_size_def)

lemma psp_extra_size_random:
  assumes "is_full_bandwidth (algos s) = 0" "gradual_ascent_bandwidth (algos s) \<noteq> 1"
    "is_small_perturbation (algos s) \<noteq> 1" "is_burst_padding (algos s) \<noteq> 1" "p < 1366"
  shows "1 \<le> fst (psp_extra_size e p s)" "fst (psp_extra_size e p s) \<le> 1366 - p"
  using assms srpp_rand_range(1)[of "1366 - p" 1 e s] srpp_rand_range(2)[of "1366 - p" e 1 s]
  by (simp_all add: psp_extra_size_def split_beta)

lemma octets_sel [simp]:
  "dummy_cache (snd (random_octets e n s)) = dummy_cache s" "algos (snd (random_octets e n s)) = algos s"
  "session (snd (random_octets e n s)) = session s" "sent (snd (random_octets e n s)) = sent s" "sent_at (snd (random_octets e n s)) = sent_at s"
  "packet_to_send (snd (random_octets e n s)) = packet_to_send s"
  "dummy_cache (snd (xor_octets e cs s)) = dummy_cache s" "algos (snd (xor_octets e cs s)) = algos s"
  "session (snd (xor_octets e cs s)) = session s" "sent (snd (xor_octets e cs s)) = sent s" "sent_at (snd (xor_octets e cs s)) = sent_at s"
  "packet_to_send (snd (xor_octets e cs s)) = packet_to_send s"
  using random_octets_state[of e n s] xor_octets_state[of e cs s] by auto

lemma add_to_dummy_cache_ok:
  assumes "padding_inv s" "pad_count (encrypted_part m) = of_nat (length (srpp_padding (encrypted_part m)))"
    "length (srpp_padding (encrypted_part m)) < 2 ^ 32" "sh_cc (srpp_header m) = 0"
  shows "padding_inv (add_to_dummy_cache e m s)" "algos (add_to_dummy_cache e m s) = algos s"
    "session (add_to_dummy_cache e m s) = session s" "sent (add_to_dummy_cache e m s) = sent s"
    "packet_to_send (add_to_dummy_cache e m s) = packet_to_send s"
proof -
  let ?i = "srpp_rand e 0 MAXDUMMYCACHESIZE s"
  let ?z = "srpp_rand e 1 500 (snd ?i)"
  let ?p = "original_payload (encrypted_part m)"
  let ?x = "xor_octets e ?p (snd ?z)"
  let ?o = "random_octets e (nat (fst ?z) - length ?p) (snd ?x)"
  let ?m = "m\<lparr>encrypted_part := (encrypted_part m)\<lparr>original_payload := fst ?x @ fst ?o, dummy_flag := 1\<rparr>\<rparr>"
  have "1 \<le> fst ?z" using srpp_rand_range(1)[of 500 1 e "snd ?i"] by simp
  then have "length (fst ?x @ fst ?o) \<noteq> 0" by simp
  then have "fst ?x @ fst ?o \<noteq> []" by (metis list.size(3))
  then have "entry_ok ?m" using assms(2-4) by (simp add: entry_ok_def)
  moreover have eq: "add_to_dummy_cache e m s = (snd ?o)\<lparr>dummy_cache := (dummy_cache s)[nat (fst ?i) := ?m]\<rparr>"
    by (simp add: add_to_dummy_cache_def Let_def split_beta)
  ultimately show "padding_inv (add_to_dummy_cache e m s)"
    using padding_inv_update[OF assms(1), of ?m] by simp
  show "algos (add_to_dummy_cache e m s) = algos s" "session (add_to_dummy_cache e m s) = session s"
    "sent (add_to_dummy_cache e m s) = sent s" "packet_to_send (add_to_dummy_cache e m s) = packet_to_send s"
    by (simp_all add: eq)
qed

lemma pad_ok:
  fixes m :: SRPPMessage and e :: env and s :: "'d srpp_scheme"
  defines "n \<equiv> length (original_payload (encrypted_part m))"
  assumes inv: "padding_inv s" and cc: "sh_cc (srpp_header m) = 0"
    and small: "n \<le> 1366 \<or> is_full_bandwidth (algos s) = 0"
  obtains q t where
    "pad e m s = Some (m\<lparr>encrypted_part := (encrypted_part m)
        \<lparr>srpp_padding := q, pad_count := of_nat (length q), dummy_flag := 0\<rparr>\<rparr>, t)"
    "int (length q) = fst (psp_extra_size e (int n) s)" "length q < 2 ^ 32" "padding_inv t"
    "session t = session s" "sent t = sent s" "packet_to_send t = packet_to_send s"
    "algos t = algos (snd (psp_extra_size e (int n) s))"
proof -
  let ?x = "psp_extra_size e (int n) s"
  have x: "0 \<le> fst ?x" "fst ?x < 2 ^ 32" using psp_extra_size_bounds(1)[of "int n" s e] psp_extra_size_bounds(2)[of "int n" s e] small by auto
  have inv1: "padding_inv (snd ?x)"
    using inv psp_extra_size_state(1)[of e "int n" s] psp_extra_size_state(5)[of s e "int n"] by (auto simp: padding_inv_def)
  obtain q t1 where q: "generate_dummy_data e (fst ?x) (snd ?x) = Some (q, t1)" "length q = nat (fst ?x)"
    "dummy_cache t1 = dummy_cache (snd ?x)" "algos t1 = algos (snd ?x)" "session t1 = session (snd ?x)"
    "sent t1 = sent (snd ?x)" "packet_to_send t1 = packet_to_send (snd ?x)"
    using generate_dummy_data_ok[OF inv1] by metis
  let ?c = "srpp_rand e 0 10 (reset_silence (reset_packet t1))"
  let ?m = "m\<lparr>encrypted_part := (encrypted_part m)
        \<lparr>srpp_padding := q, pad_count := of_nat (length q), dummy_flag := 0\<rparr>\<rparr>"
  let ?t = "if fst ?c \<le> 5 then add_to_dummy_cache e ?m (snd ?c) else snd ?c"
  have inv2: "padding_inv (snd ?c)" using inv1 q padding_inv_cong[of "snd ?c" "snd ?x"] by simp
  have w: "(word_of_int (fst ?x) :: u32) = of_nat (length q)" using q(2) x by simp
  have "pad e m s = Some (?m, ?t)"
    using q(1) w by (simp add: pad_def default_psp_pad_algo_def Let_def split_beta n_def)
  moreover have lq: "length q < 2 ^ 32" using q(2) x by (simp add: nat_less_iff)
  ultimately show ?thesis
    using add_to_dummy_cache_ok[OF inv2, of ?m e] inv2 q x cc psp_extra_size_state(1-4)[of e "int n" s]
    by (intro that[of q ?t]) (simp_all del: unsigned_of_nat)
qed

subsection \<open>Sending\<close>

lemma poke_defined: "off + length bs \<le> length buf \<Longrightarrow> \<exists>b. poke buf off bs = Some b \<and> length b = length buf"
  by (auto simp: poke_def)

lemma strcpy_defined: "off + length s < length buf \<Longrightarrow> \<exists>b. strcpy buf off s = Some b \<and> length b = length buf"
  unfolding strcpy_def by (rule poke_defined) (use length_takeWhile_le[of "\<lambda>c. c \<noteq> 0" s] in \<open>simp add: c_str_def\<close>)

text \<open>Writing a message stays inside a buffer with room for it, when the pad count as written is at most the
  length of the padding.\<close>

lemma srpp_to_network_defined:
  fixes m :: SRPPMessage and key :: int
  defines "p \<equiv> original_payload (encrypted_part m)" and "q \<equiv> srpp_padding (encrypted_part m)"
    and "sig \<equiv> sh_srpp_signalling (srpp_header m)"
  assumes "sh_cc (srpp_header m) = 0" "92 + length p + length q \<le> length buff"
    and "sig = 0 \<Longrightarrow> unat (if key > 0 then pad_count (encrypted_part m) XOR word_of_int key
                      else pad_count (encrypted_part m)) \<le> length q"
  shows "\<exists>wire. srpp_to_network f m buff key = Some (m, wire) \<and> length wire = length buff"
proof -
  obtain hb where hb: "srpp_header_bytes f (srpp_header m) = Some hb" "length hb = 80"
    using header_bytes_cc0 assms(4) by blast
  obtain b1 where b1: "poke buff 0 hb = Some b1" "length b1 = length buff"
    using poke_defined[of 0 hb buff] hb(2) assms(5) by auto
  obtain b2 where b2: "strcpy b1 80 p = Some b2" "length b2 = length buff"
    using strcpy_defined[of 80 p b1] assms(5) b1(2) by auto
  define m' where "m' = (if key > 0 \<and> sig = 0 then xor_pad_count (word_of_int key) m else m)"
  define c where "c = pad_count (encrypted_part m')"
  define d where "d = (if c > 0 \<and> sig = 0 then 80 + length p + unat c else 80 + length p)"
  have qm: "srpp_padding (encrypted_part m') = q" by (simp add: m'_def q_def)
  have c: "unat c \<le> length q" if "sig = 0" using assms(6) that by (auto simp: c_def m'_def)
  have "\<exists>b. (if c > 0 \<and> sig = 0 then do { b \<leftarrow> strcpy b2 (80 + length p) q; Some (b, 80 + length p + unat c) }
             else Some (b2, 80 + length p)) = Some (b, d) \<and> length b = length buff"
    using strcpy_defined[of "80 + length p" q b2] assms(5) b2(2) by (auto simp: d_def)
  then obtain b3 where b3: "(if c > 0 \<and> sig = 0 then do { b \<leftarrow> strcpy b2 (80 + length p) q; Some (b, 80 + length p + unat c) }
             else Some (b2, 80 + length p)) = Some (b3, d)" "length b3 = length buff" by blast
  have bk: "(if key > 0 \<and> sig = 0 then xor_pad_count (word_of_int key) m' else m') = m"
    by (simp add: m'_def)
  have d: "d + 12 \<le> length buff" using c assms(5) by (auto simp: d_def)
  obtain b4 where b4: "poke b3 d (trailer_bytes (encrypted_part m)) = Some b4" "length b4 = length buff"
    using poke_defined[of d "trailer_bytes (encrypted_part m)" b3] d b3(2) by auto
  obtain b5 where b5: "poke b4 (d + 8) (le32 (htonl (authentication_tag m))) = Some b5" "length b5 = length buff"
    using poke_defined[of "d + 8" "le32 (htonl (authentication_tag m))" b4] d b4(2) by auto
  have "srpp_to_network f m buff key = Some (m, b5)"
    unfolding srpp_to_network_def Let_def hb(1) b1(1) Option.bind.simps
    by (simp only: flip: p_def sig_def m'_def) 
      (simp only: b2(1) qm b3(1) bk b4(1) b5(1) Option.bind.simps prod.case flip: c_def)
  then show ?thesis using b5(2) by blast
qed

lemma unat_of_nat_u32: "n < 2 ^ 32 \<Longrightarrow> unat (of_nat n :: u32) = n"
  by (simp add: unsigned_of_nat take_bit_nat_eq_self)

lemma send_message_ok:
  fixes m :: SRPPMessage and s :: "'d srpp_scheme"
  defines "p \<equiv> original_payload (encrypted_part m)" and "q \<equiv> srpp_padding (encrypted_part m)"
    and "k \<equiv> encryption_key (session s)"
  assumes "sh_cc (srpp_header m) = 0" "p \<noteq> []" "0 \<le> sint k"
    and "pad_count (encrypted_part m) XOR k = of_nat (length q)" "length q < 2 ^ 32"
  obtains buf where "send_message e m s = Some (send_status e buf, s\<lparr>sent := sent s @ [buf], sent_at := sent_at s @ [lastSequenceNo s], packet_to_send := 0\<rparr>)"
    "length buf = 92 + length p + length q"
    "srpp_to_network (\<lambda>t. ucast (rand_after e t)) m (map (heap e) [0..<92 + length p + length q])
       (if isSignalingMessage m = 1 then 0 else sint k) = Some (m, buf)"
proof -
  let ?key = "if isSignalingMessage m = 1 then 0 else sint k"
  let ?size = "80 + length p + length q + 12"
  have sz: "?size = 92 + length p + length q" by simp
  have k: "k = 0" if "\<not> 0 < sint k"
  proof -
    have "sint k = 0" using that assms(6) by simp
    then have "(of_int (sint k) :: u32) = 0" by simp
    then show ?thesis by simp
  qed
  have "unat (if ?key > 0 then pad_count (encrypted_part m) XOR word_of_int ?key
        else pad_count (encrypted_part m)) \<le> length q" if "sh_srpp_signalling (srpp_header m) = 0"
  proof -
    have "isSignalingMessage m \<noteq> 1" using that by (simp add: isSignalingMessage_def signalling_kind_def)
    then have "(if ?key > 0 then pad_count (encrypted_part m) XOR word_of_int ?key
        else pad_count (encrypted_part m)) = of_nat (length q)"
      using assms(7) k by auto
    then show ?thesis using unat_of_nat_u32[OF assms(8)] by simp
  qed
  from srpp_to_network_defined[OF assms(4) _ this[unfolded q_def], of "map (heap e) [0..<?size]" "\<lambda>t. ucast (rand_after e t)"]
  obtain buf where "srpp_to_network (\<lambda>t. ucast (rand_after e t)) m (map (heap e) [0..<?size]) ?key = Some (m, buf)"
    "length buf = ?size" by (auto simp flip: p_def q_def)
  moreover from this(1) have "send_message e m s = Some (send_status e buf, s\<lparr>sent := sent s @ [buf], sent_at := sent_at s @ [lastSequenceNo s], packet_to_send := 0\<rparr>)"
    using assms(5) unfolding send_message_def Let_def p_def[symmetric] q_def[symmetric] k_def[symmetric] by simp
  ultimately show ?thesis using that[of buf] unfolding sz by simp
qed

text \<open>A dummy, encrypted, can be sent.\<close>

lemma send_entry_ok:
  assumes "entry_ok m" "0 \<le> sint (encryption_key (session s))"
  obtains buf where
    "send_message e (fst (encrypt_srpp e m s)) (snd (encrypt_srpp e m s))
       = Some (send_status e buf, (snd (encrypt_srpp e m s))\<lparr>sent := sent s @ [buf], sent_at := sent_at s @ [lastSequenceNo (snd (encrypt_srpp e m s))], packet_to_send := 0\<rparr>)"
    "length buf = 92 + length (original_payload (encrypted_part m)) + length (srpp_padding (encrypted_part m))"
proof -
  obtain v :: "15 word" where v: "fst (encrypt_srpp e m s) = srpp_encrypt (encryption_key (session s))
       (m\<lparr>encrypted_part := (encrypted_part m)\<lparr>dummy_flag := dummy_flag (encrypted_part m) AND v\<rparr>\<rparr>)"
    using encrypt_srpp_fst by metis
  have sel: "sh_cc (srpp_header (fst (encrypt_srpp e m s))) = 0"
    "length (original_payload (encrypted_part (fst (encrypt_srpp e m s)))) = length (original_payload (encrypted_part m))"
    "length (srpp_padding (encrypted_part (fst (encrypt_srpp e m s)))) = length (srpp_padding (encrypted_part m))"
    "pad_count (encrypted_part (fst (encrypt_srpp e m s))) XOR encryption_key (session s)
       = of_nat (length (srpp_padding (encrypted_part m)))"
    using assms(1) unfolding v by (simp_all add: entry_ok_def srpp_encrypt_def Let_def)
  show ?thesis
    by (rule send_message_ok[of "fst (encrypt_srpp e m s)" "snd (encrypt_srpp e m s)" e])
      (use assms sel that in \<open>auto simp: entry_ok_def\<close>)
qed

lemma generate_dummy_pkt_size_ok:
  assumes "padding_inv s" "0 < sz"
  obtains m t where "generate_dummy_pkt_size e sz s = Some (m, t)" "entry_ok m" "padding_inv t"
    "int (length (original_payload (encrypted_part m)) + length (srpp_padding (encrypted_part m))) \<le> sz"
    "session t = session s" "sent t = sent s" "packet_to_send t = packet_to_send s" "algos t = algos s"
    "timer t = timer s"
proof -
  let ?r = "srpp_rand e 0 MAXDUMMYCACHESIZE s"
  let ?m = "set_seq (lastSequenceNo s) (dummy_cache s ! nat (fst ?r))"
  let ?p = "int (length (original_payload (encrypted_part ?m)))"
  let ?q = "int (length (srpp_padding (encrypted_part ?m)))"
  have ok: "entry_ok ?m" using assms(1) dummy_index[of e s] by (auto simp: padding_inv_def entry_ok_def set_seq_def)
  define m' where "m' = (if ?p > sz then set_pad_count 0 (cut_padding 0 (cut_payload (nat sz) ?m))
             else if ?q > sz - ?p then set_pad_count (sz - ?p) (cut_padding (nat (sz - ?p)) ?m) else ?m)"
  let ?t = "(snd ?r)\<lparr>lastSequenceNo := lastSequenceNo s + 1, dummy_cache := (dummy_cache s)[nat (fst ?r) := m']\<rparr>"
  have "generate_dummy_pkt_size e sz s = Some (m', ?t)"
    using assms(2) by (simp add: generate_dummy_pkt_size_def Let_def split_beta m'_def)
  moreover have ok': "entry_ok m'"
    using ok assms(2) by (auto simp: entry_ok_def m'_def set_pad_count_def cut_padding_def cut_payload_def min_def)
  moreover have "int (length (original_payload (encrypted_part m')) + length (srpp_padding (encrypted_part m'))) \<le> sz"
    using assms(2) by (auto simp: m'_def set_pad_count_def cut_padding_def cut_payload_def)
  moreover have "padding_inv ?t" using padding_inv_update[OF assms(1) ok', of ?t] by simp
  ultimately show ?thesis by (intro that[of m' ?t]) simp_all
qed

text \<open>What the burst algorithms do for one dummy: choose a size and take a dummy of at most that size from the
  cache.\<close>

lemma burst_dummy_ok:
  fixes s :: "'d srpp_scheme" and e :: env
  defines "r \<equiv> srpp_rand e 100 (lastmaxbandwidth (algos s)) s"
  assumes "padding_inv s"
  obtains m t where "generate_dummy_pkt_size e (fst r) (snd r) = Some (m, t)" "entry_ok m" "padding_inv t"
    "length (original_payload (encrypted_part m)) + length (srpp_padding (encrypted_part m))
       \<le> 99 + nat (lastmaxbandwidth (algos s))"
    "session t = session s" "sent t = sent s" "algos t = algos s" "packet_to_send t = packet_to_send s"
    "timer t = timer s"
proof -
  have mx: "100 \<le> lastmaxbandwidth (algos s)" using assms(2) by (simp add: padding_inv_def)
  have r: "100 \<le> fst r" "fst r < 100 + lastmaxbandwidth (algos s)"
    using srpp_rand_range(1)[of "lastmaxbandwidth (algos s)" 100 e s]
      srpp_rand_range(2)[of "lastmaxbandwidth (algos s)" e 100 s] mx by (auto simp: r_def)
  have inv: "padding_inv (snd r)" using assms(2) padding_inv_cong[of "snd r" s] by (simp add: r_def)
  show ?thesis
    by (rule generate_dummy_pkt_size_ok[OF inv, of "fst r" e]) (use r mx that in \<open>auto simp: r_def\<close>)
qed

lemma default_ebp_ok:
  assumes "padding_inv s" "0 \<le> sint (encryption_key (session s))" "is_burst_padding (algos s) \<noteq> 0"
  obtains t buf where "default_ebp_pad_algo e s = Some t" "padding_inv t" "sent t = sent s @ [buf]"
    "length buf \<le> 191 + nat (lastmaxbandwidth (algos s))" "session t = session s" "algos t = algos s"
    "packet_to_send t = 0" "timer t = timer s"
proof -
  obtain m t where g: "generate_dummy_pkt_size e (fst (srpp_rand e 100 (lastmaxbandwidth (algos s)) s))
      (snd (srpp_rand e 100 (lastmaxbandwidth (algos s)) s)) = Some (m, t)" "entry_ok m" "padding_inv t"
    "length (original_payload (encrypted_part m)) + length (srpp_padding (encrypted_part m))
       \<le> 99 + nat (lastmaxbandwidth (algos s))"
    "session t = session s" "sent t = sent s" "algos t = algos s" "timer t = timer s"
    using burst_dummy_ok[OF assms(1)] by metis
  obtain buf where b: "send_message e (fst (encrypt_srpp e m t)) (snd (encrypt_srpp e m t))
       = Some (send_status e buf, (snd (encrypt_srpp e m t))\<lparr>sent := sent t @ [buf], sent_at := sent_at t @ [lastSequenceNo (snd (encrypt_srpp e m t))], packet_to_send := 0\<rparr>)"
    "length buf = 92 + length (original_payload (encrypted_part m)) + length (srpp_padding (encrypted_part m))"
    using send_entry_ok[OF g(2)] assms(2) g(5) by metis
  let ?t = "(snd (encrypt_srpp e m t))\<lparr>sent := sent t @ [buf], sent_at := sent_at t @ [lastSequenceNo (snd (encrypt_srpp e m t))], packet_to_send := 0\<rparr>"
  have "default_ebp_pad_algo e s = Some ?t"
    using assms(3) g(1) b(1) by (simp add: default_ebp_pad_algo_def Let_def split_beta)
  moreover have "padding_inv ?t" using g(3) padding_inv_cong[of ?t t] by simp
  ultimately show ?thesis using g b(2) by (intro that[of ?t buf]) simp_all
qed

lemma cbp_loop_ok:
  assumes "padding_inv s" "0 \<le> sint (encryption_key (session s))" "packet_to_send s = 0"
  shows "\<exists>t bufs. cbp_loop e n s = Some t \<and> padding_inv t \<and> sent t = sent s @ bufs \<and> length bufs = n
    \<and> (\<forall>b \<in> set bufs. length b \<le> 191 + nat (lastmaxbandwidth (algos s))) \<and> session t = session s
    \<and> algos t = algos s \<and> packet_to_send t = 0
    \<and> timer t = (if n = 0 then timer s else (timer s)\<lparr>packet_counter := 0, silence_counter := 0\<rparr>)"
  using assms
proof (induction n arbitrary: s)
  case (Suc n)
  let ?r = "srpp_rand e 100 (lastmaxbandwidth (algos s)) s"
  obtain m t where g: "generate_dummy_pkt_size e (fst ?r) (snd ?r) = Some (m, t)" "entry_ok m" "padding_inv t"
    "length (original_payload (encrypted_part m)) + length (srpp_padding (encrypted_part m))
       \<le> 99 + nat (lastmaxbandwidth (algos s))"
    "session t = session s" "sent t = sent s" "algos t = algos s" "packet_to_send t = packet_to_send s"
    "timer t = timer s" using burst_dummy_ok[OF Suc.prems(1)] by metis
  obtain buf where b: "send_message e (fst (encrypt_srpp e m t)) (snd (encrypt_srpp e m t))
       = Some (send_status e buf, (snd (encrypt_srpp e m t))\<lparr>sent := sent t @ [buf], sent_at := sent_at t @ [lastSequenceNo (snd (encrypt_srpp e m t))], packet_to_send := 0\<rparr>)"
    "length buf = 92 + length (original_payload (encrypted_part m)) + length (srpp_padding (encrypted_part m))"
    using send_entry_ok[OF g(2)] Suc.prems(2) g(5) by metis
  let ?t = "reset_silence (reset_packet ((snd (encrypt_srpp e m t))\<lparr>sent := sent t @ [buf], sent_at := sent_at t @ [lastSequenceNo (snd (encrypt_srpp e m t))], packet_to_send := 0\<rparr>))"
  have "padding_inv ?t" using g(3) padding_inv_cong[of ?t t] by simp
  from Suc.IH[OF this] obtain u bufs where u: "cbp_loop e n ?t = Some u" "padding_inv u"
    "sent u = sent s @ buf # bufs" "length bufs = n"
    "\<forall>b \<in> set bufs. length b \<le> 191 + nat (lastmaxbandwidth (algos s))" "session u = session s"
    "algos u = algos s" "packet_to_send u = 0"
    "timer u = (timer s)\<lparr>packet_counter := 0, silence_counter := 0\<rparr>"
    using Suc.prems(2) g by (auto simp: reset_packet_def reset_silence_def)
  have "cbp_loop e (Suc n) s = Some u"
    using g(1,8) b(1) u(1) Suc.prems(3) by (simp add: Let_def split_beta)
  then show ?case using u g(4) b(2) by (intro exI[of _ u] exI[of _ "buf # bufs"]) auto
qed auto

lemma default_cbp_ok:
  assumes "padding_inv s" "0 \<le> sint (encryption_key (session s))" "is_burst_padding (algos s) \<noteq> 0"
    "packet_to_send s = 0"
  obtains t bufs where "default_cbp_pad_algo e s = Some t" "padding_inv t" "sent t = sent s @ bufs"
    "int (length bufs) = fst (srpp_rand e 0 3 s)"
    "\<forall>b \<in> set bufs. length b \<le> 191 + nat (lastmaxbandwidth (algos s))" "session t = session s"
    "timer t = (if bufs = [] then (timer s)\<lparr>packet_counter := 0\<rparr>
       else (timer s)\<lparr>packet_counter := 0, silence_counter := 0\<rparr>)" "is_burst_padding (algos t) = is_burst_padding (algos s)"
    "packet_to_send t = 0"
proof -
  let ?r = "srpp_rand e 0 3 s"
  have r: "0 \<le> fst ?r" using srpp_rand_range(1)[of 3 0 e s] by simp
  have inv: "padding_inv (snd ?r)" using assms(1) padding_inv_cong[of "snd ?r" s] by simp
  obtain t bufs where t: "cbp_loop e (nat (fst ?r)) (snd ?r) = Some t" "padding_inv t" "sent t = sent s @ bufs"
    "length bufs = nat (fst ?r)" "\<forall>b \<in> set bufs. length b \<le> 191 + nat (lastmaxbandwidth (algos s))"
    "session t = session s" "algos t = algos s" "packet_to_send t = 0"
    "timer t = (if nat (fst ?r) = 0 then timer s else (timer s)\<lparr>packet_counter := 0, silence_counter := 0\<rparr>)"
    using cbp_loop_ok[OF inv, of e "nat (fst ?r)"] assms by auto
  let ?t = "reset_packet (t\<lparr>algos := (algos t)\<lparr>cbp_packet_count := fst ?r + 1\<rparr>\<rparr>)"
  have "default_cbp_pad_algo e s = Some ?t"
    using assms(3) t(1) by (simp add: default_cbp_pad_algo_def Let_def split_beta)
  moreover have "padding_inv ?t" using t(2) by (simp add: padding_inv_def)
  moreover have "timer ?t = (if bufs = [] then (timer s)\<lparr>packet_counter := 0\<rparr>
       else (timer s)\<lparr>packet_counter := 0, silence_counter := 0\<rparr>)"
    using t(4,9) by (auto simp: reset_packet_def)
  ultimately show ?thesis using t r by (intro that[of ?t bufs]) simp_all
qed

section \<open>Properties\<close>

text \<open>A state for the witnesses: an environment where everything is zero, and a cache of one-octet dummies.\<close>

definition zero_env :: env where
  "zero_env = \<lparr>rand_after = (\<lambda>_. 0), clock = (\<lambda>_. 0), heap = (\<lambda>_. 0), stack = (\<lambda>_. 0), junk = (\<lambda>_. 0),
     send_status = (\<lambda>b. int (length b))\<rparr>"

definition sample_state :: srpp where
  "sample_state = \<lparr>ticks = 0, lastSequenceNo = 10000, maxpacketsize = 1464, srppssrc = 0, rtpSequenceNo = 0,
     nonsrpp_message_count = 0, packet_to_send = 0, srpp_enabled = 3, signaling_by_srpp = 1,
     session = \<lparr>receiverIP = [], receiverPort = 0, myPort = 0, encryption_key = 1655,
       ses_maxpacketsize = 1464, sin_port = 0\<rparr>,
     timer = timer_off, algos = no_padding_options, signals = no_signals,
     dummy_cache = replicate 100 (sample_msg 0 [5] []), sent = [], sent_at = [], inbox = []\<rparr>"

lemma sample_state_inv: "padding_inv sample_state"
  by (simp add: padding_inv_def entry_ok_def sample_state_def sample_msg_def new_SRPPMessage_def htons_15_cc
      no_padding_options_def)

text \<open>C30. \<open>generate_dummy_data\<close> ends, with exactly the number of octets asked for (none for a negative number),
  unless a positive number is asked for and the dummy it picks has an empty payload: then its loop never ends.\<close>

theorem generate_dummy_data_terminates:
  "if 0 < sz \<and> original_payload (encrypted_part (dummy_cache s ! nat (fst (srpp_rand e 0 MAXDUMMYCACHESIZE s)))) = []
   then generate_dummy_data e sz s = None
   else \<exists>str t. generate_dummy_data e sz s = Some (str, t) \<and> length str = nat sz"
proof -
  let ?p = "original_payload (encrypted_part (dummy_cache s ! nat (fst (srpp_rand e 0 MAXDUMMYCACHESIZE s))))"
  have "\<exists>out. dummy_data_loop e (int (length ?p)) sz 0 [] = Some out \<and> length out = nat sz" if "?p \<noteq> [] \<or> sz \<le> 0"
  proof (cases "?p = []")
    case True
    then show ?thesis using that by (subst dummy_data_loop.simps) auto
  next
    case False
    then show ?thesis using dummy_data_loop_length[of "int (length ?p)" e sz 0 "[]"] by simp
  qed
  then show ?thesis
    by (auto simp: generate_dummy_data_def split_beta dummy_data_loop_diverges)
qed

lemma init_empty_cache:
  assumes "length (dummy_cache s) = 100" "maxpacketsize s = 0" "i < 99"
  shows "original_payload (encrypted_part (dummy_cache (init_SRPP e s) ! i)) = []" "algos (init_SRPP e s) = algos s"
  using fold_fill_dummy[of 99 s e] assms
  by (simp_all add: init_SRPP_def new_PaddingFunctions_def MAXDUMMYCACHESIZE_def Let_def)

text \<open>When the negotiated maximum packet size is 0, \<open>init_SRPP\<close> fills the cache with empty dummies, and the
  first packet of fewer than 1366 octets that is padded (with the default options, whatever the random numbers)
  hangs the program: \<open>pad\<close> does not return.\<close>

theorem zero_packet_size_hangs:
  assumes "length (dummy_cache s) = 100" "maxpacketsize s = 0"
    and "is_full_bandwidth (algos s) = 0" "gradual_ascent_bandwidth (algos s) = 0"
      "is_small_perturbation (algos s) = 0" "is_burst_padding (algos s) = 0"
    and "length (original_payload (encrypted_part m)) < 1366"
  shows "pad e m (init_SRPP e s) = None"
proof -
  let ?s = "init_SRPP e s" and ?n = "int (length (original_payload (encrypted_part m)))"
  let ?x = "psp_extra_size e ?n ?s"
  have al: "algos ?s = algos s" and emp: "\<And>i. i < 99 \<Longrightarrow> original_payload (encrypted_part (dummy_cache ?s ! i)) = []"
    using init_empty_cache[OF assms(1,2)] by (metis (no_types) zero_less_numeral, blast)
  have "1 \<le> fst ?x" using psp_extra_size_random(1)[of ?s ?n e] assms(3-7) al by simp
  moreover have "dummy_cache (snd ?x) = dummy_cache ?s" by (rule psp_extra_size_state)
  ultimately have "generate_dummy_data e (fst ?x) (snd ?x) = None"
    using emp[OF dummy_index[of e "snd ?x"]] by (simp add: generate_dummy_data_def split_beta dummy_data_loop_diverges)
  then show ?thesis by (simp add: pad_def default_psp_pad_algo_def split_beta)
qed

theorem zero_packet_size_hangs_witness:
  "pad zero_env (sample_msg 0 [1, 2] []) (init_SRPP zero_env (sample_state\<lparr>maxpacketsize := 0\<rparr>)) = None"
  by (rule zero_packet_size_hangs) (simp_all add: sample_state_def no_padding_options_def sample_msg_def new_SRPPMessage_def)

text \<open>C31. With gradual ascent alone, padding never makes a packet larger than the current maximum bandwidth, which
  is at least the payload after the step and never decreases; the single-precision scaling does not round below
  the payload.\<close>

theorem gradual_ascent_bound:
  fixes m :: SRPPMessage
  defines "n \<equiv> length (original_payload (encrypted_part m))"
  assumes "padding_inv s" "sh_cc (srpp_header m) = 0" "n \<le> 1366 \<or> is_full_bandwidth (algos s) = 0"
    and "gradual_ascent_bandwidth (algos s) = 1" "is_small_perturbation (algos s) = 0" "is_burst_padding (algos s) = 0"
  shows "\<exists>m' t. pad e m s = Some (m', t) \<and> original_payload (encrypted_part m') = original_payload (encrypted_part m)
    \<and> lastmaxbandwidth (algos s) \<le> lastmaxbandwidth (algos t)
    \<and> int (n + length (srpp_padding (encrypted_part m'))) \<le> lastmaxbandwidth (algos t)"
proof -
  let ?x = "psp_extra_size e (int n) s"
  obtain q t where t: "pad e m s = Some (m\<lparr>encrypted_part := (encrypted_part m)
        \<lparr>srpp_padding := q, pad_count := of_nat (length q), dummy_flag := 0\<rparr>\<rparr>, t)"
    "int (length q) = fst ?x" "algos t = algos (snd ?x)"
    using pad_ok[OF assms(2,3), of e] assms(4) unfolding n_def by metis
  define s1 where "s1 = (if is_full_bandwidth (algos s) = 0 then snd (srpp_rand e 1 (1366 - int n) s) else s)"
  define s2 where "s2 = ascend e (int n) s1"
  let ?d = "lastmaxbandwidth (algos s2) - int n"
  have al: "algos s1 = algos s" by (simp add: s1_def)
  have "?x = srpp_rand e 1 ?d s2"
    using assms(5,6,7) by (simp add: psp_extra_size_def Let_def split_beta s1_def s2_def)
  then have x: "fst ?x = fst (srpp_rand e 1 ?d s2)" "algos (snd ?x) = algos s2" by simp_all
  have "0 \<le> lastmaxbandwidth (algos s1)" using assms(2) al by (simp add: padding_inv_def)
  from ascend_grows(1)[OF this, of e "int n"] ascend_grows(2)[OF this, of "int n" e]
  have g: "lastmaxbandwidth (algos s) \<le> lastmaxbandwidth (algos s2)" "0 \<le> ?d" by (simp_all add: s2_def al)
  have "fst (srpp_rand e 1 ?d s2) \<le> ?d"
  proof (cases "?d = 0")
    case False
    then show ?thesis using g(2) srpp_rand_range(2)[of ?d e 1 s2] by linarith
  qed (simp add: srpp_rand_def)
  then show ?thesis using t(2,3) x g unfolding t(1) by simp
qed

theorem gradual_ascent_bound_witness:
  "\<exists>m' t. pad zero_env (sample_msg 0 (replicate 200 7) []) (sample_state
        \<lparr>algos := no_padding_options\<lparr>gradual_ascent_bandwidth := 1\<rparr>\<rparr>) = Some (m', t)
    \<and> int (200 + length (srpp_padding (encrypted_part m'))) \<le> lastmaxbandwidth (algos t)"
proof -
  let ?s = "sample_state\<lparr>algos := no_padding_options\<lparr>gradual_ascent_bandwidth := 1\<rparr>\<rparr>"
  have "padding_inv ?s" using sample_state_inv by (simp add: padding_inv_def no_padding_options_def sample_state_def)
  then show ?thesis
    using gradual_ascent_bound[of ?s "sample_msg 0 (replicate 200 7) []" zero_env]
    by (auto simp: sample_msg_def new_SRPPMessage_def htons_15_cc no_padding_options_def)
qed

text \<open>Dummies are told from real packets: whatever the random mask of \<open>encrypt_srpp\<close>, a message encrypted and
  decrypted under one key comes back with its dummy flag reduced to the lowest bit, so that \<open>unpad\<close> discards
  (-1) exactly the messages with that bit set; the others lose their padding and keep their payload.\<close>

theorem dummies_discarded:
  assumes "encryption_key (session r) = encryption_key (session s)"
  shows "let d = decrypt_srpp (fst (encrypt_srpp e m s)) r in
    (if bit (dummy_flag (encrypted_part m)) 0 then fst (unpad d) = -1
     else fst (unpad d) = 1 \<and> original_payload (encrypted_part (snd (unpad d))) = original_payload (encrypted_part m)
       \<and> srpp_padding (encrypted_part (snd (unpad d))) = [] \<and> pad_count (encrypted_part (snd (unpad d))) = 0)"
proof -
  obtain v :: "15 word" where v: "bit v 0" "fst (encrypt_srpp e m s) = srpp_encrypt (encryption_key (session s))
       (m\<lparr>encrypted_part := (encrypted_part m)\<lparr>dummy_flag := dummy_flag (encrypted_part m) AND v\<rparr>\<rparr>)"
    using encrypt_srpp_fst by metis
  have f: "(f AND v) AND 1 = (if bit f 0 then 1 else 0)" for f :: "15 word"
    using v(1) by (auto intro!: bit_word_eqI simp: bit_simps)
  show ?thesis using assms
    by (simp add: v(2) decrypt_srpp_def srpp_encrypt_def srpp_decrypt_def Let_def unpad_def f comp_def)
qed

theorem dummies_discarded_witness:
  "fst (unpad (decrypt_srpp (fst (encrypt_srpp zero_env (sample_msg 0 [5] []) sample_state)) sample_state)) = 1"
  using dummies_discarded[of sample_state sample_state zero_env "sample_msg 0 [5] []"]
  by (simp add: Let_def sample_msg_def new_SRPPMessage_def)

end
