(* ===== verification/Srpp_Timer.thy ===== *)
theory Srpp_Timer
  imports Srpp_Padding
begin

text \<open>
  The timers (\<open>src/libSRPP/src/srpp_timer.cpp\<close>): the handler that the operating system calls every
  millisecond, and what the packet timer and the silence timer do when they fire. The operations that start,
  pause and reset the timers are in \<open>Srpp_State\<close>. An interruption of other code by the handler is
  not modelled: a tick is one step. A counter that would leave the range of \<open>int\<close> is undefined.
\<close>

section \<open>The handlers\<close>

definition current_burst_padding :: "env \<Rightarrow> 'd srpp_scheme \<Rightarrow> 'd srpp_scheme option" where
  "current_burst_padding e s = default_cbp_pad_algo e s"

definition extra_burst_padding :: "env \<Rightarrow> 'd srpp_scheme \<Rightarrow> 'd srpp_scheme option" where
  "extra_burst_padding e s = default_ebp_pad_algo e s"

definition pkt_timer_fired :: "env \<Rightarrow> 'd srpp_scheme \<Rightarrow> 'd srpp_scheme option" where
  "pkt_timer_fired e s = do { s \<leftarrow> current_burst_padding e s; Some (reset_packet s) }"

definition silence_timer_fired :: "env \<Rightarrow> 'd srpp_scheme \<Rightarrow> 'd srpp_scheme option" where
  "silence_timer_fired e s = do { s \<leftarrow> extra_burst_padding e s; Some (reset_silence s) }"

definition INT_MAX :: int where "INT_MAX = 2 ^ 31 - 1"

definition timer_fired :: "env \<Rightarrow> 'd srpp_scheme \<Rightarrow> 'd srpp_scheme option" where
  "timer_fired e s =
    (if packet_counter (timer s) = INT_MAX \<or> silence_counter (timer s) = INT_MAX then None
     else do {
       let s = s\<lparr>timer := (timer s)\<lparr>packet_counter := packet_counter (timer s) + 1,
                 silence_counter := silence_counter (timer s) + 1\<rparr>\<rparr>;
       s \<leftarrow> (if packet_counter (timer s) = packet_interval (timer s) \<and> packet_ON (timer s)
            then pkt_timer_fired e s else Some s);
       if silence_counter (timer s) = silence_interval (timer s) \<and> silence_ON (timer s)
       then silence_timer_fired e s else Some s })"

text \<open>A number of ticks with nothing in between.\<close>

primrec ticks_pass :: "env \<Rightarrow> nat \<Rightarrow> 'd srpp_scheme \<Rightarrow> 'd srpp_scheme option" where
  "ticks_pass e 0 s = Some s"
| "ticks_pass e (Suc n) s = do { s \<leftarrow> timer_fired e s; ticks_pass e n s }"

section \<open>One tick\<close>

text \<open>The states in which the timers work: the padding state is sound, the key is not negative as an \<open>int\<close>,
  and no packet is being sent.\<close>

definition timer_inv :: "'d srpp_scheme \<Rightarrow> bool" where
  "timer_inv s \<longleftrightarrow> padding_inv s \<and> 0 \<le> sint (encryption_key (session s)) \<and> packet_to_send s = 0"

lemma timer_inv_upd [simp]:
  "timer_inv (s\<lparr>timer := x\<rparr>) = timer_inv s" "timer_inv (reset_packet s) = timer_inv s"
  "timer_inv (reset_silence s) = timer_inv s"
  by (simp_all add: timer_inv_def padding_inv_def reset_packet_def reset_silence_def)

lemma pkt_timer_fired_ok:
  assumes "timer_inv s"
  obtains t bufs where "pkt_timer_fired e s = Some t" "timer_inv t" "sent t = sent s @ bufs"
    "timer t = (if bufs = [] then (timer s)\<lparr>packet_counter := 0\<rparr>
       else (timer s)\<lparr>packet_counter := 0, silence_counter := 0\<rparr>)"
    "is_burst_padding (algos t) = is_burst_padding (algos s)"
proof (cases "is_burst_padding (algos s) = 0")
  case True
  then show ?thesis using assms
    by (intro that[of "reset_packet s" "[]"])
      (simp_all add: pkt_timer_fired_def current_burst_padding_def default_cbp_pad_algo_def reset_packet_def timer_inv_def padding_inv_def)
next
  case False
  from assms have inv: "padding_inv s" "0 \<le> sint (encryption_key (session s))" "packet_to_send s = 0"
    by (simp_all add: timer_inv_def)
  show ?thesis
  proof (rule default_cbp_ok[OF inv(1,2) False inv(3), of e])
    fix t bufs
    assume t: "default_cbp_pad_algo e s = Some t" "padding_inv t" "sent t = sent s @ bufs"
      "timer t = (if bufs = [] then (timer s)\<lparr>packet_counter := 0\<rparr>
       else (timer s)\<lparr>packet_counter := 0, silence_counter := 0\<rparr>)"
      "is_burst_padding (algos t) = is_burst_padding (algos s)" "session t = session s" "packet_to_send t = 0"
    then show ?thesis using inv
      by (intro that[of "reset_packet t" bufs])
        (simp_all add: pkt_timer_fired_def current_burst_padding_def timer_inv_def, simp_all add: reset_packet_def padding_inv_def)
  qed
qed

lemma silence_timer_fired_ok:
  assumes "timer_inv s"
  obtains t bufs where "silence_timer_fired e s = Some t" "timer_inv t" "sent t = sent s @ bufs"
    "bufs = [] \<longleftrightarrow> is_burst_padding (algos s) = 0" "timer t = (timer s)\<lparr>silence_counter := 0\<rparr>"
    "is_burst_padding (algos t) = is_burst_padding (algos s)"
proof (cases "is_burst_padding (algos s) = 0")
  case True
  then show ?thesis using assms
    by (intro that[of "reset_silence s" "[]"])
      (simp_all add: silence_timer_fired_def extra_burst_padding_def default_ebp_pad_algo_def reset_silence_def timer_inv_def padding_inv_def)
next
  case False
  from assms have inv: "padding_inv s" "0 \<le> sint (encryption_key (session s))" by (simp_all add: timer_inv_def)
  show ?thesis
  proof (rule default_ebp_ok[OF inv False, of e])
    fix t buf
    assume t: "default_ebp_pad_algo e s = Some t" "padding_inv t" "sent t = sent s @ [buf]" "timer t = timer s"
      "algos t = algos s" "session t = session s" "packet_to_send t = 0"
    then show ?thesis using inv False
      by (intro that[of "reset_silence t" "[buf]"])
        (simp_all add: silence_timer_fired_def extra_burst_padding_def timer_inv_def, simp_all add: reset_silence_def padding_inv_def)
  qed
qed

text \<open>One tick returns; when it sends nothing it advances the silence counter and, if bursts are enabled and
  the silence timer is on, the counter has not reached its interval.\<close>

lemma timer_fired_ok:
  assumes "timer_inv s" "0 \<le> packet_counter (timer s)" "packet_counter (timer s) < INT_MAX"
    "0 \<le> silence_counter (timer s)" "silence_counter (timer s) < INT_MAX"
  obtains t bufs where "timer_fired e s = Some t" "timer_inv t" "sent t = sent s @ bufs"
    "0 \<le> packet_counter (timer t)" "packet_counter (timer t) \<le> packet_counter (timer s) + 1"
    "0 \<le> silence_counter (timer t)" "silence_counter (timer t) \<le> silence_counter (timer s) + 1"
    "silence_interval (timer t) = silence_interval (timer s)" "silence_ON (timer t) = silence_ON (timer s)"
    "is_burst_padding (algos t) = is_burst_padding (algos s)"
    "bufs = [] \<Longrightarrow> is_burst_padding (algos s) \<noteq> 0 \<Longrightarrow> silence_ON (timer s) \<Longrightarrow>
       silence_counter (timer t) = silence_counter (timer s) + 1
       \<and> silence_counter (timer t) \<noteq> silence_interval (timer s)"
proof -
  define c where "c = s\<lparr>timer := (timer s)\<lparr>packet_counter := packet_counter (timer s) + 1,
                 silence_counter := silence_counter (timer s) + 1\<rparr>\<rparr>"
  define fire where "fire \<longleftrightarrow> packet_counter (timer c) = packet_interval (timer c) \<and> packet_ON (timer c)"
  have c: "timer_inv c" "sent c = sent s" "algos c = algos s" using assms(1) by (simp_all add: c_def)
  obtain t1 b1 where t1: "(if fire then pkt_timer_fired e c else Some c) = Some t1" "timer_inv t1"
    "sent t1 = sent s @ b1" "is_burst_padding (algos t1) = is_burst_padding (algos s)"
    "timer t1 = (if fire then if b1 = [] then (timer c)\<lparr>packet_counter := 0\<rparr>
       else (timer c)\<lparr>packet_counter := 0, silence_counter := 0\<rparr> else timer c)" "fire \<or> b1 = []"
  proof (cases fire)
    case True
    then show ?thesis using that c by (auto intro: pkt_timer_fired_ok[OF c(1), of e])
  next
    case False
    then show ?thesis using that[of c "[]"] c by simp
  qed
  let ?fire2 = "silence_counter (timer t1) = silence_interval (timer t1) \<and> silence_ON (timer t1)"
  obtain t b2 where t: "(if ?fire2 then silence_timer_fired e t1 else Some t1) = Some t" "timer_inv t"
    "sent t = sent t1 @ b2" "is_burst_padding (algos t) = is_burst_padding (algos s)"
    "?fire2 \<Longrightarrow> (b2 = [] \<longleftrightarrow> is_burst_padding (algos s) = 0) \<and> timer t = (timer t1)\<lparr>silence_counter := 0\<rparr>"
    "\<not> ?fire2 \<Longrightarrow> timer t = timer t1"
  proof (cases ?fire2)
    case True
    then show ?thesis using that t1(4) by (auto intro: silence_timer_fired_ok[OF t1(2), of e])
  next
    case False
    then show ?thesis using that[of t1 "[]"] t1(2,4) by auto
  qed
  have run: "timer_fired e s = Some t"
  proof -
    have "\<not> (packet_counter (timer s) = INT_MAX \<or> silence_counter (timer s) = INT_MAX)" using assms(3,5) by auto
    then show ?thesis
      unfolding timer_fired_def Let_def c_def[symmetric] fire_def[symmetric] using t1(1) t(1) by simp
  qed
  have tt: "timer t = timer t1 \<or> timer t = (timer t1)\<lparr>silence_counter := 0\<rparr>" using t(5,6) by blast
  have t1c: "timer t1 = timer c \<or> timer t1 = (timer c)\<lparr>packet_counter := 0\<rparr>
      \<or> timer t1 = (timer c)\<lparr>packet_counter := 0, silence_counter := 0\<rparr>" using t1(5) by auto
  have tc: "timer c = (timer s)\<lparr>packet_counter := packet_counter (timer s) + 1,
      silence_counter := silence_counter (timer s) + 1\<rparr>" by (simp add: c_def)
  show ?thesis
  proof (rule that[OF run t(2)])
    show "sent t = sent s @ b1 @ b2" using t(3) t1(3) by simp
    assume "b1 @ b2 = []" "is_burst_padding (algos s) \<noteq> 0" "silence_ON (timer s)"
    then show "silence_counter (timer t) = silence_counter (timer s) + 1
       \<and> silence_counter (timer t) \<noteq> silence_interval (timer s)"
      using t(5,6) t1(5,6) tc by (cases ?fire2; cases fire) simp_all
  qed (use tt t1c tc t(4) assms(2,4) in auto)+
qed

section \<open>Many ticks\<close>

lemma ticks_pass_ok:
  assumes "timer_inv s" "0 \<le> packet_counter (timer s)" "packet_counter (timer s) + int n \<le> INT_MAX"
    "0 \<le> silence_counter (timer s)" "silence_counter (timer s) + int n \<le> INT_MAX"
  shows "\<exists>t bufs. ticks_pass e n s = Some t \<and> timer_inv t \<and> sent t = sent s @ bufs"
  using assms
proof (induction n arbitrary: s)
  case (Suc n)
  show ?case
  proof (rule timer_fired_ok[of s e])
    fix t bufs
    assume t: "timer_fired e s = Some t" "timer_inv t" "sent t = sent s @ bufs"
      "0 \<le> packet_counter (timer t)" "packet_counter (timer t) \<le> packet_counter (timer s) + 1"
      "0 \<le> silence_counter (timer t)" "silence_counter (timer t) \<le> silence_counter (timer s) + 1"
    show ?thesis using Suc.IH[OF t(2)] t Suc.prems by auto
  qed (use Suc.prems in auto)
qed auto

text \<open>C21. In silence a dummy packet is sent: with burst padding enabled and the silence timer on, nothing but ticks
  happening from now on, the ticks that remain until the silence interval all return and at least one
  datagram has been sent by then, be it by the packet timer or by the silence timer.\<close>

theorem dummy_sent_in_silence:
  assumes "timer_inv s" "is_burst_padding (algos s) \<noteq> 0" "silence_ON (timer s)"
    and "0 \<le> packet_counter (timer s)" "packet_counter (timer s) + int n \<le> INT_MAX"
    and "0 \<le> silence_counter (timer s)" "silence_counter (timer s) < silence_interval (timer s)"
    and "silence_counter (timer s) + int n = silence_interval (timer s)" "silence_interval (timer s) \<le> INT_MAX"
  shows "\<exists>t bufs. ticks_pass e n s = Some t \<and> timer_inv t \<and> sent t = sent s @ bufs \<and> bufs \<noteq> []"
  using assms
proof (induction n arbitrary: s)
  case (Suc n)
  show ?case
  proof (rule timer_fired_ok[of s e])
    fix t bufs
    assume t: "timer_fired e s = Some t" "timer_inv t" "sent t = sent s @ bufs"
      "0 \<le> packet_counter (timer t)" "packet_counter (timer t) \<le> packet_counter (timer s) + 1"
      "0 \<le> silence_counter (timer t)" "silence_counter (timer t) \<le> silence_counter (timer s) + 1"
      "silence_interval (timer t) = silence_interval (timer s)" "silence_ON (timer t) = silence_ON (timer s)"
      "is_burst_padding (algos t) = is_burst_padding (algos s)"
      "bufs = [] \<Longrightarrow> is_burst_padding (algos s) \<noteq> 0 \<Longrightarrow> silence_ON (timer s) \<Longrightarrow>
       silence_counter (timer t) = silence_counter (timer s) + 1
       \<and> silence_counter (timer t) \<noteq> silence_interval (timer s)"
    show ?thesis
    proof (cases "bufs = []")
      case True
      then show ?thesis using Suc.IH[OF t(2)] t Suc.prems by fastforce
    next
      case False
      obtain u more where "ticks_pass e n t = Some u" "timer_inv u" "sent u = sent t @ more"
        using ticks_pass_ok[OF t(2), of n e] t Suc.prems by fastforce
      then show ?thesis using False t by simp
    qed
  qed (use Suc.prems in auto)
qed auto

text \<open>While neither timer can fire, ticks only count.\<close>

definition count :: "nat \<Rightarrow> 'd srpp_scheme \<Rightarrow> 'd srpp_scheme" where
  "count n s = s\<lparr>timer := (timer s)\<lparr>packet_counter := packet_counter (timer s) + int n,
     silence_counter := silence_counter (timer s) + int n\<rparr>\<rparr>"

lemma ticks_only_count:
  assumes "packet_ON (timer s) \<Longrightarrow> packet_interval (timer s) \<le> packet_counter (timer s)"
    "silence_ON (timer s) \<Longrightarrow> silence_interval (timer s) \<le> silence_counter (timer s)"
    "packet_counter (timer s) + int n \<le> INT_MAX" "silence_counter (timer s) + int n \<le> INT_MAX"
  shows "ticks_pass e n s = Some (count n s)"
  using assms
proof (induction n arbitrary: s)
  case 0
  show ?case by (simp add: count_def)
next
  case (Suc n)
  have "timer_fired e s = Some (count 1 s)"
    using Suc.prems by (auto simp: timer_fired_def Let_def count_def)
  moreover have "ticks_pass e n (count 1 s) = Some (count n (count 1 s))"
    by (rule Suc.IH) (use Suc.prems in \<open>auto simp: count_def\<close>)
  moreover have "count n (count 1 s) = count (Suc n) s" by (simp add: count_def algebra_simps)
  ultimately show ?case by simp
qed

text \<open>The timers count from the creation of the session on, and starting the session does not reset them: when
  the session starts 400 ms or more after it was created, neither timer fires, however long the silence
  (until a counter leaves the range of \<open>int\<close>, or a packet resets them), whatever the options.\<close>

theorem late_start_no_dummies:
  fixes s :: "'d srpp_scheme" and d n :: nat and addr port
  defines "c \<equiv> create_session addr port s"
  assumes "timer s = timer_off" "SILENCE_INTERVAL_TIME \<le> int d" "int d + int n \<le> INT_MAX"
  shows "\<exists>t. do { c \<leftarrow> ticks_pass e d c; ticks_pass e n (session_start c) } = Some t
    \<and> packet_ON (timer t) \<and> silence_ON (timer t) \<and> sent t = sent s"
proof -
  have tc: "timer c = timer_off\<lparr>packet_interval := 300, silence_interval := 400\<rparr>" "sent c = sent s"
    by (simp_all add: c_def create_session_def new_SRPPSession_def new_SRPPTimer_def setPacketTimer_def
        setSilenceTimer_def PACKET_INTERVAL_TIME_def SILENCE_INTERVAL_TIME_def assms(2))
  have 1: "ticks_pass e d c = Some (count d c)"
    by (rule ticks_only_count) (use tc assms(4) in \<open>simp_all add: timer_off_def\<close>)
  let ?c = "session_start (count d c)"
  have "timer ?c = \<lparr>packet_counter = int d, silence_counter = int d, packet_interval = 300,
      silence_interval = 400, packet_ON = True, silence_ON = True\<rparr>" "sent ?c = sent s"
    by (simp_all add: session_start_def start_packet_def start_silence_def count_def tc timer_off_def)
  then have "ticks_pass e n ?c = Some (count n ?c)"
    by (intro ticks_only_count) (use assms in \<open>simp_all add: SILENCE_INTERVAL_TIME_def\<close>)
  then show ?thesis using 1 tc by (simp add: session_start_def start_packet_def start_silence_def count_def)
qed

theorem late_start_no_dummies_witness:
  "\<exists>t. do { c \<leftarrow> ticks_pass zero_env 500 (create_session [] 5060 (sample_state
      \<lparr>algos := no_padding_options\<lparr>is_burst_padding := 1\<rparr>\<rparr>)); ticks_pass zero_env 1000000 (session_start c) } = Some t
    \<and> packet_ON (timer t) \<and> silence_ON (timer t) \<and> sent t = []"
  using late_start_no_dummies[of "sample_state\<lparr>algos := no_padding_options\<lparr>is_burst_padding := 1\<rparr>\<rparr>" 500 1000000 zero_env "[]" 5060]
  by (simp add: sample_state_def SILENCE_INTERVAL_TIME_def INT_MAX_def)

theorem dummy_sent_in_silence_witness:
  "\<exists>t bufs. ticks_pass zero_env 400 (session_start (create_session [] 5060 (sample_state
      \<lparr>algos := no_padding_options\<lparr>is_burst_padding := 1\<rparr>\<rparr>))) = Some t \<and> sent t = bufs \<and> bufs \<noteq> []"
proof -
  let ?s = "session_start (create_session [] 5060 (sample_state\<lparr>algos := no_padding_options\<lparr>is_burst_padding := 1\<rparr>\<rparr>))"
  have t: "timer ?s = \<lparr>packet_counter = 0, silence_counter = 0, packet_interval = 300, silence_interval = 400,
      packet_ON = True, silence_ON = True\<rparr>"
    by (simp add: session_start_def start_packet_def start_silence_def create_session_def new_SRPPSession_def
        new_SRPPTimer_def setPacketTimer_def setSilenceTimer_def PACKET_INTERVAL_TIME_def SILENCE_INTERVAL_TIME_def
        sample_state_def timer_off_def)
  have "padding_inv ?s" "sint (encryption_key (session ?s)) = 1655" "packet_to_send ?s = 0" "sent ?s = []"
    "is_burst_padding (algos ?s) = 1"
    using sample_state_inv
    by (simp_all add: padding_inv_def session_start_def start_packet_def start_silence_def create_session_def new_SRPPSession_def
        new_SRPPTimer_def setPacketTimer_def setSilenceTimer_def sample_state_def no_padding_options_def)
  then show ?thesis using dummy_sent_in_silence[of ?s 400 zero_env] t
    by (auto simp: timer_inv_def INT_MAX_def)
qed

end
