(* ===== verification/Srpp_Rtp.thy ===== *)
theory Srpp_Rtp
  imports Srpp_Timer
begin

text \<open>
  RTP messages (\<open>src/libSRPP/include/rtp.hpp\<close>) and their conversion to and from SRPP messages
  (\<open>SRPP_functions.cpp\<close>). A header keeps its fields as they are in memory; the conversions between
  network and host order are those the source makes. The uninitialised parts of a new message come from the
  environment. \<^const>\<open>None\<close> is an access outside an array, or padding that never ends.
\<close>

section \<open>RTP messages\<close>

record RTP_Header =
  rh_version :: "2 word"
  rh_p :: "1 word"
  rh_x :: "1 word"
  rh_cc :: "4 word"
  rh_m :: "1 word"
  rh_pt :: "7 word"
  rh_seq :: u16
  rh_ts :: u32
  rh_ssrc :: u32
  rh_csrc :: "u32 list"

record RTPMessage =
  rtp_header :: RTP_Header
  rtp_payload :: "u8 list"

definition new_RTPMessage :: "env \<Rightarrow> 'd srpp_scheme \<Rightarrow> RTPMessage \<times> 'd srpp_scheme" where
  "new_RTPMessage e s =
    (let n = rtpSequenceNo s + 1 in
     (\<lparr>rtp_header = \<lparr>rh_version = 2, rh_p = 1, rh_x = 0, rh_cc = 15, rh_m = 0, rh_pt = 0, rh_seq = ucast n,
         rh_ts = 0, rh_ssrc = 0, rh_csrc = map (junk e) [0..<15]\<rparr>,
       rtp_payload = map (stack e) [0..<nat MAXPAYLOADSIZE]\<rparr>,
      s\<lparr>rtpSequenceNo := n\<rparr>))"

text \<open>\<open>data.copy\<close> into the array of 1464 octets, and the terminating zero.\<close>

definition create_rtp_message :: "env \<Rightarrow> u8 list \<Rightarrow> 'd srpp_scheme \<Rightarrow> (RTPMessage \<times> 'd srpp_scheme) option" where
  "create_rtp_message e data s =
    (let (m, s) = new_RTPMessage e s in
     do { p \<leftarrow> poke (rtp_payload m) 0 (data @ [0]); Some (m\<lparr>rtp_payload := p\<rparr>, s) })"

text \<open>The header in memory: 72 octets.\<close>

definition rtp_header_bytes :: "RTP_Header \<Rightarrow> u8 list" where
  "rtp_header_bytes h =
     le16 (ucast (rh_cc h) OR push_bit 4 (ucast (rh_x h)) OR push_bit 5 (ucast (rh_p h))
       OR push_bit 6 (ucast (rh_version h)) OR push_bit 8 (ucast (rh_pt h)) OR push_bit 15 (ucast (rh_m h)))
     @ le16 (rh_seq h) @ le32 (rh_ts h) @ le32 (rh_ssrc h) @ concat (map le32 (rh_csrc h))"

definition rtp_header_of_bytes :: "u8 list \<Rightarrow> RTP_Header" where
  "rtp_header_of_bytes b =
    (let w = of_le16 b in
     \<lparr>rh_version = ucast (drop_bit 6 w), rh_p = ucast (drop_bit 5 w), rh_x = ucast (drop_bit 4 w), rh_cc = ucast w,
      rh_m = ucast (drop_bit 15 w), rh_pt = ucast (drop_bit 8 w), rh_seq = of_le16 (drop 2 b),
      rh_ts = of_le32 (drop 4 b), rh_ssrc = of_le32 (drop 8 b),
      rh_csrc = map (\<lambda>i. of_le32 (drop (12 + 4 * i) b)) [0..<15]\<rparr>)"

text \<open>\<open>rtp_to_network\<close> stores the whole header and then the payload after the CSRC entries that \<open>ntohs(cc)\<close>
  announces, over the unused ones.\<close>

definition rtp_to_network :: "RTPMessage \<Rightarrow> u8 list \<Rightarrow> nat \<Rightarrow> u8 list option" where
  "rtp_to_network m buff len = do {
     buff \<leftarrow> poke buff 0 (rtp_header_bytes (rtp_header m));
     data \<leftarrow> peek (rtp_payload m) 0 len;
     let off = 72 - 4 * (15 - uint (ntohs (ucast (rh_cc (rtp_header m)))));
     poke buff (nat off) data }"

section \<open>Conversion\<close>

text \<open>The loop over \<open>ntohs(cc)\<close> CSRC entries.\<close>

definition copy_csrc :: "4 word \<Rightarrow> (u32 \<Rightarrow> u32) \<Rightarrow> u32 list \<Rightarrow> u32 list \<Rightarrow> u32 list option" where
  "copy_csrc cc f src dst =
    (let n = unat (ntohs (ucast cc)) in
     if n > length src \<or> n > length dst then None else Some (map f (take n src) @ drop n dst))"

text \<open>What both variants do once the header is set: mark as media, pad, encrypt.\<close>

definition finish_media :: "env \<Rightarrow> SRPPMessage \<Rightarrow> 'd srpp_scheme \<Rightarrow> (SRPPMessage \<times> 'd srpp_scheme) option" where
  "finish_media e m s = do {
     let m = m\<lparr>encrypted_part := (encrypted_part m)\<lparr>dummy_flag := 0\<rparr>\<rparr>;
     (m, s) \<leftarrow> pad e m s;
     let m = m\<lparr>encrypted_part := (encrypted_part m)
               \<lparr>pad_count := of_nat (length (srpp_padding (encrypted_part m)))\<rparr>\<rparr>;
     Some (encrypt_srpp e m s) }"

definition rtp_to_srpp_msg :: "env \<Rightarrow> RTPMessage \<Rightarrow> 'd srpp_scheme \<Rightarrow> (SRPPMessage \<times> 'd srpp_scheme) option" where
  "rtp_to_srpp_msg e rtp s =
    (if 0 \<notin> set (rtp_payload rtp) then None
     else do {
       let h = rtp_header rtp;
       let (m, s) = create_srpp_message e (c_str (rtp_payload rtp)) s;
       csrc \<leftarrow> copy_csrc (rh_cc h) id (rh_csrc h) (sh_csrc (srpp_header m));
       finish_media e
         \<lparr>srpp_header = (srpp_header m)\<lparr>sh_version := rh_version h, sh_cc := rh_cc h, sh_x := rh_x h, sh_m := rh_m h,
            sh_pt := rh_pt h, sh_ts := rh_ts h, sh_ssrc := rh_ssrc h, sh_csrc := csrc, sh_srpp_signalling := 0\<rparr>,
          encrypted_part = (encrypted_part m)\<lparr>original_padding_bit := rh_p h, original_seq_number := rh_seq h\<rparr>,
          authentication_tag = authentication_tag m\<rparr> s })"

text \<open>The variant for packets seen on the network: \<open>length\<close> octets of \<open>buff\<close> are the payload.\<close>

definition rtp_to_srpp :: "env \<Rightarrow> RTP_Header \<Rightarrow> u8 list \<Rightarrow> nat \<Rightarrow> 'd srpp_scheme \<Rightarrow> (SRPPMessage \<times> 'd srpp_scheme) option" where
  "rtp_to_srpp e h buff len s = do {
     data \<leftarrow> peek buff 0 len;
     let (m, s) = create_srpp_message e data s;
     csrc \<leftarrow> copy_csrc (rh_cc h) (\<lambda>c. ucast (ntohs (ucast c))) (rh_csrc h) (sh_csrc (srpp_header m));
     finish_media e
       \<lparr>srpp_header = (srpp_header m)\<lparr>sh_version := rh_version h, sh_cc := rh_cc h, sh_x := rh_x h, sh_m := rh_m h,
          sh_pt := rh_pt h, sh_ts := ntohl (rh_ts h), sh_ssrc := ntohl (rh_ssrc h), sh_csrc := csrc,
          sh_srpp_signalling := 0, sh_seq := ucast (lastSequenceNo s)\<rparr>,
        encrypted_part = (encrypted_part m)\<lparr>original_padding_bit := rh_p h, original_seq_number := ntohs (rh_seq h)\<rparr>,
        authentication_tag = authentication_tag m\<rparr> s }"

text \<open>The SRTP variant takes the message object as a C string, from its header on.\<close>

definition srtp_to_srpp :: "env \<Rightarrow> u8 list \<Rightarrow> 'd srpp_scheme \<Rightarrow> (SRPPMessage \<times> 'd srpp_scheme) option" where
  "srtp_to_srpp e obj s =
    (if 0 \<notin> set obj \<or> length obj < 72 then None
     else do {
       let h = rtp_header_of_bytes obj;
       let (m, s) = create_srpp_message e (c_str obj) s;
       csrc \<leftarrow> copy_csrc (rh_cc h) id (rh_csrc h) (sh_csrc (srpp_header m));
       finish_media e
         (m\<lparr>srpp_header := (srpp_header m)\<lparr>sh_version := rh_version h, sh_cc := rh_cc h, sh_x := rh_x h,
            sh_m := rh_m h, sh_pt := rh_pt h, sh_ts := rh_ts h, sh_ssrc := rh_ssrc h, sh_csrc := csrc,
            sh_srpp_signalling := 0, sh_seq := ucast (lastSequenceNo s)\<rparr>\<rparr>) s })"

definition srpp_to_rtp :: "env \<Rightarrow> SRPPMessage \<Rightarrow> 'd srpp_scheme \<Rightarrow> (RTPMessage \<times> 'd srpp_scheme) option" where
  "srpp_to_rtp e m s = do {
     let (_, s) = new_RTPMessage e s;
     let (status, m) = unpad (decrypt_srpp m s);
     (rtp, s) \<leftarrow> create_rtp_message e (if status = -1 then [] else original_payload (encrypted_part m)) s;
     let h = srpp_header m;
     csrc \<leftarrow> copy_csrc (sh_cc h) id (sh_csrc h) (rh_csrc (rtp_header rtp));
     Some (rtp\<lparr>rtp_header := \<lparr>rh_version = sh_version h, rh_p = original_padding_bit (encrypted_part m),
       rh_x = sh_x h, rh_cc = sh_cc h, rh_m = sh_m h, rh_pt = sh_pt h,
       rh_seq = original_seq_number (encrypted_part m), rh_ts = sh_ts h, rh_ssrc = sh_ssrc h, rh_csrc = csrc\<rparr>\<rparr>, s) }"

text \<open>The SRTP variant copies a length the caller gives.\<close>

definition srpp_to_srtp_buff :: "SRPPMessage \<Rightarrow> u8 list \<Rightarrow> nat \<Rightarrow> 'd srpp_scheme \<Rightarrow> (int \<times> u8 list) option" where
  "srpp_to_srtp_buff m buff len s =
    (let (status, m) = unpad (decrypt_srpp m s) in
     if status = -1 then Some (-1, buff)
     else do {
       data \<leftarrow> peek (original_payload (encrypted_part m)) 0 len;
       buff \<leftarrow> poke buff 0 data;
       Some (0, buff) })"

section \<open>Conversion of a packet\<close>

lemma copy_csrc_0 [simp]: "copy_csrc 0 f src dst = Some dst"
  by (simp add: copy_csrc_def htons_def le16_def of_le16_def)

lemma htons_nonzero:
  assumes "(c :: 4 word) \<noteq> 0"
  shows "15 < unat (htons (ucast c))"
proof -
  have "\<forall>c \<in> {1..15 :: int}. 15 < unat (htons (ucast (word_of_int c :: 4 word)))"
    by code_simp
  moreover have "uint c \<in> {1..15}"
  proof -
    have "uint c < 16" using uint_bounded[of c] by simp
    moreover have "uint c \<noteq> 0" using assms by (metis unsigned_eq_0_iff)
    ultimately show ?thesis using uint_nonnegative[of c] by (simp only: atLeastAtMost_iff) linarith
  qed
  ultimately have "15 < unat (htons (ucast (word_of_int (uint c) :: 4 word)))" by blast
  then show ?thesis by simp
qed

lemma create_srpp_message_ok:
  assumes "data \<noteq> []"
  shows "fst (create_srpp_message e data s) =
      (let m = fst (construct_message e s) in m\<lparr>encrypted_part := (encrypted_part m)\<lparr>original_payload := data\<rparr>\<rparr>)"
    "snd (create_srpp_message e data s) = snd (construct_message e s)"
  using assms by (simp_all add: create_srpp_message_def split_beta Let_def)

lemma finish_media_ok:
  fixes m :: SRPPMessage and s :: "'d srpp_scheme"
  defines "n \<equiv> length (original_payload (encrypted_part m))"
  assumes "padding_inv s" "sh_cc (srpp_header m) = 0" "n \<le> 1366 \<or> is_full_bandwidth (algos s) = 0"
  obtains q t where
    "finish_media e m s = Some (srpp_encrypt (encryption_key (session s)) (m\<lparr>encrypted_part := (encrypted_part m)
        \<lparr>srpp_padding := q, pad_count := of_nat (length q), dummy_flag := 0\<rparr>\<rparr>), t)"
    "int (length q) = fst (psp_extra_size e (int n) s)" "length q < 2 ^ 32" "padding_inv t"
    "session t = session s" "sent t = sent s" "packet_to_send t = packet_to_send s"
proof -
  let ?m = "m\<lparr>encrypted_part := (encrypted_part m)\<lparr>dummy_flag := 0\<rparr>\<rparr>"
  have n: "n = length (original_payload (encrypted_part ?m))" by (simp add: n_def)
  show ?thesis
  proof (rule pad_ok[of s ?m e])
    fix q t
    assume t: "pad e ?m s = Some (?m\<lparr>encrypted_part := (encrypted_part ?m)
        \<lparr>srpp_padding := q, pad_count := of_nat (length q), dummy_flag := 0\<rparr>\<rparr>, t)"
      "int (length q) = fst (psp_extra_size e (int (length (original_payload (encrypted_part ?m)))) s)"
      "length q < 2 ^ 32" "padding_inv t" "session t = session s" "sent t = sent s" "packet_to_send t = packet_to_send s"
    let ?m' = "m\<lparr>encrypted_part := (encrypted_part m)\<lparr>srpp_padding := q, pad_count := of_nat (length q), dummy_flag := 0\<rparr>\<rparr>"
    obtain v where v: "fst (encrypt_srpp e ?m' t) = srpp_encrypt (encryption_key (session t))
       (?m'\<lparr>encrypted_part := (encrypted_part ?m')\<lparr>dummy_flag := dummy_flag (encrypted_part ?m') AND v\<rparr>\<rparr>)"
      using encrypt_srpp_fst by metis
    have c: "(encrypted_part m)\<lparr>srpp_padding := q, dummy_flag := 0, pad_count := of_nat (length q)\<rparr>
        = (encrypted_part m)\<lparr>srpp_padding := q, pad_count := of_nat (length q), dummy_flag := 0\<rparr>"
      by (cases "encrypted_part m") simp
    have "finish_media e m s = Some (encrypt_srpp e ?m' t)" using t(1) by (simp add: finish_media_def c)
    also have "fst (encrypt_srpp e ?m' t) = srpp_encrypt (encryption_key (session s)) ?m'" using v t(5) by simp
    then have "Some (encrypt_srpp e ?m' t) = Some (srpp_encrypt (encryption_key (session s)) ?m', snd (encrypt_srpp e ?m' t))"
      by (metis prod.collapse)
    finally show ?thesis
      using that[of q "snd (encrypt_srpp e ?m' t)"] t n padding_inv_cong[of "snd (encrypt_srpp e ?m' t)" t] by simp
  qed (use assms n in simp_all)
qed

text \<open>The plain message that \<open>rtp_to_srpp\<close> encrypts.\<close>

definition media_plain :: "env \<Rightarrow> RTP_Header \<Rightarrow> u8 list \<Rightarrow> u8 list \<Rightarrow> 'd srpp_scheme \<Rightarrow> SRPPMessage" where
  "media_plain e h data q s =
    (let m = fst (construct_message e s) in
     \<lparr>srpp_header = (srpp_header m)\<lparr>sh_version := rh_version h, sh_cc := 0, sh_x := rh_x h, sh_m := rh_m h,
          sh_pt := rh_pt h, sh_ts := ntohl (rh_ts h), sh_ssrc := ntohl (rh_ssrc h), sh_srpp_signalling := 0\<rparr>,
      encrypted_part = \<lparr>original_payload = data, srpp_padding = q, pad_count = of_nat (length q), dummy_flag = 0,
          original_padding_bit = rh_p h, original_seq_number = ntohs (rh_seq h)\<rparr>,
      authentication_tag = 0\<rparr>)"

lemma rtp_to_srpp_ok:
  assumes "padding_inv s" "rh_cc h = 0" "0 < len" "len \<le> length buff" "len \<le> 1366 \<or> is_full_bandwidth (algos s) = 0"
  obtains q t where
    "rtp_to_srpp e h buff len s = Some (srpp_encrypt (encryption_key (session s)) (media_plain e h (take len buff) q s), t)"
    "int (length q) = fst (psp_extra_size e (int len) (snd (construct_message e s)))" "length q < 2 ^ 32" "padding_inv t"
    "session t = session s" "sent t = sent s" "packet_to_send t = packet_to_send s"
proof -
  let ?s = "snd (construct_message e s)" and ?d = "take len buff"
  have d: "?d \<noteq> []" "length ?d = len" using assms(3,4) by auto
  let ?c = "create_srpp_message e ?d s"
  have inv: "padding_inv ?s" using assms(1) padding_inv_cong[of ?s s] by simp
  define m where "m = \<lparr>srpp_header = (srpp_header (fst ?c))\<lparr>sh_version := rh_version h, sh_cc := 0, sh_x := rh_x h, sh_m := rh_m h,
          sh_pt := rh_pt h, sh_ts := ntohl (rh_ts h), sh_ssrc := ntohl (rh_ssrc h), sh_csrc := sh_csrc (srpp_header (fst ?c)),
          sh_srpp_signalling := 0, sh_seq := ucast (lastSequenceNo ?s)\<rparr>,
        encrypted_part = (encrypted_part (fst ?c))\<lparr>original_padding_bit := rh_p h, original_seq_number := ntohs (rh_seq h)\<rparr>,
        authentication_tag = authentication_tag (fst ?c)\<rparr>"
  have run: "rtp_to_srpp e h buff len s = finish_media e m ?s"
    using assms(2,4) by (simp add: rtp_to_srpp_def peek_def split_beta create_srpp_message_ok(2)[OF d(1)] m_def)
  have plain: "m\<lparr>encrypted_part := (encrypted_part m)
        \<lparr>srpp_padding := q, pad_count := of_nat (length q), dummy_flag := 0\<rparr>\<rparr> = media_plain e h ?d q s" for q
    by (simp add: media_plain_def create_srpp_message_ok(1)[OF d(1)] Let_def construct_message_def new_SRPPMessage_def m_def)
  have pay: "original_payload (encrypted_part m) = ?d" "sh_cc (srpp_header m) = 0"
    by (simp_all add: create_srpp_message_ok(1)[OF d(1)] Let_def m_def)
  show ?thesis
  proof (rule finish_media_ok[OF inv, of m e])
    fix q t
    assume "finish_media e m ?s = Some (srpp_encrypt (encryption_key (session ?s)) (m\<lparr>encrypted_part := (encrypted_part m)
        \<lparr>srpp_padding := q, pad_count := of_nat (length q), dummy_flag := 0\<rparr>\<rparr>), t)"
      "int (length q) = fst (psp_extra_size e (int (length (original_payload (encrypted_part m)))) ?s)"
      "length q < 2 ^ 32" "padding_inv t" "session t = session ?s" "sent t = sent ?s"
      "packet_to_send t = packet_to_send ?s"
    then show ?thesis using that[of q t] unfolding run plain pay d(2) by simp
  qed (use assms(5) d(2) pay in auto)
qed

text \<open>What \<open>srpp_to_rtp\<close> makes of a message that decrypts to a media message.\<close>

lemma srpp_to_rtp_media:
  assumes "srpp_decrypt (encryption_key (session r)) m = d" "dummy_flag (encrypted_part d) = 0"
    "sh_cc (srpp_header d) = 0" "length (original_payload (encrypted_part d)) < 1464"
  obtains rtp t where "srpp_to_rtp e m r = Some (rtp, t)"
    "take (length (original_payload (encrypted_part d)) + 1) (rtp_payload rtp) = original_payload (encrypted_part d) @ [0]"
    "rtp_header rtp = \<lparr>rh_version = sh_version (srpp_header d), rh_p = original_padding_bit (encrypted_part d),
       rh_x = sh_x (srpp_header d), rh_cc = 0, rh_m = sh_m (srpp_header d), rh_pt = sh_pt (srpp_header d),
       rh_seq = original_seq_number (encrypted_part d), rh_ts = sh_ts (srpp_header d),
       rh_ssrc = sh_ssrc (srpp_header d), rh_csrc = map (junk e) [0..<15]\<rparr>"
proof -
  let ?r = "snd (new_RTPMessage e r)"
  let ?p = "original_payload (encrypted_part d)"
  have k: "session ?r = session r" by (simp add: new_RTPMessage_def Let_def)
  let ?u = "d\<lparr>encrypted_part := (encrypted_part d)\<lparr>srpp_padding := [], pad_count := 0\<rparr>\<rparr>"
  have u: "fst (unpad (decrypt_srpp m ?r)) = 1" "srpp_header (snd (unpad (decrypt_srpp m ?r))) = srpp_header d"
    "original_payload (encrypted_part (snd (unpad (decrypt_srpp m ?r)))) = ?p"
    "original_padding_bit (encrypted_part (snd (unpad (decrypt_srpp m ?r)))) = original_padding_bit (encrypted_part d)"
    "original_seq_number (encrypted_part (snd (unpad (decrypt_srpp m ?r)))) = original_seq_number (encrypted_part d)"
    using assms(1,2) by (simp_all add: unpad_def decrypt_srpp_def k Let_def)
  let ?n = "new_RTPMessage e ?r"
  have "length (rtp_payload (fst ?n)) = 1464" "rh_csrc (rtp_header (fst ?n)) = map (junk e) [0..<15]"
    by (simp_all add: new_RTPMessage_def Let_def MAXPAYLOADSIZE_def)
  then show ?thesis using assms(3,4)
    by (intro that) (auto simp: srpp_to_rtp_def split_beta u create_rtp_message_def poke_def Let_def)
qed


definition sample_rtp :: RTP_Header where
  "sample_rtp = \<lparr>rh_version = 2, rh_p = 0, rh_x = 0, rh_cc = 0, rh_m = 0, rh_pt = 8, rh_seq = htons 700, rh_ts = htonl 16000,
     rh_ssrc = 99, rh_csrc = replicate 15 0\<rparr>"


lemma sint_neg_bit: "sint (k :: u32) < 0 \<longleftrightarrow> bit k 31"
  by (simp add: sint_uint bit_uint_iff)

text \<open>When writing a media message succeeds under a key that is not positive, the pad count as stored in the
  message lies inside the buffer.\<close>

lemma srpp_to_network_count:
  assumes "srpp_to_network f m buff key = Some x" "sh_srpp_signalling (srpp_header m) = 0" "\<not> 0 < key"
  shows "unat (pad_count (encrypted_part m)) \<le> length buff"
proof (cases "pad_count (encrypted_part m) > 0")
  case True
  have poke_len: "off + length bs \<le> length b \<and> length b' = length b" if "poke b off bs = Some b'" for b off bs b'
    using that by (auto simp: poke_def split: if_splits)
  show ?thesis
    using assms True unfolding srpp_to_network_def Let_def strcpy_def
    by (auto split: bind_splits dest!: poke_len)
next
  case False
  then have "pad_count (encrypted_part m) = 0" by (metis word_gt_0)
  then show ?thesis by simp
qed

text \<open>A key that is negative as an \<open>int\<close> (a peer can send one in its HELLO) makes the first media packet write
  outside its buffer: the pad count stays encrypted in \<open>srpp_to_network\<close>, which takes it for the number of padding
  octets, more than two thousand million.\<close>

theorem negative_key_overflow:
  assumes "padding_inv s" "sint (encryption_key (session s)) < 0" "algos s = no_padding_options"
    and "rh_cc h = 0" "0 < len" "len < 1366" "len \<le> length buff"
  shows "\<exists>m t. rtp_to_srpp e h buff len s = Some (m, t) \<and> send_message e m t = None"
proof -
  let ?k = "encryption_key (session s)" and ?s = "snd (construct_message e s)"
  obtain q t where t: "rtp_to_srpp e h buff len s = Some (srpp_encrypt ?k (media_plain e h (take len buff) q s), t)"
    "int (length q) = fst (psp_extra_size e (int len) ?s)" "session t = session s"
    using rtp_to_srpp_ok[OF assms(1,4,5,7), of e] assms(6) by (metis less_imp_le)
  let ?m = "srpp_encrypt ?k (media_plain e h (take len buff) q s)"
  have q: "length q \<le> 1366"
    using t(2) psp_extra_size_random(2)[of ?s "int len" e] assms(3,6) by (simp add: no_padding_options_def)
  have len: "length (take len buff) = len" using assms(7) by simp
  have hdr: "sh_srpp_signalling (srpp_header ?m) = 0" "original_payload (encrypted_part ?m) \<noteq> []"
    "length (original_payload (encrypted_part ?m)) = len" "length (srpp_padding (encrypted_part ?m)) = length q"
    "pad_count (encrypted_part ?m) = of_nat (length q) XOR ?k"
    using assms(5,7) by (auto simp: srpp_encrypt_def media_plain_def Let_def)
  have "\<not> bit (of_nat (length q) :: u32) 31"
    using bit_31_big[of "of_nat (length q)"] q unat_of_nat_u32[of "length q"] by auto
  then have "bit (of_nat (length q) XOR ?k) 31" using assms(2) by (simp add: sint_neg_bit bit_xor_iff)
  then have big: "2 ^ 31 \<le> unat (pad_count (encrypted_part ?m))" using bit_31_big unfolding hdr(5) by blast
  have "send_message e ?m t = None"
  proof (rule ccontr)
    assume "send_message e ?m t \<noteq> None"
    moreover have "isSignalingMessage ?m \<noteq> 1" using hdr(1) by (simp add: isSignalingMessage_def signalling_kind_def)
    ultimately obtain x where "srpp_to_network (\<lambda>t. ucast (rand_after e t)) ?m
        (map (heap e) [0..<80 + len + length q + 12]) (sint ?k) = Some x"
      using hdr(2-4) t(3) assms(5) unfolding send_message_def Let_def by (auto split: bind_splits)
    with srpp_to_network_count[OF this hdr(1)] assms(2) big q assms(6) show False by (simp add: hdr(3,4))
  qed
  then show ?thesis using t(1) by blast
qed

theorem negative_key_overflow_witness:
  "\<exists>m t. rtp_to_srpp zero_env sample_rtp [1, 2, 3] 3 (setKey (-1) sample_state) = Some (m, t)
    \<and> send_message zero_env m t = None"
proof -
  have "padding_inv (setKey (-1) sample_state)" using sample_state_inv by (simp add: padding_inv_def setKey_def)
  then show ?thesis
    using negative_key_overflow[of "setKey (-1) sample_state" sample_rtp 3 "[1, 2, 3]" zero_env]
    by (simp add: sample_rtp_def setKey_def sample_state_def)
qed

text \<open>The CSRC count is passed through \<open>ntohs\<close>, which makes at least 256 of it, so a packet with any CSRC entry
  reads and writes outside the arrays of 15 entries when it is converted, in both directions.\<close>

theorem csrc_out_of_bounds:
  fixes s :: "'d srpp_scheme"
  assumes "length (rh_csrc h) = 15" "rh_cc h \<noteq> 0" "length (sh_csrc (srpp_header m)) = 15" "sh_cc (srpp_header m) \<noteq> 0"
  shows "rtp_to_srpp e h buff len s = None \<and> rtp_to_srpp_msg e \<lparr>rtp_header = h, rtp_payload = p\<rparr> s = None
    \<and> srpp_to_rtp e m s = None"
proof -
  have c: "copy_csrc cc f src dst = None" if "cc \<noteq> 0" "length src = 15" for cc f src dst
    using htons_nonzero[OF that(1)] that(2) by (simp add: copy_csrc_def)
  have "srpp_header (snd (unpad (decrypt_srpp m t))) = srpp_header m" for t :: "'d srpp_scheme"
    by (simp add: unpad_def decrypt_srpp_def srpp_decrypt_def Let_def)
  then show ?thesis using assms
    by (auto simp: rtp_to_srpp_def rtp_to_srpp_msg_def srpp_to_rtp_def split_beta Let_def c split: bind_splits)
qed

theorem csrc_out_of_bounds_witness:
  "rtp_to_srpp zero_env (sample_rtp\<lparr>rh_cc := 1\<rparr>) [1, 2, 3] 3 sample_state = None"
  using csrc_out_of_bounds[of "sample_rtp\<lparr>rh_cc := 1\<rparr>"
      "(sample_msg 0 [] [])\<lparr>srpp_header := (srpp_header (sample_msg 0 [] []))\<lparr>sh_cc := 1\<rparr>\<rparr>" zero_env "[1, 2, 3]" 3
      sample_state "[]"]
  by (simp add: sample_rtp_def sample_msg_def new_SRPPMessage_def)

end
