(* ===== verification/Srpp_Signaling.thy ===== *)
theory Srpp_Signaling
  imports Srpp_Rtp
begin

text \<open>
  In-band signalling (\<open>src/libSRPP/include/Signaling_functions.hpp\<close>), the handling of received datagrams and
  the session operations of \<open>SRPP_functions.cpp\<close>, and the SDP parameters of \<open>sdp_srpp.hpp\<close>.

  The handlers and \<open>receive_message\<close> call each other. Here a handler has the receive operation as an
  argument \<open>recv\<close>, and \<open>receive_message\<close> ties the knot with a fuel argument; every call takes a datagram from
  \<^const>\<open>inbox\<close>, so that more fuel than datagrams is never used up. \<^const>\<open>None\<close> is that the program does not
  go on: it waits in \<open>recvfrom\<close> for a datagram that never comes, or its behaviour is undefined, or it leaves by
  an exception.

  A function with a result that reaches its end without a \<open>return\<close> has, strictly, no defined behaviour;
  for \<open>processReceivedData\<close> that is the constructor \<open>Flows_off\<close>, with the message object that is the
  result when compilers construct it in place; for \<open>verifySignalling\<close> the result is whatever the environment
  has in \<^const>\<open>junk\<close>.
\<close>

section \<open>Strings\<close>

text \<open>\<open>atoi\<close>: white space, a sign, digits; the value saturates in the range of \<open>long\<close> and is cut to \<open>int\<close>.\<close>

definition is_space :: "u8 \<Rightarrow> bool" where
  "is_space c \<longleftrightarrow> c = 32 \<or> (9 \<le> c \<and> c \<le> 13)"

definition is_digit :: "u8 \<Rightarrow> bool" where
  "is_digit c \<longleftrightarrow> 48 \<le> c \<and> c \<le> 57"

definition digits_value :: "u8 list \<Rightarrow> int" where
  "digits_value ds = foldl (\<lambda>v c. 10 * v + (uint c - 48)) 0 ds"

definition strtol :: "u8 list \<Rightarrow> int" where
  "strtol s =
    (let s = dropWhile is_space s;
         neg = (s \<noteq> [] \<and> hd s = 45);
         s = (if s \<noteq> [] \<and> (hd s = 45 \<or> hd s = 43) then tl s else s);
         v = digits_value (takeWhile is_digit s);
         v = (if neg then - v else v)
     in max (- (2 ^ 63)) (min (2 ^ 63 - 1) v))"

definition atoi :: "u8 list \<Rightarrow> int" where
  "atoi s = sint (word_of_int (strtol s) :: u32)"

text \<open>\<open>%d\<close> of \<open>snprintf\<close>.\<close>

fun nat_digits :: "nat \<Rightarrow> u8 list" where
  "nat_digits n = (if n < 10 then [48 + of_nat n] else nat_digits (n div 10) @ [48 + of_nat (n mod 10)])"

declare nat_digits.simps [simp del]

definition int_digits :: "int \<Rightarrow> u8 list" where
  "int_digits i = (if i < 0 then 45 # nat_digits (nat (- i)) else nat_digits (nat i))"

text \<open>The fields before and after the first comma, as the \<open>substr\<close> and \<open>find_first_of\<close> calls of the source select
  them: without a comma both are the whole string.\<close>

definition first_field :: "u8 list \<Rightarrow> u8 list" where
  "first_field s = takeWhile (\<lambda>c. c \<noteq> 44) s"

definition second_field :: "u8 list \<Rightarrow> u8 list" where
  "second_field s = takeWhile (\<lambda>c. c \<noteq> 44) (if 44 \<in> set s then tl (dropWhile (\<lambda>c. c \<noteq> 44) s) else s)"

definition ascii :: "string \<Rightarrow> u8 list" where
  "ascii cs = map (\<lambda>c. of_nat (of_char c)) cs"

section \<open>Signalling messages\<close>

definition hello_options :: "int \<Rightarrow> int \<Rightarrow> u8 list" where
  "hello_options key psize =
     take 14 (int_digits key @ [44] @ int_digits psize) @ ascii '', YES, YES, YES, YES, DEFAULT, DEFAULT, DEFAULT''"

definition ack_options :: "int \<Rightarrow> u8 list" where
  "ack_options psize = take 5 (int_digits psize) @ ascii ''YES, YES, YES, DEFAULT, DEFAULT, DEFAULT''"

definition signalling_message :: "env \<Rightarrow> u8 list \<Rightarrow> u32 \<Rightarrow> 'd srpp_scheme \<Rightarrow> SRPPMessage \<times> 'd srpp_scheme" where
  "signalling_message e options kind s =
    (let (m, s) = create_srpp_message e options s in
     (m\<lparr>srpp_header := (srpp_header m)\<lparr>sh_pt := 124, sh_srpp_signalling := kind, sh_x := 1\<rparr>\<rparr>, s))"

section \<open>The state machine\<close>

datatype received = Returns_message SRPPMessage | Flows_off SRPPMessage

type_synonym 'd receiver = "'d srpp_scheme \<Rightarrow> (received \<times> 'd srpp_scheme) option"

definition set_signals :: "(SignalingFunctions \<Rightarrow> SignalingFunctions) \<Rightarrow> 'd srpp_scheme \<Rightarrow> 'd srpp_scheme" where
  "set_signals f s = s\<lparr>signals := f (signals s)\<rparr>"

definition sendHelloAckMessage :: "env \<Rightarrow> 'd receiver \<Rightarrow> 'd srpp_scheme \<Rightarrow> (int \<times> 'd srpp_scheme) option" where
  "sendHelloAckMessage e recv s =
    (let g = signals s in
     if (hellorecvd g \<noteq> 1 \<and> hellosent g \<noteq> 1) \<or> helloacksent g = 1 then Some (-1, s)
     else do {
       let (m, s) = signalling_message e (ack_options (ses_maxpacketsize (session s))) 13 s;
       if helloackrecvd g \<noteq> 1 \<or> hellosent g = 1
       then do {
         (_, s) \<leftarrow> send_message e m s;
         let s = set_signals (\<lambda>g. g\<lparr>helloacksent := 1\<rparr>) s;
         if signaling_complete (signals s) = 0 then do { (_, s) \<leftarrow> recv s; Some (0, s) } else Some (0, s) }
       else Some (0, s) })"

definition receivedHelloMessage :: "env \<Rightarrow> 'd receiver \<Rightarrow> 'd srpp_scheme \<Rightarrow> (int \<times> 'd srpp_scheme) option" where
  "receivedHelloMessage e recv s = sendHelloAckMessage e recv (set_signals (\<lambda>g. g\<lparr>hellorecvd := 1\<rparr>) s)"

definition receivedHelloAckMessage :: "env \<Rightarrow> 'd receiver \<Rightarrow> 'd srpp_scheme \<Rightarrow> (int \<times> 'd srpp_scheme) option" where
  "receivedHelloAckMessage e recv s =
    (let s = set_signals (\<lambda>g. g\<lparr>helloackrecvd := 1\<rparr>) s in
     if helloacksent (signals s) = 0
     then do {
       (i, s) \<leftarrow> sendHelloAckMessage e recv (set_signals (\<lambda>g. g\<lparr>signaling_complete := 1\<rparr>) s);
       Some (i, set_signals (\<lambda>g. g\<lparr>hellosent := 0, helloackrecvd := 0\<rparr>) s) }
     else Some (0, set_signals (\<lambda>g. g\<lparr>signaling_complete := 1, hellosent := 0, helloackrecvd := 0\<rparr>) s))"

definition sendByeAckMessage :: "env \<Rightarrow> 'd srpp_scheme \<Rightarrow> (int \<times> 'd srpp_scheme) option" where
  "sendByeAckMessage e s =
    (let g = signals s in
     if (byerecvd g \<noteq> 1 \<and> byesent g \<noteq> 1) \<or> byeacksent g = 1 then Some (-1, s)
     else do {
       let (m, s) = signalling_message e [] 23 s;
       (_, s) \<leftarrow> send_message e m s;
       Some (0, set_signals (\<lambda>g. g\<lparr>byeacksent := 1\<rparr>) s) })"

definition receivedByeMessage :: "env \<Rightarrow> 'd srpp_scheme \<Rightarrow> (int \<times> 'd srpp_scheme) option" where
  "receivedByeMessage e s = sendByeAckMessage e (set_signals (\<lambda>g. g\<lparr>byerecvd := 1\<rparr>) s)"

definition receivedByeAckMessage :: "env \<Rightarrow> 'd srpp_scheme \<Rightarrow> (int \<times> 'd srpp_scheme) option" where
  "receivedByeAckMessage e s =
    (let s = set_signals (\<lambda>g. g\<lparr>byeackrecvd := 1, session_complete := 1\<rparr>) s in
     if byeacksent (signals s) = 0 then sendByeAckMessage e s else Some (0, s))"

text \<open>The waiting loops receive until a flag is set, at most \<open>wait_count + 1\<close> times; then they return -1.\<close>

primrec wait_loop :: "'d receiver \<Rightarrow> (SignalingFunctions \<Rightarrow> int) \<Rightarrow> nat \<Rightarrow> 'd srpp_scheme \<Rightarrow> (int \<times> 'd srpp_scheme) option" where
  "wait_loop recv flag 0 s =
    (if flag (signals s) = 0 then do { (_, s) \<leftarrow> recv s; Some (-1, s) } else Some (0, s))"
| "wait_loop recv flag (Suc n) s =
    (if flag (signals s) = 0 then do { (_, s) \<leftarrow> recv s; wait_loop recv flag n s } else Some (0, s))"

definition sendByeMessage :: "env \<Rightarrow> 'd receiver \<Rightarrow> 'd srpp_scheme \<Rightarrow> (int \<times> 'd srpp_scheme) option" where
  "sendByeMessage e recv s = do {
     let (m, s) = signalling_message e [] 22 s;
     (_, s) \<leftarrow> send_message e m s;
     let s = set_signals (\<lambda>g. g\<lparr>byesent := 1\<rparr>) s;
     let (_, s) = construct_message e s;
     (_, s) \<leftarrow> recv s;
     wait_loop recv session_complete 30000 s }"

primrec send_hellos :: "env \<Rightarrow> u8 list \<Rightarrow> nat \<Rightarrow> 'd srpp_scheme \<Rightarrow> 'd srpp_scheme option" where
  "send_hellos e options 0 s = Some s"
| "send_hellos e options (Suc n) s = do {
     let s = set_signals (\<lambda>g. g\<lparr>hellosent := 1\<rparr>) s;
     let (m, s) = signalling_message e options 12 s;
     (_, s) \<leftarrow> send_message e m s;
     send_hellos e options n s }"

text \<open>\<open>helloackrecvd\<close> is 0 throughout the loop that sends five copies.\<close>

definition sendHelloMessage :: "env \<Rightarrow> 'd receiver \<Rightarrow> 'd srpp_scheme \<Rightarrow> (int \<times> 'd srpp_scheme) option" where
  "sendHelloMessage e recv s =
    (let g = signals s in
     if hellosent g = 1 \<or> hellorecvd g = 1 \<or> helloacksent g = 1 \<or> helloackrecvd g = 1 then Some (-1, s)
     else do {
       let (key, s) = srpp_rand e 0 65535 s;
       let options = hello_options key (ses_maxpacketsize (session s));
       let s = setKey key s;
       let (_, s) = signalling_message e options 12 s;
       s \<leftarrow> send_hellos e options 5 s;
       if srpp_enabled s = 0 then Some (-10, s)
       else do {
         let (_, s) = construct_message e s;
         (_, s) \<leftarrow> recv s;
         wait_loop recv signaling_complete (2 * 60000) s }})"

definition signaling :: "env \<Rightarrow> 'd receiver \<Rightarrow> 'd srpp_scheme \<Rightarrow> (int \<times> 'd srpp_scheme) option" where
  "signaling e recv s =
    (if signaling_by_srpp s = 1 then sendHelloMessage e recv (snd (srpp_rand e 5000 10000 s)) else Some (0, s))"

definition setSignalingComplete :: "int \<Rightarrow> 'd srpp_scheme \<Rightarrow> 'd srpp_scheme" where
  "setSignalingComplete a s = (if a \<le> 1 then set_signals (\<lambda>g. g\<lparr>signaling_complete := a\<rparr>) s else s)"

section \<open>Sessions\<close>

definition stop_session :: "env \<Rightarrow> 'd receiver \<Rightarrow> 'd srpp_scheme \<Rightarrow> (int \<times> 'd srpp_scheme) option" where
  "stop_session e recv s =
    (let s = session_stop s in
     if srpp_enabled s = 0 then Some (-10, s)
     else do {
       s \<leftarrow> (if signaling_by_srpp s = 1 then do { (_, s) \<leftarrow> sendByeMessage e recv s; Some s } else Some s);
       Some (if session_complete (signals s) = 1 then 1 else -1, s) })"

definition start_session :: "env \<Rightarrow> 'd receiver \<Rightarrow> 'd srpp_scheme \<Rightarrow> (int \<times> 'd srpp_scheme) option" where
  "start_session e recv s = do {
     (r, s) \<leftarrow> signaling e recv s;
     if r < 0 then Some (-1, s) else Some (0, enable_srpp (session_start s)) }"

record sdp_srpp =
  valid :: int
  srpp_active :: int
  options :: "u8 list"
  sdp_key :: int
  maxpacketlength :: int

definition get_sdp_srpp :: "sdp_srpp \<Rightarrow> u8 list" where
  "get_sdp_srpp d = ascii ''a=srpp'' @ [10] @ ascii ''a=srppmap:'' @ options d"

definition process_sdp_srpp :: "u8 list \<Rightarrow> sdp_srpp \<Rightarrow> sdp_srpp" where
  "process_sdp_srpp thisoptions d =
    (let key = atoi (first_field thisoptions);
         size = atoi (second_field thisoptions);
         mx = (if maxpacketlength d > size then size else maxpacketlength d)
     in d\<lparr>options := thisoptions, sdp_key := key, maxpacketlength := mx,
          valid := (if key < 0 \<or> mx < 0 then 0 else 1)\<rparr>)"

definition start_session_sdp :: "env \<Rightarrow> 'd receiver \<Rightarrow> sdp_srpp \<Rightarrow> 'd srpp_scheme \<Rightarrow> (int \<times> 'd srpp_scheme) option" where
  "start_session_sdp e recv sdp s =
    (let s = s\<lparr>signaling_by_srpp := 0\<rparr> in
     if srpp_active sdp = 0 then stop_session e recv (disable_srpp s)
     else
       let s = setKey (sdp_key sdp) s;
           s = s\<lparr>session := (session s)\<lparr>ses_maxpacketsize := maxpacketlength sdp\<rparr>, maxpacketsize := maxpacketlength sdp\<rparr>;
           s = enable_srpp (setSignalingComplete 1 s)
       in Some (0, session_start s))"

section \<open>Received datagrams\<close>

definition verifySignalling :: "env \<Rightarrow> 'd receiver \<Rightarrow> u8 list \<Rightarrow> 'd srpp_scheme \<Rightarrow> (int \<times> 'd srpp_scheme) option" where
  "verifySignalling e recv buff s =
    (if hellosent (signals s) = 1
     then do {
       hb \<leftarrow> peek buff 0 80;
       if of_le32 (drop 76 hb) \<noteq> 13 \<and> (ucast (drop_bit 8 (of_le16 hb)) :: 7 word) \<noteq> 124
       then let s = s\<lparr>nonsrpp_message_count := nonsrpp_message_count s + 1\<rparr> in
         if nonsrpp_message_count s > max_nonsrpp_messages then stop_session e recv (disable_srpp s)
         else Some (-1, s)
       else Some (sint (junk e (ticks s)), s) }
     else Some (0, s))"

definition lower_maxpacketsize :: "int \<Rightarrow> 'd srpp_scheme \<Rightarrow> 'd srpp_scheme" where
  "lower_maxpacketsize v s =
    (if ses_maxpacketsize (session s) > v
     then s\<lparr>session := (session s)\<lparr>ses_maxpacketsize := v\<rparr>, maxpacketsize := v\<rparr> else s)"

definition handle_signalling :: "env \<Rightarrow> 'd receiver \<Rightarrow> SRPPMessage \<Rightarrow> 'd srpp_scheme \<Rightarrow> 'd srpp_scheme option" where
  "handle_signalling e recv m s =
    (let kind = sh_srpp_signalling (srpp_header m); opts = original_payload (encrypted_part m) in
     if kind = 12
     then do { (_, s) \<leftarrow> receivedHelloMessage e recv
                 (lower_maxpacketsize (atoi (second_field opts)) (setKey (atoi (first_field opts)) s)); Some s }
     else if kind = 13
     then do { (_, s) \<leftarrow> receivedHelloAckMessage e recv (lower_maxpacketsize (atoi (first_field opts)) s); Some s }
     else if kind = 22 then do { (_, s) \<leftarrow> receivedByeMessage e s; Some s }
     else if kind = 23 then do { (_, s) \<leftarrow> receivedByeAckMessage e s; Some s }
     else Some s)"

text \<open>The message written to by \<open>network_to_srpp\<close>, whatever its status; an exception ends the program.\<close>

definition read_message :: "SRPPMessage \<Rightarrow> u8 list \<Rightarrow> int \<Rightarrow> int \<Rightarrow> SRPPMessage option" where
  "read_message m buff bytes key = do {
     r \<leftarrow> network_to_srpp m buff bytes key;
     case r of Returns _ m \<Rightarrow> Some m | Throws_length_error _ \<Rightarrow> None }"

definition processReceivedData :: "env \<Rightarrow> 'd receiver \<Rightarrow> u8 list \<Rightarrow> int \<Rightarrow> 'd srpp_scheme \<Rightarrow> (received \<times> 'd srpp_scheme) option" where
  "processReceivedData e recv buff bytes_read s =
    (let (m, s) = create_srpp_message e [] s; key = sint (encryption_key (session s)) in
     if signaling_by_srpp s = 0 \<and> signaling_complete (signals s) = 1
     then do { m \<leftarrow> read_message m buff bytes_read key; Some (Returns_message m, s) }
     else do {
       kind \<leftarrow> isSignalingMessage_buff buff;
       (look, s) \<leftarrow> (if kind = 1 then Some (True, s)
                    else do { (r, s) \<leftarrow> verifySignalling e recv buff s; Some (r = 0 \<and> srpp_enabled s = 0, s) });
       if look
       then do {
         m \<leftarrow> read_message m buff bytes_read (if kind = 1 then 0 else sint (encryption_key (session s)));
         let s = s\<lparr>session := (session s)\<lparr>sin_port := sin_port (session s) + 2\<rparr>\<rparr>;
         if isSignalingMessage m = 1
         then do { s \<leftarrow> handle_signalling e recv m s; Some (Flows_off m, s) }
         else Some (Returns_message m, s) }
       else Some (Flows_off m, s) })"

text \<open>The datagram is stored at the start of an array of 65535 octets that holds other data before.\<close>

primrec receive_message :: "nat \<Rightarrow> env \<Rightarrow> 'd srpp_scheme \<Rightarrow> (received \<times> 'd srpp_scheme) option" where
  "receive_message 0 e s = None"
| "receive_message (Suc fuel) e s =
    (case inbox s of
       [] \<Rightarrow> None
     | (port, dgram) # rest \<Rightarrow>
         processReceivedData e (receive_message fuel e) (dgram @ map (stack e) [length dgram..<65535])
           (int (length dgram))
           (s\<lparr>inbox := rest, session := (session s)\<lparr>sin_port := port\<rparr>\<rparr>))"

section \<open>Numbers as text\<close>

lemma nat_digits_digit: "c \<in> set (nat_digits n) \<Longrightarrow> is_digit c"
proof (induction n rule: nat_digits.induct)
  case (1 n)
  have d: "is_digit (48 + of_nat k)" if "k < 10" for k :: nat
  proof -
    have "k \<in> {0, 1, 2, 3, 4, 5, 6, 7, 8, 9}" using that by auto
    then show ?thesis by (auto simp: is_digit_def)
  qed
  show ?case
  proof (cases "n < 10")
    case True
    then show ?thesis using 1(2) d by (subst (asm) nat_digits.simps) simp
  next
    case False
    then have "c \<in> set (nat_digits (n div 10)) \<or> c = 48 + of_nat (n mod 10)"
      using 1(2) by (subst (asm) nat_digits.simps) auto
    then show ?thesis using 1(1)[OF False] d[of "n mod 10"] by auto
  qed
qed

lemma digit_value: "k < 10 \<Longrightarrow> uint (48 + of_nat k :: u8) - 48 = int k"
proof -
  assume "k < 10"
  then have "k \<in> {0, 1, 2, 3, 4, 5, 6, 7, 8, 9}" by auto
  then show ?thesis by auto
qed

lemma digits_value_nat_digits: "digits_value (nat_digits n) = int n"
proof (induction n rule: nat_digits.induct)
  case (1 n)
  show ?case
  proof (cases "n < 10")
    case True
    then show ?thesis by (subst nat_digits.simps) (simp add: digits_value_def digit_value)
  next
    case False
    have "digits_value (nat_digits n) = 10 * int (n div 10) + int (n mod 10)"
      using 1[OF False] False by (subst nat_digits.simps) (simp add: digits_value_def digit_value)
    also have "\<dots> = int n" by (metis mult_div_mod_eq of_nat_add of_nat_mult of_nat_numeral)
    finally show ?thesis .
  qed
qed

lemma nat_digits_nonempty: "nat_digits n \<noteq> []"
  by (subst nat_digits.simps) simp

lemma length_nat_digits: "n < 10 ^ k \<Longrightarrow> 0 < k \<Longrightarrow> length (nat_digits n) \<le> k"
proof (induction k arbitrary: n)
  case (Suc k)
  show ?case
  proof (cases "n < 10")
    case True
    then show ?thesis by (subst nat_digits.simps) simp
  next
    case False
    then have "0 < k" using Suc.prems(1) by (cases k) auto
    moreover have "n div 10 < 10 ^ k" using Suc.prems(1) by (simp add: div_less_iff_less_mult mult.commute)
    ultimately show ?thesis using Suc.IH False by (subst nat_digits.simps) simp
  qed
qed simp

lemma digit_not: "is_digit c \<Longrightarrow> \<not> is_space c \<and> c \<noteq> 45 \<and> c \<noteq> 43 \<and> c \<noteq> 44 \<and> c \<noteq> 0"
proof -
  assume "is_digit c"
  then have "48 \<le> uint c" by (simp add: is_digit_def word_le_def)
  then show ?thesis by (auto simp: is_space_def word_le_def)
qed

text \<open>Reading back what \<open>%d\<close> printed.\<close>

lemma atoi_nat_digits:
  assumes "n < 2 ^ 31" "rest = [] \<or> \<not> is_digit (hd rest)"
  shows "atoi (nat_digits n @ rest) = int n"
proof -
  obtain c cs where c: "nat_digits n = c # cs" using nat_digits_nonempty by (cases "nat_digits n") auto
  have dig: "\<forall>x \<in> set (nat_digits n). is_digit x" using nat_digits_digit by blast
  have "is_digit c" using nat_digits_digit[of c n] c by simp
  then have h: "\<not> is_space c" "c \<noteq> 45" "c \<noteq> 43" using digit_not by auto
  have "takeWhile is_digit (nat_digits n @ rest) = nat_digits n"
    using dig assms(2) by (cases rest) (auto simp: takeWhile_append2)
  then have "strtol (nat_digits n @ rest) = int n"
    using h assms(1) digits_value_nat_digits[of n] by (simp add: strtol_def c Let_def)
  then show ?thesis using assms(1) sint_word_of_int32[of "int n"] by (simp add: atoi_def)
qed

lemma takeWhile_digits: "takeWhile (\<lambda>c. c \<noteq> 44) (nat_digits n @ 44 # rest) = nat_digits n"
proof -
  have "\<forall>c \<in> set (nat_digits n). c \<noteq> 44" using nat_digits_digit digit_not by blast
  then show ?thesis by (subst takeWhile_append2) auto
qed

lemma first_field_digits: "first_field (nat_digits n @ 44 # rest) = nat_digits n"
  by (simp add: first_field_def takeWhile_digits)

lemma second_field_digits: "second_field (nat_digits n @ 44 # nat_digits m @ 44 # rest) = nat_digits m"
proof -
  have "\<forall>c \<in> set (nat_digits n). c \<noteq> 44" using nat_digits_digit digit_not by blast
  then have "dropWhile (\<lambda>c. c \<noteq> 44) (nat_digits n @ 44 # nat_digits m @ 44 # rest) = 44 # nat_digits m @ 44 # rest"
    by (subst dropWhile_append2) auto
  then show ?thesis by (simp add: second_field_def takeWhile_digits)
qed

lemma hello_options_fields:
  assumes "0 \<le> key" "key < 65535" "0 \<le> psize" "psize < 10 ^ 8"
  shows "atoi (first_field (hello_options key psize @ rest)) = key"
    "atoi (second_field (hello_options key psize @ rest)) = psize" "0 \<notin> set (hello_options key psize)"
    "hello_options key psize \<noteq> []"
proof -
  have l: "length (nat_digits (nat key)) \<le> 5" "length (nat_digits (nat psize)) \<le> 8"
    using length_nat_digits[of "nat key" 5] length_nat_digits[of "nat psize" 8] assms by auto
  obtain r where r: "ascii '', YES, YES, YES, YES, DEFAULT, DEFAULT, DEFAULT'' = 44 # r" "0 \<notin> set r"
    by (simp add: ascii_def)
  have o: "hello_options key psize = nat_digits (nat key) @ 44 # nat_digits (nat psize) @ 44 # r"
    using l assms by (simp add: hello_options_def int_digits_def r(1))
  show "atoi (first_field (hello_options key psize @ rest)) = key"
    using atoi_nat_digits[of "nat key" "[]"] assms by (simp add: o first_field_digits)
  show "atoi (second_field (hello_options key psize @ rest)) = psize"
    using atoi_nat_digits[of "nat psize" "[]"] assms by (simp add: o second_field_digits)
  have "0 \<notin> set (nat_digits k)" for k using nat_digits_digit digit_not by blast
  then show "0 \<notin> set (hello_options key psize)" using r(2) by (simp add: o)
  show "hello_options key psize \<noteq> []" by (simp add: o)
qed

lemma ack_options_field:
  assumes "0 \<le> psize" "psize < 100000"
  shows "atoi (first_field (ack_options psize @ rest)) = psize" "0 \<notin> set (ack_options psize)" "ack_options psize \<noteq> []"
proof -
  have l: "length (nat_digits (nat psize)) \<le> 5" using length_nat_digits[of "nat psize" 5] assms by auto
  obtain r where r: "ascii ''YES, YES, YES, DEFAULT, DEFAULT, DEFAULT'' = [89, 69, 83] @ 44 # r" "0 \<notin> set r"
    by (simp add: ascii_def)
  have o: "ack_options psize = nat_digits (nat psize) @ [89, 69, 83] @ 44 # r"
    using l assms by (simp add: ack_options_def int_digits_def r(1))
  have "\<forall>c \<in> set (nat_digits (nat psize)). c \<noteq> 44" using nat_digits_digit digit_not by blast
  then have f: "first_field (ack_options psize @ rest) = nat_digits (nat psize) @ [89, 69, 83]"
    unfolding first_field_def o by (simp add: takeWhile_append2)
  show "atoi (first_field (ack_options psize @ rest)) = psize"
    unfolding f using assms by (subst atoi_nat_digits) (auto simp: is_digit_def)
  have "0 \<notin> set (nat_digits k)" for k using nat_digits_digit digit_not by blast
  then show "0 \<notin> set (ack_options psize)" using r(2) by (simp add: o)
  show "ack_options psize \<noteq> []" by (simp add: o)
qed

section \<open>Sending and receiving signalling messages\<close>

lemma peek_prefix: "peek a off n = Some x \<Longrightarrow> peek (a @ b) off n = Some x"
  by (auto simp: peek_def split: if_splits)

text \<open>What follows the datagram in the receive buffer does not matter.\<close>

lemma network_to_srpp_prefix:
  assumes "network_to_srpp m a bytes key = Some r"
  shows "network_to_srpp m (a @ b) bytes key = Some r"
proof -
  obtain hb tag tr where p: "peek a 0 80 = Some hb" "peek a (bytes - 4) 4 = Some tag" "peek a (bytes - 12) 8 = Some tr"
    using assms by (auto simp: network_to_srpp_def Let_def split: bind_splits)
  note q = p[THEN peek_prefix, of b]
  show ?thesis using assms unfolding network_to_srpp_def Let_def p q Option.bind.simps
    by (auto split: if_splits bind_splits dest: peek_prefix[where b = b])
qed

lemma construct_message_more [simp]:
  "signals (snd (construct_message e s)) = signals s" "inbox (snd (construct_message e s)) = inbox s"
  "srpp_enabled (snd (construct_message e s)) = srpp_enabled s"
  "signaling_by_srpp (snd (construct_message e s)) = signaling_by_srpp s"
  by (simp_all add: construct_message_def Let_def)

lemma signalling_message_state [simp]: "snd (signalling_message e o' k s) = snd (construct_message e s)"
  by (simp add: signalling_message_def create_srpp_message_def split_beta Let_def)

lemma isSignalingMessage_buff_header:
  assumes "peek buff 0 80 = Some hb" "header_of_bytes hb = h" "sh_srpp_signalling h \<noteq> 0" "sh_pt h = 124"
  shows "isSignalingMessage_buff buff = Some 1"
proof -
  have "ntohl (of_le32 (drop 76 hb)) = sh_srpp_signalling h" "ucast (drop_bit 8 (of_le16 hb)) = sh_pt h"
    using assms(2) by (auto simp: header_of_bytes_def Let_def)
  moreover have "ntohl 0 = 0" by (simp add: htonl_def le32_def of_le32_def)
  ultimately have "of_le32 (drop 76 hb) \<noteq> 0" "ucast (drop_bit 8 (of_le16 hb)) = (124 :: 7 word)" using assms(3,4) by auto
  then show ?thesis using assms(1) by (simp add: isSignalingMessage_buff_def signalling_kind_def)
qed

lemma network_to_srpp_header:
  assumes "network_to_srpp m buff bytes key = Some (Returns r m2)"
  shows "\<exists>hb. peek buff 0 80 = Some hb \<and> srpp_header m2 = header_of_bytes hb"
  using assms by (auto simp: network_to_srpp_def Let_def xor_pad_count_def split: bind_splits if_splits)

lemma signalling_sent:
  assumes "opts \<noteq> []" "0 \<notin> set opts" "kind \<noteq> 0"
  obtains wire where
    "send_message e (fst (signalling_message e opts kind s)) (snd (construct_message e s))
       = Some (send_status e wire, (snd (construct_message e s))\<lparr>sent := sent s @ [wire], sent_at := sent_at s @ [lastSequenceNo (snd (construct_message e s))], packet_to_send := 0\<rparr>)"
    "\<And>rest. isSignalingMessage_buff (wire @ rest) = Some 1"
    "\<And>m0 rest key. \<exists>m2 tr. read_message m0 (wire @ rest) (int (length wire)) key = Some m2
       \<and> sh_srpp_signalling (srpp_header m2) = kind \<and> sh_pt (srpp_header m2) = 124
       \<and> original_payload (encrypted_part m2) = opts @ tr"
proof -
  define m where "m = fst (signalling_message e opts kind s)"
  let ?n = "92 + length opts"
  let ?f = "\<lambda>t. ucast (rand_after e t) :: u32"
  have m: "sh_cc (srpp_header m) = 0" "sh_srpp_signalling (srpp_header m) = kind" "sh_pt (srpp_header m) = 124"
    "original_payload (encrypted_part m) = opts" "srpp_padding (encrypted_part m) = []"
    "pad_count (encrypted_part m) = 0"
    using assms(1) by (simp_all add: m_def signalling_message_def create_srpp_message_ok split_beta Let_def
        construct_message_def new_SRPPMessage_def htons_15_cc)
  have sig: "isSignalingMessage m = 1" using m assms(3) by (simp add: isSignalingMessage_def signalling_kind_def)
  have trip: "\<exists>wire m2. srpp_to_network ?f m (map (heap e) [0..<?n]) 0 = Some (m, wire) \<and> length wire = ?n
    \<and> network_to_srpp m0 wire (int ?n) key = Some (Returns 0 m2)
    \<and> srpp_header m2 = (srpp_header m)\<lparr>sh_csrc := wire_csrc ?f (srpp_header m)\<rparr>
    \<and> original_payload (encrypted_part m2) = opts @ trailer_bytes (encrypted_part m)" for m0 key
    using signalling_trip[of m "map (heap e) [0..<?n]" ?f 0 m0 key] assms m by fastforce
  then obtain wire where wire: "srpp_to_network ?f m (map (heap e) [0..<?n]) 0 = Some (m, wire)" "length wire = ?n" by blast
  have bk: "\<exists>m2. network_to_srpp m0 wire (int ?n) key = Some (Returns 0 m2)
    \<and> srpp_header m2 = (srpp_header m)\<lparr>sh_csrc := wire_csrc ?f (srpp_header m)\<rparr>
    \<and> original_payload (encrypted_part m2) = opts @ trailer_bytes (encrypted_part m)" for m0 key
    using trip[of m0 key] wire by auto
  show ?thesis
  proof (rule that[of wire])
    show "send_message e (fst (signalling_message e opts kind s)) (snd (construct_message e s))
       = Some (send_status e wire, (snd (construct_message e s))\<lparr>sent := sent s @ [wire], sent_at := sent_at s @ [lastSequenceNo (snd (construct_message e s))], packet_to_send := 0\<rparr>)"
      using wire assms(1) sig unfolding m_def[symmetric] by (simp add: send_message_def Let_def m)
    fix rest :: "u8 list"
    obtain m2 where m2: "network_to_srpp m wire (int ?n) 0 = Some (Returns 0 m2)"
      "srpp_header m2 = (srpp_header m)\<lparr>sh_csrc := wire_csrc ?f (srpp_header m)\<rparr>" using bk by blast
    obtain hb where hb: "peek (wire @ rest) 0 80 = Some hb" "srpp_header m2 = header_of_bytes hb"
      using network_to_srpp_header[OF m2(1)[THEN network_to_srpp_prefix, of rest]] by blast
    show "isSignalingMessage_buff (wire @ rest) = Some 1"
      by (rule isSignalingMessage_buff_header[OF hb(1) hb(2)[symmetric]]) (use m2(2) m assms(3) in simp_all)
    fix m0 key
    obtain m2 where m2: "network_to_srpp m0 wire (int ?n) key = Some (Returns 0 m2)"
      "srpp_header m2 = (srpp_header m)\<lparr>sh_csrc := wire_csrc ?f (srpp_header m)\<rparr>"
      "original_payload (encrypted_part m2) = opts @ trailer_bytes (encrypted_part m)" using bk by blast
    have "read_message m0 (wire @ rest) (int (length wire)) key = Some m2"
      using network_to_srpp_prefix[OF m2(1), of rest] wire(2) by (simp add: read_message_def)
    then show "\<exists>m2 tr. read_message m0 (wire @ rest) (int (length wire)) key = Some m2
       \<and> sh_srpp_signalling (srpp_header m2) = kind \<and> sh_pt (srpp_header m2) = 124
       \<and> original_payload (encrypted_part m2) = opts @ tr"
      using m2(2,3) m by auto
  qed
qed

section \<open>The handshake\<close>

text \<open>A datagram that every receiver reads as a signalling message of the given kind whose payload starts with
  the given text.\<close>

definition carries :: "u8 list \<Rightarrow> u32 \<Rightarrow> u8 list \<Rightarrow> bool" where
  "carries wire kind opts \<longleftrightarrow> (\<forall>rest. isSignalingMessage_buff (wire @ rest) = Some 1)
     \<and> (\<forall>m0 rest key. \<exists>m2 tr. read_message m0 (wire @ rest) (int (length wire)) key = Some m2
          \<and> sh_srpp_signalling (srpp_header m2) = kind \<and> sh_pt (srpp_header m2) = 124
          \<and> original_payload (encrypted_part m2) = opts @ tr)"

lemma signalling_carries:
  assumes "opts \<noteq> []" "0 \<notin> set opts" "kind \<noteq> 0"
  obtains wire where
    "send_message e (fst (signalling_message e opts kind s)) (snd (construct_message e s))
       = Some (send_status e wire, (snd (construct_message e s))\<lparr>sent := sent s @ [wire], sent_at := sent_at s @ [lastSequenceNo (snd (construct_message e s))], packet_to_send := 0\<rparr>)"
    "carries wire kind opts"
proof (rule signalling_sent[OF assms, of e s])
  fix wire
  assume w: "send_message e (fst (signalling_message e opts kind s)) (snd (construct_message e s))
       = Some (send_status e wire, (snd (construct_message e s))\<lparr>sent := sent s @ [wire], sent_at := sent_at s @ [lastSequenceNo (snd (construct_message e s))], packet_to_send := 0\<rparr>)"
    and c: "\<And>rest. isSignalingMessage_buff (wire @ rest) = Some 1"
      "\<And>m0 rest key. \<exists>m2 tr. read_message m0 (wire @ rest) (int (length wire)) key = Some m2
       \<and> sh_srpp_signalling (srpp_header m2) = kind \<and> sh_pt (srpp_header m2) = 124
       \<and> original_payload (encrypted_part m2) = opts @ tr"
  show thesis by (rule that[OF w]) (unfold carries_def, intro conjI allI c)
qed

lemma set_signals_sel [simp]:
  "signals (set_signals f s) = f (signals s)" "session (set_signals f s) = session s" "sent (set_signals f s) = sent s" "sent_at (set_signals f s) = sent_at s"
  "inbox (set_signals f s) = inbox s" "srpp_enabled (set_signals f s) = srpp_enabled s"
  "signaling_by_srpp (set_signals f s) = signaling_by_srpp s" "packet_to_send (set_signals f s) = packet_to_send s"
  by (simp_all add: set_signals_def)

lemma send_hellos_ok:
  assumes "opts \<noteq> []" "0 \<notin> set opts"
  shows "\<exists>t hellos. send_hellos e opts n s = Some t \<and> sent t = sent s @ hellos \<and> length hellos = n
    \<and> (\<forall>w \<in> set hellos. carries w 12 opts) \<and> session t = session s \<and> inbox t = inbox s
    \<and> srpp_enabled t = srpp_enabled s \<and> signaling_by_srpp t = signaling_by_srpp s
    \<and> signals t = (if n = 0 then signals s else (signals s)\<lparr>hellosent := 1\<rparr>)"
proof (induction n arbitrary: s)
  case (Suc n)
  let ?s = "set_signals (\<lambda>g. g\<lparr>hellosent := 1\<rparr>) s"
  obtain wire where w: "send_message e (fst (signalling_message e opts 12 ?s)) (snd (construct_message e ?s))
       = Some (send_status e wire, (snd (construct_message e ?s))\<lparr>sent := sent s @ [wire], sent_at := sent_at s @ [lastSequenceNo (snd (construct_message e ?s))], packet_to_send := 0\<rparr>)"
    "carries wire 12 opts"
    using signalling_carries[OF assms, of 12 e ?s] by auto
  let ?t = "(snd (construct_message e ?s))\<lparr>sent := sent s @ [wire], sent_at := sent_at s @ [lastSequenceNo (snd (construct_message e ?s))], packet_to_send := 0\<rparr>"
  obtain t hellos where t: "send_hellos e opts n ?t = Some t" "sent t = sent s @ wire # hellos" "length hellos = n"
    "\<forall>w \<in> set hellos. carries w 12 opts" "session t = session s" "inbox t = inbox s"
    "srpp_enabled t = srpp_enabled s" "signaling_by_srpp t = signaling_by_srpp s" "signals t = (signals s)\<lparr>hellosent := 1\<rparr>"
    using Suc[of ?t] by auto
  have "send_hellos e opts (Suc n) s = Some t"
    using w(1) t(1) by (simp add: split_beta Let_def)
  then show ?case using t w(2) by (intro exI[of _ t] exI[of _ "wire # hellos"]) simp
qed auto

lemma srpp_rand_more [simp]:
  "signals (snd (srpp_rand e a b s)) = signals s" "inbox (snd (srpp_rand e a b s)) = inbox s"
  "srpp_enabled (snd (srpp_rand e a b s)) = srpp_enabled s"
  "signaling_by_srpp (snd (srpp_rand e a b s)) = signaling_by_srpp s"
  by (simp_all add: srpp_rand_def)

lemma setKey_sel [simp]:
  "signals (setKey k s) = signals s" "inbox (setKey k s) = inbox s" "srpp_enabled (setKey k s) = srpp_enabled s"
  "signaling_by_srpp (setKey k s) = signaling_by_srpp s" "sent (setKey k s) = sent s" "sent_at (setKey k s) = sent_at s"
  "session (setKey k s) = (session s)\<lparr>encryption_key := word_of_int k\<rparr>" "ticks (setKey k s) = ticks s"
  by (simp_all add: setKey_def)

lemma hello_sent:
  fixes s :: "'d srpp_scheme" and e :: env
  defines "key \<equiv> fst (srpp_rand e 0 65535 s)"
  assumes "signals s = no_signals" "srpp_enabled s \<noteq> 0" "0 \<le> ses_maxpacketsize (session s)"
    "ses_maxpacketsize (session s) < 10 ^ 8"
  obtains t hellos where
    "\<And>recv. sendHelloMessage e recv s = do { (_, t) \<leftarrow> recv t; wait_loop recv signaling_complete 120000 t }"
    "sent t = sent s @ hellos" "length hellos = 5"
    "\<forall>w \<in> set hellos. carries w 12 (hello_options key (ses_maxpacketsize (session s)))"
    "session t = (session s)\<lparr>encryption_key := word_of_int key\<rparr>" "inbox t = inbox s"
    "signaling_by_srpp t = signaling_by_srpp s" "signals t = no_signals\<lparr>hellosent := 1\<rparr>"
proof -
  let ?o = "hello_options key (ses_maxpacketsize (session s))"
  let ?s = "setKey key (snd (srpp_rand e 0 65535 s))"
  have k: "0 \<le> key" "key < 65535"
    using srpp_rand_range(1)[of 65535 0 e s] srpp_rand_range(2)[of 65535 e 0 s] by (auto simp: key_def)
  note o = hello_options_fields(3,4)[OF k assms(4,5)]
  let ?c = "snd (construct_message e ?s)"
  obtain t hellos where t: "send_hellos e ?o 5 ?c = Some t" "sent t = sent s @ hellos" "length hellos = 5"
    "\<forall>w \<in> set hellos. carries w 12 ?o" "session t = (session s)\<lparr>encryption_key := word_of_int key\<rparr>" "inbox t = inbox s"
    "srpp_enabled t = srpp_enabled s" "signaling_by_srpp t = signaling_by_srpp s"
    "signals t = no_signals\<lparr>hellosent := 1\<rparr>"
    using send_hellos_ok[OF o(2,1), of e 5 ?c] assms(2) by auto
  have "sendHelloMessage e recv s = do { (_, t) \<leftarrow> recv (snd (construct_message e t)); wait_loop recv signaling_complete 120000 t }" for recv
    using assms(2,3) t(1,7) by (simp add: sendHelloMessage_def Let_def split_beta no_signals_def key_def)
  then show ?thesis by (rule that[of "snd (construct_message e t)" hellos]) (simp_all add: t)
qed

text \<open>A received signalling message reaches its handler.\<close>

lemma process_signalling:
  assumes "carries wire kind opts" "\<not> (signaling_by_srpp s = 0 \<and> signaling_complete (signals s) = 1)" "kind \<noteq> 0"
  shows "\<exists>m tr. sh_srpp_signalling (srpp_header m) = kind \<and> original_payload (encrypted_part m) = opts @ tr
    \<and> processReceivedData e recv (wire @ rest) (int (length wire)) s
      = do { s \<leftarrow> handle_signalling e recv m ((snd (construct_message e s))
                 \<lparr>session := (session s)\<lparr>sin_port := sin_port (session s) + 2\<rparr>\<rparr>); Some (Flows_off m, s) }"
proof -
  let ?m0 = "fst (create_srpp_message e [] s)"
  obtain m tr where m: "read_message ?m0 (wire @ rest) (int (length wire)) 0 = Some m"
    "sh_srpp_signalling (srpp_header m) = kind" "sh_pt (srpp_header m) = 124"
    "original_payload (encrypted_part m) = opts @ tr"
    using assms(1) unfolding carries_def by meson
  have k: "isSignalingMessage_buff (wire @ rest) = Some 1" using assms(1) by (auto simp: carries_def)
  have s: "snd (create_srpp_message e [] s) = snd (construct_message e s)"
    by (simp add: create_srpp_message_def split_beta)
  have "isSignalingMessage m = 1" using m assms(3) by (simp add: isSignalingMessage_def signalling_kind_def)
  then show ?thesis using assms(2) m k
    by (intro exI[of _ m] exI[of _ tr]) (auto simp: processReceivedData_def split_beta s)
qed

lemma wait_loop_done: "flag (signals s) \<noteq> 0 \<Longrightarrow> wait_loop recv flag n s = Some (0, s)"
  by (cases n) simp_all

lemma lower_maxpacketsize_sel [simp]:
  "signals (lower_maxpacketsize v s) = signals s" "inbox (lower_maxpacketsize v s) = inbox s"
  "sent (lower_maxpacketsize v s) = sent s" "sent_at (lower_maxpacketsize v s) = sent_at s" "signaling_by_srpp (lower_maxpacketsize v s) = signaling_by_srpp s"
  "encryption_key (session (lower_maxpacketsize v s)) = encryption_key (session s)"
  "ses_maxpacketsize (session (lower_maxpacketsize v s)) = min v (ses_maxpacketsize (session s))"
  by (auto simp: lower_maxpacketsize_def)

text \<open>The responder answers a HELLO and waits.\<close>

lemma hello_answered:
  assumes "signals s = no_signals" "0 \<le> key" "key < 65535" "0 \<le> mx" "mx < 10 ^ 8"
    "0 \<le> ses_maxpacketsize (session s)" "ses_maxpacketsize (session s) < 100000"
  obtains ack t where
    "\<And>w rest recv. carries w 12 (hello_options key mx) \<Longrightarrow> \<exists>m.
       processReceivedData e recv (w @ rest) (int (length w)) s = do { (_, t) \<leftarrow> recv t; Some (Flows_off m, t) }"
    "carries ack 13 (ack_options (min mx (ses_maxpacketsize (session s))))" "sent t = sent s @ [ack]"
    "encryption_key (session t) = word_of_int key"
    "ses_maxpacketsize (session t) = min mx (ses_maxpacketsize (session s))"
    "signals t = no_signals\<lparr>hellorecvd := 1, helloacksent := 1\<rparr>" "signaling_by_srpp t = signaling_by_srpp s"
proof -
  let ?mx = "min mx (ses_maxpacketsize (session s))"
  define r where "r = set_signals (\<lambda>g. g\<lparr>hellorecvd := 1\<rparr>) (lower_maxpacketsize mx (setKey key
     ((snd (construct_message e s))\<lparr>session := (session s)\<lparr>sin_port := sin_port (session s) + 2\<rparr>\<rparr>)))"
  have r: "signals r = no_signals\<lparr>hellorecvd := 1\<rparr>" "sent r = sent s" "encryption_key (session r) = word_of_int key"
    "ses_maxpacketsize (session r) = ?mx" "signaling_by_srpp r = signaling_by_srpp s"
    using assms(1) by (simp_all add: r_def)
  have mx: "0 \<le> ?mx" "?mx < 100000" using assms by auto
  note o = ack_options_field(2,3)[OF mx]
  obtain ack where ack: "send_message e (fst (signalling_message e (ack_options ?mx) 13 r)) (snd (construct_message e r))
       = Some (send_status e ack, (snd (construct_message e r))\<lparr>sent := sent r @ [ack], sent_at := sent_at r @ [lastSequenceNo (snd (construct_message e r))], packet_to_send := 0\<rparr>)"
    "carries ack 13 (ack_options ?mx)"
    using signalling_carries[OF o(2,1), of 13 e r] by auto
  let ?t = "set_signals (\<lambda>g. g\<lparr>helloacksent := 1\<rparr>) ((snd (construct_message e r))\<lparr>sent := sent r @ [ack], sent_at := sent_at r @ [lastSequenceNo (snd (construct_message e r))], packet_to_send := 0\<rparr>)"
  have run: "receivedHelloMessage e recv (lower_maxpacketsize mx (setKey key
     ((snd (construct_message e s))\<lparr>session := (session s)\<lparr>sin_port := sin_port (session s) + 2\<rparr>\<rparr>)))
     = do { (_, t) \<leftarrow> recv ?t; Some (0, t) }" for recv
    using ack(1) r unfolding receivedHelloMessage_def r_def[symmetric] sendHelloAckMessage_def
    by (simp add: split_beta Let_def no_signals_def)
  have "\<exists>m. processReceivedData e recv (w @ rest) (int (length w)) s = do { (_, t) \<leftarrow> recv ?t; Some (Flows_off m, t) }"
    if c: "carries w 12 (hello_options key mx)" for w rest recv
  proof -
    obtain m tr where m: "sh_srpp_signalling (srpp_header m) = 12"
      "original_payload (encrypted_part m) = hello_options key mx @ tr"
      "processReceivedData e recv (w @ rest) (int (length w)) s = do { s \<leftarrow> handle_signalling e recv m
         ((snd (construct_message e s))\<lparr>session := (session s)\<lparr>sin_port := sin_port (session s) + 2\<rparr>\<rparr>); Some (Flows_off m, s) }"
      using process_signalling[OF c, of s e recv rest] assms(1) by (auto simp: no_signals_def)
    show ?thesis unfolding m(3) handle_signalling_def Let_def m(1,2) hello_options_fields(1,2)[OF assms(2-5)]
      by (intro exI[of _ m]) (simp add: run case_prod_beta')
  qed
  then show ?thesis by (rule that[of ?t ack]) (use r ack(2) in simp_all)
qed

text \<open>An acknowledgement completes the signalling: the initiator acknowledges in turn, the responder does not.\<close>

lemma ack_received:
  assumes "signals s = no_signals\<lparr>hellosent := 1\<rparr>" "carries w 13 (ack_options mx)" "0 \<le> mx" "mx < 100000"
    "0 \<le> ses_maxpacketsize (session s)"
  shows "\<exists>m t ack. processReceivedData e recv (w @ rest) (int (length w)) s = Some (Flows_off m, t)
    \<and> signaling_complete (signals t) = 1 \<and> sent t = sent s @ [ack]
    \<and> carries ack 13 (ack_options (min mx (ses_maxpacketsize (session s))))
    \<and> encryption_key (session t) = encryption_key (session s)
    \<and> ses_maxpacketsize (session t) = min mx (ses_maxpacketsize (session s))"
proof -
  let ?mx = "min mx (ses_maxpacketsize (session s))"
  obtain m tr where m: "sh_srpp_signalling (srpp_header m) = 13"
    "original_payload (encrypted_part m) = ack_options mx @ tr"
    "processReceivedData e recv (w @ rest) (int (length w)) s = do { s \<leftarrow> handle_signalling e recv m
       ((snd (construct_message e s))\<lparr>session := (session s)\<lparr>sin_port := sin_port (session s) + 2\<rparr>\<rparr>); Some (Flows_off m, s) }"
    using process_signalling[OF assms(2), of s e recv rest] assms(1) by (auto simp: no_signals_def)
  let ?q = "lower_maxpacketsize mx
       ((snd (construct_message e s))\<lparr>session := (session s)\<lparr>sin_port := sin_port (session s) + 2\<rparr>\<rparr>)"
  define r where "r = set_signals (\<lambda>g. g\<lparr>signaling_complete := 1\<rparr>) (set_signals (\<lambda>g. g\<lparr>helloackrecvd := 1\<rparr>) ?q)"
  have r: "signals r = no_signals\<lparr>hellosent := 1, helloackrecvd := 1, signaling_complete := 1\<rparr>" "sent r = sent s"
    "encryption_key (session r) = encryption_key (session s)" "ses_maxpacketsize (session r) = ?mx"
    using assms(1) by (simp_all add: r_def)
  have mx: "0 \<le> ?mx" "?mx < 100000" using assms by auto
  note o = ack_options_field(2,3)[OF mx]
  obtain ack where ack: "send_message e (fst (signalling_message e (ack_options ?mx) 13 r)) (snd (construct_message e r))
       = Some (send_status e ack, (snd (construct_message e r))\<lparr>sent := sent r @ [ack], sent_at := sent_at r @ [lastSequenceNo (snd (construct_message e r))], packet_to_send := 0\<rparr>)"
    "carries ack 13 (ack_options ?mx)"
    using signalling_carries[OF o(2,1), of 13 e r] by auto
  let ?t = "set_signals (\<lambda>g. g\<lparr>hellosent := 0, helloackrecvd := 0\<rparr>) (set_signals (\<lambda>g. g\<lparr>helloacksent := 1\<rparr>)
     ((snd (construct_message e r))\<lparr>sent := sent r @ [ack], sent_at := sent_at r @ [lastSequenceNo (snd (construct_message e r))], packet_to_send := 0\<rparr>))"
  have a: "sendHelloAckMessage e recv r = Some (0, set_signals (\<lambda>g. g\<lparr>helloacksent := 1\<rparr>)
     ((snd (construct_message e r))\<lparr>sent := sent r @ [ack], sent_at := sent_at r @ [lastSequenceNo (snd (construct_message e r))], packet_to_send := 0\<rparr>))"
    using ack(1) r unfolding sendHelloAckMessage_def by (simp add: split_beta Let_def no_signals_def)
  have h0: "helloacksent (signals (set_signals (\<lambda>g. g\<lparr>helloackrecvd := 1\<rparr>) ?q)) = 0"
    using assms(1) by (simp add: no_signals_def)
  have "receivedHelloAckMessage e recv ?q = Some (0, ?t)"
    unfolding receivedHelloAckMessage_def Let_def r_def[symmetric] if_P[OF h0] a by simp
  then have "processReceivedData e recv (w @ rest) (int (length w)) s = Some (Flows_off m, ?t)"
    unfolding m(3) handle_signalling_def Let_def m(1,2) ack_options_field(1)[OF assms(3,4)] by simp
  then show ?thesis using ack(2) r by (intro exI[of _ m] exI[of _ ?t] exI[of _ ack]) simp
qed

lemma second_ack_received:
  assumes "signals s = no_signals\<lparr>hellorecvd := 1, helloacksent := 1\<rparr>" "carries w 13 (ack_options mx)"
    "0 \<le> mx" "mx < 100000"
  shows "\<exists>m t. processReceivedData e recv (w @ rest) (int (length w)) s = Some (Flows_off m, t)
    \<and> signaling_complete (signals t) = 1 \<and> sent t = sent s
    \<and> encryption_key (session t) = encryption_key (session s)
    \<and> ses_maxpacketsize (session t) = min mx (ses_maxpacketsize (session s))"
proof -
  obtain m tr where m: "sh_srpp_signalling (srpp_header m) = 13"
    "original_payload (encrypted_part m) = ack_options mx @ tr"
    "processReceivedData e recv (w @ rest) (int (length w)) s = do { s \<leftarrow> handle_signalling e recv m
       ((snd (construct_message e s))\<lparr>session := (session s)\<lparr>sin_port := sin_port (session s) + 2\<rparr>\<rparr>); Some (Flows_off m, s) }"
    using process_signalling[OF assms(2), of s e recv rest] assms(1) by (auto simp: no_signals_def)
  show ?thesis
    unfolding m(3) handle_signalling_def Let_def m(1,2) ack_options_field(1)[OF assms(3,4)]
    using assms(1) by (simp add: receivedHelloAckMessage_def Let_def no_signals_def)
qed

section \<open>Properties\<close>

text \<open>C5. The handshake completes and both endpoints agree. The initiator sends five HELLOs; each of them makes a
  fresh responder take over the key and the smaller packet size, send one HELLO ACK and wait. When that HELLO ACK
  is the datagram the initiator receives next, \<open>sendHelloMessage\<close> returns 0 with the signalling complete, having
  sent a HELLO ACK in turn, on which the responder's signalling is complete too. Then both have the same key and
  the smaller of the two packet sizes. (Sizes with at most five digits.)\<close>

theorem handshake_agreement:
  assumes "signals a = no_signals" "signals b = no_signals" "srpp_enabled a \<noteq> 0"
    and "0 \<le> ses_maxpacketsize (session a)" "ses_maxpacketsize (session a) < 100000"
    and "0 \<le> ses_maxpacketsize (session b)" "ses_maxpacketsize (session b) < 100000"
  shows "\<exists>hellos ack ack2 a' b'.
      sendHelloMessage ea (receive_message (Suc n) ea) (a\<lparr>inbox := [(port, ack)]\<rparr>) = Some (0, a')
    \<and> sent a' = sent a @ hellos @ [ack2] \<and> length hellos = 5 \<and> signaling_complete (signals a') = 1
    \<and> (\<forall>w \<in> set hellos. \<forall>rest recv. \<exists>m. processReceivedData eb recv (w @ rest) (int (length w)) b
          = do { (_, t) \<leftarrow> recv b'; Some (Flows_off m, t) })
    \<and> sent b' = sent b @ [ack]
    \<and> encryption_key (session a') = encryption_key (session b')
    \<and> ses_maxpacketsize (session a') = min (ses_maxpacketsize (session a)) (ses_maxpacketsize (session b))
    \<and> ses_maxpacketsize (session b') = min (ses_maxpacketsize (session a)) (ses_maxpacketsize (session b))
    \<and> (\<forall>rest recv. \<exists>m b2. processReceivedData eb recv (ack2 @ rest) (int (length ack2)) b' = Some (Flows_off m, b2)
          \<and> signaling_complete (signals b2) = 1 \<and> encryption_key (session b2) = encryption_key (session b')
          \<and> ses_maxpacketsize (session b2) = ses_maxpacketsize (session b'))"
proof -
  let ?key = "fst (srpp_rand ea 0 65535 a)" and ?ma = "ses_maxpacketsize (session a)" and ?mb = "ses_maxpacketsize (session b)"
  let ?m = "min ?ma ?mb"
  have k: "0 \<le> ?key" "?key < 65535"
    using srpp_rand_range(1)[of 65535 0 ea a] srpp_rand_range(2)[of 65535 ea 0 a] by auto
  have ma: "?ma < 10 ^ 8" and m: "0 \<le> ?m" "?m < 100000" using assms by auto
  obtain ack b' where b: "\<And>w rest recv. carries w 12 (hello_options ?key ?ma) \<Longrightarrow> \<exists>m.
       processReceivedData eb recv (w @ rest) (int (length w)) b = do { (_, t) \<leftarrow> recv b'; Some (Flows_off m, t) }"
    "carries ack 13 (ack_options ?m)" "sent b' = sent b @ [ack]" "encryption_key (session b') = word_of_int ?key"
    "ses_maxpacketsize (session b') = ?m" "signals b' = no_signals\<lparr>hellorecvd := 1, helloacksent := 1\<rparr>"
    using hello_answered[OF assms(2) k assms(4) ma assms(6,7), of eb] by metis
  let ?a = "a\<lparr>inbox := [(port, ack)]\<rparr>"
  have ka: "fst (srpp_rand ea 0 65535 ?a) = ?key" by (simp add: srpp_rand_def)
  obtain t hellos where h:
    "\<And>recv. sendHelloMessage ea recv ?a = do { (_, t) \<leftarrow> recv t; wait_loop recv signaling_complete 120000 t }"
    "sent t = sent a @ hellos" "length hellos = 5" "\<forall>w \<in> set hellos. carries w 12 (hello_options ?key ?ma)"
    "session t = (session a)\<lparr>encryption_key := word_of_int ?key\<rparr>" "inbox t = [(port, ack)]"
    "signals t = no_signals\<lparr>hellosent := 1\<rparr>"
  proof (rule hello_sent[of ?a ea])
    fix t hellos
    assume x: "\<And>recv. sendHelloMessage ea recv ?a = do { (_, t) \<leftarrow> recv t; wait_loop recv signaling_complete 120000 t }"
      "sent t = sent ?a @ hellos" "length hellos = 5"
      "\<forall>w \<in> set hellos. carries w 12 (hello_options (fst (srpp_rand ea 0 65535 ?a)) (ses_maxpacketsize (session ?a)))"
      "session t = (session ?a)\<lparr>encryption_key := word_of_int (fst (srpp_rand ea 0 65535 ?a))\<rparr>" "inbox t = inbox ?a"
      "signals t = no_signals\<lparr>hellosent := 1\<rparr>"
    show ?thesis by (rule that[of t hellos, OF x(1)]) (use x(2-) in \<open>simp_all add: ka\<close>)
  qed (use assms ma in simp_all)
  let ?t = "t\<lparr>inbox := [], session := (session t)\<lparr>sin_port := port\<rparr>\<rparr>"
  let ?rest = "map (stack ea) [length ack..<65535]"
  obtain m a' ack2 where a': "processReceivedData ea (receive_message n ea) (ack @ ?rest) (int (length ack)) ?t = Some (Flows_off m, a')"
    "signaling_complete (signals a') = 1" "sent a' = sent ?t @ [ack2]" "carries ack2 13 (ack_options (min ?m ?ma))"
    "encryption_key (session a') = encryption_key (session ?t)" "ses_maxpacketsize (session a') = min ?m ?ma"
    using ack_received[of ?t ack ?m ea "receive_message n ea" ?rest] b(2) m h(5,7) assms(4) by auto
  have "receive_message (Suc n) ea t = Some (Flows_off m, a')" using a'(1) h(6) by simp
  then have run: "sendHelloMessage ea (receive_message (Suc n) ea) ?a = Some (0, a')"
    using h(1)[of "receive_message (Suc n) ea"] wait_loop_done[of signaling_complete a'] a'(2) by simp
  have mm: "min ?m ?ma = ?m" by simp
  have last: "\<exists>m b2. processReceivedData eb recv (ack2 @ rest) (int (length ack2)) b' = Some (Flows_off m, b2)
      \<and> signaling_complete (signals b2) = 1 \<and> encryption_key (session b2) = encryption_key (session b')
      \<and> ses_maxpacketsize (session b2) = ses_maxpacketsize (session b')" for rest recv
    using second_ack_received[OF b(6) a'(4)[unfolded mm] m, of eb recv rest] b(5) by auto
  show ?thesis
    by (intro exI[of _ hellos] exI[of _ ack] exI[of _ ack2] exI[of _ a'] exI[of _ b'])
      (use run a' h b last in \<open>auto simp: mm\<close>)
qed

theorem handshake_agreement_witness:
  "\<exists>ack a'. sendHelloMessage zero_env (receive_message 1 zero_env) (sample_state\<lparr>inbox := [(5060, ack)]\<rparr>) = Some (0, a')
    \<and> signaling_complete (signals a') = 1 \<and> ses_maxpacketsize (session a') = 1000"
  using handshake_agreement[of sample_state
      "sample_state\<lparr>session := (session sample_state)\<lparr>ses_maxpacketsize := 1000\<rparr>\<rparr>" zero_env 0 5060 zero_env]
  by (auto simp: sample_state_def)

text \<open>C35. BYE is never sent: \<open>sendByeMessage\<close> builds a message without payload, which \<open>send_message\<close> drops, and
  waits for an answer; so \<open>stop_session\<close> on a session with in-band signalling never returns unless a datagram
  arrives for another reason, its timeout notwithstanding. The same holds of the BYE ACK, which is only marked as
  sent.\<close>

theorem bye_never_sent:
  fixes s :: "'d srpp_scheme"
  assumes "signaling_by_srpp s = 1" "srpp_enabled s \<noteq> 0"
  shows "(\<exists>t. (\<forall>recv. sendByeMessage e recv s = do { (_, t) \<leftarrow> recv t; wait_loop recv session_complete 30000 t })
      \<and> sent t = sent s \<and> byesent (signals t) = 1)
    \<and> (inbox s = [] \<longrightarrow> stop_session e (receive_message n e) s = None)
    \<and> (\<exists>t r. sendByeAckMessage e s = Some (r, t) \<and> sent t = sent s)"
proof (intro conjI impI)
  have pay: "original_payload (encrypted_part (fst (signalling_message e [] k s))) = []" for k and s :: "'d srpp_scheme"
    by (simp add: signalling_message_def create_srpp_message_def split_beta construct_message_def Let_def new_SRPPMessage_def)
  let ?t = "snd (construct_message e (set_signals (\<lambda>g. g\<lparr>byesent := 1\<rparr>) (snd (construct_message e s))))"
  have run: "sendByeMessage e recv s = do { (_, t) \<leftarrow> recv (snd (construct_message e (set_signals (\<lambda>g. g\<lparr>byesent := 1\<rparr>)
      (snd (construct_message e s))))); wait_loop recv session_complete 30000 t }" for recv and s :: "'d srpp_scheme"
    by (simp add: sendByeMessage_def split_beta send_message_def pay Let_def)
  then show "\<exists>t. (\<forall>recv. sendByeMessage e recv s = do { (_, t) \<leftarrow> recv t; wait_loop recv session_complete 30000 t })
      \<and> sent t = sent s \<and> byesent (signals t) = 1"
    by (intro exI[of _ ?t]) simp
  have wait: "receive_message n e t = None" if "inbox t = []" for t :: "'d srpp_scheme" using that by (cases n) simp_all
  show "stop_session e (receive_message n e) s = None" if "inbox s = []"
    using that assms by (simp add: stop_session_def session_stop_def pauseTimer_def run wait)
  show "\<exists>t r. sendByeAckMessage e s = Some (r, t) \<and> sent t = sent s"
    by (simp add: sendByeAckMessage_def Let_def split_beta send_message_def pay)
qed

theorem bye_never_sent_witness:
  "stop_session zero_env (receive_message 7 zero_env) sample_state = None"
  using bye_never_sent[of sample_state zero_env 7] by (simp add: sample_state_def)

text \<open>After in-band signalling no media packet is received: once the signalling is complete (no HELLO
  outstanding, SRPP enabled), \<open>processReceivedData\<close> neither reads nor returns a datagram that is not a signalling
  message; it reaches its end without a return value.\<close>

theorem media_not_received_inband:
  assumes "signaling_by_srpp s = 1" "hellosent (signals s) = 0" "srpp_enabled s = 1"
    and "isSignalingMessage_buff buff = Some k" "k \<noteq> 1"
  shows "\<exists>m. processReceivedData e recv buff bytes s = Some (Flows_off m, snd (construct_message e s))
    \<and> original_payload (encrypted_part m) = []"
proof -
  let ?m = "fst (create_srpp_message e [] s)"
  have "snd (create_srpp_message e [] s) = snd (construct_message e s)" "original_payload (encrypted_part ?m) = []"
    by (simp_all add: create_srpp_message_def split_beta construct_message_def Let_def new_SRPPMessage_def)
  then show ?thesis using assms
    by (intro exI[of _ ?m]) (simp add: processReceivedData_def split_beta verifySignalling_def)
qed

theorem media_not_received_inband_witness:
  "\<exists>m. processReceivedData zero_env (receive_message 0 zero_env) (replicate 100 0) 100 (sample_state\<lparr>srpp_enabled := 1\<rparr>)
      = Some (Flows_off m, snd (construct_message zero_env (sample_state\<lparr>srpp_enabled := 1\<rparr>)))"
proof -
  have "isSignalingMessage_buff (replicate 100 0) = Some (-1)"
    by code_simp
  then show ?thesis
    using media_not_received_inband[of "sample_state\<lparr>srpp_enabled := 1\<rparr>" "replicate 100 0" "-1" zero_env
        "receive_message 0 zero_env" 100]
    by (auto simp: sample_state_def no_signals_def)
qed

section \<open>Enough fuel\<close>

text \<open>Two receive operations agree on every state with at most \<open>k\<close> datagrams to come, and never add to them.\<close>

definition agree :: "'d receiver \<Rightarrow> 'd receiver \<Rightarrow> nat \<Rightarrow> bool" where
  "agree recv recv' k \<longleftrightarrow> (\<forall>t. length (inbox t) \<le> k \<longrightarrow> recv t = recv' t
     \<and> (\<forall>r u. recv t = Some (r, u) \<longrightarrow> length (inbox u) \<le> length (inbox t)))"

lemma agreeD:
  assumes "agree recv recv' k" "length (inbox t) \<le> k"
  shows "recv t = recv' t" "recv t = Some (r, u) \<Longrightarrow> length (inbox u) \<le> length (inbox t)"
  using assms by (auto simp: agree_def)

lemma send_message_inbox: "send_message e m s = Some (r, t) \<Longrightarrow> inbox t = inbox s"
  by (auto simp: send_message_def Let_def split: if_splits bind_splits)

lemma session_stop_inbox [simp]: "inbox (session_stop s) = inbox s" "inbox (disable_srpp s) = inbox s"
  by (simp_all add: session_stop_def pauseTimer_def disable_srpp_def)

text \<open>An operation that has a receive operation as an argument, on a state: equal results for receive operations
  that agree, and no datagrams added.\<close>

definition uses_recv :: "('d receiver \<Rightarrow> 'd srpp_scheme \<Rightarrow> ('a \<times> 'd srpp_scheme) option) \<Rightarrow> bool" where
  "uses_recv h \<longleftrightarrow> (\<forall>recv recv' k s. agree recv recv' k \<longrightarrow> length (inbox s) \<le> k \<longrightarrow> h recv s = h recv' s
     \<and> (\<forall>r t. h recv s = Some (r, t) \<longrightarrow> length (inbox t) \<le> length (inbox s)))"

lemma uses_recvI:
  assumes "\<And>recv recv' k s. agree recv recv' k \<Longrightarrow> length (inbox s) \<le> k \<Longrightarrow> h recv s = h recv' s"
    "\<And>recv recv' k s r t. agree recv recv' k \<Longrightarrow> length (inbox s) \<le> k \<Longrightarrow> h recv s = Some (r, t) \<Longrightarrow>
       length (inbox t) \<le> length (inbox s)"
  shows "uses_recv h"
  using assms unfolding uses_recv_def by blast

lemma uses_recvD:
  assumes "uses_recv h" "agree recv recv' k" "length (inbox s) \<le> k"
  shows "h recv s = h recv' s" "h recv s = Some (r, t) \<Longrightarrow> length (inbox t) \<le> length (inbox s)"
  using assms unfolding uses_recv_def by blast+

lemma uses_recv_bind:
  fixes f :: "'d receiver \<Rightarrow> 'd srpp_scheme \<Rightarrow> ('x \<times> 'd srpp_scheme) option"
  assumes "uses_recv f" "\<And>x. uses_recv (\<lambda>recv. g recv x)"
  shows "uses_recv (\<lambda>recv s. do { (x, s) \<leftarrow> f recv s; g recv x s })"
proof (rule uses_recvI)
  fix recv recv' :: "'d receiver" and k and s :: "'d srpp_scheme"
  assume a: "agree recv recv' k" "length (inbox s) \<le> k"
  note f = uses_recvD[OF assms(1) a]
  show "do { (x, s) \<leftarrow> f recv s; g recv x s } = do { (x, s) \<leftarrow> f recv' s; g recv' x s }"
  proof (cases "f recv s")
    case (Some p)
    obtain x u where p: "p = (x, u)" by force
    then have "length (inbox u) \<le> k" using f(2) Some a(2) by fastforce
    then have "g recv x u = g recv' x u" using uses_recvD(1)[OF assms(2) a(1)] by blast
    then show ?thesis by (simp add: f(1)[symmetric] Some p)
  qed (use f(1) in simp)
  fix r t
  assume "do { (x, s) \<leftarrow> f recv s; g recv x s } = Some (r, t)"
  then obtain x u where u: "f recv s = Some (x, u)" "g recv x u = Some (r, t)" by (auto split: bind_splits)
  then have "length (inbox u) \<le> length (inbox s)" using f(2) by blast
  then show "length (inbox t) \<le> length (inbox s)" using uses_recvD(2)[OF assms(2) a(1), of u x r t] u(2) a(2) by simp
qed

lemma uses_recv_recv: "uses_recv (\<lambda>recv. recv)"
  by (auto simp: uses_recv_def agree_def)

lemma uses_recv_const:
  assumes "\<And>s r t. f s = Some (r, t) \<Longrightarrow> length (inbox t) \<le> length (inbox s)"
  shows "uses_recv (\<lambda>recv. f)"
  using assms by (auto simp: uses_recv_def)

lemma uses_recv_upd:
  fixes f :: "'d srpp_scheme \<Rightarrow> 'd srpp_scheme"
  assumes "uses_recv h" "\<And>s. inbox (f s) = inbox s"
  shows "uses_recv (\<lambda>recv s. h recv (f s))"
proof (rule uses_recvI)
  fix recv recv' :: "'d receiver" and k and s :: "'d srpp_scheme" and r t
  assume a: "agree recv recv' k" "length (inbox s) \<le> k"
  then have "length (inbox (f s)) \<le> k" using assms(2) by simp
  from uses_recvD[OF assms(1) a(1) this] assms(2)
  show "h recv (f s) = h recv' (f s)" "h recv (f s) = Some (r, t) \<Longrightarrow> length (inbox t) \<le> length (inbox s)" by auto
qed

lemma uses_recv_if:
  assumes "uses_recv f" "uses_recv g"
  shows "uses_recv (\<lambda>recv s. if b s then f recv s else g recv s)"
  using assms unfolding uses_recv_def by auto

lemma uses_recv_ret: "(\<And>s. inbox (f s) = inbox s) \<Longrightarrow> uses_recv (\<lambda>recv s. Some (x s, f s))"
  by (rule uses_recv_const) auto

lemma uses_recv_send:
  fixes f g :: "'d srpp_scheme \<Rightarrow> 'd srpp_scheme"
  assumes "\<And>s. inbox (f s) = inbox s" "\<And>s. inbox (g s) = inbox s" "uses_recv h"
  shows "uses_recv (\<lambda>recv s. do { (_, s) \<leftarrow> send_message e (m s) (f s); h recv (g s) })"
  by (rule uses_recv_bind[of "\<lambda>recv s. send_message e (m s) (f s)"])
    (auto intro!: uses_recv_const uses_recv_upd assms dest!: send_message_inbox simp: assms)

lemma uses_recv_then:
  assumes "uses_recv f" "\<And>x s. inbox (g x s) = inbox s"
  shows "uses_recv (\<lambda>recv s. do { (x, s) \<leftarrow> f recv s; Some (y x s, g x s) })"
  using uses_recv_bind[OF assms(1), of "\<lambda>recv x s. Some (y x s, g x s)"] uses_recv_ret[of "g _" "y _", OF assms(2)] by simp

lemmas uses_recv_rules = uses_recv_if uses_recv_ret uses_recv_send uses_recv_then uses_recv_recv

lemma sendHelloAck_uses: "uses_recv (sendHelloAckMessage e :: 'd receiver \<Rightarrow> _)"
proof -
  have "(sendHelloAckMessage e :: 'd receiver \<Rightarrow> _) = (\<lambda>recv s.
     if (hellorecvd (signals s) \<noteq> 1 \<and> hellosent (signals s) \<noteq> 1) \<or> helloacksent (signals s) = 1 then Some (-1, s)
     else if helloackrecvd (signals s) \<noteq> 1 \<or> hellosent (signals s) = 1
     then do { (_, s) \<leftarrow> send_message e (fst (signalling_message e (ack_options (ses_maxpacketsize (session s))) 13 s))
                 (snd (construct_message e s));
               (\<lambda>recv s. if signaling_complete (signals s) = 0 then do { (x, s) \<leftarrow> recv s; Some (0, s) } else Some (0, s)) recv
                 (set_signals (\<lambda>g. g\<lparr>helloacksent := 1\<rparr>) s) }
     else Some (0, snd (construct_message e s)))"
    by (intro ext) (simp add: sendHelloAckMessage_def Let_def split_beta)
  then show ?thesis by (simp only:) (intro uses_recv_rules, simp_all)
qed

lemma receivedHello_uses: "uses_recv (receivedHelloMessage e :: 'd receiver \<Rightarrow> _)"
  unfolding receivedHelloMessage_def[abs_def] by (rule uses_recv_upd[OF sendHelloAck_uses]) simp

lemma receivedHelloAck_uses: "uses_recv (receivedHelloAckMessage e :: 'd receiver \<Rightarrow> _)"
proof -
  have "(receivedHelloAckMessage e :: 'd receiver \<Rightarrow> _) = (\<lambda>recv s. if helloacksent (signals s) = 0
     then do { (i, s) \<leftarrow> sendHelloAckMessage e recv (set_signals (\<lambda>g. g\<lparr>helloackrecvd := 1, signaling_complete := 1\<rparr>) s);
               Some (i, set_signals (\<lambda>g. g\<lparr>hellosent := 0, helloackrecvd := 0\<rparr>) s) }
     else Some (0, set_signals (\<lambda>g. g\<lparr>signaling_complete := 1, hellosent := 0, helloackrecvd := 0\<rparr>)
                     (set_signals (\<lambda>g. g\<lparr>helloackrecvd := 1\<rparr>) s)))"
    by (intro ext) (simp add: receivedHelloAckMessage_def Let_def set_signals_def)
  then show ?thesis
    by (simp only:) (intro uses_recv_rules uses_recv_upd[OF sendHelloAck_uses], simp_all)
qed

lemma sendByeAck_inbox: "sendByeAckMessage e s = Some (r, t) \<Longrightarrow> inbox t = inbox s"
  by (auto simp: sendByeAckMessage_def Let_def split_beta split: if_splits bind_splits dest!: send_message_inbox)

lemma wait_loop_uses: "uses_recv (\<lambda>recv :: 'd receiver. wait_loop recv flag n)"
proof (induction n)
  case 0
  show ?case unfolding wait_loop.simps(1)[abs_def] by (intro uses_recv_rules) simp_all
next
  case (Suc n)
  have "uses_recv (\<lambda>(recv :: 'd receiver) s. do { (x, s) \<leftarrow> recv s; wait_loop recv flag n s })"
    by (rule uses_recv_bind[OF uses_recv_recv Suc])
  then show ?case unfolding wait_loop.simps(2)[abs_def] by (intro uses_recv_if uses_recv_ret) simp_all
qed

lemma sendBye_uses: "uses_recv (sendByeMessage e :: 'd receiver \<Rightarrow> _)"
proof -
  have "(sendByeMessage e :: 'd receiver \<Rightarrow> _) = (\<lambda>recv s. do { (_, s) \<leftarrow> send_message e (fst (signalling_message e [] 22 s)) (snd (construct_message e s));
      (\<lambda>recv s. do { (x, s) \<leftarrow> recv s; wait_loop recv session_complete 30000 s }) recv
        (snd (construct_message e (set_signals (\<lambda>g. g\<lparr>byesent := 1\<rparr>) s))) })"
    by (intro ext) (simp add: sendByeMessage_def Let_def split_beta)
  then show ?thesis
    by (simp only:) (intro uses_recv_send uses_recv_bind[OF uses_recv_recv] wait_loop_uses, simp_all)
qed

lemma stop_session_uses: "uses_recv (stop_session e :: 'd receiver \<Rightarrow> _)"
proof -
  have "(stop_session e :: 'd receiver \<Rightarrow> _) = (\<lambda>recv s. if srpp_enabled s = 0 then Some (-10, session_stop s)
      else if signaling_by_srpp s = 1
      then do { (x, s) \<leftarrow> sendByeMessage e recv (session_stop s); Some (if session_complete (signals s) = 1 then 1 else -1, s) }
      else Some (if session_complete (signals s) = 1 then 1 else -1, session_stop s))"
    by (intro ext) (simp add: stop_session_def Let_def case_prod_beta' session_stop_def pauseTimer_def)
  then show ?thesis
    by (simp only:) (intro uses_recv_rules uses_recv_upd[OF sendBye_uses], simp_all)
qed

lemma verifySignalling_uses: "uses_recv (\<lambda>recv :: 'd receiver. verifySignalling e recv buff)"
proof -
  let ?c = "\<lambda>s. s\<lparr>nonsrpp_message_count := nonsrpp_message_count s + 1\<rparr>"
  have "(\<lambda>recv :: 'd receiver. verifySignalling e recv buff) = (\<lambda>recv s. if hellosent (signals s) = 1
      then if peek buff 0 80 = None then None
        else if of_le32 (drop 76 (the (peek buff 0 80))) \<noteq> 13 \<and> (ucast (drop_bit 8 (of_le16 (the (peek buff 0 80)))) :: 7 word) \<noteq> 124
          then if nonsrpp_message_count s + 1 > max_nonsrpp_messages then stop_session e recv (disable_srpp (?c s))
            else Some (-1, ?c s)
          else Some (sint (junk e (ticks s)), s)
      else Some (0, s))"
    by (intro ext) (auto simp: verifySignalling_def Let_def split: bind_splits)
  then show ?thesis
    by (simp only:) (intro uses_recv_rules uses_recv_upd[OF stop_session_uses] uses_recv_const, simp_all)
qed

lemma handle_signalling_uses:
  "uses_recv (\<lambda>(recv :: 'd receiver) s. do { s \<leftarrow> handle_signalling e recv m s; Some (x, s) })"
proof -
  let ?o = "original_payload (encrypted_part m)" and ?k = "sh_srpp_signalling (srpp_header m)"
  have "(\<lambda>(recv :: 'd receiver) s. do { s \<leftarrow> handle_signalling e recv m s; Some (x, s) }) = (\<lambda>recv s.
     if ?k = 12 then do { (r, s) \<leftarrow> receivedHelloMessage e recv
         (lower_maxpacketsize (atoi (second_field ?o)) (setKey (atoi (first_field ?o)) s)); Some (x, s) }
     else if ?k = 13 then do { (r, s) \<leftarrow> receivedHelloAckMessage e recv (lower_maxpacketsize (atoi (first_field ?o)) s); Some (x, s) }
     else if ?k = 22 then do { (r, s) \<leftarrow> receivedByeMessage e s; Some (x, s) }
     else if ?k = 23 then do { (r, s) \<leftarrow> receivedByeAckMessage e s; Some (x, s) }
     else Some (x, s))"
    by (intro ext) (simp add: handle_signalling_def Let_def case_prod_beta')
  moreover have "receivedByeMessage e s = Some (r, t) \<Longrightarrow> length (inbox t) \<le> length (inbox s)"
    "receivedByeAckMessage e s = Some (r, t) \<Longrightarrow> length (inbox t) \<le> length (inbox s)" for s :: "'d srpp_scheme" and r t
    by (auto simp: receivedByeMessage_def receivedByeAckMessage_def Let_def split: if_splits dest!: sendByeAck_inbox)
  ultimately show ?thesis
    by (simp only:) (intro uses_recv_rules uses_recv_upd[OF receivedHello_uses] uses_recv_upd[OF receivedHelloAck_uses]
        uses_recv_const, simp_all)
qed

lemma uses_recv_option: "(\<And>y. uses_recv (h y)) \<Longrightarrow> uses_recv (\<lambda>recv s. do { y \<leftarrow> c s; h y recv s })"
  unfolding uses_recv_def by (auto split: bind_splits)

lemma uses_recv_dep:
  fixes f :: "'d srpp_scheme \<Rightarrow> 'd srpp_scheme"
  assumes "\<And>x. uses_recv (h x)" "\<And>s. inbox (f s) = inbox s"
  shows "uses_recv (\<lambda>recv s. h (x s) recv (f s))"
proof (rule uses_recvI)
  fix recv recv' :: "'d receiver" and k and s :: "'d srpp_scheme" and r t
  assume a: "agree recv recv' k" "length (inbox s) \<le> k"
  then have "length (inbox (f s)) \<le> k" using assms(2) by simp
  from uses_recvD[OF assms(1)[of "x s"] a(1) this] assms(2)
  show "h (x s) recv (f s) = h (x s) recv' (f s)"
    "h (x s) recv (f s) = Some (r, t) \<Longrightarrow> length (inbox t) \<le> length (inbox s)" by auto
qed

lemma processReceivedData_uses: "uses_recv (\<lambda>recv :: 'd receiver. processReceivedData e recv buff bytes)"
proof -
  let ?m = "\<lambda>s. fst (create_srpp_message e [] s)" and ?s = "\<lambda>s. snd (construct_message e s)"
  let ?p = "\<lambda>s. s\<lparr>session := (session s)\<lparr>sin_port := sin_port (session s) + 2\<rparr>\<rparr>"
  let ?look = "\<lambda>kind m0 recv s. do { m \<leftarrow> read_message m0 buff bytes (if kind = 1 then 0 else sint (encryption_key (session s)));
       (\<lambda>m recv s. if isSignalingMessage m = 1 then do { s \<leftarrow> handle_signalling e recv m s; Some (Flows_off m, s) }
         else Some (Returns_message m, s)) m recv (?p s) }"
  have s: "snd (create_srpp_message e [] s) = ?s s" for s by (simp add: create_srpp_message_def split_beta)
  have look: "uses_recv (?look kind m0)" for kind m0
    by (intro uses_recv_option uses_recv_upd[where f = ?p] uses_recv_if handle_signalling_uses uses_recv_ret) simp_all
  have part: "uses_recv (\<lambda>recv s. do { (r, s) \<leftarrow> verifySignalling e recv buff s;
      (\<lambda>recv s. if r = 0 \<and> srpp_enabled s = 0 then ?look kind m0 recv s else Some (Flows_off m0, s)) recv s })" for kind m0
    by (intro uses_recv_bind[OF verifySignalling_uses] uses_recv_if look uses_recv_ret) simp_all
  let ?body = "\<lambda>m0 recv s. if signaling_by_srpp s = 0 \<and> signaling_complete (signals s) = 1
     then do { m \<leftarrow> read_message m0 buff bytes (sint (encryption_key (session s))); Some (Returns_message m, s) }
     else do { kind \<leftarrow> isSignalingMessage_buff buff;
       if kind = 1 then ?look kind m0 recv s else do { (r, s) \<leftarrow> verifySignalling e recv buff s;
      (\<lambda>recv s. if r = 0 \<and> srpp_enabled s = 0 then ?look kind m0 recv s else Some (Flows_off m0, s)) recv s } }"
  have body: "uses_recv (?body m0)" for m0
    by (intro uses_recv_if uses_recv_option look part uses_recv_ret) simp_all
  have "(\<lambda>recv :: 'd receiver. processReceivedData e recv buff bytes) = (\<lambda>recv s. ?body (?m s) recv (?s s))"
    by (intro ext) (auto simp: processReceivedData_def Let_def split_beta s split: bind_splits)
  then show ?thesis by (simp only:) (rule uses_recv_dep[where h = ?body, OF body], simp)
qed

lemma receive_agree: "k < n \<Longrightarrow> agree (receive_message n e) (receive_message (Suc n) e :: 'd receiver) k"
proof (induction n arbitrary: k)
  case (Suc n)
  show ?case unfolding agree_def
  proof (intro allI impI)
    fix t :: "'d srpp_scheme" assume t: "length (inbox t) \<le> k"
    show "receive_message (Suc n) e t = receive_message (Suc (Suc n)) e t
      \<and> (\<forall>r u. receive_message (Suc n) e t = Some (r, u) \<longrightarrow> length (inbox u) \<le> length (inbox t))"
    proof (cases "inbox t")
      case (Cons d rest)
      obtain port dg where d: "d = (port, dg)" by force
      have ag: "agree (receive_message n e) (receive_message (Suc n) e :: 'd receiver) (length rest)"
        by (rule Suc.IH) (use Suc.prems t Cons in simp)
      let ?t = "t\<lparr>inbox := rest, session := (session t)\<lparr>sin_port := port\<rparr>\<rparr>"
      have "length (inbox ?t) \<le> length rest" by simp
      note u = uses_recvD[OF processReceivedData_uses ag this]
      show ?thesis
        using u(1)[of e "dg @ map (stack e) [length dg..<65535]" "int (length dg)"]
          u(2)[of e "dg @ map (stack e) [length dg..<65535]" "int (length dg)"]
        by (auto simp: Cons d le_Suc_eq)
    qed simp
  qed
qed simp

text \<open>The fuel of \<^const>\<open>receive_message\<close> does not restrict it: with more fuel than there are datagrams the result is the
  same for every amount, and a call that returns has taken at least one datagram. A call that waits for a datagram which
  does not come has no result at any amount.\<close>

theorem receive_fuel_enough:
  fixes s :: "'d srpp_scheme"
  assumes "length (inbox s) < n"
  shows "receive_message (n + k) e s = receive_message n e s
    \<and> (\<forall>r t. receive_message n e s = Some (r, t) \<longrightarrow> length (inbox t) < length (inbox s))"
proof -
  have 1: "receive_message (n + k) e s = receive_message n e s"
  proof (induction k)
    case (Suc k)
    have "agree (receive_message (n + k) e) (receive_message (Suc (n + k)) e :: 'd receiver) (length (inbox s))"
      using assms by (intro receive_agree) simp
    with Suc show ?case by (simp add: agree_def)
  qed simp
  have 2: "length (inbox t) < length (inbox s)" if r: "receive_message n e s = Some (r, t)" for r t
  proof -
    obtain j where n: "n = Suc j" using assms by (cases n) auto
    obtain port dg rest where i: "inbox s = (port, dg) # rest" using r n by (cases "inbox s") auto
    have ag: "agree (receive_message j e) (receive_message (Suc j) e :: 'd receiver) (length rest)"
      using assms n i by (intro receive_agree) simp
    show ?thesis using r n i
      uses_recvD(2)[OF processReceivedData_uses ag, of "s\<lparr>inbox := rest, session := (session s)\<lparr>sin_port := port\<rparr>\<rparr>"] by force
  qed
  show ?thesis using 1 2 by blast
qed

theorem receive_fuel_enough_witness:
  "receive_message 9 zero_env (sample_state\<lparr>inbox := [(0, [])]\<rparr>) = receive_message 2 zero_env (sample_state\<lparr>inbox := [(0, [])]\<rparr>)"
  using receive_fuel_enough[of "sample_state\<lparr>inbox := [(0, [])]\<rparr>" 2 7 zero_env] by simp

end
