(* ===== verification/Sqrkal_Packet.thy ===== *)
theory Sqrkal_Packet
  imports Srpp_Signaling
begin

text \<open>
  The state of the interception program \<open>src/sqrkal_discovery/sqrkal_discovery.cpp\<close> and what it does with packets as a
  whole: checksums, raw sending, fragmentation, the dummies and signalling messages it sends for libSRPP, and the
  commands it gives to the firewall.

  The state extends that of libSRPP by the global variables of the program. What the program does to the world is
  recorded: \<open>raw_sent\<close> are the packets given to the raw socket with their address, \<open>commands\<close> the shell commands,
  \<open>sizes_file\<close> the contents of \<open>sizes.txt\<close>; \<open>queue\<close> are the reads from the packet queue still to come, with
  the status each returns. What the
  world answers is in the record \<open>host\<close>. A packet is the list of the octets of the memory from its start on, and
  \<^const>\<open>None\<close> is an access outside of it, or the end of the program.
\<close>

section \<open>State\<close>

text \<open>A message as a read from the queue leaves it in the buffer: of a packet, the memory from its payload on, the
  length it claims to have, and what \<open>ipq_set_verdict\<close> will return for it.\<close>

datatype ipq_message = IPQM_PACKET "u8 list" int int | NLMSG_ERROR | Ipq_unknown

text \<open>\<open>ttl_room\<close> is the number of octets between the start of the global array \<open>srpp_ttl_s\<close> and the next object in memory.
  The array is declared with two; whether the linker leaves any behind it, the source does not say.\<close>

record host =
  system_status :: "u8 list list \<Rightarrow> int"
  local_addrs :: "u32 list"
  inet_addr :: "u8 list \<Rightarrow> u32"
  inet_pton :: "u8 list \<Rightarrow> int"
  gethostbyname :: "u8 list \<Rightarrow> u32 option"
  uninit :: u32
  ttl_room :: nat

record sqrkal = srpp +
  udp_added :: int
  tcp_added :: int
  rtp_added :: int
  is_discovering :: int
  is_sip :: int
  is_rtp :: int
  is_udp :: int
  is_srtp :: int
  is_srpp :: int
  apply_srpp :: int
  is_session_on :: int
  inport :: int
  outport :: int
  saw_invite_already :: int
  saw_bye_already :: int
  sent_invite :: int
  saw_ack :: int
  saw_200ok :: int
  recv_count :: int
  sent_count :: int
  sip_ports :: "int list"
  rtp_ports :: "int list"
  out_ip :: u32
  out_port :: u16
  last_out_dest :: u32
  rtp_dest :: u32
  rtp_src :: u32
  rtp_hdr :: "u8 list"
  rtp_hdset :: int
  frag_id :: int
  srpp_ttl :: int
  srpp_ttl_s :: "u8 list"
  ssrc_value :: u32
  rtp_msg :: RTPMessage
  srpp_msg :: SRPPMessage
  input_packet_sizes :: "int list"
  output_packet_sizes :: "int list"
  commands :: "u8 list list"
  sizes_file :: "(int \<times> int) list"
  raw_sent :: "(u32 \<times> u16 \<times> u8 list) list"
  queue :: "(int \<times> ipq_message) list"
  flushed :: nat

definition BUFSIZE :: nat where "BUFSIZE = 2048"
definition IP_MTU :: nat where "IP_MTU = 1500"
definition TCP_PROTOCOL :: u8 where "TCP_PROTOCOL = 6"
definition UDP_PROTOCOL :: u8 where "UDP_PROTOCOL = 17"

text \<open>The global variables at program start, over a state of libSRPP; the message objects are constructed there too.\<close>

definition sqrkal_start :: "RTPMessage \<Rightarrow> SRPPMessage \<Rightarrow> (int \<times> ipq_message) list \<Rightarrow> srpp \<Rightarrow> sqrkal" where
  "sqrkal_start rtp m packets s = srpp.extend s
     \<lparr>udp_added = 0, tcp_added = 0, rtp_added = 0, is_discovering = 0, is_sip = 0, is_rtp = 0, is_udp = 0, is_srtp = 0,
      is_srpp = 0, apply_srpp = 0, is_session_on = 0, inport = 0, outport = 0, saw_invite_already = 0,
      saw_bye_already = 0, sent_invite = 0, saw_ack = 0, saw_200ok = 0, recv_count = 0, sent_count = 0,
      sip_ports = [5060], rtp_ports = [5000], out_ip = 0, out_port = 0, last_out_dest = 0, rtp_dest = 0, rtp_src = 0,
      rtp_hdr = replicate 40 0, rtp_hdset = 0, frag_id = 0, srpp_ttl = 65, srpp_ttl_s = [], ssrc_value = 0,
      rtp_msg = rtp, srpp_msg = m, input_packet_sizes = [], output_packet_sizes = [],
      commands = [], sizes_file = [], raw_sent = [], queue = packets, flushed = 0\<rparr>"

section \<open>Header fields\<close>

definition get16 :: "u8 list \<Rightarrow> nat \<Rightarrow> u16 option" where
  "get16 buff off = do { b \<leftarrow> peek buff (int off) 2; Some (of_le16 b) }"

definition get32 :: "u8 list \<Rightarrow> nat \<Rightarrow> u32 option" where
  "get32 buff off = do { b \<leftarrow> peek buff (int off) 4; Some (of_le32 b) }"

text \<open>The length of the IP header, from the field \<open>ihl\<close>.\<close>

definition ip_offset :: "u8 list \<Rightarrow> nat option" where
  "ip_offset buff = do { b \<leftarrow> peek buff 0 1; Some (4 * unat (hd b AND 0x0f)) }"

section \<open>Checksums\<close>

fun cksum_words :: "u8 list \<Rightarrow> u32 \<Rightarrow> u32" where
  "cksum_words (x # y # w) acc = cksum_words w (acc + ucast (of_le16 [x, y]))"
| "cksum_words [x] acc = acc + ucast x"
| "cksum_words [] acc = acc"

definition in_cksum :: "u8 list \<Rightarrow> nat \<Rightarrow> u16 option" where
  "in_cksum addr len = do {
     w \<leftarrow> peek addr 0 len;
     let sum = cksum_words w 0;
     let sum = drop_bit 16 sum + (sum AND 0xFFFF);
     let sum = sum + drop_bit 16 sum;
     Some (ucast (NOT sum)) }"

text \<open>\<open>IPPROTO_UDP\<close> is 17; \<open>psd_udp\<close> has room for 2048 octets of data.\<close>

definition in_cksum_udp :: "u32 \<Rightarrow> u32 \<Rightarrow> u8 list \<Rightarrow> nat \<Rightarrow> u16 option" where
  "in_cksum_udp src dst addr len = do {
     data \<leftarrow> (if len \<le> BUFSIZE then peek addr 0 len else None);
     in_cksum (le32 src @ le32 dst @ [0, UDP_PROTOCOL] @ le16 (htons (of_nat len)) @ data) (len + 12) }"

definition form_checksums :: "u8 list \<Rightarrow> u8 list option" where
  "form_checksums buff = do {
     off \<leftarrow> ip_offset buff;
     buff \<leftarrow> poke buff 10 [0, 0];
     check \<leftarrow> in_cksum buff 20;
     buff \<leftarrow> poke buff 10 (le16 check);
     poke buff (off + 6) [0, 0] }"

section \<open>Sending\<close>

definition send_raw_message :: "u8 list \<Rightarrow> int \<Rightarrow> sqrkal \<Rightarrow> sqrkal option" where
  "send_raw_message buff len s =
    (if out_port s = 0 \<or> len \<le> 0 then Some s
     else do {
       pkt \<leftarrow> peek buff 0 (nat len);
       Some (s\<lparr>raw_sent := raw_sent s @ [(out_ip s, out_port s, pkt)]\<rparr>) })"

text \<open>The lengths are stored in the order of the host.\<close>

definition send_fragmented_message :: "u8 list \<Rightarrow> int \<Rightarrow> sqrkal \<Rightarrow> (u8 list \<times> sqrkal) option" where
  "send_fragmented_message buff bytes_read s = do {
     buff \<leftarrow> poke buff 4 (le16 (htons (word_of_int (15032 + frag_id s))));
     let s = s\<lparr>frag_id := frag_id s + 1\<rparr>;
     buff \<leftarrow> poke buff 6 (le16 (htons 8192));
     buff \<leftarrow> poke buff 2 (le16 (of_nat IP_MTU));
     buff \<leftarrow> form_checksums buff;
     s \<leftarrow> send_raw_message buff (int IP_MTU) s;
     let bytes_left = bytes_read - int IP_MTU;
     header \<leftarrow> peek buff 0 20;
     rest \<leftarrow> peek buff (int IP_MTU) (nat bytes_left);
     let buff1 = header @ rest;
     buff1 \<leftarrow> poke buff1 6 (le16 (htons 185));
     buff1 \<leftarrow> poke buff1 2 (le16 (word_of_int (bytes_left + 20)));
     buff1 \<leftarrow> form_checksums buff1;
     s \<leftarrow> send_raw_message buff1 (bytes_left + 20) s;
     Some (buff, s) }"

text \<open>The end of all paths of \<open>process_packet\<close>: in fragments, or with its checksums.\<close>

definition send_forward :: "u8 list \<Rightarrow> int \<Rightarrow> sqrkal \<Rightarrow> (u8 list \<times> sqrkal) option" where
  "send_forward buff bytes_read s =
    (if bytes_read > int IP_MTU then send_fragmented_message buff bytes_read s
     else do {
       buff \<leftarrow> form_checksums buff;
       s \<leftarrow> send_raw_message buff bytes_read s;
       Some (buff, s) })"

text \<open>The send functor of libSRPP. \<open>seq\<close> is the value of \<open>lastSequenceNo\<close>. Without a stored header the program ends.\<close>

definition send_rtp_message :: "env \<Rightarrow> u8 list \<Rightarrow> u32 \<Rightarrow> sqrkal \<Rightarrow> sqrkal option" where
  "send_rtp_message e buff seq s =
    (let len = length buff in
     if len = 0 then Some s
     else if rtp_hdset s = 0 then None
     else do {
       header \<leftarrow> peek (rtp_hdr s) 0 28;
       point \<leftarrow> poke (map (heap e) [0..<BUFSIZE]) 0 header;
       point \<leftarrow> poke point 20 (le16 (htons (word_of_int (inport s))) @ le16 (htons (word_of_int (outport s)))
                  @ le16 (htons (of_nat (len + 8))));
       point \<leftarrow> poke point 12 (le32 (rtp_src s) @ le32 (rtp_dest s));
       point \<leftarrow> poke point 2 (le16 (htons (of_nat (len + 28))));
       point \<leftarrow> poke point 8 [word_of_int (srpp_ttl s)];
       point \<leftarrow> poke point 28 buff;
       rtpp \<leftarrow> peek (rtp_hdr s) 28 12;
       point \<leftarrow> (if rtp_hdset s = 2 \<and> drop_bit 6 (hd rtpp) \<noteq> 0
         then do {
           point \<leftarrow> poke point 28 rtpp;
           kind \<leftarrow> peek buff 1 1;
           if hd kind = 0x7c then poke point 29 kind else Some point }
         else Some point);
       let rtpp = take 2 rtpp @ le16 (htons (ucast seq)) @ le32 (htonl (ntohl (of_le32 (drop 4 rtpp)) + 20))
         @ (if ssrc_value s \<noteq> 0 then le32 (htonl (ssrc_value s)) else drop 8 rtpp);
       hdr \<leftarrow> poke (rtp_hdr s) 28 rtpp;
       point \<leftarrow> form_checksums point;
       pkt \<leftarrow> peek point 0 (len + 28);
       let ip = rtp_dest s;
       let port = htons (word_of_int (outport s));
       Some (s\<lparr>rtp_hdr := hdr, out_ip := ip, out_port := port, raw_sent := raw_sent s @ [(ip, port, pkt)]\<rparr>) })"

text \<open>libSRPP calls the functor while it sends. Nothing of the program runs in between, so the calls can be carried out,
  in their order and with their sequence numbers, when control is back; \<^const>\<open>flushed\<close> counts them.\<close>

fun send_all :: "env \<Rightarrow> (u8 list \<times> u32) list \<Rightarrow> sqrkal \<Rightarrow> sqrkal option" where
  "send_all e [] s = Some s"
| "send_all e ((buff, seq) # ms) s = do { s \<leftarrow> send_rtp_message e buff seq s; send_all e ms s }"

definition flush :: "env \<Rightarrow> sqrkal \<Rightarrow> sqrkal option" where
  "flush e s = do {
     s \<leftarrow> send_all e (zip (drop (flushed s) (sent s)) (drop (flushed s) (sent_at s))) s;
     Some (s\<lparr>flushed := length (sent s)\<rparr>) }"

section \<open>The firewall\<close>

definition add_firewall_rule :: "host \<Rightarrow> u8 list \<Rightarrow> sqrkal \<Rightarrow> int \<times> sqrkal" where
  "add_firewall_rule h rule s =
    (let s = s\<lparr>commands := commands s @ [ascii ''iptables '' @ rule]\<rparr> in (system_status h (commands s), s))"

definition queue_rule :: "string \<Rightarrow> string \<Rightarrow> bool \<Rightarrow> u8 list \<Rightarrow> sqrkal \<Rightarrow> u8 list" where
  "queue_rule chain port udp number s =
     ascii chain @ ascii (if udp then ''udp'' else ''tcp'') @ ascii port @ number
       @ ascii '' -m ttl ! --ttl-eq '' @ srpp_ttl_s s @ ascii '' -j QUEUE''"

text \<open>Both functions append a rule for each direction, or delete it, and take the first back when the second cannot
  be added.\<close>

definition add_both :: "host \<Rightarrow> bool \<Rightarrow> bool \<Rightarrow> string \<Rightarrow> string \<Rightarrow> u8 list \<Rightarrow> sqrkal \<Rightarrow> bool \<times> sqrkal" where
  "add_both h is_adding udp inp outp number s =
    (let (r, s) = add_firewall_rule h (queue_rule (if is_adding then ''-A INPUT -p '' else ''-D INPUT -p '') inp udp number s) s
     in if r \<noteq> 0 \<and> is_adding then (False, s)
        else let (r, s) = add_firewall_rule h (queue_rule (if is_adding then ''-A OUTPUT -p '' else ''-D OUTPUT -p '') outp udp number s) s
          in if r \<noteq> 0 \<and> is_adding
             then (False, snd (add_firewall_rule h (queue_rule ''-D INPUT -p '' inp udp number s) s))
             else (True, s))"

definition add_all_rules :: "host \<Rightarrow> bool \<Rightarrow> bool \<Rightarrow> sqrkal \<Rightarrow> int \<times> sqrkal" where
  "add_all_rules h is_adding udp s =
    (if is_adding \<and> ((udp_added s \<noteq> 0 \<and> udp) \<or> (tcp_added s \<noteq> 0 \<and> \<not> udp)) then (0, s)
     else let s = (if is_adding then snd (add_firewall_rule h (ascii '' -F'') s) else s);
              (ok, s) = add_both h is_adding udp '' --destination-port '' '' --destination-port '' (ascii ''5060'') s
       in if \<not> ok then (-1, s)
          else (0, if udp then s\<lparr>udp_added := of_bool is_adding\<rparr> else s\<lparr>tcp_added := of_bool is_adding\<rparr>))"

text \<open>\<open>sprintf\<close> of \<open>%d\<close> into an array with this room, which also takes the terminating zero.\<close>

definition sprintf_int :: "nat \<Rightarrow> int \<Rightarrow> u8 list option" where
  "sprintf_int room i = (if length (int_digits i) < room then Some (int_digits i) else None)"

text \<open>\<open>rtpport\<close> has seven octets.\<close>

definition add_all_rtp_rules :: "host \<Rightarrow> bool \<Rightarrow> bool \<Rightarrow> sqrkal \<Rightarrow> (int \<times> sqrkal) option" where
  "add_all_rtp_rules h is_adding udp s =
    (if is_adding \<and> rtp_added s \<noteq> 0 then Some (0, s)
     else do {
       rtpport \<leftarrow> sprintf_int 7 (inport s);
       ttl \<leftarrow> sprintf_int (ttl_room h) (srpp_ttl s);
       let s = s\<lparr>srpp_ttl_s := ttl\<rparr>;
       let (ok, s) = add_both h is_adding udp '' --destination-port '' '' --source-port '' rtpport s;
       Some (if \<not> ok then (-1, s) else (0, s\<lparr>rtp_added := of_bool is_adding\<rparr>)) })"

section \<open>Addresses\<close>

definition isLocalIP :: "host \<Rightarrow> u8 list \<Rightarrow> int" where
  "isLocalIP h ip = (if inet_addr h ip \<in> set (local_addrs h) then 1 else 0)"

definition get_direction :: "host \<Rightarrow> u8 list \<Rightarrow> int option" where
  "get_direction h buff = do { saddr \<leftarrow> get32 buff 12; Some (if saddr \<in> set (local_addrs h) then 1 else 0) }"

definition isValidIpAddress :: "host \<Rightarrow> u8 list \<Rightarrow> bool" where
  "isValidIpAddress h ipAddress = (inet_pton h ipAddress \<noteq> 0)"

definition resolve_and_set :: "host \<Rightarrow> u8 list \<Rightarrow> sqrkal \<Rightarrow> sqrkal" where
  "resolve_and_set h hostname s =
    (case gethostbyname h hostname of None \<Rightarrow> s | Some a \<Rightarrow> s\<lparr>out_ip := a\<rparr>)"

section \<open>A sample state\<close>

definition sample_sqrkal :: sqrkal where
  "sample_sqrkal = sqrkal_start \<lparr>rtp_header = rtp_header_of_bytes (replicate 72 0), rtp_payload = []\<rparr> (sample_msg 0 [] []) [] sample_state"

section \<open>Printing\<close>

lemma many_digits: "10 ^ k \<le> n \<Longrightarrow> k < length (nat_digits n)"
proof (induction k arbitrary: n)
  case 0
  then show ?case using nat_digits_nonempty[of n] by simp
next
  case (Suc k)
  have "10 ^ k \<le> n div 10" using Suc.prems by (simp add: less_eq_div_iff_mult_less_eq mult.commute)
  moreover have "(10 :: nat) \<le> 10 * 10 ^ k" by simp
  then have "\<not> n < 10" using Suc.prems unfolding power_Suc by linarith
  ultimately show ?case using Suc.IH[of "n div 10"] by (subst nat_digits.simps) simp
qed

lemma sprintf_port: "sprintf_int 7 (int p) = (if p < 1000000 then Some (nat_digits p) else None)"
  using length_nat_digits[of p 6] many_digits[of 6 p] by (cases "p < 1000000") (simp_all add: sprintf_int_def int_digits_def)

text \<open>The arrays of \<^const>\<open>add_all_rtp_rules\<close> that are too small for what it prints.\<close>

definition print_overruns :: "host \<Rightarrow> sqrkal \<Rightarrow> bool" where
  "print_overruns h s \<longleftrightarrow> sprintf_int 7 (inport s) = None \<or> sprintf_int (ttl_room h) (srpp_ttl s) = None"

lemma add_all_rtp_rules_None:
  "add_all_rtp_rules h adding udp s = None \<longleftrightarrow> \<not> (adding \<and> rtp_added s \<noteq> 0) \<and> print_overruns h s"
  by (auto simp: add_all_rtp_rules_def print_overruns_def Let_def split_beta split: bind_splits)

section \<open>What a receiver computes\<close>

text \<open>The one's complement sum of RFC 791 and RFC 1071: the octets are taken in pairs, in network order, and a carry out of 16
  bits is added at the other end. A header is valid when its sum is all ones.\<close>

fun ones_sum :: "u8 list \<Rightarrow> nat" where
  "ones_sum (x # y # w) = (let t = 256 * unat x + unat y + ones_sum w in if t > 65535 then t - 65535 else t)"
| "ones_sum [x] = 256 * unat x"
| "ones_sum [] = 0"

text \<open>The sum of the words as a number, and the carries folded into 16 bits.\<close>

fun word_sum :: "u8 list \<Rightarrow> nat" where
  "word_sum (x # y # w) = unat x + 256 * unat y + word_sum w"
| "word_sum [x] = unat x"
| "word_sum [] = 0"

definition fold16 :: "nat \<Rightarrow> nat" where
  "fold16 n = (let n = n div 65536 + n mod 65536 in (n + n div 65536) mod 65536)"

lemma unat_bound: "unat (x :: 'a::len word) < 2 ^ LENGTH('a)"
  by simp

lemma word_sum_bound: "2 * word_sum w \<le> 65535 * (length w + 1)"
proof (induction w rule: word_sum.induct)
  case (1 x y w)
  have "unat x < 256" "unat y < 256" using unat_bound[of x] unat_bound[of y] by simp_all
  then show ?case using 1 by simp
next
  case (2 x)
  show ?case using unat_bound[of x] by simp
qed simp

lemma unat_of_le16: "unat (of_le16 [x, y]) = unat x + 256 * unat y"
proof -
  have "of_le16 [x, y] = ucast x + push_bit 8 (ucast y)"
    unfolding of_le16_def nth_Cons_0 by (subst disjunctive_add_eq_or) (auto simp: bit_simps bit_eq_iff dest: bit_imp_le_length)
  moreover have "unat (push_bit 8 (ucast y) :: u16) = 256 * unat y"
    using unat_bound[of y] by (simp add: push_bit_eq_mult unat_word_ariths unsigned_ucast_eq take_bit_eq_mod)
  moreover have "unat (ucast x :: u16) = unat x"
    using unat_bound[of x] by (simp add: unsigned_ucast_eq take_bit_eq_mod)
  ultimately show ?thesis using unat_bound[of x] unat_bound[of y] by (simp add: unat_word_ariths)
qed

lemma cksum_words_sum: "unat acc + word_sum w < 2 ^ 32 \<Longrightarrow> unat (cksum_words w acc) = unat acc + word_sum w"
proof (induction w acc rule: cksum_words.induct)
  case (1 x y w acc)
  have u: "unat (ucast (of_le16 [x, y]) :: u32) = unat x + 256 * unat y"
    using unat_bound[of "of_le16 [x, y]"] by (simp add: unsigned_ucast_eq take_bit_eq_mod unat_of_le16)
  then have "unat (acc + ucast (of_le16 [x, y]) :: u32) = unat acc + (unat x + 256 * unat y)"
    using 1(2) by (simp add: unat_word_ariths)
  then show ?case using 1 by simp
next
  case (2 x acc)
  have "unat (ucast x :: u32) = unat x" using unat_bound[of x] by (simp add: unsigned_ucast_eq take_bit_eq_mod)
  then show ?case using 2 by (simp add: unat_word_ariths)
qed simp

lemma fold16_le: "fold16 n \<le> 65535"
  by (simp add: fold16_def Let_def less_Suc_eq_le[symmetric])

lemma fold16_fold:
  assumes "n < 2 ^ 32"
  defines "m \<equiv> n div 65536 + n mod 65536"
  shows "fold16 n = (if m < 65536 then m else m - 65535)"
proof -
  have "n div 65536 < 65536" using assms(1) by (simp add: div_less_iff_less_mult)
  then have m: "m < 131071" unfolding m_def using mod_less_divisor[of 65536 n] by linarith
  show ?thesis
  proof (cases "m < 65536")
    case False
    have "m div 65536 = 1" by (rule div_nat_eqI) (use False m in simp_all)
    moreover have "(m + 1) mod 65536 = m + 1 - 65536" using False m by (simp add: le_mod_geq)
    ultimately show ?thesis using False by (simp add: fold16_def Let_def flip: m_def)
  qed (simp add: fold16_def Let_def flip: m_def)
qed

lemma fold16_cong: "n < 2 ^ 32 \<Longrightarrow> fold16 n mod 65535 = n mod 65535"
proof -
  assume n: "n < 2 ^ 32"
  define m where "m = n div 65536 + n mod 65536"
  have "n = 65535 * (n div 65536) + m" using mult_div_mod_eq[of 65536 n] unfolding m_def by linarith
  then have "n mod 65535 = m mod 65535" by (metis mod_mult_self4)
  moreover have "fold16 n mod 65535 = m mod 65535" unfolding fold16_fold[OF n, folded m_def]
    by (simp add: mod_if)
  ultimately show ?thesis by simp
qed

lemma fold16_zero: "n < 2 ^ 32 \<Longrightarrow> fold16 n = 0 \<longleftrightarrow> n = 0"
  using fold16_fold[of n] mult_div_mod_eq[of 65536 n] by (auto simp: split: if_splits)

lemma add_unat: "unat a + unat b < 2 ^ 32 \<Longrightarrow> unat (a + b :: u32) = unat a + unat b"
  by (simp add: unat_word_ariths)

lemma in_cksum_fold:
  assumes "len \<le> length addr" "len \<le> 2 ^ 16"
  shows "in_cksum addr len = Some (of_nat (65535 - fold16 (word_sum (take len addr))))"
proof -
  let ?w = "take len addr" let ?s = "cksum_words ?w 0"
  have "word_sum ?w < 2 ^ 32" using word_sum_bound[of ?w] assms by simp
  then have s: "unat ?s = word_sum ?w" using cksum_words_sum[of 0 ?w] by simp
  let ?a = "drop_bit 16 ?s + (?s AND 0xFFFF)"
  have "(?s AND 0xFFFF) = take_bit 16 ?s" by (simp add: take_bit_eq_mask mask_eq_exp_minus_1)
  then have "unat (?s AND 0xFFFF) = unat ?s mod 65536" by (simp only: unsigned_take_bit_eq) (simp add: take_bit_eq_mod)
  moreover have "unat (drop_bit 16 ?s) = unat ?s div 65536" by (simp only: unat_drop_bit_eq) (simp add: drop_bit_eq_div)
  ultimately have a: "unat ?a = unat ?s div 65536 + unat ?s mod 65536"
    using unat_bound[of ?s] by (simp add: unat_word_ariths)
  have b: "unat (?a + drop_bit 16 ?a) = unat ?a + unat ?a div 65536"
  proof -
    have "unat (drop_bit 16 ?a) = unat ?a div 65536" by (simp only: unat_drop_bit_eq) (simp add: drop_bit_eq_div)
    moreover have "unat ?a < 131072" unfolding a using unat_bound[of ?s] mod_less_divisor[of 65536 "unat ?s"]
      by (simp add: less_mult_imp_div_less[of "unat ?s" 65536 65536] add_less_le_mono[of _ 65536 _ 65536, simplified])
    ultimately show ?thesis using add_unat[of ?a "drop_bit 16 ?a"] div_le_dividend[of "unat ?a" 65536] by simp
  qed
  have n: "ucast (NOT x) = (of_nat (65535 - unat x mod 65536) :: u16)" for x :: u32
  proof -
    have "ucast (NOT x) = (NOT (ucast x) :: u16)" by (rule bit_word_eqI) (simp add: bit_simps)
    also have "\<dots> = - 1 - ucast x" by (simp add: not_eq_complement)
    also have "\<dots> = of_nat (65535 - unat x mod 65536)"
    proof -
      have "ucast x = (of_nat (unat x mod 65536) :: u16)"
        by (simp add: word_unat_eq_iff unsigned_ucast_eq take_bit_eq_mod unat_of_nat)
      then show ?thesis by (simp add: of_nat_diff less_Suc_eq_le[symmetric])
    qed
    finally show ?thesis .
  qed
  have "fold16 (word_sum ?w) = unat (?a + drop_bit 16 ?a) mod 65536"
    unfolding b a s fold16_def Let_def ..
  then show ?thesis using assms(1) by (simp add: in_cksum_def peek_def Let_def n)
qed

lemma word_sum_append: "even (length a) \<Longrightarrow> word_sum (a @ b) = word_sum a + word_sum b"
  by (induction a rule: word_sum.induct) auto

lemma le16_sum: "le16 c = [x, y] \<Longrightarrow> unat x + 256 * unat y = unat c"
  using unat_of_le16[of x y] of_le16_le16[of c] by simp

text \<open>The sum with its complement in it folds to all ones.\<close>

lemma fold16_complement:
  assumes "n < 2 ^ 31"
  shows "fold16 (n + (65535 - fold16 n)) = 65535"
proof -
  let ?t = "n + (65535 - fold16 n)"
  have n: "n < 2 ^ 32" and t: "?t < 2 ^ 32" using assms fold16_le[of n] by simp_all
  have "?t mod 65535 = (n mod 65535 + (65535 - fold16 n)) mod 65535" by (simp add: mod_add_left_eq)
  also have "\<dots> = (fold16 n mod 65535 + (65535 - fold16 n)) mod 65535" by (simp only: fold16_cong[OF n])
  also have "\<dots> = (fold16 n + (65535 - fold16 n)) mod 65535" by (simp add: mod_add_left_eq)
  finally have z: "fold16 ?t mod 65535 = 0" using fold16_le[of n] by (simp only: fold16_cong[OF t]) simp
  have "?t \<noteq> 0" using fold16_zero[OF n] by auto
  then have "fold16 ?t \<noteq> 0" using fold16_zero[OF t] by simp
  then show ?thesis using z fold16_le[of ?t] by (cases "fold16 ?t = 65535") simp_all
qed

lemma poke_Some: "poke buf off bs = Some b \<longleftrightarrow> off + length bs \<le> length buf \<and> b = take off buf @ bs @ drop (off + length bs) buf"
  by (auto simp: poke_def)

lemma poke_pair: "off + 1 < length buf \<Longrightarrow> poke buf off [x, y] = Some (buf[off := x, Suc off := y])"
  by (simp add: poke_def upd_conv_take_nth_drop take_Suc_conv_app_nth drop_Cons')

lemma ip_offset_cong: "buff ! 0 = b ! 0 \<Longrightarrow> buff \<noteq> [] \<Longrightarrow> b \<noteq> [] \<Longrightarrow> ip_offset buff = ip_offset b"
  by (cases buff; cases b) (simp_all add: ip_offset_def peek_def)

lemma form_checksums_eq:
  assumes "ip_offset buff = Some off" "20 \<le> off" "off + 7 < length buff"
  obtains c0 c1 where "form_checksums buff = Some (buff[10 := c0, 11 := c1, off + 6 := 0, off + 7 := 0])"
    "unat c0 + 256 * unat c1 = 65535 - fold16 (word_sum (take 20 (buff[10 := 0, 11 := 0])))"
proof -
  let ?z = "buff[10 := 0, 11 := 0]"
  let ?c = "of_nat (65535 - fold16 (word_sum (take 20 ?z))) :: u16"
  have z: "poke buff 10 [0, 0] = Some ?z" using assms(2,3) poke_pair[of 10 buff 0 0] by simp
  have c: "in_cksum ?z 20 = Some ?c" using assms(2,3) by (intro in_cksum_fold) simp_all
  obtain c0 c1 where l: "le16 ?c = [c0, c1]" by (simp add: le16_def)
  have p: "poke ?z 10 [c0, c1] = Some (buff[10 := c0, 11 := c1])"
    using assms(2,3) poke_pair[of 10 ?z c0 c1] by (simp add: list_update_swap)
  have "poke (buff[10 := c0, 11 := c1]) (off + 6) [0, 0] = Some (buff[10 := c0, 11 := c1, off + 6 := 0, off + 7 := 0])"
    using assms(2,3) poke_pair[of "off + 6" "buff[10 := c0, 11 := c1]" 0 0] by (simp add: add.commute)
  then have "form_checksums buff = Some (buff[10 := c0, 11 := c1, off + 6 := 0, off + 7 := 0])"
    by (simp add: form_checksums_def assms(1) z c l p)
  moreover have "unat ?c = 65535 - fold16 (word_sum (take 20 ?z))"
    by (simp add: unat_of_nat)
  ultimately show ?thesis using that le16_sum[OF l] by simp
qed

lemma word_sum_header:
  assumes "20 \<le> length buff"
  shows "word_sum (take 20 (buff[10 := c0, 11 := c1])) = word_sum (take 20 (buff[10 := 0, 11 := 0])) + (unat c0 + 256 * unat c1)"
proof -
  have t: "take 20 (buff[10 := a, 11 := b]) = take 10 buff @ [a, b] @ take 8 (drop 12 buff)" for a b
    using assms by (intro nth_equalityI) (auto simp: nth_append nth_list_update nth_Cons')
  have "even (length (take 10 buff))" using assms by simp
  then show ?thesis unfolding t by (simp add: word_sum_append)
qed

lemma form_checksums_sum:
  assumes "ip_offset buff = Some off" "20 \<le> off" "off + 7 < length buff" "form_checksums buff = Some buff'"
  shows "in_cksum buff' 20 = Some 0"
proof -
  obtain c0 c1 where c: "form_checksums buff = Some (buff[10 := c0, 11 := c1, off + 6 := 0, off + 7 := 0])"
    "unat c0 + 256 * unat c1 = 65535 - fold16 (word_sum (take 20 (buff[10 := 0, 11 := 0])))"
    using form_checksums_eq[OF assms(1-3)] by blast
  let ?s = "word_sum (take 20 (buff[10 := 0, 11 := 0]))"
  have b: "take 20 buff' = take 20 (buff[10 := c0, 11 := c1])" "20 \<le> length buff'"
    using c(1) assms by auto
  have "word_sum (take 20 buff') = ?s + (65535 - fold16 ?s)"
    unfolding b(1) using word_sum_header[of buff c0 c1] assms(2,3) c(2) by simp
  moreover have "?s < 2 ^ 31" using word_sum_bound[of "take 20 (buff[10 := 0, 11 := 0])"] assms(2,3) by simp
  ultimately have "fold16 (word_sum (take 20 buff')) = 65535" using fold16_complement by simp
  then show ?thesis using in_cksum_fold[of 20 buff'] b(2) by simp
qed

text \<open>How the sum that the code computes is related to that of the standard.\<close>

lemma ones_sum_le: "ones_sum w \<le> 65535"
proof (induction w rule: ones_sum.induct)
  case (1 x y w)
  then show ?case using unat_bound[of x] unat_bound[of y] by (simp add: Let_def) linarith
next
  case (2 x)
  then show ?case using unat_bound[of x] by simp
qed simp

lemma ones_sum_mod: "ones_sum w mod 65535 = 256 * word_sum w mod 65535"
proof (induction w rule: ones_sum.induct)
  case (1 x y w)
  let ?t = "256 * unat x + unat y + ones_sum w"
  have "ones_sum (x # y # w) mod 65535 = ?t mod 65535"
  proof (cases "?t > 65535")
    case True
    then have "?t mod 65535 = (?t - 65535) mod 65535" by (simp add: le_mod_geq)
    then show ?thesis using True by (simp add: Let_def)
  qed (simp add: Let_def)
  also have "\<dots> = (256 * unat x + unat y + 256 * word_sum w) mod 65535" using 1 by (metis mod_add_right_eq)
  also have "\<dots> = (256 * unat x + unat y + 256 * word_sum w + 65535 * unat y) mod 65535" by (simp only: mod_mult_self2)
  also have "256 * unat x + unat y + 256 * word_sum w + 65535 * unat y = 256 * word_sum (x # y # w)" by simp
  finally show ?case .
qed simp_all

lemma ones_sum_pos: "w \<noteq> [] \<Longrightarrow> hd w \<noteq> 0 \<Longrightarrow> ones_sum w \<noteq> 0"
  by (cases w rule: ones_sum.cases) (auto simp: Let_def unat_eq_0)

lemma ones_sum_valid:
  assumes "word_sum w mod 65535 = 0" "w \<noteq> []" "hd w \<noteq> 0"
  shows "ones_sum w = 65535"
proof -
  have "ones_sum w mod 65535 = 0" unfolding ones_sum_mod using assms(1) by (metis mod_mult_right_eq mult_0_right mod_0)
  moreover have "ones_sum w \<noteq> 0" by (rule ones_sum_pos[OF assms(2,3)])
  ultimately show ?thesis using ones_sum_le[of w] by (auto simp: mod_if split: if_splits)
qed

lemma in_cksum_zero:
  assumes "in_cksum b 20 = Some 0" "20 \<le> length b"
  shows "word_sum (take 20 b) mod 65535 = 0"
proof -
  have "word_sum (take 20 b) < 2 ^ 32" using word_sum_bound[of "take 20 b"] assms(2) by simp
  note c = fold16_cong[OF this]
  have "unat (of_nat (65535 - fold16 (word_sum (take 20 b))) :: u16) = 0" using assms in_cksum_fold[of 20 b] by simp
  then have "65535 - fold16 (word_sum (take 20 b)) = 0" by (simp add: unat_of_nat)
  then have "fold16 (word_sum (take 20 b)) = 65535" using fold16_le[of "word_sum (take 20 b)"] by simp
  then show ?thesis using c by simp
qed

lemma ip_offset_nonzero: "ip_offset b = Some off \<Longrightarrow> 0 < off \<Longrightarrow> b \<noteq> [] \<and> hd b \<noteq> 0"
  by (cases b) (auto simp: ip_offset_def peek_def)

lemma header_valid:
  assumes "in_cksum b 20 = Some 0" "20 \<le> length b" "ip_offset b = Some off" "0 < off"
  shows "ones_sum (take 20 b) = 65535"
  by (rule ones_sum_valid[OF in_cksum_zero[OF assms(1,2)]]) (use ip_offset_nonzero[OF assms(3,4)] in simp_all)

lemma options_valid:
  assumes "ones_sum (take 20 b) = 65535" "20 \<le> length b" "ip_offset b = Some off" "20 \<le> off"
  shows "ones_sum (take off b) = 65535 \<longleftrightarrow> ones_sum (take (off - 20) (drop 20 b)) \<in> {0, 65535}"
proof -
  have e: "even (length (take 20 b))" using assms(2) by simp
  have t: "take off b = take 20 b @ take (off - 20) (drop 20 b)" using assms(4) by (metis le_add_diff_inverse take_add)
  have "ones_sum (take off b) mod 65535 = (256 * word_sum (take 20 b) + 256 * word_sum (take (off - 20) (drop 20 b))) mod 65535"
    unfolding ones_sum_mod t word_sum_append[OF e] by (simp only: distrib_left)
  also have "\<dots> = (ones_sum (take 20 b) mod 65535 + ones_sum (take (off - 20) (drop 20 b)) mod 65535) mod 65535"
    unfolding ones_sum_mod by (simp only: mod_add_eq)
  finally have m: "ones_sum (take off b) mod 65535 = ones_sum (take (off - 20) (drop 20 b)) mod 65535" using assms(1) by simp
  have "ones_sum (take off b) \<noteq> 0" by (rule ones_sum_pos) (use ip_offset_nonzero[OF assms(3)] assms(4) in simp_all)
  moreover have z: "n mod 65535 = 0 \<longleftrightarrow> n = 0 \<or> n = 65535" if "n \<le> 65535" for n :: nat
    using that by (auto simp: mod_if split: if_splits)
  ultimately show ?thesis using z[OF ones_sum_le[of "take off b"]] z[OF ones_sum_le[of "take (off - 20) (drop 20 b)"]] m by auto
qed

text \<open>C16. The checksum is that of RFC 791 over the first 20 octets of the header: after \<open>form_checksums\<close> their one's complement
  sum in network order, computed as the standard says, is all ones, whatever they are. For a header without options
  that is the whole header; one with options is valid exactly when its options sum to zero, because the code leaves them
  out. The UDP checksum says that there is none, and no other octet of the packet has changed.\<close>

theorem form_checksums_valid:
  assumes "ip_offset buff = Some off" "20 \<le> off" "off + 7 < length buff"
  shows "\<exists>buff'. form_checksums buff = Some buff' \<and> ones_sum (take 20 buff') = 65535
    \<and> (ones_sum (take off buff') = 65535 \<longleftrightarrow> ones_sum (take (off - 20) (drop 20 buff)) \<in> {0, 65535})
    \<and> get16 buff' (off + 6) = Some 0
    \<and> length buff' = length buff \<and> (\<forall>i. i \<notin> {10, 11, off + 6, off + 7} \<longrightarrow> buff' ! i = buff ! i)"
proof -
  obtain c0 c1 where c: "form_checksums buff = Some (buff[10 := c0, 11 := c1, off + 6 := 0, off + 7 := 0])"
    using form_checksums_eq[OF assms] by blast
  let ?b = "buff[10 := c0, 11 := c1, off + 6 := 0, off + 7 := 0]"
  have "take 2 (drop (off + 6) ?b) = [?b ! (off + 6), ?b ! (off + 7)]"
    using assms(3) by (intro nth_equalityI) (auto simp: less_Suc_eq numeral_2_eq_2 add.commute)
  then have g: "get16 ?b (off + 6) = Some 0"
    using assms(3) by (simp add: get16_def peek_def nth_list_update of_le16_def del: drop_update_swap of_nat_add)
  have "buff \<noteq> []" using assms(3) by auto
  then have o: "ip_offset ?b = Some off" using assms(1,2) by (subst ip_offset_cong[of _ buff]) simp_all
  have l: "20 \<le> length ?b" using assms(2,3) by simp
  have v: "ones_sum (take 20 ?b) = 65535" by (rule header_valid[OF form_checksums_sum[OF assms c] l o]) (use assms(2) in simp)
  have "take (off - 20) (drop 20 ?b) = take (off - 20) (drop 20 buff)" using assms(2) by (simp add: drop_update_swap)
  then show ?thesis using c g v options_valid[OF v l o assms(2)] by (auto simp: nth_list_update)
qed

theorem form_checksums_valid_witness:
  "\<exists>buff'. form_checksums ([0x45] @ replicate 40 7) = Some buff' \<and> ones_sum (take 20 buff') = 65535 \<and> length buff' = 41"
  using form_checksums_valid[of "[0x45] @ replicate 40 7" 20] by (auto simp: ip_offset_def peek_def)

lemma poke2: "off + 1 < length buf \<Longrightarrow> poke buf off (le16 w) = Some (buf[off := hd (le16 w), Suc off := le16 w ! 1])"
  using poke_pair[of off buf "hd (le16 w)" "le16 w ! 1"] by (simp add: le16_def)

text \<open>Setting the fields of a fragment and its checksums.\<close>

lemma fragment_fields:
  assumes "ip_offset b = Some 20" "28 \<le> length b"
  obtains b' where "do { b \<leftarrow> poke b 6 (le16 f); b \<leftarrow> poke b 2 (le16 t); form_checksums b } = Some b'"
    "in_cksum b' 20 = Some 0" "length b' = length b" "drop 20 b' = (drop 20 b)[6 := 0, 7 := 0]" "take 2 (drop 6 b') = le16 f"
    "ip_offset b' = Some 20" "take 2 (drop 2 b') = le16 t"
proof -
  define c where "c = b[6 := hd (le16 f), 7 := le16 f ! 1, 2 := hd (le16 t), 3 := le16 t ! 1]"
  have p: "do { b \<leftarrow> poke b 6 (le16 f); b \<leftarrow> poke b 2 (le16 t); form_checksums b } = form_checksums c"
    using assms(2) by (simp add: poke2 c_def)
  have "b \<noteq> []" using assms(2) by auto
  then have "ip_offset c = ip_offset b" by (intro ip_offset_cong) (simp_all add: c_def)
  then have o: "ip_offset c = Some 20" using assms(1) by simp
  have l: "20 + 7 < length c" using assms(2) by (simp add: c_def)
  obtain c0 c1 where e: "form_checksums c = Some (c[10 := c0, 11 := c1, 20 + 6 := 0, 20 + 7 := 0])"
    using form_checksums_eq[OF o order_refl l] by blast
  let ?b = "c[10 := c0, 11 := c1, 20 + 6 := 0, 20 + 7 := 0]"
  have "c \<noteq> []" using l by auto
  then have "ip_offset ?b = ip_offset c" by (intro ip_offset_cong) simp_all
  moreover have "take 2 (drop 6 ?b) = le16 f"
    using assms(2) by (intro nth_equalityI) (auto simp: c_def le16_def less_Suc_eq numeral_2_eq_2 nth_Cons')
  moreover have "take 2 (drop 2 ?b) = le16 t"
    using assms(2) by (intro nth_equalityI) (auto simp: c_def le16_def less_Suc_eq numeral_2_eq_2 numeral_3_eq_3 nth_Cons')
  moreover have "drop 20 ?b = (drop 20 b)[6 := 0, 7 := 0]" by (simp add: c_def drop_update_swap)
  ultimately show ?thesis
    using that[of ?b] p e form_checksums_sum[OF o order_refl l e] o by (simp add: c_def)
qed

lemma poke_keeps: "poke buf off bs = Some b \<Longrightarrow> i < off \<Longrightarrow> b ! i = buf ! i"
  by (auto simp: poke_Some nth_append)

lemma form_checksums_short: "ip_offset c = Some 20 \<Longrightarrow> length c < 28 \<Longrightarrow> form_checksums c = None"
  by (auto simp: form_checksums_def poke_def split: bind_splits)

text \<open>C17. A packet of more than 1507 octets whose header has no options leaves, once a destination is set, in two fragments. Their
  headers have valid checksums, the second one begins where the first ends, and their data joined are the data of the
  packet, except for four octets that the code clears: the two of the UDP checksum, and, since the second fragment gets
  the same treatment, two octets of the payload. Their length fields hold the right lengths in the order of a little-endian
  host, not of the network. A packet of 1501 to 1507 octets does not get out: there the second fragment is so short that
  clearing its checksum writes outside of its array.\<close>

theorem fragments_reassemble:
  assumes "ip_offset buff = Some 20" "1500 < n" "n \<le> length buff" "out_port s \<noteq> 0"
  shows "if n < 1508 then send_fragmented_message buff (int n) s = None
    else \<exists>f1 f2 buff' s'. send_fragmented_message buff (int n) s = Some (buff', s')
      \<and> raw_sent s' = raw_sent s @ [(out_ip s, out_port s, f1), (out_ip s, out_port s, f2)]
      \<and> ones_sum (take 20 f1) = 65535 \<and> ones_sum (take 20 f2) = 65535
      \<and> get16 f1 2 = Some (of_nat (length f1)) \<and> get16 f2 2 = Some (of_nat (length f2))
      \<and> get16 f1 6 = Some (htons 0x2000) \<and> get16 f2 6 = Some (htons (of_nat (length (drop 20 f1) div 8)))
      \<and> drop 20 f1 @ drop 20 f2 = (drop 20 (take n buff))[6 := 0, 7 := 0, 1486 := 0, 1487 := 0]"
proof -
  obtain i where i: "le16 (htons (word_of_int (15032 + frag_id s))) = i" by simp
  define b where "b = buff[4 := hd i, 5 := i ! 1]"
  have b: "poke buff 4 i = Some b" using assms(2,3) poke2[of 4 buff] by (simp add: b_def flip: i)
  have "buff \<noteq> []" using assms(2,3) by auto
  then have o: "ip_offset b = Some 20" using assms(1) by (subst ip_offset_cong[of _ buff]) (simp_all add: b_def)
  obtain b' where b': "do { b \<leftarrow> poke b 6 (le16 (htons 8192)); b \<leftarrow> poke b 2 (le16 (of_nat IP_MTU)); form_checksums b } = Some b'"
    "in_cksum b' 20 = Some 0" "length b' = length b" "drop 20 b' = (drop 20 b)[6 := 0, 7 := 0]" "take 2 (drop 6 b') = le16 (htons 8192)"
    "ip_offset b' = Some 20" "take 2 (drop 2 b') = le16 (of_nat IP_MTU)"
    using fragment_fields[OF o] assms(2,3) by (auto simp: b_def)
  let ?s = "s\<lparr>frag_id := frag_id s + 1\<rparr>"
  let ?f1 = "take 1500 b'" and ?c = "take 20 b' @ take (n - 1500) (drop 1500 b')"
  have len: "1500 \<le> length b'" "n \<le> length b'" using b'(3) assms(2,3) by (simp_all add: b_def)
  have raw: "send_raw_message b' 1500 ?s = Some (?s\<lparr>raw_sent := raw_sent s @ [(out_ip s, out_port s, ?f1)]\<rparr>)"
    using assms(4) len by (simp add: send_raw_message_def peek_def)
  have frag: "send_fragmented_message buff (int n) s = do {
      c \<leftarrow> do { c \<leftarrow> poke ?c 6 (le16 (htons 185)); c \<leftarrow> poke c 2 (le16 (word_of_int (int n - 1500 + 20))); form_checksums c };
      s \<leftarrow> send_raw_message c (int n - 1500 + 20) (?s\<lparr>raw_sent := raw_sent s @ [(out_ip s, out_port s, ?f1)]\<rparr>);
      Some (b', s) }"
  proof -
    from b'(1) obtain x y where "poke b 6 (le16 (htons 8192)) = Some x" "poke x 2 (le16 (of_nat IP_MTU)) = Some y" "form_checksums y = Some b'"
      by (auto split: bind_splits)
    moreover have "peek b' 0 20 = Some (take 20 b')" "peek b' 1500 (nat (int n - 1500)) = Some (take (n - 1500) (drop 1500 b'))"
      using len assms(2) by (simp_all add: peek_def nat_diff_distrib)
    ultimately show ?thesis using i b raw
      by (simp add: send_fragmented_message_def IP_MTU_def bind_assoc)
  qed
  have lc: "length ?c = n - 1480" using len assms(2) by simp
  show ?thesis
  proof (cases "n < 1508")
    case True
    have "form_checksums c = None" if c: "poke ?c 6 (le16 (htons 185)) = Some c1" "poke c1 2 w = Some c" for c1 c w
    proof -
      have l: "length c = n - 1480" using length_poke[OF c(2)] length_poke[OF c(1)] lc by simp
      have "c ! 0 = c1 ! 0" "c1 ! 0 = ?c ! 0" using poke_keeps[OF c(2), of 0] poke_keeps[OF c(1), of 0] by simp_all
      moreover have "?c ! 0 = b' ! 0" using len by (simp add: nth_append)
      moreover have "c \<noteq> []" "b' \<noteq> []" using l assms(2) len by auto
      ultimately have "ip_offset c = ip_offset b'" by (intro ip_offset_cong) simp_all
      then show ?thesis using b'(6) True l by (intro form_checksums_short) simp_all
    qed
    note short = this
    have "do { c \<leftarrow> poke ?c 6 (le16 (htons 185)); c \<leftarrow> poke c 2 w; form_checksums c } = None" for w
    proof (cases "poke ?c 6 (le16 (htons 185))")
      case (Some c1)
      then show ?thesis using short[OF Some] by (cases "poke c1 2 w") (simp_all only: bind.bind_lunit bind.bind_lzero)
    qed (simp only: bind.bind_lzero)
    then show ?thesis unfolding if_P[OF True] frag by simp
  next
    case False
    have "b' \<noteq> []" "?c \<noteq> []" using len by auto
    then have oc: "ip_offset ?c = Some 20" using b'(6) by (subst ip_offset_cong[of _ b']) (simp_all add: nth_append)
    have "28 \<le> length ?c" using False lc by linarith
    then obtain c' where c': "do { c \<leftarrow> poke ?c 6 (le16 (htons 185)); c \<leftarrow> poke c 2 (le16 (word_of_int (int n - 1500 + 20))); form_checksums c } = Some c'"
      "in_cksum c' 20 = Some 0" "length c' = length ?c" "drop 20 c' = (drop 20 ?c)[6 := 0, 7 := 0]" "take 2 (drop 6 c') = le16 (htons 185)"
      "ip_offset c' = Some 20" "take 2 (drop 2 c') = le16 (word_of_int (int n - 1500 + 20))"
      by (rule fragment_fields[OF oc, of "htons 185" "word_of_int (int n - 1500 + 20)"])
    have raw2: "send_raw_message c' (int n - 1500 + 20) (?s\<lparr>raw_sent := raw_sent s @ [(out_ip s, out_port s, ?f1)]\<rparr>)
      = Some (?s\<lparr>raw_sent := raw_sent s @ [(out_ip s, out_port s, ?f1), (out_ip s, out_port s, c')]\<rparr>)"
      using assms(2,4) c'(3) lc by (simp add: send_raw_message_def peek_def nat_diff_distrib)
    have run: "send_fragmented_message buff (int n) s
      = Some (b', ?s\<lparr>raw_sent := raw_sent s @ [(out_ip s, out_port s, ?f1), (out_ip s, out_port s, c')]\<rparr>)"
      unfolding frag c'(1) bind.bind_lunit raw2 ..
    have g: "get16 f i = Some (of_le16 w)" if "take 2 (drop i f) = w" "i + 2 \<le> length f" for f w i
      using that by (simp add: get16_def peek_def)
    have d1: "drop 20 ?f1 = (take 1480 (drop 20 buff))[6 := 0, 7 := 0]"
      using b'(4) by (simp add: drop_take b_def take_update_swap)
    have "drop 1500 b' = drop 1480 (drop 20 b')" by simp
    also have "\<dots> = drop 1500 buff" unfolding b'(4) by (simp add: b_def)
    finally have d2: "drop 20 c' = (take (n - 1500) (drop 1500 buff))[6 := 0, 7 := 0]" using c'(4) len by simp
    have "take 1480 (drop 20 buff) @ take (n - 1500) (drop 1500 buff) = drop 20 (take n buff)"
      using assms(2) take_add[of 1480 "n - 1500" "drop 20 buff"] by (simp add: drop_take)
    note joined = this
    have data: "drop 20 ?f1 @ drop 20 c' = (drop 20 (take n buff))[6 := 0, 7 := 0, 1486 := 0, 1487 := 0]"
      unfolding d1 d2 joined[symmetric] using assms(2,3) by (simp add: list_update_append)
    have "get16 ?f1 6 = Some (htons 0x2000)" using g[of 6 ?f1 "le16 (htons 8192)"] b'(5) len by (simp add: drop_take)
    have "get16 c' 6 = Some (htons (of_nat (length (drop 20 ?f1) div 8)))"
      using g[of 6 c' "le16 (htons 185)"] c'(3,5) lc False len by simp
    have "get16 ?f1 2 = Some (of_nat (length ?f1))"
      using g[of 2 ?f1 "le16 (of_nat IP_MTU)"] b'(7) len by (simp add: drop_take IP_MTU_def)
    have "get16 c' 2 = Some (of_nat (length c'))"
    proof -
      have i: "int n - 1500 + 20 = int (length c')" using c'(3) lc False by linarith
      have "(word_of_int (int n - 1500 + 20) :: u16) = of_nat (length c')" unfolding i by simp
      then have "take 2 (drop 2 c') = le16 (of_nat (length c'))" using c'(7) by (simp only:)
      moreover have "2 + 2 \<le> length c'" using c'(3) lc False by linarith
      ultimately show ?thesis using g[of 2 c'] by (simp only: of_le16_le16)
    qed
    have "ones_sum (take 20 ?f1) = 65535" using header_valid[OF b'(2) _ b'(6)] len by simp
    have "ones_sum (take 20 c') = 65535" using header_valid[OF c'(2) _ c'(6)] c'(3) lc False by simp
    show ?thesis unfolding if_not_P[OF False]
      by (intro exI[of _ ?f1] exI[of _ c'] exI[of _ b']
          exI[of _ "?s\<lparr>raw_sent := raw_sent s @ [(out_ip s, out_port s, ?f1), (out_ip s, out_port s, c')]\<rparr>"] conjI)
        (fact | simp)+
  qed
qed

lemma sample_sqrkal_sel: "raw_sent sample_sqrkal = []" "out_ip sample_sqrkal = 0"
  by (simp_all add: sample_sqrkal_def sqrkal_start_def srpp.defs)

theorem fragments_reassemble_witness:
  "\<exists>f1 f2 buff' s'. send_fragmented_message ([0x45] @ replicate 1600 7) 1601 (sample_sqrkal\<lparr>out_port := 5\<rparr>) = Some (buff', s')
     \<and> raw_sent s' = [(0, 5, f1), (0, 5, f2)] \<and> ones_sum (take 20 f1) = 65535 \<and> ones_sum (take 20 f2) = 65535
     \<and> drop 20 f1 @ drop 20 f2 = (replicate 1581 7)[6 := 0, 7 := 0, 1486 := 0, 1487 := 0]"
proof -
  have "ip_offset ([0x45] @ replicate 1600 7) = Some 20" by (simp add: ip_offset_def peek_def)
  from fragments_reassemble[OF this, of 1601 "sample_sqrkal\<lparr>out_port := 5\<rparr>"] show ?thesis
    by (auto simp: sample_sqrkal_sel)
qed

end
