(* ===== verification/Sqrkal_Sip.thy ===== *)
theory Sqrkal_Sip
  imports Sqrkal_Packet
begin

text \<open>
  The SIP and SDP parsing of \<open>sqrkal_discovery.cpp\<close>, \<open>parse_sip\<close>, with the operations of \<open>std::string\<close> that it uses, and
  the end of the discovery.

  The positions that \<open>find\<close> returns have 64 bits, and the variables they are stored in have 32; a position that is cut
  in this way never equals \<open>npos\<close>. An index outside a string raises an exception, which nobody catches: \<^const>\<open>None\<close>.
\<close>

section \<open>Strings\<close>

definition npos :: u64 where "npos = - 1"

fun first_at :: "'a list \<Rightarrow> 'a list \<Rightarrow> nat \<Rightarrow> nat option" where
  "first_at pat [] i = None"
| "first_at pat (c # cs) i = (if take (length pat) (c # cs) = pat then Some i else first_at pat cs (Suc i))"

fun first_in :: "u8 list \<Rightarrow> u8 list \<Rightarrow> nat \<Rightarrow> nat option" where
  "first_in set' [] i = None"
| "first_in set' (c # cs) i = (if c \<in> set set' then Some i else first_in set' cs (Suc i))"

definition position :: "nat option \<Rightarrow> u64" where
  "position r = (case r of None \<Rightarrow> npos | Some i \<Rightarrow> of_nat i)"

definition str_find :: "u8 list \<Rightarrow> string \<Rightarrow> nat \<Rightarrow> u64" where
  "str_find str pat pos = position (first_at (ascii pat) (drop pos str) pos)"

definition find_first_of :: "u8 list \<Rightarrow> u8 list \<Rightarrow> nat \<Rightarrow> u64" where
  "find_first_of str cs pos = position (first_in cs (drop pos str) pos)"

definition substr :: "u8 list \<Rightarrow> nat \<Rightarrow> nat \<Rightarrow> u8 list option" where
  "substr str pos n = (if pos > length str then None else Some (take n (drop pos str)))"

definition has :: "u8 list \<Rightarrow> string \<Rightarrow> bool" where
  "has str pat \<longleftrightarrow> str_find str pat 0 \<noteq> npos"

section \<open>The end of the discovery\<close>

type_synonym sq_receiver = "sqrkal \<Rightarrow> (received \<times> sqrkal) option"

definition end_session :: "env \<Rightarrow> sq_receiver \<Rightarrow> sqrkal \<Rightarrow> sqrkal option" where
  "end_session e recv s = (if apply_srpp s = 1 then do { (_, s) \<leftarrow> stop_session e recv s; flush e s } else Some s)"

definition stop_discovering :: "env \<Rightarrow> host \<Rightarrow> sq_receiver \<Rightarrow> sqrkal \<Rightarrow> sqrkal option" where
  "stop_discovering e h recv s = do {
     s \<leftarrow> end_session e recv s;
     Some (snd (add_all_rules h False True (s\<lparr>is_discovering := 0\<rparr>))) }"

section \<open>The parts of a message\<close>

text \<open>The port of the audio line; \<open>m\<close> is the position behind it.\<close>

definition audio_line :: "host \<Rightarrow> u8 list \<Rightarrow> int \<Rightarrow> sqrkal \<Rightarrow> (u32 \<times> sqrkal) option" where
  "audio_line h message direction s =
    (let l = ucast (str_find message ''m=audio '' 0) :: u32 in
     if ucast l \<noteq> npos
     then do {
       let m = ucast (find_first_of message [32] (unat (l + 8)));
       port \<leftarrow> substr message (unat (l + 8)) (unat (m - l - 8));
       Some (m, if direction = 0 then s\<lparr>outport := atoi port\<rparr> else s\<lparr>inport := atoi port\<rparr>) }
     else Some (uninit h, s))"

text \<open>The kind of media; the result is whether the discovery has been stopped.\<close>

definition media_kind :: "env \<Rightarrow> host \<Rightarrow> sq_receiver \<Rightarrow> u8 list \<Rightarrow> int \<Rightarrow> u32 \<Rightarrow> sqrkal \<Rightarrow> (bool \<times> sqrkal) option" where
  "media_kind e h recv message direction m s =
    (if str_find message ''RTP/SAVP '' (unat m) \<noteq> npos \<or> str_find message ''zrtp'' (unat m) \<noteq> npos
     then Some (False, s\<lparr>is_srtp := 1\<rparr>)
     else if str_find message ''RTP/AVP '' (unat m) \<noteq> npos then Some (False, s\<lparr>is_srtp := 0\<rparr>)
     else if str_find message ''SRPP:'' (unat m) \<noteq> npos
     then if direction = 1 then do { s \<leftarrow> stop_discovering e h recv s; Some (True, s) }
       else Some (False, s\<lparr>is_srpp := 1\<rparr>)
     else Some (False, s))"

definition connection_line :: "host \<Rightarrow> u8 list \<Rightarrow> int \<Rightarrow> bool \<Rightarrow> sqrkal \<Rightarrow> sqrkal option" where
  "connection_line h message direction wanted s =
    (let l = ucast (str_find message ''c=IN IP4 '' 0) :: u32 in
     if ucast l \<noteq> npos \<and> wanted
     then do {
       let m = (ucast (find_first_of message [32, 10] (unat (l + 9))) :: u32);
       addr \<leftarrow> substr message (unat (l + 9)) (unat (m - l - 9));
       Some (if direction = 0 then s\<lparr>rtp_dest := inet_addr h addr\<rparr> else s\<lparr>rtp_src := inet_addr h addr\<rparr>) }
     else Some s)"

definition set_destination :: "host \<Rightarrow> u8 list \<Rightarrow> sqrkal \<Rightarrow> sqrkal" where
  "set_destination h hostname s =
    (let s = (if isValidIpAddress h hostname then s\<lparr>out_ip := inet_addr h hostname\<rparr> else resolve_and_set h hostname s)
     in s\<lparr>out_port := htons 5060\<rparr>)"

section \<open>The messages\<close>

text \<open>The counts are written to the file in pairs; \<open>output_packet_sizes[i]\<close> must exist for all of them.\<close>

definition parse_bye :: "env \<Rightarrow> host \<Rightarrow> sq_receiver \<Rightarrow> sqrkal \<Rightarrow> (int \<times> sqrkal) option" where
  "parse_bye e h recv s =
    (if saw_bye_already s = 1 then Some (-1, s)
     else if length (input_packet_sizes s) > length (output_packet_sizes s) then None
     else do {
       let s = s\<lparr>saw_bye_already := 1, sizes_file := zip (input_packet_sizes s) (output_packet_sizes s),
         input_packet_sizes := [], output_packet_sizes := [], is_session_on := 0\<rparr>;
       s \<leftarrow> end_session e recv s;
       (_, s) \<leftarrow> add_all_rtp_rules h False True s;
       Some (0, s\<lparr>sent_count := 0, recv_count := 0, saw_invite_already := 0, saw_bye_already := 0,
         out_ip := last_out_dest s\<rparr>) })"

text \<open>The session starts when an invitation has been answered and acknowledged.\<close>

definition start_media :: "host \<Rightarrow> u8 list \<Rightarrow> int \<Rightarrow> sqrkal \<Rightarrow> sqrkal option" where
  "start_media h message direction s =
    (if is_session_on s = 0 \<and> saw_invite_already s \<noteq> 0
     then do {
       s \<leftarrow> connection_line h message direction (saw_ack s = 0) s;
       let s = s\<lparr>rtp_ports := rtp_ports s @ [inport s, outport s]\<rparr>;
       if (sent_invite s = 0 \<and> saw_ack s = 1) \<or> (sent_invite s = 1 \<and> saw_200ok s = 1 \<and> saw_ack s = 1)
       then do {
         (_, s) \<leftarrow> add_all_rtp_rules h True True s;
         Some (s\<lparr>sent_invite := 0, saw_ack := 0, saw_200ok := 0, saw_invite_already := 0, is_session_on := 1\<rparr>) }
       else Some s }
     else Some s)"

definition parse_answer :: "env \<Rightarrow> host \<Rightarrow> sq_receiver \<Rightarrow> u8 list \<Rightarrow> int \<Rightarrow> sqrkal \<Rightarrow> (int \<times> sqrkal) option" where
  "parse_answer e h recv message direction s = do {
     let s = (if has message ''200 OK''
       then if sent_invite s = 1 \<and> direction = 0 then s\<lparr>saw_200ok := 1\<rparr> else s
       else if saw_invite_already s = 1 \<and> has message ''Route:'' then s\<lparr>saw_ack := 1\<rparr> else s);
     (stopped, s) \<leftarrow> (if has message ''Content-Type: application/sdp''
       then do { (m, s) \<leftarrow> audio_line h message direction s; media_kind e h recv message direction m s }
       else Some (False, s));
     if stopped \<or> inport s = 0 \<or> outport s = 0 then Some (0, s)
     else do {
       s \<leftarrow> start_media h message direction s;
       Some (0, s\<lparr>out_ip := last_out_dest s\<rparr>) } }"

definition parse_invite :: "env \<Rightarrow> host \<Rightarrow> sq_receiver \<Rightarrow> u8 list \<Rightarrow> int \<Rightarrow> sqrkal \<Rightarrow> (int \<times> sqrkal) option" where
  "parse_invite e h recv message direction s = do {
     let s = s\<lparr>saw_invite_already := 1\<rparr>;
     (m, s) \<leftarrow> audio_line h message direction s;
     (stopped, s) \<leftarrow> media_kind e h recv message direction m s;
     if stopped then Some (0, s)
     else do {
       s \<leftarrow> connection_line h message direction True s;
       if direction = 0 then Some (0, s)
       else do {
         let l = (ucast (str_find message ''INVITE sip:'' 0) :: u32);
         let m = (ucast (str_find message ''@'' (unat (l + 11))) :: u32);
         let l = (ucast (str_find message '' '' (unat m)) :: u32);
         name \<leftarrow> substr message (unat (m + 1)) (unat (l - m - 1));
         let s = set_destination h (ascii ''sip.'' @ name) (s\<lparr>sent_invite := 1\<rparr>);
         Some (0, s\<lparr>last_out_dest := out_ip s\<rparr>) } } }"

definition parse_register :: "host \<Rightarrow> u8 list \<Rightarrow> int \<Rightarrow> sqrkal \<Rightarrow> (int \<times> sqrkal) option" where
  "parse_register h message direction s = do {
     let l = (ucast (str_find message ''REGISTER sip:'' 0) :: u32);
     name \<leftarrow> substr message (unat (l + 13)) (unat (str_find message '' '' (unat (l + 13)) - ucast l - 13));
     let s = set_destination h (ascii ''sip.'' @ name) s;
     Some (0, if direction = 1 then s\<lparr>last_out_dest := out_ip s\<rparr> else s) }"

definition parse_subscribe :: "host \<Rightarrow> u8 list \<Rightarrow> int \<Rightarrow> sqrkal \<Rightarrow> (int \<times> sqrkal) option" where
  "parse_subscribe h message direction s = do {
     let l = (ucast (str_find message (if has message ''SUBSCRIBE sip:'' then ''SUBSCRIBE sip:'' else ''PUBLISH sip:'') 0) :: u32);
     let m = (ucast (str_find message ''@'' (unat (l + 14))) :: u32);
     let l = (ucast (find_first_of message [32, 58] (unat m)) :: u32);
     name \<leftarrow> substr message (unat (m + 1)) (unat (l - m - 1));
     let s = set_destination h name s;
     Some (0, if direction = 1 then s\<lparr>last_out_dest := out_ip s\<rparr> else s) }"

definition parse_sip :: "env \<Rightarrow> host \<Rightarrow> sq_receiver \<Rightarrow> u8 list \<Rightarrow> int \<Rightarrow> sqrkal \<Rightarrow> (int \<times> sqrkal) option" where
  "parse_sip e h recv message direction s =
    (if has message ''BYE '' then parse_bye e h recv s
     else if has message ''SIP/2.0 4'' then Some (0, s\<lparr>out_ip := last_out_dest s\<rparr>)
     else if has message ''200 OK'' \<or> has message ''ACK '' then parse_answer e h recv message direction s
     else if has message ''INVITE sip:'' \<and> has message ''Content-Type: application/sdp''
     then parse_invite e h recv message direction s
     else if has message ''REGISTER sip:'' then parse_register h message direction s
     else if has message ''SUBSCRIBE sip:'' \<or> has message ''PUBLISH sip:'' then parse_subscribe h message direction s
     else Some (0, s\<lparr>out_ip := last_out_dest s\<rparr>))"

section \<open>Positions\<close>

lemma length_ascii [simp]: "length (ascii cs) = length cs"
  by (simp add: ascii_def)

lemma first_at_Some:
  "first_at pat str i = Some j \<Longrightarrow> i \<le> j \<and> j + length pat \<le> i + length str \<and> take (length pat) (drop (j - i) str) = pat"
proof (induction pat str i rule: first_at.induct)
  case (2 pat c cs i)
  show ?case
  proof (cases "take (length pat) (c # cs) = pat")
    case True
    then have "length pat \<le> length (c # cs)" by (metis length_take min.cobounded1)
    then show ?thesis using 2(2) True by simp
  next
    case False
    then have "Suc i \<le> j \<and> j + length pat \<le> Suc i + length cs \<and> take (length pat) (drop (j - Suc i) cs) = pat" using 2 by simp
    moreover then have "j - i = Suc (j - Suc i)" by arith
    ultimately show ?thesis by simp
  qed
qed simp

lemma first_at_here: "pat \<noteq> [] \<Longrightarrow> first_at pat (pat @ rest) i = Some i"
  by (cases pat) simp_all

text \<open>An occurrence somewhere is found.\<close>

lemma first_at_found: "pat \<noteq> [] \<Longrightarrow> \<exists>j. first_at pat (pre @ pat @ rest) i = Some j"
proof (induction pre arbitrary: i)
  case Nil
  then show ?case by (simp add: first_at_here)
qed auto

lemma first_at_occurs: "first_at pat str i = Some j \<Longrightarrow> \<exists>pre rest. str = pre @ pat @ rest"
proof -
  assume a: "first_at pat str i = Some j"
  from first_at_Some[OF this] have "take (length pat) (drop (j - i) str) = pat" by blast
  then have "str = take (j - i) str @ pat @ drop (length pat) (drop (j - i) str)" by (metis append_take_drop_id)
  then show ?thesis by blast
qed

lemma first_at_drop:
  assumes "first_at pat (drop n str) k = Some j" "pat \<noteq> []"
  shows "\<exists>j'. first_at pat str i = Some j'"
proof -
  obtain pre rest where "drop n str = pre @ pat @ rest" using first_at_occurs[OF assms(1)] by blast
  then have "str = (take n str @ pre) @ pat @ rest" by (metis append.assoc append_take_drop_id)
  then show ?thesis using first_at_found[OF assms(2), of "take n str @ pre" rest i] by simp
qed

lemma position_npos: "i < 2 ^ 32 \<Longrightarrow> position (Some i) \<noteq> npos"
proof
  assume i: "i < 2 ^ 32" and "position (Some i) = npos"
  then have "unat (of_nat i :: u64) = unat (- 1 :: u64)" by (simp add: position_def npos_def)
  then show False using i by (simp add: unat_of_nat unsigned_minus_1_eq_mask mask_eq_exp_minus_1)
qed

lemma has_iff:
  assumes "length str < 2 ^ 31" "pat \<noteq> []"
  shows "has str pat \<longleftrightarrow> (\<exists>pre rest. str = pre @ ascii pat @ rest)"
proof -
  have p: "ascii pat \<noteq> []" using assms(2) by (simp add: ascii_def)
  show ?thesis
  proof (cases "first_at (ascii pat) str 0")
    case None
    have "str \<noteq> pre @ ascii pat @ rest" for pre rest
      using None first_at_found[OF p, of pre rest 0] by auto
    moreover have "\<not> has str pat" using None by (simp add: has_def str_find_def position_def)
    ultimately show ?thesis by blast
  next
    case (Some j)
    then have "j < 2 ^ 32" using first_at_Some[OF Some] assms(1) by simp
    then have "has str pat" using Some position_npos by (simp add: has_def str_find_def)
    then show ?thesis using first_at_occurs[OF Some] by blast
  qed
qed

text \<open>A position in 32 bits is never \<^const>\<open>npos\<close>.\<close>

lemma never_npos [simp]: "ucast (l :: u32) \<noteq> npos"
proof
  assume "ucast l = npos"
  then have "bit (ucast l :: u64) 63 = bit npos 63" by simp
  then show False by (auto simp: npos_def bit_simps dest: bit_imp_le_length)
qed

lemma ucast_position:
  "(ucast (position None) :: u32) = - 1" "(ucast (position (Some i)) :: u32) = of_nat i"
  by (rule bit_word_eqI, simp add: position_def npos_def bit_simps)+

text \<open>The position behind a pattern is in the string, also when the pattern is not found: then it wraps to a small one.\<close>

lemma behind_pattern:
  assumes "length msg < 2 ^ 31" "length pat < 100" "length pat \<le> length msg + 1" "0 < length pat"
  shows "unat ((ucast (str_find msg pat pos) :: u32) + of_nat (length pat)) \<le> length msg"
proof (cases "first_at (ascii pat) (drop pos msg) pos")
  case None
  obtain k where "length pat = Suc k" using assms(4) by (cases "length pat") auto
  then have "- 1 + of_nat (length pat) = (of_nat (length pat - 1) :: u32)" by simp
  then show ?thesis using None assms(2,3) by (simp add: str_find_def ucast_position unat_of_nat)
next
  case (Some j)
  have "pos \<le> length msg" using Some by (cases "pos \<le> length msg") simp_all
  then have "j + length pat \<le> length msg" using first_at_Some[OF Some] by simp
  then show ?thesis using Some assms(1) by (simp add: str_find_def ucast_position unat_of_nat flip: of_nat_add)
qed

section \<open>Parsing ends\<close>

lemma audio_line_total:
  assumes "7 \<le> length message" "length message < 2 ^ 31"
  shows "\<exists>m p. \<forall>s. audio_line h message direction s = Some (m, if direction = 0 then s\<lparr>outport := p\<rparr> else s\<lparr>inport := p\<rparr>)"
  using behind_pattern[of message "''m=audio ''" 0] assms by (auto simp: audio_line_def substr_def Let_def)

lemma connection_line_total:
  assumes "8 \<le> length message" "length message < 2 ^ 31"
  shows "\<exists>a. connection_line h message direction wanted s = Some (if direction = 0 then s\<lparr>rtp_dest := a\<rparr> else s\<lparr>rtp_src := a\<rparr>)"
proof (cases wanted)
  case True
  then show ?thesis using behind_pattern[of message "''c=IN IP4 ''" 0] assms by (auto simp: connection_line_def substr_def Let_def)
next
  case False
  then show ?thesis by (intro exI[of _ "if direction = 0 then rtp_dest s else rtp_src s"]) (simp add: connection_line_def)
qed

lemma no_later_occurrence:
  assumes "\<not> has message pat" "pat \<noteq> []" "length message < 2 ^ 31"
  shows "str_find message pat pos = npos"
proof (cases "first_at (ascii pat) (drop pos message) pos")
  case (Some j)
  have "ascii pat \<noteq> []" using assms(2) by (simp add: ascii_def)
  with first_at_drop[OF Some this, of 0] obtain j' where j: "first_at (ascii pat) message 0 = Some j'" by blast
  then have "j' < 2 ^ 32" using first_at_Some[OF j] assms(3) by simp
  then show ?thesis using j position_npos assms(1) by (simp add: has_def str_find_def)
qed (simp add: str_find_def position_def)

lemma media_kind_total:
  assumes "\<not> has message ''SRPP:''" "length message < 2 ^ 31"
  shows "\<exists>k. media_kind e h recv message direction m s = Some (False, s\<lparr>is_srtp := k\<rparr>)"
proof -
  let ?k = "if str_find message ''RTP/SAVP '' (unat m) \<noteq> npos \<or> str_find message ''zrtp'' (unat m) \<noteq> npos then 1
     else if str_find message ''RTP/AVP '' (unat m) \<noteq> npos then 0 else is_srtp s"
  have "str_find message ''SRPP:'' (unat m) = npos" using no_later_occurrence[OF assms(1) _ assms(2)] by simp
  then show ?thesis by (intro exI[of _ ?k]) (auto simp: media_kind_def)
qed

lemma behind_at:
  assumes "length message < 2 ^ 31"
  shows "unat ((ucast (str_find message ''@'' pos) :: u32) + 1) \<le> length message"
  using behind_pattern[of message "''@''" pos] assms by simp

lemma start_media_total:
  assumes "8 \<le> length message" "length message < 2 ^ 31"
  shows "(\<exists>t. start_media h message direction s = Some t)
    \<or> is_session_on s = 0 \<and> saw_invite_already s \<noteq> 0 \<and> rtp_added s = 0 \<and> print_overruns h s"
proof -
  obtain a where c: "connection_line h message direction (saw_ack s = 0) s = Some (if direction = 0 then s\<lparr>rtp_dest := a\<rparr> else s\<lparr>rtp_src := a\<rparr>)"
    using connection_line_total[OF assms] by blast
  let ?u = "if direction = 0 then s\<lparr>rtp_dest := a\<rparr> else s\<lparr>rtp_src := a\<rparr>"
  let ?v = "?u\<lparr>rtp_ports := rtp_ports ?u @ [inport ?u, outport ?u]\<rparr>"
  have v: "print_overruns h ?v = print_overruns h s" "rtp_added ?v = rtp_added s" by (simp_all add: print_overruns_def)
  show ?thesis
  proof (cases "add_all_rtp_rules h True True ?v")
    case None
    then have "rtp_added s = 0" "print_overruns h s" using v by (simp_all add: add_all_rtp_rules_None)
    then show ?thesis by (auto simp: start_media_def)
  next
    case (Some r)
    then show ?thesis unfolding start_media_def c by (cases r) (simp add: Let_def)
  qed
qed

lemma parse_answer_total:
  assumes "8 \<le> length message" "length message < 2 ^ 31" "\<not> has message ''SRPP:''"
  shows "(\<exists>s'. parse_answer e h recv message direction s = Some (0, s'))
    \<or> is_session_on s = 0 \<and> saw_invite_already s \<noteq> 0 \<and> rtp_added s = 0
      \<and> (print_overruns h s \<or> (\<exists>m t. audio_line h message direction s = Some (m, t) \<and> print_overruns h t))"
proof -
  define s1 where "s1 = (if has message ''200 OK''
       then if sent_invite s = 1 \<and> direction = 0 then s\<lparr>saw_200ok := 1\<rparr> else s
       else if saw_invite_already s = 1 \<and> has message ''Route:'' then s\<lparr>saw_ack := 1\<rparr> else s)"
  have s1: "inport s1 = inport s" "srpp_ttl s1 = srpp_ttl s" "is_session_on s1 = is_session_on s" "rtp_added s1 = rtp_added s"
    "saw_invite_already s1 = saw_invite_already s" by (simp_all add: s1_def)
  obtain m p where a: "\<And>s. audio_line h message direction s = Some (m, if direction = 0 then s\<lparr>outport := p\<rparr> else s\<lparr>inport := p\<rparr>)"
    using audio_line_total[of message h direction] assms by auto
  let ?d = "has message ''Content-Type: application/sdp''" let ?t = "\<lambda>s. if direction = 0 then s\<lparr>outport := p\<rparr> else s\<lparr>inport := p\<rparr> :: sqrkal"
  obtain k where k: "media_kind e h recv message direction m (?t s1) = Some (False, (?t s1)\<lparr>is_srtp := k\<rparr>)"
    using media_kind_total[OF assms(3,2)] by blast
  define s2 where "s2 = (if ?d then (?t s1)\<lparr>is_srtp := k\<rparr> else s1)"
  have s2: "(if ?d then do { (m, s) \<leftarrow> audio_line h message direction s1; media_kind e h recv message direction m s }
       else Some (False, s1)) = Some (False, s2)" using a k by (simp add: s2_def)
  have f: "is_session_on s2 = is_session_on s" "rtp_added s2 = rtp_added s" "saw_invite_already s2 = saw_invite_already s"
    "print_overruns h s2 \<longleftrightarrow> print_overruns h (if ?d then ?t s else s)"
    by (simp_all add: s2_def s1 print_overruns_def)
  have "parse_answer e h recv message direction s = (if inport s2 = 0 \<or> outport s2 = 0 then Some (0, s2)
      else do { s \<leftarrow> start_media h message direction s2; Some (0, s\<lparr>out_ip := last_out_dest s\<rparr>) })"
    unfolding parse_answer_def Let_def s1_def[symmetric] s2 by simp
  then show ?thesis using start_media_total[OF assms(1,2), of h direction s2] a[of s] f by (cases ?d) auto
qed

lemma parse_invite_total:
  assumes "8 \<le> length message" "length message < 2 ^ 31" "\<not> has message ''SRPP:''"
  shows "\<exists>s'. parse_invite e h recv message direction s = Some (0, s')"
proof -
  let ?s = "s\<lparr>saw_invite_already := 1\<rparr>"
  obtain m s1 where a: "audio_line h message direction ?s = Some (m, s1)"
    using audio_line_total[of message h direction] assms by auto
  obtain k where k: "media_kind e h recv message direction m s1 = Some (False, s1\<lparr>is_srtp := k\<rparr>)"
    using media_kind_total[OF assms(3,2)] by blast
  obtain s2 where "connection_line h message direction True (s1\<lparr>is_srtp := k\<rparr>) = Some s2"
    using connection_line_total[OF assms(1,2), of h direction True "s1\<lparr>is_srtp := k\<rparr>"] by blast
  then show ?thesis using a k behind_at[OF assms(2), THEN leD] by (auto simp: parse_invite_def substr_def Let_def)
qed

text \<open>C15. The parser raises no exception on any message of 8 octets or more that does not end a session in which SRPP applies and
  does not speak of SRPP itself, whatever else it contains and in every state, although it does not notice when the text
  it looks for is missing. There is one other way for it to fail, and only when it adds or removes the rules of the media,
  on a message that ends a call or one that can open it: printing the incoming port, the one of the call or the one that the
  message gives, or the ttl into an array that is too small for it. All other messages are always parsed.\<close>

theorem parse_sip_total:
  assumes "8 \<le> length message" "length message < 2 ^ 31" "\<not> has message ''SRPP:''"
    and "has message ''BYE '' \<longrightarrow> apply_srpp s \<noteq> 1 \<and> length (input_packet_sizes s) \<le> length (output_packet_sizes s)"
  shows "(\<exists>r s'. parse_sip e h recv message direction s = Some (r, s') \<and> (r = 0 \<or> has message ''BYE '' \<and> saw_bye_already s = 1))
    \<or> has message ''BYE '' \<and> print_overruns h s
    \<or> (has message ''200 OK'' \<or> has message ''ACK '') \<and> is_session_on s = 0 \<and> saw_invite_already s \<noteq> 0 \<and> rtp_added s = 0
      \<and> (print_overruns h s \<or> (\<exists>m t. audio_line h message direction s = Some (m, t) \<and> print_overruns h t))"
proof -
  have bye: "(\<exists>r s'. parse_bye e h recv s = Some (r, s') \<and> (r = 0 \<or> saw_bye_already s = 1)) \<or> print_overruns h s"
    if "has message ''BYE ''"
  proof -
    let ?t = "s\<lparr>saw_bye_already := 1, sizes_file := zip (input_packet_sizes s) (output_packet_sizes s),
         input_packet_sizes := [], output_packet_sizes := [], is_session_on := 0\<rparr>"
    have "print_overruns h ?t = print_overruns h s" by (simp add: print_overruns_def)
    then have "print_overruns h s \<or> (\<exists>r t. add_all_rtp_rules h False True ?t = Some (r, t))"
      using add_all_rtp_rules_None[of h False True ?t] by (cases "add_all_rtp_rules h False True ?t") auto
    then show ?thesis using assms(4) that by (auto simp: parse_bye_def end_session_def Let_def)
  qed
  have reg: "\<exists>s'. parse_register h message direction s = Some (0, s')" if "has message ''REGISTER sip:''"
  proof -
    have "length ''REGISTER sip:'' \<le> length message" using that has_iff[OF assms(2)] by auto
    then show ?thesis using behind_pattern[of message "''REGISTER sip:''" 0] assms(2) by (simp add: parse_register_def substr_def Let_def)
  qed
  have sub: "\<exists>s'. parse_subscribe h message direction s = Some (0, s')"
    using behind_at[OF assms(2), THEN leD] by (simp add: parse_subscribe_def substr_def Let_def)
  show ?thesis unfolding parse_sip_def
    using bye reg sub parse_answer_total[OF assms(1-3), of e h recv direction s] parse_invite_total[OF assms(1-3), of e h recv direction s]
    by auto
qed

section \<open>Setting up a call\<close>

text \<open>The message has an audio line, and the first one gives this port.\<close>

definition sdp_port :: "u8 list \<Rightarrow> nat \<Rightarrow> bool" where
  "sdp_port msg port \<longleftrightarrow> (\<exists>pre rest. msg = pre @ ascii ''m=audio '' @ nat_digits port @ 32 # rest
     \<and> first_at (ascii ''m=audio '') msg 0 = Some (length pre))"

lemma first_in_skip: "\<forall>c \<in> set a. c \<notin> set cs \<Longrightarrow> c0 \<in> set cs \<Longrightarrow> first_in cs (a @ c0 # rest) i = Some (i + length a)"
  by (induction a arbitrary: i) auto

definition with_port :: "int \<Rightarrow> int \<Rightarrow> sqrkal \<Rightarrow> sqrkal" where
  "with_port direction p s = (if direction = 0 then s\<lparr>outport := p\<rparr> else s\<lparr>inport := p\<rparr>)"

lemma audio_line_port:
  assumes "sdp_port msg port" "port < 2 ^ 31" "length msg < 2 ^ 31"
  shows "\<exists>m. audio_line h msg direction s = Some (m, with_port direction (int port) s)"
proof -
  obtain pre rest where msg: "msg = pre @ ascii ''m=audio '' @ nat_digits port @ 32 # rest"
    and l: "first_at (ascii ''m=audio '') msg 0 = Some (length pre)" using assms(1) by (auto simp: sdp_port_def)
  let ?p = "length pre + 8" and ?n = "length (nat_digits port)"
  have d: "drop ?p msg = nat_digits port @ 32 # rest" by (simp add: msg)
  have "\<forall>c \<in> set (nat_digits port). c \<notin> set [32]"
  proof
    fix c assume "c \<in> set (nat_digits port)"
    then have "\<not> is_space c" using nat_digits_digit digit_not by blast
    then show "c \<notin> set [32]" by (auto simp: is_space_def)
  qed
  then have f: "find_first_of msg [32] ?p = of_nat (?p + ?n)"
    using first_in_skip[of "nat_digits port" "[32]" 32 rest ?p] d by (simp add: find_first_of_def position_def)
  have small: "?p + ?n < 2 ^ 31" using assms(3) by (simp add: msg)
  have "of_nat (length pre) + 8 = (of_nat ?p :: u32)" by simp
  moreover have "unat (of_nat ?p :: u32) = ?p" using small by (subst unat_of_nat) simp
  ultimately have u: "unat (of_nat (length pre) + 8 :: u32) = ?p" by simp
  have c: "ucast (of_nat (?p + ?n) :: u64) = (of_nat (?p + ?n) :: u32)" using ucast_position(2)[of "?p + ?n"] by (simp add: position_def)
  have "(of_nat (?p + ?n) :: u32) - of_nat (length pre) - 8 = of_nat ?n" by simp
  moreover have "unat (of_nat ?n :: u32) = ?n" using small by (subst unat_of_nat) simp
  ultimately have n: "unat ((of_nat (?p + ?n) :: u32) - of_nat (length pre) - 8) = ?n" by simp
  have s: "substr msg ?p ?n = Some (nat_digits port)" using d by (simp add: substr_def) (simp add: msg)
  have a: "atoi (nat_digits port) = int port" using atoi_nat_digits[OF assms(2), of "[]"] by simp
  show ?thesis
    unfolding audio_line_def with_port_def
    by (simp only: Let_def str_find_def drop_0 l ucast_position never_npos not_False_eq_True if_True u f c n s a bind.bind_lunit simp_thms)
      simp
qed

text \<open>The three messages of a call, as the parser tells them apart.\<close>

definition sdp_text :: string where "sdp_text = ''Content-Type: application/sdp''"

definition other_kind :: "u8 list \<Rightarrow> bool" where
  "other_kind msg \<longleftrightarrow> has msg ''BYE '' \<or> has msg ''SIP/2.0 4'' \<or> has msg ''SRPP:''"

definition is_invite :: "u8 list \<Rightarrow> bool" where
  "is_invite msg \<longleftrightarrow> has msg ''INVITE sip:'' \<and> has msg sdp_text \<and> \<not> has msg ''200 OK'' \<and> \<not> has msg ''ACK '' \<and> \<not> other_kind msg"

definition is_ok :: "u8 list \<Rightarrow> bool" where
  "is_ok msg \<longleftrightarrow> has msg ''200 OK'' \<and> has msg sdp_text \<and> \<not> other_kind msg"

definition is_ack :: "u8 list \<Rightarrow> bool" where
  "is_ack msg \<longleftrightarrow> has msg ''ACK '' \<and> has msg ''Route:'' \<and> \<not> has msg ''200 OK'' \<and> \<not> has msg sdp_text \<and> \<not> other_kind msg"

text \<open>What the state says about a call.\<close>

definition call_view where
  "call_view s = ((saw_invite_already s, sent_invite s, saw_200ok s, saw_ack s, is_session_on s), (inport s, outport s),
     (rtp_added s, srpp_ttl s, commands s), rtp_ports s)"

lemma call_view_other [simp]:
  "call_view (s\<lparr>is_srtp := k\<rparr>) = call_view s" "call_view (s\<lparr>rtp_dest := a\<rparr>) = call_view s" "call_view (s\<lparr>rtp_src := a\<rparr>) = call_view s"
  "call_view (s\<lparr>out_ip := a\<rparr>) = call_view s" "call_view (s\<lparr>out_port := q\<rparr>) = call_view s" "call_view (s\<lparr>last_out_dest := a\<rparr>) = call_view s"
  "call_view (resolve_and_set h name s) = call_view s" "call_view (set_destination h name s) = call_view s"
  by (simp_all add: call_view_def resolve_and_set_def set_destination_def Let_def split: option.split)

lemma sdp_port_length: "sdp_port msg p \<Longrightarrow> 8 \<le> length msg"
  by (auto simp: sdp_port_def)

text \<open>The description of the media in a message.\<close>

lemma description_read:
  assumes "sdp_port msg p" "p < 2 ^ 31" "length msg < 2 ^ 31" "\<not> other_kind msg"
  obtains k where "do { (m, s) \<leftarrow> audio_line h msg direction s; media_kind e h recv msg direction m s }
      = Some (False, (with_port direction (int p) s)\<lparr>is_srtp := k\<rparr>)"
proof -
  obtain m where m: "audio_line h msg direction s = Some (m, with_port direction (int p) s)"
    using audio_line_port[OF assms(1-3)] by blast
  have "\<not> has msg ''SRPP:''" using assms(4) by (simp add: other_kind_def)
  from media_kind_total[OF this assms(3)] obtain k where
    "media_kind e h recv msg direction m (with_port direction (int p) s) = Some (False, (with_port direction (int p) s)\<lparr>is_srtp := k\<rparr>)" by blast
  then show ?thesis using that m by simp
qed

lemma connection_line_view:
  assumes "8 \<le> length msg" "length msg < 2 ^ 31"
  obtains t where "connection_line h msg direction wanted s = Some t" "call_view t = call_view s"
  using connection_line_total[OF assms, of h direction wanted s] by (cases "direction = 0") auto

lemma invite_parsed:
  assumes "is_invite msg" "sdp_port msg p" "p < 2 ^ 31" "length msg < 2 ^ 31"
  obtains t where "parse_sip e h recv msg direction s = Some (0, t)"
    "call_view t = call_view ((with_port direction (int p) s)\<lparr>saw_invite_already := 1, sent_invite := if direction = 0 then sent_invite s else 1\<rparr>)"
proof -
  let ?s = "s\<lparr>saw_invite_already := 1\<rparr>"
  have o: "\<not> other_kind msg" using assms(1) by (simp add: is_invite_def)
  obtain k where k: "do { (m, s) \<leftarrow> audio_line h msg direction ?s; media_kind e h recv msg direction m s }
      = Some (False, (with_port direction (int p) ?s)\<lparr>is_srtp := k\<rparr>)" by (rule description_read[OF assms(2-4) o])
  obtain t where t: "connection_line h msg direction True ((with_port direction (int p) ?s)\<lparr>is_srtp := k\<rparr>) = Some t"
    "call_view t = call_view (with_port direction (int p) ?s)"
    using connection_line_view[OF sdp_port_length[OF assms(2)] assms(4)] by (metis call_view_other(1))
  from k obtain m s1 where m: "audio_line h msg direction ?s = Some (m, s1)"
    "media_kind e h recv msg direction m s1 = Some (False, (with_port direction (int p) ?s)\<lparr>is_srtp := k\<rparr>)"
    by (auto split: bind_splits)
  have sip: "parse_sip e h recv msg direction s = parse_invite e h recv msg direction s"
    using assms(1) by (simp add: parse_sip_def is_invite_def sdp_text_def other_kind_def)
  show ?thesis
  proof (cases "direction = 0")
    case True
    then have "parse_sip e h recv msg direction s = Some (0, t)" unfolding sip parse_invite_def using m t(1) by simp
    then show ?thesis using that t(2) True by (simp add: call_view_def with_port_def)
  next
    case False
    define m2 where "m2 = (ucast (str_find msg ''@'' (unat ((ucast (str_find msg ''INVITE sip:'' 0) :: u32) + 11))) :: u32)"
    define l2 where "l2 = (ucast (str_find msg '' '' (unat m2)) :: u32)"
    have "unat (m2 + 1) \<le> length msg" unfolding m2_def by (rule behind_at[OF assms(4)])
    then obtain name where n: "substr msg (unat (m2 + 1)) (unat (l2 - m2 - 1)) = Some name" by (simp add: substr_def)
    let ?t = "set_destination h (ascii ''sip.'' @ name) (t\<lparr>sent_invite := 1\<rparr>)"
    have "parse_sip e h recv msg direction s = Some (0, ?t\<lparr>last_out_dest := out_ip ?t\<rparr>)"
      unfolding sip parse_invite_def using False by (simp add: Let_def m t(1) n flip: m2_def l2_def)
    moreover have "call_view (t\<lparr>sent_invite := 1\<rparr>) = call_view ((with_port direction (int p) s)\<lparr>saw_invite_already := 1, sent_invite := 1\<rparr>)"
      using t(2) by (simp add: call_view_def with_port_def)
    ultimately show ?thesis using that[of "?t\<lparr>last_out_dest := out_ip ?t\<rparr>"] False by simp
  qed
qed

lemma parse_sip_answer:
  assumes "is_ok msg \<or> is_ack msg"
  shows "parse_sip e h recv msg direction s = parse_answer e h recv msg direction s"
  using assms by (auto simp: parse_sip_def is_ok_def is_ack_def other_kind_def)

text \<open>The answer to the invitation gives the other port; there is no acknowledgement yet.\<close>

lemma ok_parsed:
  assumes "is_ok msg" "sdp_port msg p" "0 < p" "p < 2 ^ 31" "length msg < 2 ^ 31"
    and "is_session_on s = 0" "saw_invite_already s = 1" "saw_ack s = 0" "if direction = 0 then inport s \<noteq> 0 else outport s \<noteq> 0"
  obtains t where "parse_sip e h recv msg direction s = Some (0, t)"
    "call_view t = call_view ((with_port direction (int p) s)\<lparr>saw_200ok := if sent_invite s = 1 \<and> direction = 0 then 1 else saw_200ok s,
       rtp_ports := rtp_ports s @ (if direction = 0 then [inport s, int p] else [int p, outport s])\<rparr>)"
proof -
  have o: "\<not> other_kind msg" "has msg ''200 OK''" "has msg ''Content-Type: application/sdp''" using assms(1) by (simp_all add: is_ok_def sdp_text_def)
  define s1 where "s1 = (if sent_invite s = 1 \<and> direction = 0 then s\<lparr>saw_200ok := 1\<rparr> else s)"
  obtain k where k: "do { (m, s) \<leftarrow> audio_line h msg direction s1; media_kind e h recv msg direction m s }
      = Some (False, (with_port direction (int p) s1)\<lparr>is_srtp := k\<rparr>)" by (rule description_read[OF assms(2,4,5) o(1)])
  let ?s = "(with_port direction (int p) s1)\<lparr>is_srtp := k\<rparr>"
  have v: "is_session_on ?s = 0" "saw_invite_already ?s \<noteq> 0" "saw_ack ?s = 0" "inport ?s \<noteq> 0" "outport ?s \<noteq> 0"
    using assms(3,6-9) by (auto simp: s1_def with_port_def split: if_splits)
  obtain t where t: "connection_line h msg direction True ?s = Some t" "call_view t = call_view ?s"
    by (rule connection_line_view[OF sdp_port_length[OF assms(2)] assms(5)])
  have w: "saw_ack t = 0" "inport t = inport ?s" "outport t = outport ?s" "rtp_ports t = rtp_ports ?s" using t(2) v by (simp_all add: call_view_def)
  have "start_media h msg direction ?s = Some (t\<lparr>rtp_ports := rtp_ports t @ [inport t, outport t]\<rparr>)"
    unfolding start_media_def using v t(1) w(1) by simp
  then have "parse_sip e h recv msg direction s = Some (0, t\<lparr>rtp_ports := rtp_ports t @ [inport t, outport t], out_ip := last_out_dest t\<rparr>)"
    unfolding parse_sip_answer[OF disjI1, OF assms(1)] parse_answer_def Let_def if_P[OF o(2)] if_P[OF o(3)] s1_def[symmetric] k
    using v by simp
  moreover have "call_view (t\<lparr>rtp_ports := rtp_ports t @ [inport t, outport t]\<rparr>) = call_view ((with_port direction (int p) s)
      \<lparr>saw_200ok := if sent_invite s = 1 \<and> direction = 0 then 1 else saw_200ok s,
       rtp_ports := rtp_ports s @ (if direction = 0 then [inport s, int p] else [int p, outport s])\<rparr>)"
    using t(2) by (auto simp: call_view_def s1_def with_port_def)
  ultimately show ?thesis using that by simp
qed

text \<open>The command that sends the packets of the media in one direction to the program.\<close>

definition media_rule :: "string \<Rightarrow> string \<Rightarrow> sqrkal \<Rightarrow> u8 list" where
  "media_rule chain port s = ascii ''iptables '' @ ascii chain @ ascii ''udp'' @ ascii port @ int_digits (inport s)
     @ ascii '' -m ttl ! --ttl-eq '' @ int_digits (srpp_ttl s) @ ascii '' -j QUEUE''"

text \<open>The acknowledgement opens the session, when the own invitation has been answered or the other one has been received.\<close>

lemma ack_parsed:
  assumes "is_ack msg" "8 \<le> length msg" "length msg < 2 ^ 31" "\<forall>cs. system_status h cs = 0"
    and "is_session_on s = 0" "saw_invite_already s = 1" "rtp_added s = 0" "inport s \<noteq> 0" "outport s \<noteq> 0"
    and "sent_invite s = 0 \<or> sent_invite s = 1 \<and> saw_200ok s = 1" "\<not> print_overruns h s"
  obtains t where "parse_sip e h recv msg direction s = Some (0, t)" "is_session_on t = 1" "inport t = inport s" "outport t = outport s"
    "saw_invite_already t = 0" "sent_invite t = 0" "saw_ack t = 0" "saw_200ok t = 0" "rtp_added t = 1"
    "rtp_ports t = rtp_ports s @ [inport s, outport s]"
    "commands t = commands s @ [media_rule ''-A INPUT -p '' '' --destination-port '' s, media_rule ''-A OUTPUT -p '' '' --source-port '' s]"
proof -
  have o: "\<not> has msg ''200 OK''" "has msg ''Route:''" "\<not> has msg ''Content-Type: application/sdp''"
    using assms(1) by (simp_all add: is_ack_def sdp_text_def)
  let ?s = "s\<lparr>saw_ack := 1\<rparr>"
  let ?v = "?s\<lparr>rtp_ports := rtp_ports s @ [inport s, outport s]\<rparr>"
  let ?rule = "\<lambda>chain port. media_rule chain port s"
  obtain u where u: "add_all_rtp_rules h True True ?v = Some (0, u)"
    "u = ?v\<lparr>srpp_ttl_s := int_digits (srpp_ttl s), rtp_added := 1,
      commands := commands s @ [?rule ''-A INPUT -p '' '' --destination-port '', ?rule ''-A OUTPUT -p '' '' --source-port '']\<rparr>"
    using assms(4,7,11) by (auto simp: print_overruns_def sprintf_int_def add_all_rtp_rules_def add_both_def add_firewall_rule_def
        media_rule_def queue_rule_def Let_def split: if_splits)
  let ?u = "u\<lparr>sent_invite := 0, saw_ack := 0, saw_200ok := 0, saw_invite_already := 0, is_session_on := 1\<rparr>"
  have "connection_line h msg direction False ?s = Some ?s" by (simp add: connection_line_def)
  then have m: "start_media h msg direction ?s = Some ?u"
    unfolding start_media_def using assms(5,6,10) u(1) by auto
  have p: "parse_sip e h recv msg direction s = Some (0, ?u\<lparr>out_ip := last_out_dest ?u\<rparr>)"
    unfolding parse_sip_answer[OF disjI2, OF assms(1)] parse_answer_def Let_def if_not_P[OF o(1)] if_not_P[OF o(3)] bind.bind_lunit prod.case
    using o(2) assms(6,8,9) m by simp
  show ?thesis by (rule that[OF p]) (simp_all add: u(2))
qed

text \<open>The acknowledgement ends the program when the numbers for the rules do not fit into their arrays.\<close>

lemma ack_overruns:
  assumes "is_ack msg" "is_session_on s = 0" "saw_invite_already s = 1" "rtp_added s = 0" "inport s \<noteq> 0" "outport s \<noteq> 0"
    and "sent_invite s = 0 \<or> sent_invite s = 1 \<and> saw_200ok s = 1" "print_overruns h s"
  shows "parse_sip e h recv msg direction s = None"
proof -
  have o: "\<not> has msg ''200 OK''" "has msg ''Route:''" "\<not> has msg ''Content-Type: application/sdp''"
    using assms(1) by (simp_all add: is_ack_def sdp_text_def)
  let ?s = "s\<lparr>saw_ack := 1\<rparr>"
  have "print_overruns h (?s\<lparr>rtp_ports := ps\<rparr>)" for ps using assms(8) by (simp add: print_overruns_def)
  then have "add_all_rtp_rules h True True (?s\<lparr>rtp_ports := ps\<rparr>) = None" for ps using assms(4) by (simp add: add_all_rtp_rules_None)
  moreover have "connection_line h msg direction False ?s = Some ?s" by (simp add: connection_line_def)
  ultimately have "start_media h msg direction ?s = None" unfolding start_media_def using assms(2,3,7) by auto
  then show ?thesis
    unfolding parse_sip_answer[OF disjI2, OF assms(1)] parse_answer_def Let_def if_not_P[OF o(1)] if_not_P[OF o(3)] bind.bind_lunit prod.case
    using o(2) assms(3,5,6) by simp
qed

text \<open>A search in a text is one among its characters.\<close>

lemma inj_octet: "(of_nat (of_char c) :: u8) = of_nat (of_char d) \<longleftrightarrow> c = d"
proof -
  have b: "of_char (c :: char) < (256 :: nat)" for c by simp
  have "unat (of_nat (of_char c) :: u8) = of_char c" for c
    using b[of c] by (simp add: unat_of_nat)
  then show ?thesis by (metis of_char_eq_iff)
qed

lemma inj_ascii: "ascii a = ascii b \<longleftrightarrow> a = b"
proof -
  have "inj (\<lambda>c. of_nat (of_char c) :: u8)" by (rule injI) (simp add: inj_octet)
  then show ?thesis unfolding ascii_def by (simp add: inj_map_eq_map)
qed

lemma first_at_ascii: "first_at (ascii pat) (ascii str) i = first_at pat str i"
proof (induction pat str i rule: first_at.induct)
  case (2 pat c cs i)
  have "take (length pat) (ascii (c # cs)) = ascii pat \<longleftrightarrow> take (length pat) (c # cs) = pat"
    using inj_ascii[of "take (length pat) (c # cs)" pat] unfolding ascii_def take_map .
  then show ?case using 2 by (simp add: ascii_def)
qed (simp add: ascii_def)

fun starts :: "'a list \<Rightarrow> 'a list \<Rightarrow> bool" where
  "starts [] str = True"
| "starts (p # ps) (c # cs) = (p = c \<and> starts ps cs)"
| "starts (p # ps) [] = False"

lemma starts_take: "take (length pat) str = pat \<longleftrightarrow> starts pat str"
  by (induction pat str rule: starts.induct) auto

lemma starts_append: "length pat \<le> length a \<Longrightarrow> starts pat (a @ b) = starts pat a"
  by (induction pat a rule: starts.induct) auto

fun occurs :: "'a list \<Rightarrow> 'a list \<Rightarrow> bool" where
  "occurs pat [] = False"
| "occurs pat (c # cs) = (starts pat (c # cs) \<or> occurs pat cs)"

lemma first_at_occurs_iff: "first_at pat str i = None \<longleftrightarrow> \<not> occurs pat str"
  by (induction pat str i rule: first_at.induct) (simp_all add: starts_take del: starts.simps)

text \<open>The first occurrence is at a place before which there is none.\<close>

lemma first_at_first:
  "pat \<noteq> [] \<Longrightarrow> \<not> occurs pat (pre @ butlast pat) \<Longrightarrow> first_at pat (pre @ pat @ rest) i = Some (i + length pre)"
proof (induction pre arbitrary: i)
  case Nil
  then show ?case by (simp add: first_at_here)
next
  case (Cons c pre)
  have "pat = butlast pat @ [last pat]" using Cons(2) by simp
  then have "starts pat ((c # pre) @ pat @ rest) = starts pat ((c # pre @ butlast pat) @ last pat # rest)" by (metis append.assoc append_Cons append_Nil)
  also have "\<dots> = starts pat (c # pre @ butlast pat)" by (rule starts_append) simp
  finally have "\<not> starts pat (c # pre @ pat @ rest)" using Cons(3) by simp
  then show ?case using Cons by (simp add: starts_take)
qed

lemma has_ascii:
  assumes "length str < 2 ^ 31"
  shows "has (ascii str) pat \<longleftrightarrow> occurs pat str"
proof (cases "first_at pat str 0")
  case None
  then show ?thesis using first_at_occurs_iff[of pat str 0] by (simp add: has_def str_find_def first_at_ascii position_def)
next
  case (Some j)
  then have "j < 2 ^ 32" using first_at_Some[OF Some] assms by simp
  then show ?thesis using Some position_npos first_at_occurs_iff[of pat str 0] by (simp add: has_def str_find_def first_at_ascii)
qed

definition sample_invite :: string where
  "sample_invite = ''INVITE sip:b@h SIP/2.0 Content-Type: application/sdp c=IN IP4 1.1.1.1 m=audio 4000 RTP/AVP 0''"

definition sample_ok :: string where
  "sample_ok = ''SIP/2.0 200 OK Content-Type: application/sdp c=IN IP4 1.1.1.2 m=audio 6000 RTP/AVP 0''"

definition sample_ack :: string where "sample_ack = ''ACK sip:b@h SIP/2.0 Route: x''"

definition sample_host :: host where
  "sample_host = \<lparr>system_status = \<lambda>_. 0, local_addrs = [0x0100007f], inet_addr = \<lambda>_. 7, inet_pton = \<lambda>_. 1,
     gethostbyname = \<lambda>_. None, uninit = 0, ttl_room = 4\<rparr>"

lemma sample_messages:
  "is_invite (ascii sample_invite)" "is_ok (ascii sample_ok)" "is_ack (ascii sample_ack)"
  by (simp_all add: is_invite_def is_ok_def is_ack_def other_kind_def sdp_text_def sample_invite_def sample_ok_def sample_ack_def
      has_ascii)

lemma sample_digits: "nat_digits 4000 = ascii ''4000''" "nat_digits 6000 = ascii ''6000''"
  by (simp_all add: nat_digits.simps ascii_def)

lemma sdp_port_text:
  assumes "\<not> occurs ''m=audio '' (pre @ ''m=audio'')" "ascii digits = nat_digits port"
  shows "sdp_port (ascii (pre @ ''m=audio '' @ digits @ '' '' @ rest)) port"
proof -
  have a: "ascii (x @ y) = ascii x @ ascii y" for x y by (simp add: ascii_def)
  have "first_at ''m=audio '' (pre @ ''m=audio '' @ digits @ '' '' @ rest) 0 = Some (length pre)"
    using first_at_first[of "''m=audio ''" pre "digits @ '' '' @ rest" 0] assms(1) by simp
  then have "first_at (ascii ''m=audio '') (ascii (pre @ ''m=audio '' @ digits @ '' '' @ rest)) 0 = Some (length (ascii pre))"
    unfolding first_at_ascii length_ascii .
  moreover have "ascii (pre @ ''m=audio '' @ digits @ '' '' @ rest) = ascii pre @ ascii ''m=audio '' @ nat_digits port @ 32 # ascii rest"
    unfolding a assms(2) by (simp add: ascii_def)
  ultimately show ?thesis unfolding sdp_port_def by blast
qed

lemma sample_ports: "sdp_port (ascii sample_invite) 4000" "sdp_port (ascii sample_ok) 6000"
  using sdp_port_text[of "''INVITE sip:b@h SIP/2.0 Content-Type: application/sdp c=IN IP4 1.1.1.1 ''" "''4000''" 4000 "''RTP/AVP 0''"]
    sdp_port_text[of "''SIP/2.0 200 OK Content-Type: application/sdp c=IN IP4 1.1.1.2 ''" "''6000''" 6000 "''RTP/AVP 0''"]
  by (simp_all add: sample_digits sample_invite_def sample_ok_def)

text \<open>C8. A call is set up: after an invitation in one direction, its answer in the other and the acknowledgement, and only
  then, the session is on, for the caller and for the one who is called; the port of the own description is the one
  packets come in at, that of the other description the one they go to, and the two rules that redirect the packets
  of the incoming port have been given to the firewall. This is so when the shell reports no error and the two numbers of
  the rules fit into their arrays: an incoming port of seven digits or more, or a ttl too long for the room of
  \<open>srpp_ttl_s\<close>, overruns an array when the acknowledgement comes.\<close>

theorem call_established:
  assumes "is_invite invi" "sdp_port invi p" "0 < p" "p < 2 ^ 31" "length invi < 2 ^ 31"
    and "is_ok answer" "sdp_port answer q" "0 < q" "q < 2 ^ 31" "length answer < 2 ^ 31"
    and "is_ack ack" "8 \<le> length ack" "length ack < 2 ^ 31"
    and "d = 0 \<or> d = 1" "\<forall>cs. system_status h cs = 0"
    and "is_session_on s = 0" "sent_invite s = 0" "saw_ack s = 0" "rtp_added s = 0"
  shows "\<exists>s1 s2. parse_sip e h recv invi d s = Some (0, s1) \<and> parse_sip e h recv answer (1 - d) s1 = Some (0, s2)
    \<and> is_session_on s1 = 0 \<and> is_session_on s2 = 0 \<and> inport s2 = int (if d = 1 then p else q) \<and> outport s2 = int (if d = 1 then q else p)
    \<and> srpp_ttl s2 = srpp_ttl s
    \<and> (if (if d = 1 then p else q) \<ge> 1000000 \<or> ttl_room h \<le> length (int_digits (srpp_ttl s))
       then parse_sip e h recv ack d s2 = None
       else \<exists>t. parse_sip e h recv ack d s2 = Some (0, t) \<and> is_session_on t = 1 \<and> inport t = inport s2 \<and> outport t = outport s2
         \<and> {int p, int q} \<subseteq> set (rtp_ports t) \<and> rtp_added t = 1
         \<and> commands t = commands s @ [media_rule ''-A INPUT -p '' '' --destination-port '' s2,
              media_rule ''-A OUTPUT -p '' '' --source-port '' s2])"
proof -
  obtain s1 where s1: "parse_sip e h recv invi d s = Some (0, s1)"
    "call_view s1 = call_view ((with_port d (int p) s)\<lparr>saw_invite_already := 1, sent_invite := if d = 0 then sent_invite s else 1\<rparr>)"
    by (rule invite_parsed[OF assms(1,2,4,5)])
  have v1: "is_session_on s1 = 0" "saw_invite_already s1 = 1" "saw_ack s1 = 0" "sent_invite s1 = d" "commands s1 = commands s"
    "srpp_ttl s1 = srpp_ttl s" "rtp_added s1 = 0" "if d = 0 then outport s1 = int p else inport s1 = int p"
    using s1(2) assms(14,16-19) by (auto simp: call_view_def with_port_def)
  have n: "if 1 - d = 0 then inport s1 \<noteq> 0 else outport s1 \<noteq> 0" using v1(8) assms(3,14) by auto
  obtain s2 where s2: "parse_sip e h recv answer (1 - d) s1 = Some (0, s2)"
    "call_view s2 = call_view ((with_port (1 - d) (int q) s1)\<lparr>saw_200ok := if sent_invite s1 = 1 \<and> 1 - d = 0 then 1 else saw_200ok s1,
       rtp_ports := rtp_ports s1 @ (if 1 - d = 0 then [inport s1, int q] else [int q, outport s1])\<rparr>)"
    by (rule ok_parsed[OF assms(6-10) v1(1-3) n])
  have v2: "is_session_on s2 = 0" "saw_invite_already s2 = 1" "rtp_added s2 = 0" "commands s2 = commands s" "srpp_ttl s2 = srpp_ttl s"
    "inport s2 = int (if d = 1 then p else q)" "outport s2 = int (if d = 1 then q else p)"
    "sent_invite s2 = 0 \<or> sent_invite s2 = 1 \<and> saw_200ok s2 = 1"
    using s2(2) v1 assms(14) by (auto simp: call_view_def with_port_def)
  have n2: "inport s2 \<noteq> 0" "outport s2 \<noteq> 0" using v2(6,7) assms(3,8) by simp_all
  have fits: "print_overruns h s2 \<longleftrightarrow> (if d = 1 then p else q) \<ge> 1000000 \<or> ttl_room h \<le> length (int_digits (srpp_ttl s))"
    unfolding print_overruns_def v2(5,6) sprintf_port by (auto simp: sprintf_int_def)
  show ?thesis
  proof (cases "print_overruns h s2")
    case True
    have "parse_sip e h recv ack d s2 = None" by (rule ack_overruns[OF assms(11) v2(1-3) n2 v2(8) True])
    then show ?thesis using s1(1) s2(1) v1(1) v2 True fits by (intro exI[of _ s1] exI[of _ s2]) simp
  next
    case False
    obtain t where t: "parse_sip e h recv ack d s2 = Some (0, t)" "is_session_on t = 1" "inport t = inport s2" "outport t = outport s2"
      "rtp_added t = 1" "rtp_ports t = rtp_ports s2 @ [inport s2, outport s2]"
      "commands t = commands s2 @ [media_rule ''-A INPUT -p '' '' --destination-port '' s2, media_rule ''-A OUTPUT -p '' '' --source-port '' s2]"
      by (rule ack_parsed[OF assms(11-13,15) v2(1-3) n2 v2(8) False, of e recv d]) blast
    have "{int p, int q} \<subseteq> set (rtp_ports t)" using t(6) v2(6,7) by auto
    then show ?thesis using s1(1) s2(1) v1(1) v2 t False fits by (intro exI[of _ s1] exI[of _ s2]) simp
  qed
qed

theorem call_established_witness:
  "\<exists>s1 s2 t. parse_sip zero_env sample_host (\<lambda>_. None) (ascii sample_invite) 1 sample_sqrkal = Some (0, s1)
    \<and> parse_sip zero_env sample_host (\<lambda>_. None) (ascii sample_ok) 0 s1 = Some (0, s2)
    \<and> parse_sip zero_env sample_host (\<lambda>_. None) (ascii sample_ack) 1 s2 = Some (0, t) \<and> is_session_on t = 1
    \<and> inport t = 4000 \<and> outport t = 6000"
  using call_established[OF sample_messages(1) sample_ports(1) _ _ _ sample_messages(2) sample_ports(2) _ _ _ sample_messages(3),
      of 1 sample_host sample_sqrkal zero_env "\<lambda>_. None"]
  by (auto simp: sample_host_def sample_sqrkal_def sqrkal_start_def srpp.defs sample_invite_def sample_ok_def sample_ack_def
      int_digits_def nat_digits.simps)

theorem parse_sip_total_witness:
  "\<exists>r s'. parse_sip zero_env sample_host (\<lambda>_. None) (ascii sample_ack) 0 sample_sqrkal = Some (r, s')"
proof -
  have "\<not> has (ascii sample_ack) ''SRPP:''" "\<not> has (ascii sample_ack) ''BYE ''" by (simp_all add: has_ascii sample_ack_def)
  moreover have "saw_invite_already sample_sqrkal = 0" by (simp add: sample_sqrkal_def sqrkal_start_def srpp.defs)
  ultimately show ?thesis
    using parse_sip_total[of "ascii sample_ack" sample_sqrkal zero_env sample_host "\<lambda>_. None" 0] by (auto simp: sample_ack_def)
qed

text \<open>C37. A message too short for the text that the parser takes for granted ends the program: the six octets \<open>200 OK\<close>, in a
  dialogue whose ports are known and before the session is on, make \<open>substr\<close> raise an exception that nobody catches,
  from whichever side they come.\<close>

theorem short_answer_ends_program:
  assumes "inport s \<noteq> 0" "outport s \<noteq> 0" "is_session_on s = 0" "saw_invite_already s \<noteq> 0" "saw_ack s = 0"
  shows "parse_sip e h recv (ascii ''200 OK'') direction s = None"
proof -
  have k: "has (ascii ''200 OK'') ''200 OK''" "\<not> has (ascii ''200 OK'') ''BYE ''" "\<not> has (ascii ''200 OK'') ''SIP/2.0 4''"
    "\<not> has (ascii ''200 OK'') ''Content-Type: application/sdp''" by (simp_all add: has_ascii)
  have c: "unat (ucast (str_find (ascii ''200 OK'') ''c=IN IP4 '' 0) + 9 :: u32) = 8"
    by (simp add: str_find_def first_at_ascii ucast_position)
  have "connection_line h (ascii ''200 OK'') direction True t = None" for t
    by (simp add: connection_line_def Let_def c substr_def)
  then have "start_media h (ascii ''200 OK'') direction t = None" if "is_session_on t = 0" "saw_invite_already t \<noteq> 0" "saw_ack t = 0" for t
    using that by (simp add: start_media_def)
  then show ?thesis using k assms by (auto simp: parse_sip_def parse_answer_def Let_def)
qed

theorem short_answer_ends_program_witness:
  "parse_sip zero_env sample_host (\<lambda>_. None) (ascii ''200 OK'') 0
     (sample_sqrkal\<lparr>inport := 4000, outport := 6000, saw_invite_already := 1\<rparr>) = None"
  by (rule short_answer_ends_program) (simp_all add: sample_sqrkal_def sqrkal_start_def srpp.defs)

end
