(* ===== verification/Sqrkal_Discovery.thy ===== *)
theory Sqrkal_Discovery
  imports Sqrkal_Sip
begin

text \<open>
  The packet handling of \<open>sqrkal_discovery.cpp\<close>: \<open>process_packet\<close> with its branches for SIP and for media in both
  directions, the start of a session of SRPP, the receive operation that libSRPP calls, and the main loop
  \<open>discover_sessions\<close>.

  \<open>recv\<close> is the receive operation: libSRPP calls it while it waits, and it reads and handles a packet itself. A packet
  is the memory from its first octet to the end of the buffer, \<open>bytes_read\<close> its length. \<^const>\<open>None\<close> is an access outside
  of an array, an exception that nobody catches, the end of the program, or a read that never returns.
\<close>

section \<open>Sessions of SRPP\<close>

definition initialize_srpp :: "env \<Rightarrow> sqrkal \<Rightarrow> sqrkal" where
  "initialize_srpp e s = create_session (ascii ''127.0.0.1'') (inport s) (init_SRPP e s)"

definition start_SRPP :: "env \<Rightarrow> sq_receiver \<Rightarrow> sqrkal \<Rightarrow> (int \<times> sqrkal) option" where
  "start_SRPP e recv s = do {
     (_, s) \<leftarrow> start_session e recv s;
     s \<leftarrow> flush e s;
     if signaling_complete (signals s) = 0
     then do {
       (_, s) \<leftarrow> stop_session e recv (disable_srpp s);
       s \<leftarrow> flush e s;
       Some (-1, s) }
     else do {
       seq \<leftarrow> get16 (rtp_hdr s) 30;
       Some (0, set_starting_sequenceno (uint (ntohs seq)) (enable_srpp s)) } }"

section \<open>Packets\<close>

text \<open>The loops over the ports advance their index twice, so they look at every other entry.\<close>

fun port_listed :: "int list \<Rightarrow> u16 \<Rightarrow> u16 \<Rightarrow> bool" where
  "port_listed [] local_port remote_port = False"
| "port_listed (p # ps) local_port remote_port =
    (uint local_port = p \<or> uint remote_port = p \<or> port_listed (tl ps) local_port remote_port)"

text \<open>The condition on bit 7 of \<open>rtp_header[29]\<close> compares the constant with itself first, and never holds.\<close>

definition keep_header :: "u8 list \<Rightarrow> sqrkal \<Rightarrow> sqrkal option" where
  "keep_header buff s =
    (if rtp_hdset s = 0 \<or> rtp_hdset s = 1
     then do { b \<leftarrow> peek buff 0 40; Some (s\<lparr>rtp_hdr := b, rtp_hdset := 2\<rparr>) }
     else Some s)"

definition try_SRPP :: "env \<Rightarrow> sq_receiver \<Rightarrow> sqrkal \<Rightarrow> sqrkal option" where
  "try_SRPP e recv s = do {
     (r, s) \<leftarrow> start_SRPP e recv s;
     Some (if r \<ge> 0 then s\<lparr>apply_srpp := 1\<rparr> else s) }"

text \<open>SIP: parse, and send the packet on. \<open>str\<close> of a negative length raises an exception.\<close>

definition process_sip :: "env \<Rightarrow> host \<Rightarrow> sq_receiver \<Rightarrow> u8 list \<Rightarrow> int \<Rightarrow> nat \<Rightarrow> int \<Rightarrow> sqrkal \<Rightarrow> (nat \<times> u8 list \<times> sqrkal) option" where
  "process_sip e h recv buff bytes_read off direction s = do {
     str \<leftarrow> (if bytes_read < int off + 8 then None else peek buff (int off + 8) (nat (bytes_read - int off - 8)));
     (parseresult, s) \<leftarrow> parse_sip e h recv str direction s;
     (off, buff, s) \<leftarrow>
       (if out_port s \<noteq> 0 \<and> parseresult \<ge> 0
        then do {
          let s = (if direction = 0 then s\<lparr>out_ip := inet_addr h (ascii ''127.0.0.1'')\<rparr> else s);
          buff \<leftarrow> poke buff off (le16 (htons 5060) @ le16 (out_port s));
          buff \<leftarrow> poke buff 16 (le32 (out_ip s));
          buff \<leftarrow> poke buff 8 [word_of_int (srpp_ttl s)];
          (buff, s) \<leftarrow> send_forward buff bytes_read s;
          saddr \<leftarrow> get32 buff 12;
          Some (off, buff, if direction = 0 then s\<lparr>out_ip := saddr\<rparr> else s) }
        else Some (off + 8, buff, s));
     s \<leftarrow> (if rtp_hdset s = 0
       then do {
         b \<leftarrow> peek buff 0 28;
         hdr \<leftarrow> poke (rtp_hdr s) 0 b;
         Some (s\<lparr>rtp_hdr := hdr, rtp_hdset := 1\<rparr>) }
       else Some s);
     Some (off, buff, s) }"

text \<open>A received packet becomes the packet of the phone again, through an array on the stack.\<close>

definition receive_media :: "env \<Rightarrow> u8 list \<Rightarrow> int \<Rightarrow> sqrkal \<Rightarrow> (u8 list \<times> int \<times> sqrkal) option" where
  "receive_media e buff bytes_read s = do {
     r \<leftarrow> network_to_srpp (srpp_msg s) (drop 28 buff) (bytes_read - 28) (getKey s);
     case r of
       Throws_length_error _ \<Rightarrow> None
     | Returns st m \<Rightarrow>
         if st < 0 then Some (buff, bytes_read, s\<lparr>srpp_msg := m\<rparr>)
         else if is_srtp s = 0
         then do {
           (rtp, s) \<leftarrow> srpp_to_rtp e m s;
           let m = snd (unpad (decrypt_srpp m s));
           let new_size = nat (72 - 4 * (15 - uint (ntohs (ucast (rh_cc (rtp_header rtp))))))
             + length (original_payload (encrypted_part m));
           rtp_buff \<leftarrow> rtp_to_network rtp (map (stack e) [0..<new_size + 10]) new_size;
           buff \<leftarrow> poke buff 28 (take new_size rtp_buff);
           Some (buff, int new_size + 28, s\<lparr>rtp_msg := rtp, srpp_msg := m\<rparr>) }
         else do {
           let new_size = length (original_payload (encrypted_part m));
           (st, srtp_buff) \<leftarrow> srpp_to_srtp_buff m (map (stack e) [0..<new_size]) new_size s;
           let s = s\<lparr>srpp_msg := snd (unpad (decrypt_srpp m s))\<rparr>;
           if st \<ge> 0
           then do { buff \<leftarrow> poke buff 28 (take new_size srtp_buff); Some (buff, int new_size + 28, s) }
           else Some (buff, bytes_read, s) } }"

text \<open>A packet of the phone becomes an SRPP message; of SRTP the whole packet is its payload. A payload of negative
  length raises an exception.\<close>

definition send_media :: "env \<Rightarrow> u8 list \<Rightarrow> int \<Rightarrow> sqrkal \<Rightarrow> (u8 list \<times> int \<times> sqrkal) option" where
  "send_media e buff bytes_read s = do {
     hb \<leftarrow> peek buff 28 72;
     let hdr = rtp_header_of_bytes hb;
     let s = (if ssrc_value s = 0 then s\<lparr>ssrc_value := rh_ssrc hdr\<rparr> else s);
     let start = (if is_srtp s = 0 then 40 else 28);
     (m, s) \<leftarrow> (if bytes_read < int start then None
       else rtp_to_srpp e hdr (drop start buff) (nat (bytes_read - int start)) s);
     let new_size = 80 + length (original_payload (encrypted_part m)) + length (srpp_padding (encrypted_part m)) + 12;
     (m, srpp_buff) \<leftarrow> srpp_to_network (\<lambda>t. ucast (rand_after e t)) m (map (stack e) [0..<new_size + 10]) (getKey s);
     buff \<leftarrow> poke buff 28 (take new_size srpp_buff);
     Some (buff, int new_size + 28, s\<lparr>srpp_msg := m\<rparr>) }"

text \<open>The fields of the IP and UDP headers that are set before a media packet is sent on.\<close>

definition address_media :: "nat \<Rightarrow> int \<Rightarrow> u32 \<Rightarrow> int \<Rightarrow> sqrkal \<Rightarrow> u8 list \<Rightarrow> u8 list option" where
  "address_media off port addr bytes_read s buff = do {
     buff \<leftarrow> poke buff (off + 2) (le16 (htons (word_of_int port)));
     buff \<leftarrow> poke buff 16 (le32 addr);
     buff \<leftarrow> poke buff (off + 4) (le16 (htons (word_of_int (bytes_read - 20))));
     buff \<leftarrow> poke buff 2 (le16 (htons (word_of_int bytes_read)));
     poke buff 8 [word_of_int (srpp_ttl s)] }"

definition process_in :: "env \<Rightarrow> host \<Rightarrow> sq_receiver \<Rightarrow> u8 list \<Rightarrow> int \<Rightarrow> nat \<Rightarrow> u16 \<Rightarrow> sqrkal \<Rightarrow> sqrkal option" where
  "process_in e h recv buff bytes_read off source s = do {
     saddr \<leftarrow> get32 buff 12;
     let s = s\<lparr>rtp_dest := saddr, recv_count := recv_count s + 1\<rparr>;
     kind \<leftarrow> isSignalingMessage_buff (drop 28 buff);
     s \<leftarrow> (if kind = 1
       then do { (_, s) \<leftarrow> processReceivedData e recv (drop 28 buff) (bytes_read - 28) s; flush e s }
       else Some s);
     s \<leftarrow> keep_header buff s;
     s \<leftarrow> (if (outport s \<noteq> uint source \<and> apply_srpp s = 0) \<or> (recv_count s = 1 \<and> sent_count s < 5)
       then try_SRPP e recv s else Some s);
     (buff, bytes_read, s) \<leftarrow> (if apply_srpp s = 1 then receive_media e buff bytes_read s else Some (buff, bytes_read, s));
     let addr = (if rtp_src s = 0 then inet_addr h (ascii ''127.0.0.1'') else rtp_src s);
     buff \<leftarrow> address_media off (inport s) addr bytes_read s buff;
     (_, s) \<leftarrow> send_forward buff bytes_read (s\<lparr>out_ip := addr, out_port := htons (word_of_int (inport s))\<rparr>);
     Some s }"

definition process_out :: "env \<Rightarrow> host \<Rightarrow> sq_receiver \<Rightarrow> u8 list \<Rightarrow> int \<Rightarrow> nat \<Rightarrow> sqrkal \<Rightarrow> sqrkal option" where
  "process_out e h recv buff bytes_read off s = do {
     saddr \<leftarrow> get32 buff 12;
     let s = s\<lparr>rtp_src := saddr\<rparr>;
     if outport s = 0 \<or> rtp_dest s = 0 then Some s
     else do {
       let s = s\<lparr>sent_count := sent_count s + 1\<rparr>;
       s \<leftarrow> (if apply_srpp s = 0 \<and> sent_count s = 1 \<and> rtp_hdset s > 0 then try_SRPP e recv s else Some s);
       (buff, bytes_read, s) \<leftarrow> (if apply_srpp s = 1
         then send_media e buff bytes_read (s\<lparr>input_packet_sizes := input_packet_sizes s @ [bytes_read]\<rparr>)
         else Some (buff, bytes_read, s));
       let s = s\<lparr>output_packet_sizes := output_packet_sizes s @ [bytes_read]\<rparr>;
       buff \<leftarrow> address_media off (outport s) (rtp_dest s) bytes_read s buff;
       s \<leftarrow> keep_header buff s;
       (_, s) \<leftarrow> send_forward buff bytes_read (s\<lparr>out_ip := rtp_dest s, out_port := htons (word_of_int (outport s))\<rparr>);
       Some s } }"

text \<open>Its callers ignore what \<open>process_packet\<close> returns. \<open>is_sip\<close> and \<open>is_rtp\<close> are global: a packet that is read while
  this one is parsed sets them too.\<close>

definition process_packet :: "env \<Rightarrow> host \<Rightarrow> sq_receiver \<Rightarrow> u8 list \<Rightarrow> int \<Rightarrow> sqrkal \<Rightarrow> sqrkal option" where
  "process_packet e h recv buff bytes_read s =
    (if bytes_read < 28 then Some s
     else do {
       off \<leftarrow> ip_offset buff;
       protocol \<leftarrow> peek buff 9 1;
       if hd protocol \<noteq> UDP_PROTOCOL \<and> hd protocol \<noteq> TCP_PROTOCOL then Some s
       else do {
         source \<leftarrow> get16 buff off;
         destination \<leftarrow> get16 buff (off + 2);
         let saddr = ntohs source;
         let daddr = ntohs destination;
         direction \<leftarrow> get_direction h buff;
         let (local_port, remote_port) = (if direction = 0 then (daddr, saddr) else (saddr, daddr));
         let sip = port_listed (sip_ports s) local_port remote_port;
         let rtp = (\<not> sip \<and> port_listed (rtp_ports s) local_port remote_port);
         let s = s\<lparr>is_udp := of_bool (hd protocol = UDP_PROTOCOL), is_sip := of_bool sip, is_rtp := of_bool rtp\<rparr>;
         if \<not> sip \<and> \<not> rtp then Some s
         else do {
           (off, buff, s) \<leftarrow> (if is_sip s = 1 then process_sip e h recv buff bytes_read off direction s
             else Some (off, buff, s));
           if is_rtp s = 1
           then if direction = 0 then process_in e h recv buff bytes_read off saddr s
             else process_out e h recv buff bytes_read off s
           else Some s } } })"

section \<open>The queue\<close>

text \<open>A read that waits for ever is \<^const>\<open>None\<close> here; the recursion is bounded by the number of reads to come.\<close>

primrec receive_rtp_message :: "nat \<Rightarrow> env \<Rightarrow> host \<Rightarrow> sq_receiver" where
  "receive_rtp_message 0 e h s = None"
| "receive_rtp_message (Suc fuel) e h s = do {
     s \<leftarrow> flush e s;
     let (dummy, s) = construct_message e s;
     case queue s of
       [] \<Rightarrow> None
     | (status, msg) # rest \<Rightarrow> do {
         let s = s\<lparr>queue := rest\<rparr>;
         if status < 0 then Some (Returns_message dummy, s)
         else case msg of
           IPQM_PACKET buff len verdict \<Rightarrow>
             if len \<le> 0 \<or> verdict < 0 then Some (Returns_message dummy, s)
             else do {
               kind \<leftarrow> isSignalingMessage_buff (drop 28 buff);
               if kind = 1
               then do {
                 (r, s) \<leftarrow> processReceivedData e (receive_rtp_message fuel e h) (drop 28 buff) (len - 28) s;
                 s \<leftarrow> flush e s;
                 Some (r, s) }
               else do {
                 s \<leftarrow> process_packet e h (receive_rtp_message fuel e h) buff len s;
                 Some (Returns_message dummy, s) } }
         | _ \<Rightarrow> Some (Returns_message dummy, s) } }"

text \<open>One round of the main loop, and the rounds until the discovery is stopped or no more packets come.\<close>

definition discover_step :: "env \<Rightarrow> host \<Rightarrow> sqrkal \<Rightarrow> sqrkal option" where
  "discover_step e h s =
    (case queue s of
       [] \<Rightarrow> None
     | (_, msg) # rest \<Rightarrow>
         let s = s\<lparr>queue := rest\<rparr> in
         case msg of
           IPQM_PACKET buff len verdict \<Rightarrow>
             if len \<le> 0 \<or> verdict < 0 then Some s
             else process_packet e h (receive_rtp_message (Suc (length rest)) e h) buff len s
         | _ \<Rightarrow> Some s)"

primrec discover_loop :: "nat \<Rightarrow> env \<Rightarrow> host \<Rightarrow> sqrkal \<Rightarrow> sqrkal option" where
  "discover_loop 0 e h s = Some s"
| "discover_loop (Suc n) e h s =
    (if is_discovering s = 1 \<and> queue s \<noteq> [] then do { s \<leftarrow> discover_step e h s; discover_loop n e h s } else Some s)"

text \<open>\<open>r1\<close> and \<open>r2\<close> are the numbers that \<open>rand\<close> returns. Every round reads from the queue, so there are no more rounds than
  reads.\<close>

definition discovery_started :: "31 word \<Rightarrow> 31 word \<Rightarrow> env \<Rightarrow> host \<Rightarrow> sqrkal \<Rightarrow> sqrkal option" where
  "discovery_started r1 r2 e h s = do {
     let ttl = 65 + uint r1 mod 25 + uint r2 mod 5;
     ttl_s \<leftarrow> sprintf_int (ttl_room h) ttl;
     let s = s\<lparr>srpp_ttl := ttl, srpp_ttl_s := ttl_s\<rparr>;
     Some ((initialize_srpp e (snd (add_all_rules h True True s)))\<lparr>is_discovering := 1\<rparr>) }"

definition discover_sessions :: "31 word \<Rightarrow> 31 word \<Rightarrow> env \<Rightarrow> host \<Rightarrow> sqrkal \<Rightarrow> sqrkal option" where
  "discover_sessions r1 r2 e h s = do {
     s \<leftarrow> discovery_started r1 r2 e h s;
     discover_loop (length (queue s)) e h s }"

text \<open>A tick of the timer of libSRPP, with the dummies it sends.\<close>

definition tick :: "env \<Rightarrow> sqrkal \<Rightarrow> sqrkal option" where
  "tick e s = do { s \<leftarrow> timer_fired e s; flush e s }"

section \<open>libSRPP leaves the variables of the program alone\<close>

lemma more_rand [simp]: "srpp.more (snd (srpp_rand e a b s)) = srpp.more s"
  by (simp add: srpp_rand_def)

lemma more_construct [simp]: "srpp.more (snd (construct_message e s)) = srpp.more s"
  by (simp add: construct_message_def Let_def)

lemma more_create [simp]: "srpp.more (snd (create_srpp_message e data s)) = srpp.more s"
  by (simp add: create_srpp_message_def split_beta Let_def)

lemma more_encrypt [simp]: "srpp.more (snd (encrypt_srpp e m s)) = srpp.more s"
  by (simp add: encrypt_srpp_def split_beta Let_def)

lemma more_octets [simp]: "srpp.more (snd (random_octets e n s)) = srpp.more s" "srpp.more (snd (xor_octets e cs s)) = srpp.more s"
  by (induction n arbitrary: s) (simp_all add: random_octet_def split_beta Let_def, induction cs arbitrary: s, simp_all add: split_beta Let_def)

lemma more_psp [simp]: "srpp.more (snd (psp_extra_size e n s)) = srpp.more s"
  by (simp add: psp_extra_size_def ascend_def split_beta Let_def)

lemma more_add [simp]: "srpp.more (add_to_dummy_cache e m s) = srpp.more s"
  by (simp add: add_to_dummy_cache_def split_beta Let_def)

lemma more_dummy_data: "generate_dummy_data e n s = Some (d, t) \<Longrightarrow> srpp.more t = srpp.more s"
  by (auto simp: generate_dummy_data_def split_beta Let_def split: bind_splits)

lemma more_pad: "pad e m s = Some (m', t) \<Longrightarrow> srpp.more t = srpp.more s"
  by (auto simp: pad_def default_psp_pad_algo_def reset_silence_def reset_packet_def split_beta Let_def dest!: more_dummy_data
      split: bind_splits if_splits)

lemma more_finish: "finish_media e m s = Some (m', t) \<Longrightarrow> srpp.more t = srpp.more s"
proof -
  assume "finish_media e m s = Some (m', t)"
  then obtain m1 m2 s1 where "pad e m1 s = Some (m2, s1)" "t = snd (encrypt_srpp e (m2\<lparr>encrypted_part := (encrypted_part m2)
               \<lparr>pad_count := of_nat (length (srpp_padding (encrypted_part m2)))\<rparr>\<rparr>) s1)"
    unfolding finish_media_def by (auto split: bind_splits)
  then show ?thesis using more_pad by force
qed

lemma more_rtp_to_srpp: "rtp_to_srpp e h b n s = Some (m, t) \<Longrightarrow> srpp.more t = srpp.more s"
  by (auto simp: rtp_to_srpp_def split_beta Let_def dest!: more_finish split: bind_splits)

lemma more_srpp_to_rtp: "srpp_to_rtp e m s = Some (r, t) \<Longrightarrow> srpp.more t = srpp.more s \<and> session t = session s"
  by (auto simp: srpp_to_rtp_def create_rtp_message_def new_RTPMessage_def split_beta Let_def split: bind_splits)

lemma same_fields:
  assumes "srpp.more t = srpp.more (s :: sqrkal)"
  shows "outport t = outport s" "inport t = inport s" "rtp_dest t = rtp_dest s" "rtp_src t = rtp_src s" "rtp_hdset t = rtp_hdset s"
    "rtp_hdr t = rtp_hdr s" "srpp_ttl t = srpp_ttl s" "raw_sent t = raw_sent s" "output_packet_sizes t = output_packet_sizes s"
    "is_srtp t = is_srtp s" "frag_id t = frag_id s"
  using assms by (cases s; cases t; simp)+

section \<open>Packets with a header of 28 octets\<close>

text \<open>The IP header without options and the UDP header; the fields of them that matter.\<close>

definition src_addr :: "u8 list \<Rightarrow> u32" where "src_addr a = of_le32 (drop 12 a)"
definition src_port :: "u8 list \<Rightarrow> u16" where "src_port a = ntohs (of_le16 (drop 20 a))"
definition dst_port :: "u8 list \<Rightarrow> u16" where "dst_port a = ntohs (of_le16 (drop 22 a))"

definition udp_head :: "u8 list \<Rightarrow> bool" where
  "udp_head a \<longleftrightarrow> length a = 28 \<and> a ! 0 = 0x45 \<and> a ! 9 = UDP_PROTOCOL"

text \<open>A header in which only other fields have been changed.\<close>

definition same_source :: "u8 list \<Rightarrow> u8 list \<Rightarrow> bool" where
  "same_source a b \<longleftrightarrow> length b = length a \<and> (\<forall>i \<in> {0, 9, 12, 13, 14, 15, 20, 21}. b ! i = a ! i)"

lemma same_source_trans: "same_source a b \<Longrightarrow> same_source b c \<Longrightarrow> same_source a c"
  by (simp add: same_source_def)

lemma same_source_head:
  assumes "same_source a b" "udp_head a"
  shows "udp_head b" "src_addr b = src_addr a" "src_port b = src_port a"
  using assms by (simp_all add: same_source_def udp_head_def src_addr_def src_port_def of_le32_def of_le16_def)

lemma poke_head:
  assumes "off + length bs \<le> length a"
  obtains a' where "poke (a @ d) off bs = Some (a' @ d)" "length a' = length a"
    "\<And>i. i < length a \<Longrightarrow> a' ! i = (if off \<le> i \<and> i < off + length bs then bs ! (i - off) else a ! i)"
proof
  let ?a = "take off a @ bs @ drop (off + length bs) a"
  show "poke (a @ d) off bs = Some (?a @ d)" using assms by (simp add: poke_def)
  show "length ?a = length a" using assms by simp
  fix i assume "i < length a"
  then show "?a ! i = (if off \<le> i \<and> i < off + length bs then bs ! (i - off) else a ! i)"
    using assms by (auto simp: nth_append)
qed

lemma address_media_ok:
  assumes "udp_head a"
  obtains b where "address_media 20 port addr n s (a @ d) = Some (b @ d)" "same_source a b" "dst_port b = word_of_int port"
proof -
  have a: "length a = 28" using assms by (simp add: udp_head_def)
  obtain b1 where b1: "poke (a @ d) 22 (le16 (htons (word_of_int port))) = Some (b1 @ d)" "length b1 = 28"
    "\<And>i. i < 28 \<Longrightarrow> b1 ! i = (if 22 \<le> i \<and> i < 24 then le16 (htons (word_of_int port)) ! (i - 22) else a ! i)"
    using poke_head[of 22 "le16 (htons (word_of_int port))" a d] a by auto
  obtain b2 where b2: "poke (b1 @ d) 16 (le32 addr) = Some (b2 @ d)" "length b2 = 28"
    "\<And>i. i < 28 \<Longrightarrow> b2 ! i = (if 16 \<le> i \<and> i < 20 then le32 addr ! (i - 16) else b1 ! i)"
    using poke_head[of 16 "le32 addr" b1 d] b1(2) by auto
  obtain b3 where b3: "poke (b2 @ d) 24 (le16 (htons (word_of_int (n - 20)))) = Some (b3 @ d)" "length b3 = 28"
    "\<And>i. i < 28 \<Longrightarrow> b3 ! i = (if 24 \<le> i \<and> i < 26 then le16 (htons (word_of_int (n - 20))) ! (i - 24) else b2 ! i)"
    using poke_head[of 24 "le16 (htons (word_of_int (n - 20)))" b2 d] b2(2) by auto
  obtain b4 where b4: "poke (b3 @ d) 2 (le16 (htons (word_of_int n))) = Some (b4 @ d)" "length b4 = 28"
    "\<And>i. i < 28 \<Longrightarrow> b4 ! i = (if 2 \<le> i \<and> i < 4 then le16 (htons (word_of_int n)) ! (i - 2) else b3 ! i)"
    using poke_head[of 2 "le16 (htons (word_of_int n))" b3 d] b3(2) by auto
  obtain b5 where b5: "poke (b4 @ d) 8 [word_of_int (srpp_ttl s)] = Some (b5 @ d)" "length b5 = 28"
    "\<And>i. i < 28 \<Longrightarrow> b5 ! i = (if 8 \<le> i \<and> i < 9 then [word_of_int (srpp_ttl s)] ! (i - 8) else b4 ! i)"
    using poke_head[of 8 "[word_of_int (srpp_ttl s)]" b4 d] b4(2) by auto
  note nths = b1(3) b2(3) b3(3) b4(3) b5(3)
  have "same_source a b5" unfolding same_source_def using a b5(2) by (simp add: nths)
  moreover have "of_le16 (drop 22 b5) = of_le16 (le16 (htons (word_of_int port)))"
    using b5(2) by (simp add: of_le16_def nths)
  then have "dst_port b5 = word_of_int port" by (simp add: dst_port_def)
  ultimately show ?thesis using that b1(1) b2(1) b3(1) b4(1) b5(1) by (simp add: address_media_def)
qed

lemma send_forward_ok:
  assumes "udp_head a" "out_port s \<noteq> 0" "length d \<le> 1472" "n = 28 + int (length d)"
  obtains b c where "send_forward (a @ d @ rest) n s = Some (c, s\<lparr>raw_sent := raw_sent s @ [(out_ip s, out_port s, b @ d)]\<rparr>)"
    "same_source a b" "dst_port b = dst_port a"
proof -
  have a: "length a = 28" "a ! 0 = 0x45" using assms by (simp_all add: udp_head_def)
  obtain x as where xas: "a = x # as" using a(1) by (cases a) auto
  have x: "x = 0x45" using a(2) xas by simp
  have off: "ip_offset (a @ d @ rest) = Some 20" unfolding ip_offset_def peek_def xas x by simp
  obtain b1 where b1: "poke (a @ d @ rest) 10 [0, 0] = Some (b1 @ d @ rest)" "length b1 = 28"
    "\<And>i. i < 28 \<Longrightarrow> b1 ! i = (if 10 \<le> i \<and> i < 12 then [0, 0] ! (i - 10) else a ! i)"
    using poke_head[of 10 "[0, 0]" a "d @ rest"] a by auto
  obtain check where check: "in_cksum (b1 @ d @ rest) 20 = Some check" using b1(2) by (simp add: in_cksum_def peek_def Let_def)
  obtain b2 where b2: "poke (b1 @ d @ rest) 10 (le16 check) = Some (b2 @ d @ rest)" "length b2 = 28"
    "\<And>i. i < 28 \<Longrightarrow> b2 ! i = (if 10 \<le> i \<and> i < 12 then le16 check ! (i - 10) else b1 ! i)"
    using poke_head[of 10 "le16 check" b1 "d @ rest"] b1(2) by auto
  obtain b3 where b3: "poke (b2 @ d @ rest) 26 [0, 0] = Some (b3 @ d @ rest)" "length b3 = 28"
    "\<And>i. i < 28 \<Longrightarrow> b3 ! i = (if 26 \<le> i \<and> i < 28 then [0, 0] ! (i - 26) else b2 ! i)"
    using poke_head[of 26 "[0, 0]" b2 "d @ rest"] b2(2) by auto
  note nths = b1(3) b2(3) b3(3)
  have f: "form_checksums (a @ d @ rest) = Some (b3 @ d @ rest)"
    unfolding form_checksums_def using off b1(1) check b2(1) b3(1) by simp
  have p: "peek (b3 @ d @ rest) 0 (nat n) = Some (b3 @ d)"
    by (rule peek_at[of _ "[]" _ rest]) (use assms(4) b3(2) in simp_all)
  have "send_raw_message (b3 @ d @ rest) n s = Some (s\<lparr>raw_sent := raw_sent s @ [(out_ip s, out_port s, b3 @ d)]\<rparr>)"
    unfolding send_raw_message_def using assms(2,4) p by simp
  then have "send_forward (a @ d @ rest) n s = Some (b3 @ d @ rest, s\<lparr>raw_sent := raw_sent s @ [(out_ip s, out_port s, b3 @ d)]\<rparr>)"
    unfolding send_forward_def using f assms(3,4) by (simp add: IP_MTU_def)
  moreover have "same_source a b3" unfolding same_source_def using a b3(2) by (simp add: nths)
  moreover have "dst_port b3 = dst_port a" using a b3(2) by (simp add: dst_port_def of_le16_def nths)
  ultimately show ?thesis using that by blast
qed

lemma port_listed_sym: "port_listed ps l r = port_listed ps r l"
  by (induction ps l r rule: port_listed.induct) auto

lemma process_packet_udp:
  assumes "udp_head a" "28 \<le> n"
  defines "t \<equiv> \<lambda>s sip rtp. s\<lparr>is_udp := 1, is_sip := of_bool sip, is_rtp := of_bool rtp\<rparr> :: sqrkal"
  shows "\<not> port_listed (sip_ports s) (src_port a) (dst_port a) \<Longrightarrow> \<not> port_listed (rtp_ports s) (src_port a) (dst_port a)
      \<Longrightarrow> process_packet e h recv (a @ d) n s = Some (t s False False)"
    "\<not> port_listed (sip_ports s) (src_port a) (dst_port a) \<Longrightarrow> port_listed (rtp_ports s) (src_port a) (dst_port a)
      \<Longrightarrow> process_packet e h recv (a @ d) n s = (if src_addr a \<in> set (local_addrs h) then process_out e h recv (a @ d) n 20 (t s False True)
        else process_in e h recv (a @ d) n 20 (src_port a) (t s False True))"
proof -
  have a: "length a = 28" "a ! 0 = 0x45" "a ! 9 = UDP_PROTOCOL" using assms by (simp_all add: udp_head_def)
  have tk: "peek (a @ d) (int i) k = Some (take k (drop i a))" if "i + k \<le> 28" for i k using that a(1) by (simp add: peek_def)
  have x: "take 1 a = [0x45]" using a(1,2) by (cases a) auto
  have p: "take 1 (drop 9 a) = [UDP_PROTOCOL]" using a(1,3) by (simp add: take_Suc hd_drop_conv_nth)
  have off: "ip_offset (a @ d) = Some 20" unfolding ip_offset_def using tk[of 0 1] x by simp
  have pr: "peek (a @ d) 9 1 = Some [UDP_PROTOCOL]" using tk[of 9 1] p by simp
  have l16: "of_le16 (take 2 y) = of_le16 y" for y by (simp add: of_le16_def)
  have l32: "of_le32 (take 4 y) = of_le32 y" for y by (simp add: of_le32_def)
  have g: "get16 (a @ d) 20 = Some (of_le16 (drop 20 a))" "get16 (a @ d) 22 = Some (of_le16 (drop 22 a))" "get32 (a @ d) 12 = Some (src_addr a)"
    unfolding get16_def get32_def using tk[of 20 2] tk[of 22 2] tk[of 12 4] by (simp_all add: l16 l32 src_addr_def)
  have dir: "get_direction h (a @ d) = Some (if src_addr a \<in> set (local_addrs h) then 1 else 0)" by (simp add: get_direction_def g(3))
  note run = process_packet_def off pr pr[unfolded One_nat_def] g dir bind.bind_lunit
  show "process_packet e h recv (a @ d) n s = Some (t s False False)"
    if "\<not> port_listed (sip_ports s) (src_port a) (dst_port a)" "\<not> port_listed (rtp_ports s) (src_port a) (dst_port a)"
    using that assms(2) port_listed_sym[of _ "src_port a" "dst_port a"] by (simp add: run t_def flip: src_port_def dst_port_def)
  show "process_packet e h recv (a @ d) n s = (if src_addr a \<in> set (local_addrs h) then process_out e h recv (a @ d) n 20 (t s False True)
        else process_in e h recv (a @ d) n 20 (src_port a) (t s False True))"
    if "\<not> port_listed (sip_ports s) (src_port a) (dst_port a)" "port_listed (rtp_ports s) (src_port a) (dst_port a)"
    using that assms(2) port_listed_sym[of _ "src_port a" "dst_port a"] by (simp add: run t_def flip: src_port_def dst_port_def)
qed

end
