(* ===== verification/Sqrkal_Media.thy ===== *)
theory Sqrkal_Media
  imports Sqrkal_Discovery
begin

text \<open>
  Media packets on their way through the interception programs at both ends: what the sending program makes of a packet,
  what the receiving one makes of the result, and what reaches the other phone: SRTP does, while converting a received RTP
  packet always writes outside of an array.
\<close>

section \<open>Media\<close>

lemma htonl_zero: "htonl 0 = 0"
  by (simp add: htonl_def le32_def of_le32_def)

lemma media_not_signalling:
  assumes "network_to_srpp m b n k = Some (Returns 0 m2)" "sh_srpp_signalling (srpp_header m2) = 0"
  obtains kind where "isSignalingMessage_buff b = Some kind" "kind \<noteq> 1"
proof -
  obtain hb where hb: "peek b 0 80 = Some hb" "srpp_header m2 = header_of_bytes hb" using network_to_srpp_header[OF assms(1)] by blast
  then have "ntohl (of_le32 (drop 76 hb)) = 0" using assms(2) by (simp add: header_of_bytes_def Let_def)
  then have "of_le32 (drop 76 hb) = 0" by (metis htonl_htonl htonl_zero)
  then show ?thesis using that hb(1) by (simp add: isSignalingMessage_buff_def signalling_kind_def)
qed

text \<open>The message decrypts to this packet.\<close>

definition carries_media :: "RTP_Header \<Rightarrow> u8 list \<Rightarrow> SRPPMessage \<Rightarrow> bool" where
  "carries_media h data m \<longleftrightarrow> original_payload (encrypted_part m) = data \<and> dummy_flag (encrypted_part m) = 0
     \<and> original_padding_bit (encrypted_part m) = rh_p h \<and> original_seq_number (encrypted_part m) = ntohs (rh_seq h)
     \<and> sh_cc (srpp_header m) = 0 \<and> sh_srpp_signalling (srpp_header m) = 0 \<and> sh_version (srpp_header m) = rh_version h
     \<and> sh_x (srpp_header m) = rh_x h \<and> sh_m (srpp_header m) = rh_m h \<and> sh_pt (srpp_header m) = rh_pt h
     \<and> sh_ts (srpp_header m) = ntohl (rh_ts h) \<and> sh_ssrc (srpp_header m) = ntohl (rh_ssrc h)"

lemma send_media_ok:
  fixes s :: sqrkal and a d len e
  defines "k \<equiv> encryption_key (session s)" and "start \<equiv> if is_srtp s = 0 then 12 else 0 :: nat"
  defines "data \<equiv> arrives (stack e) (ucast k) (take len (drop start d))" and "hdr \<equiv> rtp_header_of_bytes (take 72 d)"
  assumes "length a = 28" "padding_inv s" "algos s = no_padding_options" "0 \<le> sint k" "rh_cc hdr = 0" "0 < len" "len < 1366"
    "1458 \<le> length d"
  obtains wire t where "send_media e (a @ d) (28 + int start + int len) s = Some (a @ wire @ drop (length wire) d, 28 + int (length wire), t)"
    "length wire \<le> 1458" "\<And>m0 r. \<exists>m2. network_to_srpp m0 (wire @ r) (int (length wire)) (sint k) = Some (Returns 0 m2)
        \<and> carries_media hdr data (srpp_decrypt k m2)"
    "outport t = outport s" "rtp_dest t = rtp_dest s" "rtp_hdset t = rtp_hdset s" "raw_sent t = raw_sent s"
proof -
  define s1 where "s1 = (if ssrc_value s = 0 then s\<lparr>ssrc_value := rh_ssrc hdr\<rparr> else s)"
  have s1: "session s1 = session s" "algos s1 = algos s" "dummy_cache s1 = dummy_cache s" "is_srtp s1 = is_srtp s" "outport s1 = outport s"
    "rtp_dest s1 = rtp_dest s" "rtp_hdset s1 = rtp_hdset s" "raw_sent s1 = raw_sent s" by (simp_all add: s1_def)
  define raw where "raw = take len (drop start d)"
  let ?b = "drop start d" and ?f = "\<lambda>t. ucast (rand_after e t) :: u32"
  have hb: "peek (a @ d) 28 72 = Some (take 72 d)" using assms(5,12) by (simp add: peek_def)
  have st: "28 + start = (if is_srtp s1 = 0 then 40 else 28)" by (simp add: start_def s1)
  have inv: "padding_inv s1" using assms(6) padding_inv_cong[of s1 s] s1 by simp
  have ks: "encryption_key (session s1) = k" by (simp add: k_def s1)
  have lb: "len \<le> length ?b" using assms(11,12) by (simp add: start_def) linarith
  have full: "len \<le> 1366 \<or> is_full_bandwidth (algos s1) = 0" using assms(11) by simp
  obtain q t where t: "rtp_to_srpp e hdr ?b len s1 = Some (srpp_encrypt k (media_plain e hdr raw q s1), t)"
    "int (length q) = fst (psp_extra_size e (int len) (snd (construct_message e s1)))" "session t = session s1"
    using rtp_to_srpp_ok[OF inv assms(9,10) lb full, of e] unfolding ks raw_def by metis
  let ?p = "media_plain e hdr raw q s1"
  have "1 \<le> fst (psp_extra_size e (int len) (snd (construct_message e s1)))" "fst (psp_extra_size e (int len) (snd (construct_message e s1))) \<le> 1366 - int len"
    using psp_extra_size_random(1)[of "snd (construct_message e s1)" "int len" e] psp_extra_size_random(2)[of "snd (construct_message e s1)" "int len" e] assms(7,11) s1(2)
    by (simp_all add: no_padding_options_def)
  then have q: "0 < length q" "length q + len \<le> 1366" using t(2) by linarith+
  have len: "length raw = len" using lb by (simp add: raw_def)
  have p: "original_payload (encrypted_part ?p) = raw" "srpp_padding (encrypted_part ?p) = q" "sh_cc (srpp_header ?p) = 0"
    "sh_srpp_signalling (srpp_header ?p) = 0" "pad_count (encrypted_part ?p) = of_nat (length q)"
    by (simp_all add: media_plain_def Let_def)
  let ?n = "92 + len + length q" let ?v = "map (stack e) [0..<?n + 10]"
  have trip: "\<exists>wire msg2. srpp_to_network ?f (srpp_encrypt k ?p) ?v (sint k) = Some (srpp_encrypt k ?p, wire) \<and> length wire = length ?v
    \<and> network_to_srpp m0 (take ?n wire) (int ?n) (sint k) = Some (Returns 0 msg2) \<and> carries_media hdr data (srpp_decrypt k msg2)" for m0
    using media_trip[of ?p k ?v ?f m0] assms(8) p q len delivered_fresh[of raw "?n + 10" "ucast k" "stack e"]
    by (auto simp: carries_media_def data_def media_plain_def Let_def simp flip: raw_def)
  then obtain w where w: "srpp_to_network ?f (srpp_encrypt k ?p) ?v (sint k) = Some (srpp_encrypt k ?p, w)" "length w = length ?v" by blast
  have enc: "length (original_payload (encrypted_part (srpp_encrypt k ?p))) = len" "length (srpp_padding (encrypted_part (srpp_encrypt k ?p))) = length q"
    by (simp_all add: srpp_encrypt_def Let_def p len)
  let ?w = "take ?n w" and ?t = "t\<lparr>srpp_msg := srpp_encrypt k ?p\<rparr>"
  have lw: "length ?w = ?n" using w(2) by simp
  have pk: "poke (a @ d) 28 ?w = Some (a @ ?w @ drop ?n d)" using assms(5,12) q lw by (simp add: poke_def add.assoc)
  have key: "getKey t = sint k" using t(3) by (simp add: getKey_def k_def s1)
  have run: "send_media e (a @ d) (28 + int start + int len) s = Some (a @ ?w @ drop ?n d, 28 + int ?n, ?t)"
    unfolding send_media_def hb bind.bind_lunit Let_def hdr_def[symmetric] s1_def[symmetric] st[symmetric]
    using assms(5) t(1) w(1) pk by (simp add: enc key add.assoc)
  have m: "srpp.more t = srpp.more s1" by (rule more_rtp_to_srpp[OF t(1)])
  have net: "\<exists>m2. network_to_srpp m0 (?w @ r) (int (length ?w)) (sint k) = Some (Returns 0 m2) \<and> carries_media hdr data (srpp_decrypt k m2)" for m0 r
    using trip[of m0] w network_to_srpp_prefix unfolding lw by fastforce
  show ?thesis
    by (rule that[of ?w ?t, OF _ _ net]) (use run lw q same_fields[OF m] s1 in simp_all)
qed

text \<open>A message that carries an RTP packet is converted to the packet in an array that is too small for it.\<close>

lemma rtp_to_network_short:
  assumes "length b < nat (72 - 4 * (15 - uint (ntohs (ucast (rh_cc (rtp_header m)))))) + n"
  shows "rtp_to_network m b n = None"
proof (cases "poke b 0 (rtp_header_bytes (rtp_header m))")
  case (Some c)
  then have l: "length c = length b" by (rule length_poke)
  show ?thesis
  proof (cases "peek (rtp_payload m) 0 n")
    case (Some x)
    then have "length x = n" by (auto simp: peek_def split: if_splits)
    then show ?thesis using \<open>poke b 0 _ = Some c\<close> Some l assms by (simp add: rtp_to_network_def poke_def Let_def)
  qed (use Some in \<open>simp add: rtp_to_network_def\<close>)
qed (simp add: rtp_to_network_def)

lemma receive_media_overruns:
  assumes "network_to_srpp (srpp_msg s) (drop 28 buff) (n - 28) (getKey s) = Some (Returns st m)" "0 \<le> st" "is_srtp s = 0"
  shows "receive_media e buff n s = None"
proof (cases "srpp_to_rtp e m s")
  case None
  then show ?thesis using assms by (simp add: receive_media_def)
next
  case (Some p)
  obtain rtp t where p: "p = (rtp, t)" by force
  define c where "c = nat (72 - 4 * (15 - uint (ntohs (ucast (rh_cc (rtp_header rtp))))))"
  define n where "n = c + length (original_payload (encrypted_part (snd (unpad (decrypt_srpp m t)))))"
  have ge: "12 \<le> nat (72 - 4 * (15 - x))" if "0 \<le> x" for x :: int using that by simp
  have "12 \<le> c" unfolding c_def by (rule ge) simp
  then have "rtp_to_network rtp (map (stack e) [0..<n + 10]) n = None"
    by (intro rtp_to_network_short) (unfold c_def[symmetric], simp add: n_def)
  then show ?thesis using assms(2,3)
    unfolding receive_media_def assms(1) Some p Let_def bind.bind_lunit n2s_result.case prod.case c_def[symmetric] n_def[symmetric] by simp
qed

text \<open>A message that carries an SRTP packet is replaced by the packet as it was.\<close>

lemma receive_media_srtp:
  fixes s :: sqrkal
  assumes "is_srtp s \<noteq> 0" "length a = 28"
    "network_to_srpp (srpp_msg s) (wire @ r) (int (length wire)) (getKey s) = Some (Returns 0 m)"
    "carries_media hdr data (srpp_decrypt (encryption_key (session s)) m)" "length data \<le> length wire"
  obtains t r' where "receive_media e (a @ wire @ r) (28 + int (length wire)) s = Some (a @ data @ r', 28 + int (length data), t)"
    "inport t = inport s" "rtp_src t = rtp_src s" "raw_sent t = raw_sent s" "srpp_ttl t = srpp_ttl s"
proof -
  note c = assms(4)[unfolded carries_media_def]
  have u: "fst (unpad (decrypt_srpp m s)) = 1" "original_payload (encrypted_part (snd (unpad (decrypt_srpp m s)))) = data"
    using c by (simp_all add: unpad_def decrypt_srpp_def Let_def)
  have lm: "length (original_payload (encrypted_part m)) = length data" using c by (auto simp: srpp_decrypt_def Let_def)
  let ?v = "map (stack e) [0..<length data]"
  have b: "srpp_to_srtp_buff m ?v (length data) s = Some (0, data @ drop (length data) ?v)"
    by (simp add: srpp_to_srtp_buff_def split_beta u peek_def poke_def Let_def)
  have pb: "poke (a @ wire @ r) 28 data = Some (a @ data @ drop (length data) (wire @ r))" using assms(2,5) by (simp add: poke_def)
  have net0: "network_to_srpp (srpp_msg s) (drop 28 (a @ wire @ r)) (28 + int (length wire) - 28) (getKey s) = Some (Returns 0 m)"
    using assms(2,3) by simp
  let ?t = "s\<lparr>srpp_msg := snd (unpad (decrypt_srpp m s))\<rparr>"
  have "receive_media e (a @ wire @ r) (28 + int (length wire)) s = Some (a @ data @ drop (length data) (wire @ r), 28 + int (length data), ?t)"
    unfolding receive_media_def net0 bind.bind_lunit n2s_result.case Let_def lm using assms(1) b pb by simp
  then show ?thesis by (rule that) simp_all
qed

lemma port_nonzero: "0 < p \<Longrightarrow> p < 65536 \<Longrightarrow> htons (word_of_int p) \<noteq> 0"
proof
  assume p: "0 < p" "p < 65536" and "htons (word_of_int p) = 0"
  then have "htons (htons (word_of_int p)) = htons 0" by simp
  then have "(word_of_int p :: u16) = 0" by (simp add: htons_def[of 0] le16_def of_le16_def)
  then have "uint (word_of_int p :: u16) = 0" by simp
  then show False using p by (simp add: uint_word_of_int)
qed

text \<open>A packet of the phone on its way out.\<close>

lemma process_out_ok:
  fixes s :: sqrkal and d len e
  defines "k \<equiv> encryption_key (session s)" and "start \<equiv> if is_srtp s = 0 then 12 else 0 :: nat"
  defines "data \<equiv> arrives (stack e) (ucast k) (take len (drop start d))" and "hdr \<equiv> rtp_header_of_bytes (take 72 d)"
  assumes "udp_head a" "padding_inv s" "algos s = no_padding_options" "0 \<le> sint k" "rh_cc hdr = 0" "0 < len" "len < 1366"
    "1458 \<le> length d" "apply_srpp s = 1" "rtp_hdset s = 2" "0 < outport s" "outport s < 65536" "rtp_dest s \<noteq> 0"
  obtains t b wire where "process_out e h recv (a @ d) (28 + int start + int len) 20 s = Some t"
    "raw_sent t = raw_sent s @ [(rtp_dest s, htons (word_of_int (outport s)), b @ wire)]" "same_source a b"
    "dst_port b = word_of_int (outport s)" "length wire \<le> 1458"
    "\<And>m0 r. \<exists>m2. network_to_srpp m0 (wire @ r) (int (length wire)) (sint k) = Some (Returns 0 m2) \<and> carries_media hdr data (srpp_decrypt k m2)"
proof -
  have la: "length a = 28" using assms(5) by (simp add: udp_head_def)
  let ?n = "28 + int start + int len"
  define s1 where "s1 = s\<lparr>rtp_src := src_addr a, sent_count := sent_count s + 1, input_packet_sizes := input_packet_sizes s @ [?n]\<rparr>"
  have s1: "session s1 = session s" "algos s1 = algos s" "padding_inv s1 = padding_inv s" "is_srtp s1 = is_srtp s"
    "outport s1 = outport s" "rtp_dest s1 = rtp_dest s" "rtp_hdset s1 = rtp_hdset s" "raw_sent s1 = raw_sent s"
    using padding_inv_cong[of s1 s] by (simp_all add: s1_def)
  obtain wire t where w: "send_media e (a @ d) ?n s1 = Some (a @ wire @ drop (length wire) d, 28 + int (length wire), t)"
    "length wire \<le> 1458" "\<And>m0 r. \<exists>m2. network_to_srpp m0 (wire @ r) (int (length wire)) (sint k) = Some (Returns 0 m2)
        \<and> carries_media hdr data (srpp_decrypt k m2)"
    "outport t = outport s" "rtp_dest t = rtp_dest s" "rtp_hdset t = rtp_hdset s" "raw_sent t = raw_sent s"
    using send_media_ok[of a s1 d len e] la assms(6-12) unfolding k_def start_def data_def hdr_def s1 by blast
  let ?t = "t\<lparr>output_packet_sizes := output_packet_sizes t @ [28 + int (length wire)]\<rparr>"
  obtain b where b: "address_media 20 (outport s) (rtp_dest s) (28 + int (length wire)) ?t (a @ wire @ drop (length wire) d) = Some (b @ wire @ drop (length wire) d)"
    "same_source a b" "dst_port b = word_of_int (outport s)"
    by (rule address_media_ok[OF assms(5)])
  let ?u = "?t\<lparr>out_ip := rtp_dest s, out_port := htons (word_of_int (outport s))\<rparr>"
  have keep: "keep_header (b @ wire @ drop (length wire) d) ?t = Some ?t" using w(6) assms(14) by (simp add: keep_header_def)
  obtain b' c where f: "send_forward (b @ wire @ drop (length wire) d) (28 + int (length wire)) ?u
      = Some (c, ?u\<lparr>raw_sent := raw_sent ?u @ [(out_ip ?u, out_port ?u, b' @ wire)]\<rparr>)" "same_source b b'" "dst_port b' = dst_port b"
    by (rule send_forward_ok[OF same_source_head(1)[OF b(2) assms(5)], of ?u wire "28 + int (length wire)" "drop (length wire) d"])
      (use port_nonzero[OF assms(15,16)] w(2) in simp_all)
  have g: "get32 (a @ d) 12 = Some (src_addr a)" using la by (simp add: get32_def peek_def src_addr_def of_le32_def)
  have "process_out e h recv (a @ d) ?n 20 s = Some (?u\<lparr>raw_sent := raw_sent ?u @ [(out_ip ?u, out_port ?u, b' @ wire)]\<rparr>)"
    unfolding process_out_def g bind.bind_lunit Let_def using assms(13,15,17) w(1,4,5) b(1) keep f(1) by (simp add: s1_def)
  then show ?thesis by (rule that[where b = b' and wire = wire, OF _ _ same_source_trans[OF b(2) f(2)] _ w(2,3)]) (use w(7) b(3) f(3) in simp_all)
qed

text \<open>A media packet on its way in, when its message has been replaced by \<open>p\<close>.\<close>

lemma process_in_ok:
  fixes s :: sqrkal and a
  defines "s1 \<equiv> s\<lparr>rtp_dest := src_addr a, recv_count := recv_count s + 1\<rparr>"
  assumes "udp_head a" "network_to_srpp (srpp_msg s) d n k = Some (Returns 0 m)" "sh_srpp_signalling (srpp_header m) = 0"
    "apply_srpp s = 1" "rtp_hdset s = 2" "0 < recv_count s" "rtp_src s \<noteq> 0" "0 < inport s" "inport s < 65536" "length p \<le> 1472"
    "receive_media e (a @ d) (28 + n) s1 = Some (a @ p @ r', 28 + int (length p), t)"
    "inport t = inport s1" "rtp_src t = rtp_src s1" "raw_sent t = raw_sent s1"
  obtains u b where "process_in e h recv (a @ d) (28 + n) 20 source s = Some u"
    "raw_sent u = raw_sent s @ [(rtp_src s, htons (word_of_int (inport s)), b @ p)]" "length b = 28"
proof -
  have la: "length a = 28" using assms(2) by (simp add: udp_head_def)
  have g: "get32 (a @ d) 12 = Some (src_addr a)" using la by (simp add: get32_def peek_def src_addr_def of_le32_def)
  obtain kind where kind: "isSignalingMessage_buff d = Some kind" "kind \<noteq> 1" by (rule media_not_signalling[OF assms(3,4)])
  have keep: "keep_header (a @ d) s1 = Some s1" using assms(6) by (simp add: keep_header_def s1_def)
  obtain b where b: "address_media 20 (inport s) (rtp_src s) (28 + int (length p)) t (a @ p @ r') = Some (b @ p @ r')"
    "same_source a b" by (rule address_media_ok[OF assms(2)])
  let ?u = "t\<lparr>out_ip := rtp_src s, out_port := htons (word_of_int (inport s))\<rparr>"
  obtain b' c where f: "send_forward (b @ p @ r') (28 + int (length p)) ?u
      = Some (c, ?u\<lparr>raw_sent := raw_sent ?u @ [(out_ip ?u, out_port ?u, b' @ p)]\<rparr>)" "same_source b b'"
    by (rule send_forward_ok[OF same_source_head(1)[OF b(2) assms(2)], of ?u p "28 + int (length p)" r'])
      (use port_nonzero[OF assms(9,10)] assms(11) in simp_all)
  have k: "isSignalingMessage_buff (drop 28 (a @ d)) = Some kind" using kind(1) la by simp
  have v: "apply_srpp s1 = 1" "recv_count s1 \<noteq> 1" "inport t = inport s" "rtp_src t = rtp_src s" "raw_sent t = raw_sent s"
    using assms(5,7,13-15) by (simp_all add: s1_def)
  have "process_in e h recv (a @ d) (28 + n) 20 source s = Some (?u\<lparr>raw_sent := raw_sent ?u @ [(out_ip ?u, out_port ?u, b' @ p)]\<rparr>)"
    unfolding process_in_def g bind.bind_lunit Let_def s1_def[symmetric] k
    using kind(2) keep v b(1) f(1) assms(8,12) by simp
  moreover have "length b' = 28" using b(2) f(2) la by (simp add: same_source_def)
  ultimately show ?thesis by (intro that[of _ b']) (use v in auto)
qed

lemma process_in_overruns:
  fixes s :: sqrkal and a
  assumes "udp_head a" "network_to_srpp (srpp_msg s) d n (getKey s) = Some (Returns 0 m)" "sh_srpp_signalling (srpp_header m) = 0"
    "apply_srpp s = 1" "rtp_hdset s = 2" "0 < recv_count s" "is_srtp s = 0"
  shows "process_in e h recv (a @ d) (28 + n) 20 source s = None"
proof -
  define s1 where "s1 = s\<lparr>rtp_dest := src_addr a, recv_count := recv_count s + 1\<rparr>"
  have la: "length a = 28" using assms(1) by (simp add: udp_head_def)
  have g: "get32 (a @ d) 12 = Some (src_addr a)" using la by (simp add: get32_def peek_def src_addr_def of_le32_def)
  obtain kind where kind: "isSignalingMessage_buff d = Some kind" "kind \<noteq> 1" by (rule media_not_signalling[OF assms(2,3)])
  have k: "isSignalingMessage_buff (drop 28 (a @ d)) = Some kind" using kind(1) la by simp
  have keep: "keep_header (a @ d) s1 = Some s1" using assms(5) by (simp add: keep_header_def s1_def)
  have "receive_media e (a @ d) (28 + n) s1 = None"
    by (rule receive_media_overruns[of s1 _ _ 0 m]) (use assms(2,7) la in \<open>simp_all add: s1_def getKey_def\<close>)
  then show ?thesis
    unfolding process_in_def g bind.bind_lunit Let_def s1_def[symmetric] k using kind(2) keep assms(4,6) by (simp add: s1_def)
qed

section \<open>From phone to phone\<close>

text \<open>A program in whose call SRPP applies: it takes the packet with this header as media of its own phone, or of the
  other one.\<close>

definition sends_media :: "host \<Rightarrow> u8 list \<Rightarrow> sqrkal \<Rightarrow> bool" where
  "sends_media h a s \<longleftrightarrow> src_addr a \<in> set (local_addrs h) \<and> \<not> port_listed (sip_ports s) (src_port a) (dst_port a)
     \<and> port_listed (rtp_ports s) (src_port a) (dst_port a) \<and> apply_srpp s = 1 \<and> rtp_hdset s = 2
     \<and> 0 < outport s \<and> outport s < 65536 \<and> rtp_dest s \<noteq> 0 \<and> padding_inv s \<and> algos s = no_padding_options
     \<and> 0 \<le> sint (encryption_key (session s))"

definition receives_media :: "host \<Rightarrow> u32 \<Rightarrow> u16 \<Rightarrow> u16 \<Rightarrow> sqrkal \<Rightarrow> bool" where
  "receives_media h addr source destination s \<longleftrightarrow> addr \<notin> set (local_addrs h) \<and> \<not> port_listed (sip_ports s) source destination
     \<and> port_listed (rtp_ports s) source destination \<and> apply_srpp s = 1 \<and> rtp_hdset s = 2
     \<and> 0 < inport s \<and> inport s < 65536 \<and> rtp_src s \<noteq> 0 \<and> 0 < recv_count s"

lemma network_to_srpp_reads:
  assumes "network_to_srpp m b n k = Some r"
  obtains hb tag tr where "peek b 0 80 = Some hb" "peek b (n - 4) 4 = Some tag" "peek b (n - 12) 8 = Some tr"
proof -
  obtain hb where hb: "peek b 0 80 = Some hb" using assms by (cases "peek b 0 80") (simp_all add: network_to_srpp_def)
  obtain tag where tag: "peek b (n - 4) 4 = Some tag"
    using assms unfolding network_to_srpp_def hb bind.bind_lunit Let_def by (cases "peek b (n - 4) 4") simp_all
  obtain tr where tr: "peek b (n - 12) 8 = Some tr"
    using assms unfolding network_to_srpp_def hb tag bind.bind_lunit Let_def by (cases "peek b (n - 12) 8") simp_all
  show ?thesis by (rule that[OF hb tag tr])
qed

lemma network_to_srpp_size:
  assumes "network_to_srpp m b n k = Some (Returns 0 m2)"
  shows "80 + length (original_payload (encrypted_part m2)) \<le> length b"
proof -
  obtain hb tag tr where hb: "peek b 0 80 = Some hb" and tag: "peek b (n - 4) 4 = Some tag" and tr: "peek b (n - 12) 8 = Some tr"
    by (rule network_to_srpp_reads[OF assms])
  have p: "80 + length x \<le> length b" if "peek b 80 j = Some x" for j x using that by (auto simp: peek_def split: if_splits)
  show ?thesis
    using assms unfolding network_to_srpp_def hb tag tr Let_def bind.bind_lunit
    by (auto split: if_splits bind_splits dest!: p)
qed

text \<open>What the receiving program does with a packet whose data is a message that carries a packet of the phone.\<close>

lemma srtp_received:
  fixes r :: sqrkal
  assumes "udp_head b" "receives_media h (src_addr b) (src_port b) (dst_port b) r" "is_srtp r \<noteq> 0" "length data < 1366"
    "encryption_key (session r) = k"
    "\<And>m0 rest. \<exists>m. network_to_srpp m0 (wire @ rest) (int (length wire)) (sint k) = Some (Returns 0 m) \<and> carries_media hdr data (srpp_decrypt k m)"
  obtains r' v where "process_packet e h recv ((b @ wire) @ rest) (int (length (b @ wire))) r = Some r'"
    "raw_sent r' = raw_sent r @ [(rtp_src r, htons (word_of_int (inport r)), v)]" "drop 28 v = data"
proof -
  note rm = assms(2)[unfolded receives_media_def]
  let ?r = "r\<lparr>is_udp := 1, is_sip := 0, is_rtp := 1\<rparr>"
  define r1 where "r1 = ?r\<lparr>rtp_dest := src_addr b, recv_count := recv_count ?r + 1\<rparr>"
  have r1: "srpp_msg r1 = srpp_msg r" "session r1 = session r" "is_srtp r1 = is_srtp r" "getKey r1 = sint k"
    using assms(5) by (simp_all add: r1_def getKey_def)
  have lb: "length b = 28" using assms(1) by (simp add: udp_head_def)
  obtain m where m: "network_to_srpp (srpp_msg r) (wire @ rest) (int (length wire)) (sint k) = Some (Returns 0 m)"
    "carries_media hdr data (srpp_decrypt k m)" using assms(6) by blast
  obtain m1 where "network_to_srpp (srpp_msg r) (wire @ []) (int (length wire)) (sint k) = Some (Returns 0 m1)"
    "carries_media hdr data (srpp_decrypt k m1)" using assms(6) by blast
  then have big: "80 + length data \<le> length wire"
    using network_to_srpp_size[of "srpp_msg r" wire] by (auto simp: carries_media_def srpp_decrypt_def Let_def)
  obtain t r' where t: "receive_media e (b @ wire @ rest) (28 + int (length wire)) r1 = Some (b @ data @ r', 28 + int (length data), t)"
    "inport t = inport r1" "rtp_src t = rtp_src r1" "raw_sent t = raw_sent r1"
    by (rule receive_media_srtp[of r1 b wire rest m hdr data e]) (use assms(3,5) m r1 lb big in simp_all)
  have sig: "sh_srpp_signalling (srpp_header m) = 0" using m(2) by (simp add: carries_media_def srpp_decrypt_def Let_def)
  obtain u c where u: "process_in e h recv (b @ wire @ rest) (28 + int (length wire)) 20 (src_port b) ?r = Some u"
    "raw_sent u = raw_sent ?r @ [(rtp_src ?r, htons (word_of_int (inport ?r)), c @ data)]" "length c = 28"
    by (rule process_in_ok[OF assms(1), of ?r "wire @ rest" "int (length wire)" "sint k" m data e r' t h recv "src_port b"])
      (use m(1) sig rm assms(4) t in \<open>simp_all add: r1_def\<close>)
  have "process_packet e h recv (b @ wire @ rest) (28 + int (length wire)) r = Some u"
    using process_packet_udp(2)[OF assms(1), of "28 + int (length wire)" r e h recv "wire @ rest"] rm u(1) by simp
  then show ?thesis using u(2,3) lb by (intro that) auto
qed

lemma rtp_received:
  fixes r :: sqrkal
  assumes "udp_head b" "receives_media h (src_addr b) (src_port b) (dst_port b) r" "is_srtp r = 0" "encryption_key (session r) = k"
    "\<And>m0 rest. \<exists>m. network_to_srpp m0 (wire @ rest) (int (length wire)) (sint k) = Some (Returns 0 m) \<and> carries_media hdr data (srpp_decrypt k m)"
  shows "process_packet e h recv ((b @ wire) @ rest) (int (length (b @ wire))) r = None"
proof -
  note rm = assms(2)[unfolded receives_media_def]
  let ?r = "r\<lparr>is_udp := 1, is_sip := 0, is_rtp := 1\<rparr>"
  have lb: "length b = 28" using assms(1) by (simp add: udp_head_def)
  obtain m where m: "network_to_srpp (srpp_msg r) (wire @ rest) (int (length wire)) (sint k) = Some (Returns 0 m)"
    "carries_media hdr data (srpp_decrypt k m)" using assms(5) by blast
  have sig: "sh_srpp_signalling (srpp_header m) = 0" using m(2) by (simp add: carries_media_def srpp_decrypt_def Let_def)
  have "process_in e h recv (b @ wire @ rest) (28 + int (length wire)) 20 (src_port b) ?r = None"
    by (rule process_in_overruns[OF assms(1), of ?r "wire @ rest" "int (length wire)" m])
      (use m(1) sig rm assms(3,4) in \<open>simp_all add: getKey_def\<close>)
  then show ?thesis
    using process_packet_udp(2)[OF assms(1), of "28 + int (length wire)" r e h recv "wire @ rest"] rm lb by simp
qed

text \<open>A packet of the phone as it leaves the program.\<close>

lemma media_sent:
  fixes s :: sqrkal and d len e
  defines "k \<equiv> encryption_key (session s)" and "start \<equiv> if is_srtp s = 0 then 12 else 0 :: nat"
  defines "data \<equiv> arrives (stack e) (ucast k) (take len (drop start d))" and "hdr \<equiv> rtp_header_of_bytes (take 72 d)"
  assumes "udp_head a" "sends_media hs a s" "rh_cc hdr = 0" "0 < len" "len < 1366" "1458 \<le> length d"
  obtains s' b wire where "process_packet e hs recv (a @ d) (28 + int start + int len) s = Some s'"
    "raw_sent s' = raw_sent s @ [(rtp_dest s, htons (word_of_int (outport s)), b @ wire)]" "same_source a b"
    "dst_port b = word_of_int (outport s)" "length wire \<le> 1458"
    "\<forall>m0 r. \<exists>m2. network_to_srpp m0 (wire @ r) (int (length wire)) (sint k) = Some (Returns 0 m2) \<and> carries_media hdr data (srpp_decrypt k m2)"
proof -
  note sm = assms(6)[unfolded sends_media_def]
  let ?s = "s\<lparr>is_udp := 1, is_sip := 0, is_rtp := 1\<rparr>"
  have inv: "padding_inv ?s" using sm padding_inv_cong[of ?s s] by simp
  have k0: "encryption_key (session ?s) = k" and st0: "(if is_srtp ?s = 0 then 12 else 0) = start" by (simp_all add: k_def start_def)
  have kpos: "0 \<le> sint k" using sm by (simp add: k_def)
  obtain s' b wire where s': "process_out e hs recv (a @ d) (28 + int start + int len) 20 ?s = Some s'"
    "raw_sent s' = raw_sent ?s @ [(rtp_dest ?s, htons (word_of_int (outport ?s)), b @ wire)]" "same_source a b"
    "dst_port b = word_of_int (outport ?s)" "length wire \<le> 1458"
    "\<And>m0 r. \<exists>m2. network_to_srpp m0 (wire @ r) (int (length wire)) (sint k) = Some (Returns 0 m2) \<and> carries_media hdr data (srpp_decrypt k m2)"
    by (rule process_out_ok[OF assms(5) inv, of d len e hs recv, unfolded k0 st0, folded hdr_def data_def])
      (use sm assms(7-10) kpos in simp_all)
  have "process_packet e hs recv (a @ d) (28 + int start + int len) s = Some s'"
    using process_packet_udp(2)[OF assms(5), of "28 + int start + int len" s e hs recv d] sm s'(1) by simp
  then show ?thesis by (rule that[OF _ _ s'(3) _ s'(5)]) (use s'(2,4,6) in simp_all)
qed

text \<open>C2. An RTP packet of a call in which SRPP applies at both ends, without CSRC entries and with 1 to 1365 octets of payload,
  under a key that is not negative and the default padding options, leaves its program as one padded message for the other endpoint.
  Whoever reads the message with the key gets the fields of the header and the payload, up to the first octet of it that
  equals the low octet of the key; behind that one come octets of the sender's stack. But the program at the other end
  does not get it to its phone: handling the message, whatever its buffer holds behind it, it writes outside of an array.\<close>

theorem rtp_packet_lost:
  assumes "udp_head a" "sends_media hs a s" "is_srtp s = 0" "rh_cc (rtp_header_of_bytes (take 72 d)) = 0" "0 < len" "len < 1366"
    and "1458 \<le> length d" "receives_media hr (src_addr a) (src_port a) (word_of_int (outport s)) r" "is_srtp r = 0"
    and "encryption_key (session r) = encryption_key (session s)"
  shows "\<exists>s' b wire. process_packet e hs recv (a @ d) (40 + int len) s = Some s'
    \<and> raw_sent s' = raw_sent s @ [(rtp_dest s, htons (word_of_int (outport s)), b @ wire)] \<and> length b = 28 \<and> length wire \<le> 1458
    \<and> (\<forall>m0 rest. \<exists>m. network_to_srpp m0 (wire @ rest) (int (length wire)) (getKey s) = Some (Returns 0 m)
         \<and> carries_media (rtp_header_of_bytes (take 72 d))
             (arrives (stack e) (ucast (encryption_key (session s))) (take len (drop 12 d))) (srpp_decrypt (encryption_key (session s)) m))
    \<and> (\<forall>rest. process_packet e' hr recv' ((b @ wire) @ rest) (int (length (b @ wire))) r = None)"
proof -
  let ?k = "encryption_key (session s)" let ?data = "arrives (stack e) (ucast ?k) (take len (drop 12 d))"
  obtain s' b wire where s': "process_packet e hs recv (a @ d) (40 + int len) s = Some s'"
    "raw_sent s' = raw_sent s @ [(rtp_dest s, htons (word_of_int (outport s)), b @ wire)]" "same_source a b"
    "dst_port b = word_of_int (outport s)" "length wire \<le> 1458"
    "\<forall>m0 r. \<exists>m2. network_to_srpp m0 (wire @ r) (int (length wire)) (sint ?k) = Some (Returns 0 m2)
       \<and> carries_media (rtp_header_of_bytes (take 72 d)) ?data (srpp_decrypt ?k m2)"
    using media_sent[OF assms(1,2,4-7), of e recv] assms(3) by (simp add: if_P) blast
  note hb = same_source_head[OF s'(3) assms(1)]
  have rm: "receives_media hr (src_addr b) (src_port b) (dst_port b) r" using assms(8) s'(4) hb by simp
  have "process_packet e' hr recv' ((b @ wire) @ rest) (int (length (b @ wire))) r = None" for rest
    by (rule rtp_received[OF hb(1) rm assms(9,10) s'(6)[rule_format]])
  moreover have "length b = 28" using hb(1) by (simp add: udp_head_def)
  ultimately show ?thesis using s' unfolding getKey_def by blast
qed

text \<open>C3. An SRTP packet of a call in which SRPP applies at both ends is carried whole, as the payload of a message, from phone to
  phone: of 1 to 1365 octets, with a CSRC count of 0, under a key that is not negative and the default padding options. The other
  program, whatever its buffer holds behind the message, sends exactly one packet on to its phone. It is octet for octet
  the packet that left the first phone if none of its octets equals the low octet of the key; otherwise it is so up to the
  first such octet, and the octets behind that one come from the stack of the sending program.\<close>

theorem srtp_phone_to_phone:
  assumes "udp_head a" "sends_media hs a s" "is_srtp s = 1" "rh_cc (rtp_header_of_bytes (take 72 d)) = 0" "0 < len" "len < 1366"
    and "1458 \<le> length d" "receives_media hr (src_addr a) (src_port a) (word_of_int (outport s)) r" "is_srtp r = 1"
    and "encryption_key (session r) = encryption_key (session s)"
  shows "\<exists>s' w. process_packet e hs recv (a @ d) (28 + int len) s = Some s'
    \<and> raw_sent s' = raw_sent s @ [(rtp_dest s, htons (word_of_int (outport s)), w)]
    \<and> (\<forall>rest. \<exists>r' v. process_packet e' hr recv' (w @ rest) (int (length w)) r = Some r'
          \<and> raw_sent r' = raw_sent r @ [(rtp_src r, htons (word_of_int (inport r)), v)]
          \<and> drop 28 v = arrives (stack e) (ucast (encryption_key (session s))) (take len d)
          \<and> (ucast (encryption_key (session s)) \<notin> set (take len d) \<longrightarrow> drop 28 v = take len d))"
proof -
  let ?k = "encryption_key (session s)" let ?data = "arrives (stack e) (ucast ?k) (take len d)"
  have st: "(if is_srtp s = 0 then 12 else 0 :: nat) = 0" and n: "28 + int 0 + int len = 28 + int len" using assms(3) by simp_all
  obtain s' b wire where s': "process_packet e hs recv (a @ d) (28 + int len) s = Some s'"
    "raw_sent s' = raw_sent s @ [(rtp_dest s, htons (word_of_int (outport s)), b @ wire)]" "same_source a b"
    "dst_port b = word_of_int (outport s)" "length wire \<le> 1458"
    "\<forall>m0 r. \<exists>m2. network_to_srpp m0 (wire @ r) (int (length wire)) (sint ?k) = Some (Returns 0 m2)
       \<and> carries_media (rtp_header_of_bytes (take 72 d)) ?data (srpp_decrypt ?k m2)"
    by (rule media_sent[OF assms(1,2,4-7), of e recv, unfolded st drop_0 n])
  note hb = same_source_head[OF s'(3) assms(1)]
  have rm: "receives_media hr (src_addr b) (src_port b) (dst_port b) r" using assms(8) s'(4) hb by simp
  have l: "length ?data < 1366" "is_srtp r \<noteq> 0" using assms(6,9) by simp_all
  have "\<exists>r' v. process_packet e' hr recv' ((b @ wire) @ rest) (int (length (b @ wire))) r = Some r'
       \<and> raw_sent r' = raw_sent r @ [(rtp_src r, htons (word_of_int (inport r)), v)] \<and> drop 28 v = ?data
       \<and> (ucast ?k \<notin> set (take len d) \<longrightarrow> drop 28 v = take len d)" for rest
    by (rule srtp_received[OF hb(1) rm l(2,1) assms(10) s'(6)[rule_format], of e' recv' rest]) (auto simp: arrives_all)
  then show ?thesis using s'(1,2) by blast
qed

text \<open>C40. The array that the program reserves for a received RTP packet is always too small: whatever message arrives, if it
  is read at all, writing the packet leaves the array.\<close>

theorem received_rtp_overruns:
  assumes "network_to_srpp (srpp_msg s) (drop 28 buff) (n - 28) (getKey s) = Some (Returns st m)" "0 \<le> st" "is_srtp s = 0"
  shows "receive_media e buff n s = None"
  by (rule receive_media_overruns[OF assms])

section \<open>Samples\<close>

definition sample_head :: "u8 list" where
  "sample_head = [0x45, 0, 0, 0, 0, 0, 0, 0, 64, 17, 0, 0, 10, 0, 0, 1, 10, 0, 0, 2, 15, 160, 23, 112, 0, 0, 0, 0]"

definition sample_data :: "u8 list" where "sample_data = 0x80 # 8 # replicate 1498 1"

definition sample_call :: "int \<Rightarrow> int \<Rightarrow> int \<Rightarrow> sqrkal" where
  "sample_call srtp inp outp = sample_sqrkal\<lparr>apply_srpp := 1, rtp_hdset := 2, inport := inp, outport := outp, rtp_src := 1, rtp_dest := 2,
     rtp_ports := [5000, inp, outp], recv_count := 1, is_srtp := srtp\<rparr>"

lemma sample_head_fields:
  "udp_head sample_head" "src_port sample_head = 4000" "dst_port sample_head = 6000" "src_addr sample_head = 0x0100000a"
  by (simp_all add: udp_head_def sample_head_def UDP_PROTOCOL_def src_port_def dst_port_def src_addr_def htons_def le16_def of_le16_def of_le32_def)

lemma sample_inv: "padding_inv (sample_call k i out)" "algos (sample_call k i out) = no_padding_options"
  "encryption_key (session (sample_call k i out)) = 1655"
  using sample_state_inv padding_inv_cong[of "sample_call k i out" sample_state]
  by (simp_all add: sample_call_def sample_sqrkal_def sqrkal_start_def srpp.defs sample_state_def)

lemma sample_sends: "sends_media (sample_host\<lparr>local_addrs := [0x0100000a]\<rparr>) sample_head (sample_call k 4000 6000)"
  by (simp add: sends_media_def sample_head_fields sample_inv) (simp add: sample_call_def sample_sqrkal_def sqrkal_start_def srpp.defs)

lemma sample_receives: "receives_media (sample_host\<lparr>local_addrs := []\<rparr>) 0x0100000a 4000 6000 (sample_call k 6000 4000)"
  by (simp add: receives_media_def) (simp add: sample_call_def sample_sqrkal_def sqrkal_start_def srpp.defs)

lemma sample_cc: "rh_cc (rtp_header_of_bytes (take 72 sample_data)) = 0" "length sample_data = 1500" "119 \<notin> set sample_data"
  by (simp_all add: rtp_header_of_bytes_def Let_def sample_data_def of_le16_def)

lemma sample_octet: "(ucast (1655 :: u32) :: u8) = 119"
  by code_simp

lemma sample_sel [simp]:
  "outport (sample_call k i out) = out" "inport (sample_call k i out) = i" "rtp_dest (sample_call k i out) = 2"
  "rtp_src (sample_call k i out) = 1" "is_srtp (sample_call k i out) = k" "raw_sent (sample_call k i out) = []"
  by (simp_all add: sample_call_def sample_sqrkal_def sqrkal_start_def srpp.defs)

abbreviation sample_sender :: host where "sample_sender \<equiv> sample_host\<lparr>local_addrs := [0x0100000a]\<rparr>"
abbreviation sample_receiver :: host where "sample_receiver \<equiv> sample_host\<lparr>local_addrs := []\<rparr>"

lemma sample_key: "ucast (encryption_key (session (sample_call k i out))) \<notin> set (take n (drop m sample_data))"
  using sample_cc(3) unfolding sample_inv sample_octet by (auto dest!: in_set_takeD in_set_dropD)

lemma sample_receives': "receives_media sample_receiver (src_addr sample_head) (src_port sample_head)
    (word_of_int (outport (sample_call k 4000 6000))) (sample_call k 6000 4000)"
  using sample_receives[of k] by (simp add: sample_head_fields)

theorem rtp_packet_lost_witness:
  "\<exists>s' b wire. process_packet zero_env sample_sender (\<lambda>_. None) (sample_head @ sample_data) 200 (sample_call 0 4000 6000) = Some s'
    \<and> raw_sent s' = [(2, htons 6000, b @ wire)]
    \<and> process_packet zero_env sample_receiver (\<lambda>_. None) ((b @ wire) @ [1, 2, 3]) (int (length (b @ wire))) (sample_call 0 6000 4000) = None"
  using rtp_packet_lost[OF sample_head_fields(1) sample_sends[of 0] sample_sel(5) sample_cc(1), of 160 sample_receiver "sample_call 0 6000 4000" zero_env
      "\<lambda>_. None" zero_env "\<lambda>_. None"] sample_cc(2) sample_receives'[of 0]
  by (simp add: sample_inv) blast

theorem srtp_phone_to_phone_witness:
  "\<exists>s' w r' v. process_packet zero_env sample_sender (\<lambda>_. None) (sample_head @ sample_data) 200 (sample_call 1 4000 6000) = Some s'
    \<and> raw_sent s' = [(2, htons 6000, w)]
    \<and> process_packet zero_env sample_receiver (\<lambda>_. None) (w @ [1, 2, 3]) (int (length w)) (sample_call 1 6000 4000) = Some r'
    \<and> raw_sent r' = [(1, htons 6000, v)] \<and> drop 28 v = take 172 sample_data"
  using srtp_phone_to_phone[OF sample_head_fields(1) sample_sends[of 1] sample_sel(5) sample_cc(1), of 172 sample_receiver "sample_call 1 6000 4000" zero_env
      "\<lambda>_. None" zero_env "\<lambda>_. None"] sample_cc(2) sample_receives'[of 1] sample_key[of 1 4000 6000 172 0]
  by (simp add: sample_inv) blast

theorem received_rtp_overruns_witness:
  "receive_media zero_env (replicate 108 0 @ [119, 6] @ replicate 10 0) 120 (sample_call 0 6000 4000) = None"
proof -
  have "case network_to_srpp (sample_msg 0 [] []) (replicate 80 0 @ [119, 6] @ replicate 10 0) 92 1655 of
      Some (Returns st m) \<Rightarrow> 0 \<le> st | _ \<Rightarrow> False" by code_simp
  then obtain st m where "network_to_srpp (sample_msg 0 [] []) (replicate 80 0 @ [119, 6] @ replicate 10 0) 92 1655 = Some (Returns st m)" "0 \<le> st"
    by (auto split: option.splits n2s_result.splits)
  moreover have "srpp_msg (sample_call 0 6000 4000) = sample_msg 0 [] []" "getKey (sample_call 0 6000 4000) = 1655"
    by (simp_all add: sample_call_def sample_sqrkal_def sqrkal_start_def srpp.defs getKey_def sample_state_def)
  ultimately show ?thesis
    using received_rtp_overruns[of "sample_call 0 6000 4000" "replicate 108 0 @ [119, 6] @ replicate 10 0" 120 st m zero_env]
    by simp
qed

end
