(* ===== verification/Sqrkal_Program.thy ===== *)
theory Sqrkal_Program
  imports Sqrkal_Media
begin

text \<open>
  The interception program as a whole: what every operation keeps of its variables, whatever messages arrive while
  libSRPP waits, and the states that the program can reach through packets, timer ticks and interrupts.
\<close>

section \<open>What the program keeps\<close>

text \<open>A relation between the states before and after a call of the receive operation, which does not depend on the
  variables of libSRPP, also holds for every operation of libSRPP that waits for messages.\<close>

lemma more_simps [simp]:
  "srpp.more (set_signals f s) = srpp.more s" "srpp.more (snd (signalling_message e opts kind s)) = srpp.more s"
  "srpp.more (setKey key s) = srpp.more s" "srpp.more (session_stop s) = srpp.more s" "srpp.more (session_start s) = srpp.more s"
  "srpp.more (disable_srpp s) = srpp.more s" "srpp.more (enable_srpp s) = srpp.more s" "srpp.more (lower_maxpacketsize v s) = srpp.more s"
  "srpp.more (set_starting_sequenceno n s) = srpp.more s"
  by (simp_all add: set_signals_def signalling_message_def setKey_def session_stop_def pauseTimer_def session_start_def start_silence_def
      start_packet_def disable_srpp_def enable_srpp_def lower_maxpacketsize_def set_starting_sequenceno_def split_beta Let_def
      pause_packet_def pause_silence_def)

lemma more_send: "send_message e m s = Some (r, t) \<Longrightarrow> srpp.more t = srpp.more s"
  by (auto simp: send_message_def Let_def split: if_splits bind_splits)

lemma more_hellos: "send_hellos e opts n s = Some t \<Longrightarrow> srpp.more t = srpp.more s"
proof (induction n arbitrary: s)
  case (Suc n)
  then show ?case by (auto simp: split_beta Let_def split: bind_splits dest!: more_send Suc.IH)
qed simp

lemma more_bye_ack: "sendByeAckMessage e s = Some (r, t) \<Longrightarrow> srpp.more t = srpp.more s"
  by (auto simp: sendByeAckMessage_def Let_def split_beta split: if_splits bind_splits dest!: more_send)

locale receive_relation =
  fixes recv :: "'d receiver" and R :: "'d \<Rightarrow> 'd \<Rightarrow> bool"
  assumes refl: "R x x" and trans: "R x y \<Longrightarrow> R y z \<Longrightarrow> R x z"
    and kept: "recv s = Some (r, t) \<Longrightarrow> R (srpp.more s) (srpp.more t)"
begin

lemma hello_ack: "sendHelloAckMessage e recv s = Some (r, t) \<Longrightarrow> R (srpp.more s) (srpp.more t)"
  by (auto simp: sendHelloAckMessage_def Let_def split_beta refl split: if_splits bind_splits dest!: more_send kept)

lemma received_hello: "receivedHelloMessage e recv s = Some (r, t) \<Longrightarrow> R (srpp.more s) (srpp.more t)"
  by (auto simp: receivedHelloMessage_def dest: hello_ack)

lemma received_hello_ack: "receivedHelloAckMessage e recv s = Some (r, t) \<Longrightarrow> R (srpp.more s) (srpp.more t)"
  by (auto simp: receivedHelloAckMessage_def Let_def refl split: if_splits bind_splits dest!: hello_ack)

lemma waiting: "wait_loop recv flag n s = Some (r, t) \<Longrightarrow> R (srpp.more s) (srpp.more t)"
proof (induction n arbitrary: s)
  case 0
  then show ?case by (auto simp: refl split: if_splits bind_splits dest!: kept)
next
  case (Suc n)
  then show ?case by (auto simp: refl split: if_splits bind_splits dest!: kept intro: trans)
qed

lemma bye: "sendByeMessage e recv s = Some (r, t) \<Longrightarrow> R (srpp.more s) (srpp.more t)"
  by (auto simp: sendByeMessage_def Let_def split_beta split: bind_splits dest!: more_send kept waiting intro: trans)

lemma hello: "sendHelloMessage e recv s = Some (r, t) \<Longrightarrow> R (srpp.more s) (srpp.more t)"
  by (auto simp: sendHelloMessage_def Let_def split_beta refl split: if_splits bind_splits dest!: more_hellos kept waiting intro: trans)

lemma stopping: "stop_session e recv s = Some (r, t) \<Longrightarrow> R (srpp.more s) (srpp.more t)"
  by (auto simp: stop_session_def Let_def refl split: if_splits bind_splits dest!: bye)

lemma starting: "start_session e recv s = Some (r, t) \<Longrightarrow> R (srpp.more s) (srpp.more t)"
  by (auto simp: start_session_def signaling_def refl split: if_splits bind_splits dest!: hello)

lemma verifying: "verifySignalling e recv b s = Some (r, t) \<Longrightarrow> R (srpp.more s) (srpp.more t)"
  by (auto simp: verifySignalling_def Let_def refl split: if_splits bind_splits dest!: stopping)

lemma handling: "handle_signalling e recv m s = Some t \<Longrightarrow> R (srpp.more s) (srpp.more t)"
  by (auto simp: handle_signalling_def receivedByeMessage_def receivedByeAckMessage_def Let_def refl split: if_splits bind_splits
      dest!: received_hello received_hello_ack more_bye_ack)

lemma processing: "processReceivedData e recv b n s = Some (r, t) \<Longrightarrow> R (srpp.more s) (srpp.more t)"
  by (auto simp: processReceivedData_def Let_def split_beta refl split: if_splits bind_splits dest!: verifying handling intro: trans)

end

text \<open>The variables of the program that only grow, or keep their shape.\<close>

type_synonym view = "int list \<times> int list \<times> (u32 \<times> u16 \<times> u8 list) list \<times> nat \<times> u8 list \<times> int \<times> u8 list list"

definition view :: "sqrkal \<Rightarrow> view" where
  "view s = (sip_ports s, rtp_ports s, raw_sent s, length (queue s), rtp_hdr s, rtp_hdset s, commands s)"

definition grows :: "view \<Rightarrow> view \<Rightarrow> bool" where
  "grows x y \<longleftrightarrow> (case (x, y) of ((sp, rp, raw, q, h, hs, cs), (sp', rp', raw', q', h', hs', cs')) \<Rightarrow>
     sp' = sp \<and> (\<exists>prs. rp' = rp @ concat (map (\<lambda>(i, out). [i, out]) prs)) \<and> (\<exists>ms. raw' = raw @ ms) \<and> q' \<le> q
     \<and> (length h = 40 \<longrightarrow> length h' = 40) \<and> (hs \<in> {0, 1, 2} \<longrightarrow> hs' \<in> {0, 1, 2}) \<and> (\<exists>xs. cs' = cs @ xs))"

lemma grows_refl [simp]: "grows x x"
  by (auto simp: grows_def intro: exI[of _ "[]"])

lemma grows_trans:
  assumes "grows x y" "grows y z"
  shows "grows x z"
proof -
  obtain sp rp raw q h hs cs where x: "x = (sp, rp, raw, q, h, hs, cs)" by (rule prod_cases7)
  obtain sp1 rp1 raw1 q1 h1 hs1 cs1 where y: "y = (sp1, rp1, raw1, q1, h1, hs1, cs1)" by (rule prod_cases7)
  obtain sp2 rp2 raw2 q2 h2 hs2 cs2 where z: "z = (sp2, rp2, raw2, q2, h2, hs2, cs2)" by (rule prod_cases7)
  note a = assms[unfolded grows_def x y z prod.case]
  obtain p1 p2 where "rp1 = rp @ concat (map (\<lambda>(i, out). [i, out]) p1)" "rp2 = rp1 @ concat (map (\<lambda>(i, out). [i, out]) p2)"
    using a by blast
  then have "rp2 = rp @ concat (map (\<lambda>(i, out). [i, out]) (p1 @ p2))" by simp
  then have "\<exists>prs. rp2 = rp @ concat (map (\<lambda>(i, out). [i, out]) prs)" by blast
  moreover obtain m1 m2 where "raw1 = raw @ m1" "raw2 = raw1 @ m2" using a by blast
  moreover obtain c1 c2 where "cs1 = cs @ c1" "cs2 = cs1 @ c2" using a by blast
  moreover have "sp2 = sp" using a by blast
  moreover have "q2 \<le> q" using a by (meson le_trans)
  moreover have "length h = 40 \<longrightarrow> length h2 = 40" using a by blast
  moreover have "hs \<in> {0, 1, 2} \<longrightarrow> hs2 \<in> {0, 1, 2}" using a by blast
  ultimately show ?thesis unfolding grows_def x z prod.case by simp
qed

lemma view_upd [simp]:
  "view (s\<lparr>udp_added := w_udp_added\<rparr>) = view s" "view (s\<lparr>tcp_added := w_tcp_added\<rparr>) = view s"
  "view (s\<lparr>rtp_added := w_rtp_added\<rparr>) = view s" "view (s\<lparr>is_discovering := w_is_discovering\<rparr>) = view s"
  "view (s\<lparr>is_sip := w_is_sip\<rparr>) = view s" "view (s\<lparr>is_rtp := w_is_rtp\<rparr>) = view s"
  "view (s\<lparr>is_udp := w_is_udp\<rparr>) = view s" "view (s\<lparr>is_srtp := w_is_srtp\<rparr>) = view s"
  "view (s\<lparr>is_srpp := w_is_srpp\<rparr>) = view s" "view (s\<lparr>apply_srpp := w_apply_srpp\<rparr>) = view s"
  "view (s\<lparr>is_session_on := w_is_session_on\<rparr>) = view s" "view (s\<lparr>inport := w_inport\<rparr>) = view s"
  "view (s\<lparr>outport := w_outport\<rparr>) = view s" "view (s\<lparr>saw_invite_already := w_saw_invite_already\<rparr>) = view s"
  "view (s\<lparr>saw_bye_already := w_saw_bye_already\<rparr>) = view s" "view (s\<lparr>sent_invite := w_sent_invite\<rparr>) = view s"
  "view (s\<lparr>saw_ack := w_saw_ack\<rparr>) = view s" "view (s\<lparr>saw_200ok := w_saw_200ok\<rparr>) = view s"
  "view (s\<lparr>recv_count := w_recv_count\<rparr>) = view s" "view (s\<lparr>sent_count := w_sent_count\<rparr>) = view s"
  "view (s\<lparr>out_ip := w_out_ip\<rparr>) = view s" "view (s\<lparr>out_port := w_out_port\<rparr>) = view s"
  "view (s\<lparr>last_out_dest := w_last_out_dest\<rparr>) = view s" "view (s\<lparr>rtp_dest := w_rtp_dest\<rparr>) = view s"
  "view (s\<lparr>rtp_src := w_rtp_src\<rparr>) = view s" "view (s\<lparr>frag_id := w_frag_id\<rparr>) = view s"
  "view (s\<lparr>srpp_ttl := w_srpp_ttl\<rparr>) = view s" "view (s\<lparr>srpp_ttl_s := w_srpp_ttl_s\<rparr>) = view s"
  "view (s\<lparr>ssrc_value := w_ssrc_value\<rparr>) = view s" "view (s\<lparr>rtp_msg := w_rtp_msg\<rparr>) = view s"
  "view (s\<lparr>srpp_msg := w_srpp_msg\<rparr>) = view s" "view (s\<lparr>input_packet_sizes := w_input_packet_sizes\<rparr>) = view s"
  "view (s\<lparr>output_packet_sizes := w_output_packet_sizes\<rparr>) = view s" "view (s\<lparr>sizes_file := w_sizes_file\<rparr>) = view s"
  "view (s\<lparr>flushed := w_flushed\<rparr>) = view s"
  by (simp_all add: view_def)

lemma view_libsrpp: "srpp.more t = srpp.more (s :: sqrkal) \<Longrightarrow> view t = view s"
  by (cases s; cases t; simp add: view_def)

lemma grows_raw: "grows (view s) (view (s\<lparr>raw_sent := raw_sent s @ ms\<rparr>))"
  by (auto simp: grows_def view_def intro: exI[of _ "[]"])

lemma grows_ports: "grows (view s) (view (s\<lparr>rtp_ports := rtp_ports s @ [i, out]\<rparr>))"
  by (auto simp: grows_def view_def intro: exI[of _ "[]"] exI[of _ "[(i, out)]"])

lemma grows_header: "length (rtp_hdr s) = 40 \<longrightarrow> length b = 40 \<Longrightarrow> n \<in> {0, 1, 2} \<Longrightarrow> grows (view s) (view (s\<lparr>rtp_hdr := b, rtp_hdset := n\<rparr>))"
  by (auto simp: grows_def view_def intro: exI[of _ "[]"])

lemma grows_commands: "grows (view s) (view (s\<lparr>commands := commands s @ cs\<rparr>))"
  by (auto simp: grows_def view_def intro: exI[of _ "[]"])

text \<open>A computation that has a result has one with this property.\<close>

definition yields :: "'a option \<Rightarrow> ('a \<Rightarrow> bool) \<Rightarrow> bool" where
  "yields m P \<longleftrightarrow> (\<forall>x. m = Some x \<longrightarrow> P x)"

lemma yieldsD: "yields m P \<Longrightarrow> m = Some x \<Longrightarrow> P x"
  by (simp add: yields_def)

lemma yields_bind: "(\<And>x. m = Some x \<Longrightarrow> yields (f x) P) \<Longrightarrow> yields (m \<bind> f) P"
  by (auto simp: yields_def split: bind_splits)

lemma yields_simps: "yields (Some x) P = P x" "yields None P = True"
  by (simp_all add: yields_def)

lemma yields_if: "(c \<Longrightarrow> yields m P) \<Longrightarrow> (\<not> c \<Longrightarrow> yields n P) \<Longrightarrow> yields (if c then m else n) P"
  by simp

lemma yields_prod: "(\<And>a b. p = (a, b) \<Longrightarrow> yields (f a b) P) \<Longrightarrow> yields (case p of (a, b) \<Rightarrow> f a b) P"
  by (cases p) simp

lemma yields_Some: "P x \<Longrightarrow> yields (Some x) P"
  by (simp add: yields_def)

lemma yields_None: "yields None P"
  by (simp add: yields_def)

lemmas yields_rules = yields_bind yields_prod yields_if yields_Some yields_None

lemma send_rtp_message_grows: "send_rtp_message e b q s = Some t \<Longrightarrow> grows (view s) (view t)"
proof -
  have g: "grows (view s) (view (s\<lparr>rtp_hdr := hdr, out_ip := ip, out_port := port, raw_sent := raw_sent s @ [m]\<rparr>))"
    if "poke (rtp_hdr s) 28 bs = Some hdr" for bs hdr ip port m
    using length_poke[OF that] by (auto simp: grows_def view_def intro: exI[of _ "[]"])
  have "yields (send_rtp_message e b q s) (\<lambda>t. grows (view s) (view t))"
    unfolding send_rtp_message_def Let_def by (intro yields_rules g) (simp_all only: grows_refl)
  then show "send_rtp_message e b q s = Some t \<Longrightarrow> grows (view s) (view t)" by (rule yieldsD)
qed

lemma send_all_grows: "send_all e ms s = Some t \<Longrightarrow> grows (view s) (view t)"
  by (induction e ms s rule: send_all.induct) (auto split: bind_splits dest!: send_rtp_message_grows intro: grows_trans)

lemma flush_grows: "flush e s = Some t \<Longrightarrow> grows (view s) (view t)"
  by (auto simp: flush_def split: bind_splits dest!: send_all_grows)

lemma send_raw_grows: "send_raw_message b n s = Some t \<Longrightarrow> grows (view s) (view t)"
  by (auto simp: send_raw_message_def split: if_splits bind_splits intro: grows_raw)

lemma send_fragmented_grows: "send_fragmented_message b n s = Some (c, t) \<Longrightarrow> grows (view s) (view t)"
  by (auto simp: send_fragmented_message_def Let_def split: bind_splits dest!: send_raw_grows intro: grows_trans)

lemma send_forward_grows: "send_forward b n s = Some (c, t) \<Longrightarrow> grows (view s) (view t)"
  by (auto simp: send_forward_def split: if_splits bind_splits dest!: send_raw_grows send_fragmented_grows)

lemma firewall_grows: "grows (view s) (view (snd (add_firewall_rule h r s)))"
  by (simp add: add_firewall_rule_def Let_def grows_commands)

lemma both_grows: "grows (view s) (view (snd (add_both h adding udp i out n s)))"
  unfolding add_both_def Let_def split_beta
  by (auto intro: firewall_grows grows_trans[OF firewall_grows] grows_trans[OF grows_trans[OF firewall_grows firewall_grows]])

lemma rules_grow: "grows (view s) (view (snd (add_all_rules h adding udp s)))"
  "add_all_rtp_rules h adding udp s = Some (r, t) \<Longrightarrow> grows (view s) (view t)"
proof -
  show "grows (view s) (view (snd (add_all_rules h adding udp s)))"
    by (simp add: add_all_rules_def Let_def split_beta both_grows grows_trans[OF firewall_grows both_grows])
  show "add_all_rtp_rules h adding udp s = Some (r, t) \<Longrightarrow> grows (view s) (view t)"
    using both_grows[of "s\<lparr>srpp_ttl_s := int_digits (srpp_ttl s)\<rparr>"]
    by (auto simp: add_all_rtp_rules_def sprintf_int_def Let_def split_beta split: if_splits bind_splits)
qed

lemma view_parts:
  "audio_line h msg d s = Some (m, t) \<Longrightarrow> view t = view s" "connection_line h msg d w s = Some t \<Longrightarrow> view t = view s"
  "view (resolve_and_set h n s) = view s" "view (set_destination h n s) = view s"
  by (auto simp: audio_line_def connection_line_def resolve_and_set_def set_destination_def Let_def split: if_splits bind_splits option.splits)

lemma start_media_grows: "start_media h msg d s = Some t \<Longrightarrow> grows (view s) (view t)"
proof -
  assume "start_media h msg d s = Some t"
  then consider "t = s" | u where "connection_line h msg d (saw_ack s = 0) s = Some u"
      "view t = view (u\<lparr>rtp_ports := rtp_ports u @ [inport u, outport u]\<rparr>)
        \<or> (\<exists>r v. add_all_rtp_rules h True True (u\<lparr>rtp_ports := rtp_ports u @ [inport u, outport u]\<rparr>) = Some (r, v) \<and> view t = view v)"
    unfolding start_media_def by (fastforce simp: Let_def split: if_split_asm bind_splits)
  then show ?thesis
  proof cases
    case 2
    have "grows (view s) (view (u\<lparr>rtp_ports := rtp_ports u @ [inport u, outport u]\<rparr>))"
      using grows_ports[of u] view_parts(2)[OF 2(1)] by simp
    then show ?thesis using 2(2) rules_grow(2) grows_trans by metis
  qed simp
qed

lemma register_view: "parse_register h msg d s = Some (r, t) \<Longrightarrow> view t = view s" "parse_subscribe h msg d s = Some (r, t) \<Longrightarrow> view t = view s"
  by (auto simp: parse_register_def parse_subscribe_def Let_def view_parts split: if_splits bind_splits)

text \<open>The receive operation of the program, and the operations that use it.\<close>

definition grows_ext where
  "grows_ext x y \<longleftrightarrow> grows (view (srpp.extend sample_state x)) (view (srpp.extend sample_state y))"

lemma grows_ext_more: "grows_ext (srpp.more s) (srpp.more t) \<longleftrightarrow> grows (view s) (view t)"
proof -
  have "view (srpp.extend sample_state (srpp.more s)) = view s" for s by (rule view_libsrpp) (simp add: srpp.defs)
  then show ?thesis by (simp add: grows_ext_def)
qed

locale program_receiver =
  fixes recv :: sq_receiver
  assumes recv_grows: "recv s = Some (r, t) \<Longrightarrow> grows (view s) (view t)"

sublocale program_receiver \<subseteq> receive_relation recv grows_ext
proof unfold_locales
  show "grows_ext x x" for x by (simp add: grows_ext_def)
  show "grows_ext x z" if "grows_ext x y" "grows_ext y z" for x y z using that grows_trans unfolding grows_ext_def by blast
  show "grows_ext (srpp.more s) (srpp.more t)" if "recv s = Some (r, t)" for s r t using recv_grows[OF that] by (simp only: grows_ext_more)
qed

context program_receiver begin

lemma libsrpp_grows:
  "stop_session e recv s = Some (r, t) \<Longrightarrow> grows (view s) (view t)" "start_session e recv s = Some (r, t) \<Longrightarrow> grows (view s) (view t)"
  "processReceivedData e recv b n s = Some (x, t) \<Longrightarrow> grows (view s) (view t)"
  using stopping starting processing unfolding grows_ext_more by blast+

end

lemma keep_header_grows: "keep_header b s = Some t \<Longrightarrow> grows (view s) (view t)"
  by (auto simp: keep_header_def peek_def split: if_splits bind_splits intro: grows_header)

lemma send_media_view: "send_media e b n s = Some (c, k, t) \<Longrightarrow> view t = view s"
proof -
  have "yields (send_media e b n s) (\<lambda>(c, k, t). view t = view s)"
    unfolding send_media_def Let_def
    by (intro yields_rules) (auto split: if_splits dest!: more_rtp_to_srpp view_libsrpp)
  then show "send_media e b n s = Some (c, k, t) \<Longrightarrow> view t = view s" by (auto dest: yieldsD)
qed

lemma yields_result: "(\<And>st m. r = Returns st m \<Longrightarrow> yields (f st m) P) \<Longrightarrow> (\<And>m. r = Throws_length_error m \<Longrightarrow> yields (g m) P)
  \<Longrightarrow> yields (case r of Returns st m \<Rightarrow> f st m | Throws_length_error m \<Rightarrow> g m) P"
  by (cases r) simp_all

lemma receive_media_view: "receive_media e b n s = Some (c, k, t) \<Longrightarrow> view t = view s"
proof -
  have "yields (receive_media e b n s) (\<lambda>(c, k, t). view t = view s)"
    unfolding receive_media_def Let_def
    by (intro yields_rules yields_result) (auto split: if_splits dest!: more_srpp_to_rtp view_libsrpp)
  then show "receive_media e b n s = Some (c, k, t) \<Longrightarrow> view t = view s" by (auto dest: yieldsD)
qed

context program_receiver begin

lemma end_session_grows: "end_session e recv s = Some t \<Longrightarrow> grows (view s) (view t)"
  by (auto simp: end_session_def split: if_splits bind_splits dest!: libsrpp_grows(1) flush_grows intro: grows_trans)

lemma stop_discovering_grows: "stop_discovering e h recv s = Some t \<Longrightarrow> grows (view s) (view t)"
  using rules_grow(1)[of "_\<lparr>is_discovering := 0\<rparr>" h False True]
  by (auto simp: stop_discovering_def split: bind_splits dest!: end_session_grows intro: grows_trans)

lemma media_kind_grows: "media_kind e h recv msg d m s = Some (x, t) \<Longrightarrow> grows (view s) (view t)"
  by (auto simp: media_kind_def split: if_splits bind_splits dest!: stop_discovering_grows)

lemma bye_grows: "parse_bye e h recv s = Some (r, t) \<Longrightarrow> grows (view s) (view t)"
  by (auto simp: parse_bye_def Let_def split: if_splits bind_splits dest!: end_session_grows rules_grow(2) intro: grows_trans)

lemma answer_grows: "parse_answer e h recv msg d s = Some (r, t) \<Longrightarrow> grows (view s) (view t)"
proof -
  let ?s = "if has msg ''200 OK'' then if sent_invite s = 1 \<and> d = 0 then s\<lparr>saw_200ok := 1\<rparr> else s
       else if saw_invite_already s = 1 \<and> has msg ''Route:'' then s\<lparr>saw_ack := 1\<rparr> else s"
  have v: "view ?s = view s" by simp
  have d: "grows (view ?s) (view t)" if "(if has msg ''Content-Type: application/sdp''
       then do { (m, s) \<leftarrow> audio_line h msg d ?s; media_kind e h recv msg d m s } else Some (False, ?s)) = Some (x, t)" for x t
    using that by (auto split: if_split_asm bind_splits simp del: if_split dest!: media_kind_grows view_parts(1) simp del: view_upd)
  have "yields (parse_answer e h recv msg d s) (\<lambda>(r, t). grows (view s) (view t))"
    unfolding parse_answer_def Let_def
    by (intro yields_rules) (auto dest!: d start_media_grows simp: v intro: grows_trans)
  then show "parse_answer e h recv msg d s = Some (r, t) \<Longrightarrow> grows (view s) (view t)" by (auto dest: yieldsD)
qed

lemma invite_grows: "parse_invite e h recv msg d s = Some (r, t) \<Longrightarrow> grows (view s) (view t)"
proof -
  have "yields (parse_invite e h recv msg d s) (\<lambda>(r, t). grows (view s) (view t))"
    unfolding parse_invite_def Let_def
    by (intro yields_rules) (auto dest!: media_kind_grows view_parts(1,2) simp: view_parts(4))
  then show "parse_invite e h recv msg d s = Some (r, t) \<Longrightarrow> grows (view s) (view t)" by (auto dest: yieldsD)
qed

lemma sip_grows: "parse_sip e h recv msg d s = Some (r, t) \<Longrightarrow> grows (view s) (view t)"
  by (auto simp: parse_sip_def split: if_split_asm dest!: bye_grows answer_grows invite_grows register_view)

lemma try_grows: "try_SRPP e recv s = Some t \<Longrightarrow> grows (view s) (view t)"
proof -
  have e: "view (set_starting_sequenceno n (enable_srpp s)) = view s" "view (disable_srpp s) = view s" for n s by (rule view_libsrpp, simp)+
  have "yields (start_SRPP e recv s) (\<lambda>(r, t). grows (view s) (view t))"
    unfolding start_SRPP_def
    by (intro yields_rules) (auto dest!: libsrpp_grows flush_grows simp: e intro: grows_trans, meson grows_trans)
  then have "start_SRPP e recv s = Some (r, u) \<Longrightarrow> grows (view s) (view u)" for r u by (auto dest: yieldsD)
  then show "try_SRPP e recv s = Some t \<Longrightarrow> grows (view s) (view t)"
    by (auto simp: try_SRPP_def split: bind_splits if_splits)
qed

lemma process_sip_grows: "process_sip e h recv b n off d s = Some (o', c, t) \<Longrightarrow> grows (view s) (view t)"
proof -
  have fwd: "grows (view s) (view t)" if "(if out_port s \<noteq> 0 \<and> pr \<ge> 0
        then do {
          let s = (if d = 0 then s\<lparr>out_ip := inet_addr h (ascii ''127.0.0.1'')\<rparr> else s);
          buff \<leftarrow> poke b off (le16 (htons 5060) @ le16 (out_port s));
          buff \<leftarrow> poke buff 16 (le32 (out_ip s));
          buff \<leftarrow> poke buff 8 [word_of_int (srpp_ttl s)];
          (buff, s) \<leftarrow> send_forward buff n s;
          saddr \<leftarrow> get32 buff 12;
          Some (off, buff, if d = 0 then s\<lparr>out_ip := saddr\<rparr> else s) }
        else Some (off + 8, b, s)) = Some (o', c, t)" for pr s o' c t
    using that by (auto simp: Let_def dest!: send_forward_grows split: if_split_asm bind_splits)
  have hdr: "grows (view s) (view t)" if "(if rtp_hdset s = 0
       then do { x \<leftarrow> peek c 0 28; hdr \<leftarrow> poke (rtp_hdr s) 0 x; Some (s\<lparr>rtp_hdr := hdr, rtp_hdset := 1\<rparr>) } else Some s) = Some t" for s c t
    using that by (auto split: if_split_asm bind_splits intro!: grows_header dest!: length_poke)
  have "yields (process_sip e h recv b n off d s) (\<lambda>(o', c, t). grows (view s) (view t))"
    unfolding process_sip_def
    by (intro yields_bind yields_prod yields_Some, simp only: prod.case) (rule grows_trans[OF grows_trans[OF sip_grows fwd] hdr])
  then show "process_sip e h recv b n off d s = Some (o', c, t) \<Longrightarrow> grows (view s) (view t)" by (auto dest: yieldsD)
qed

end

context program_receiver begin

lemma process_in_grows: "process_in e h recv b n off q s = Some t \<Longrightarrow> grows (view s) (view t)"
proof -
  have sig: "grows (view s) (view t)" if "(if kind = (1 :: int)
       then do { (_, s) \<leftarrow> processReceivedData e recv (drop 28 b) (n - 28) s; flush e s } else Some s) = Some t" for kind s t
    using that by (auto split: if_split_asm bind_splits dest!: libsrpp_grows(3) flush_grows intro: grows_trans)
  have tr: "grows (view s) (view t)" if "(if c then try_SRPP e recv s else Some s) = Some t" for c s t
    using that by (auto split: if_split_asm dest: try_grows)
  have med: "grows (view s) (view t)" if "(if c then receive_media e b n s else Some (b, n, s)) = Some (b', n', t)" for c s t b' n'
    using that by (auto split: if_split_asm dest: receive_media_view)
  have st: "view (s\<lparr>rtp_dest := x, recv_count := y\<rparr>) = view s" for s x y by simp
  have fwd: "grows (view s) (view t)" if "send_forward b n (s\<lparr>out_ip := x, out_port := y\<rparr>) = Some (c, t)" for b n s x y c t
    using send_forward_grows[OF that] by simp
  have "yields (process_in e h recv b n off q s) (\<lambda>t. grows (view s) (view t))"
    unfolding process_in_def Let_def
    by (intro yields_bind yields_prod yields_Some)
      (hypsubst, drule sig, drule keep_header_grows, drule tr, drule med, drule fwd, simp only: st, meson grows_trans)
  then show "process_in e h recv b n off q s = Some t \<Longrightarrow> grows (view s) (view t)" by (rule yieldsD)
qed

lemma process_out_grows: "process_out e h recv b n off s = Some t \<Longrightarrow> grows (view s) (view t)"
proof -
  have tr: "grows (view s) (view t)" if "(if c then try_SRPP e recv s else Some s) = Some t" for c s t
    using that by (auto split: if_split_asm dest: try_grows)
  have med: "grows (view s) (view t)" if "(if c then send_media e b n (s\<lparr>input_packet_sizes := x\<rparr>) else Some (b, n, s)) = Some (b', n', t)" for c s t b' n' x
    using that by (auto split: if_split_asm dest: send_media_view)
  have st: "view (s\<lparr>rtp_src := x, sent_count := y\<rparr>) = view s" "view (s\<lparr>output_packet_sizes := z\<rparr>) = view s" "view (s\<lparr>rtp_src := x\<rparr>) = view s" for s x y z by simp_all
  have fwd: "grows (view s) (view t)" if "send_forward b n (s\<lparr>out_ip := x, out_port := y\<rparr>) = Some (c, t)" for b n s x y c t
    using send_forward_grows[OF that] by simp
  have "yields (process_out e h recv b n off s) (\<lambda>t. grows (view s) (view t))"
    unfolding process_out_def Let_def
    by (intro yields_bind yields_prod yields_if yields_Some; (simp only: st grows_refl; fail)?)
      (hypsubst, drule tr, drule med, drule keep_header_grows, drule fwd, simp only: st sqrkal.simps, meson grows_trans)
  then show "process_out e h recv b n off s = Some t \<Longrightarrow> grows (view s) (view t)" by (rule yieldsD)
qed

lemma process_packet_grows: "process_packet e h recv b n s = Some t \<Longrightarrow> grows (view s) (view t)"
proof -
  have st: "view (s\<lparr>is_udp := x, is_sip := y, is_rtp := z\<rparr>) = view s" for x y z by simp
  have sip: "grows (view s) (view t)" if "(if c then process_sip e h recv b n off d s else Some (off, b, s)) = Some (o', b', t)" for c off d s o' b' t
    using that by (auto split: if_split_asm dest: process_sip_grows)
  have tails: "grows (view s) (view u) \<Longrightarrow> yields (process_in e h recv b n off q u) (\<lambda>t. grows (view s) (view t))"
    "grows (view s) (view u) \<Longrightarrow> yields (process_out e h recv b n off u) (\<lambda>t. grows (view s) (view t))" for u b n off q
    using process_in_grows process_out_grows grows_trans unfolding yields_def by blast+
  have "yields (process_packet e h recv b n s) (\<lambda>t. grows (view s) (view t))"
    unfolding process_packet_def Let_def
    by (intro yields_bind yields_prod yields_if yields_Some tails; (simp only: st grows_refl; fail)?; hypsubst?)
      (drule sip, simp only: st)+
  then show "process_packet e h recv b n s = Some t \<Longrightarrow> grows (view s) (view t)" by (rule yieldsD)
qed

end

lemma grows_queue: "length q \<le> length (queue s) \<Longrightarrow> grows (view s) (view (s\<lparr>queue := q\<rparr>))"
  by (auto simp: grows_def view_def intro: exI[of _ "[]"])

lemma view_construct: "view (snd (construct_message e s)) = view s"
  by (rule view_libsrpp) simp

lemma receive_grows: "receive_rtp_message fuel e h s = Some (r, t) \<Longrightarrow> grows (view s) (view t)"
proof (induction fuel arbitrary: s r t)
  case (Suc fuel)
  let ?recv = "receive_rtp_message fuel e h"
  have loc: "program_receiver ?recv" by unfold_locales (rule Suc.IH)
  note g = program_receiver.process_packet_grows[OF loc] program_receiver.libsrpp_grows(3)[OF loc]
  obtain u where u: "flush e s = Some u" using Suc.prems by (cases "flush e s") simp_all
  let ?c = "construct_message e u"
  obtain status msg rest where q: "queue (snd ?c) = (status, msg) # rest"
    using Suc.prems u by (cases "queue (snd ?c)") (auto simp: split_beta Let_def)
  let ?u = "snd ?c\<lparr>queue := rest\<rparr>"
  have "grows (view u) (view ?u)" using grows_queue[of rest "snd ?c"] q by (simp add: view_construct)
  then have su: "grows (view s) (view ?u)" using flush_grows[OF u] grows_trans by blast
  have "grows (view ?u) (view t)"
  proof (cases msg)
    case (IPQM_PACKET b n v)
    show ?thesis using Suc.prems
      by (auto simp: u q split_beta Let_def IPQM_PACKET split: if_split_asm bind_splits dest!: g flush_grows intro: grows_trans)
  qed (use Suc.prems in \<open>auto simp: u q split_beta Let_def split: if_split_asm\<close>)
  then show ?case using su grows_trans by blast
qed simp

interpretation queue_receiver: program_receiver "receive_rtp_message fuel e h" for fuel e h
  by unfold_locales (rule receive_grows)

lemma discover_step_grows: "discover_step e h s = Some t \<Longrightarrow> grows (view s) (view t) \<and> length (queue t) < length (queue s)"
proof -
  assume a: "discover_step e h s = Some t"
  then obtain status msg rest where q: "queue s = (status, msg) # rest" by (cases "queue s") (auto simp: discover_step_def)
  have m: "grows (view (s\<lparr>queue := rest\<rparr>)) (view t)"
    using a by (cases msg) (auto simp: discover_step_def q Let_def split: if_split_asm dest!: queue_receiver.process_packet_grows)
  have "grows (view s) (view (s\<lparr>queue := rest\<rparr>))" using grows_queue[of rest s] q by simp
  moreover have "length (queue t) \<le> length rest" using m by (auto simp: grows_def view_def)
  ultimately show ?thesis using m grows_trans q by auto
qed

lemma more_reset [simp]: "srpp.more (reset_silence s) = srpp.more s" "srpp.more (reset_packet s) = srpp.more s"
  by (simp_all add: reset_silence_def reset_packet_def)

lemma more_dummy_size: "generate_dummy_pkt_size e n s = Some (m, t) \<Longrightarrow> srpp.more t = srpp.more s"
  by (auto simp: generate_dummy_pkt_size_def split_beta Let_def split: bind_splits)

lemma more_cbp: "cbp_loop e n s = Some t \<Longrightarrow> srpp.more t = srpp.more s"
proof (induction n arbitrary: s)
  case (Suc n)
  then show ?case
    by (auto simp: split_beta Let_def split: bind_splits if_split_asm dest!: more_dummy_size more_send Suc.IH)
qed simp

lemma more_timer: "timer_fired e s = Some t \<Longrightarrow> srpp.more t = srpp.more s"
proof -
  have p: "srpp.more t = srpp.more s" if "pkt_timer_fired e s = Some t" for s t
    using that by (auto simp: pkt_timer_fired_def current_burst_padding_def default_cbp_pad_algo_def split_beta Let_def
        split: if_split_asm bind_splits dest!: more_cbp)
  have q: "srpp.more t = srpp.more s" if "silence_timer_fired e s = Some t" for s t
    using that by (auto simp: silence_timer_fired_def extra_burst_padding_def default_ebp_pad_algo_def split_beta Let_def
        split: if_split_asm bind_splits dest!: more_dummy_size more_send)
  show "timer_fired e s = Some t \<Longrightarrow> srpp.more t = srpp.more s"
    by (auto simp: timer_fired_def Let_def split: if_split_asm bind_splits dest!: p q)
qed

text \<open>The program as a state machine: after the start, a round of the main loop, a tick of the timer of libSRPP with the
  dummies it sends, or the interrupt that stops the discovery.\<close>

inductive program_step :: "env \<Rightarrow> host \<Rightarrow> sqrkal \<Rightarrow> sqrkal \<Rightarrow> bool" for e h where
  round: "is_discovering s = 1 \<Longrightarrow> discover_step e h s = Some t \<Longrightarrow> program_step e h s t"
| ticks: "tick e s = Some t \<Longrightarrow> program_step e h s t"
| interrupt: "stop_discovering e h (receive_rtp_message (Suc (length (queue s))) e h) s = Some t \<Longrightarrow> program_step e h s t"

inductive_cases program_stepE: "program_step e h s t"

lemma program_step_grows: "program_step e h s t \<Longrightarrow> grows (view s) (view t)"
proof (induction rule: program_step.induct)
  case (ticks s t)
  then show ?case by (auto simp: tick_def split: bind_splits dest!: more_timer view_libsrpp flush_grows)
qed (auto dest: discover_step_grows queue_receiver.stop_discovering_grows)

inductive reachable :: "31 word \<Rightarrow> 31 word \<Rightarrow> env \<Rightarrow> host \<Rightarrow> sqrkal \<Rightarrow> sqrkal \<Rightarrow> bool" for r1 r2 e h s0 where
  start: "discovery_started r1 r2 e h s0 = Some s \<Longrightarrow> reachable r1 r2 e h s0 s"
| step: "reachable r1 r2 e h s0 s \<Longrightarrow> program_step e h s t \<Longrightarrow> reachable r1 r2 e h s0 t"

lemma init_view: "discovery_started r1 r2 e h s = Some t \<Longrightarrow> view t = view (snd (add_all_rules h True True
    (s\<lparr>srpp_ttl := 65 + uint r1 mod 25 + uint r2 mod 5, srpp_ttl_s := int_digits (65 + uint r1 mod 25 + uint r2 mod 5)\<rparr>)))"
proof -
  have f: "srpp.more (fill_dummy e i s) = srpp.more s" for i and s :: sqrkal by (simp add: fill_dummy_def split_beta Let_def)
  have "srpp.more (fold (fill_dummy e) xs s) = srpp.more s" for xs and s :: sqrkal by (induction xs arbitrary: s) (simp_all only: fold_simps f)
  moreover have "srpp.more (create_session a p s) = srpp.more s" for a p and s :: sqrkal
    by (simp add: create_session_def new_SRPPSession_def new_SRPPTimer_def setSilenceTimer_def setPacketTimer_def)
  ultimately have "srpp.more (initialize_srpp e s) = srpp.more s" for s
    unfolding initialize_srpp_def init_SRPP_def new_PaddingFunctions_def by (simp only:)
  then have "view (initialize_srpp e s) = view s" for s by (rule view_libsrpp)
  then show "discovery_started r1 r2 e h s = Some t \<Longrightarrow> ?thesis"
    by (auto simp: discovery_started_def sprintf_int_def Let_def view_upd split: if_splits)
qed

lemma reachable_grows: "reachable r1 r2 e h s0 s \<Longrightarrow> grows (view s0) (view s)"
proof (induction rule: reachable.induct)
  case (start s)
  show ?case unfolding init_view[OF start] using rules_grow(1)[of "s0\<lparr>srpp_ttl := _, srpp_ttl_s := _\<rparr>"] by simp
next
  case (step s t)
  then show ?case using program_step_grows grows_trans by blast
qed

text \<open>C4. In every state the program reaches, through packets, timer ticks and interrupts in any order, the SIP port is
  the one it started with, the media ports are the first one followed by pairs of a local and a remote port, the stored
  header is whole and its state one of three, and nothing that has been sent is taken back.\<close>

theorem program_invariant:
  assumes "reachable r1 r2 e h s0 s" "sip_ports s0 = [5060]" "rtp_ports s0 = [5000]" "length (rtp_hdr s0) = 40" "rtp_hdset s0 = 0"
  shows "sip_ports s = [5060] \<and> (\<exists>prs. rtp_ports s = 5000 # concat (map (\<lambda>(i, out). [i, out]) prs)) \<and> length (rtp_hdr s) = 40
    \<and> rtp_hdset s \<in> {0, 1, 2} \<and> (\<exists>ms. raw_sent s = raw_sent s0 @ ms) \<and> length (queue s) \<le> length (queue s0)"
  using reachable_grows[OF assms(1)] assms(2-5) by (auto simp: grows_def view_def)

text \<open>The main loop is a sequence of such steps, and it ends: every round takes a message from the queue.\<close>

lemma discover_loop_reachable:
  "discover_loop n e h s = Some t \<Longrightarrow> reachable r1 r2 e h s0 s \<Longrightarrow> length (queue s) \<le> n
    \<Longrightarrow> reachable r1 r2 e h s0 t \<and> (queue t = [] \<or> is_discovering t \<noteq> 1)"
proof (induction n arbitrary: s)
  case (Suc n)
  show ?case
  proof (cases "is_discovering s = 1 \<and> queue s \<noteq> []")
    case True
    then obtain u where u: "discover_step e h s = Some u" "discover_loop n e h u = Some t" using Suc.prems(1) by (auto split: bind_splits)
    then show ?thesis using Suc.IH[OF u(2)] Suc.prems discover_step_grows[OF u(1)] reachable.step[OF _ program_step.round] True by fastforce
  qed (use Suc.prems in auto)
qed auto

text \<open>The main loop runs to its end: it goes through states of the program only, and when it has come back there is
  nothing left to read or the discovery has been stopped.\<close>

theorem discovery_ends:
  assumes "discover_sessions r1 r2 e h s = Some t"
  shows "reachable r1 r2 e h s t \<and> (queue t = [] \<or> is_discovering t \<noteq> 1)"
  using assms discover_loop_reachable[OF _ reachable.start] by (auto simp: discover_sessions_def split: bind_splits)

lemma port_listed_pairs:
  "port_listed (p # concat (map (\<lambda>(i, out). [i, out]) prs)) l r
    \<longleftrightarrow> {uint l, uint r} \<inter> ({p} \<union> snd ` set prs) \<noteq> {}"
proof (induction prs arbitrary: p)
  case (Cons x prs)
  obtain i out where x: "x = (i, out)" by force
  have "port_listed (p # concat (map (\<lambda>(i, out). [i, out]) (x # prs))) l r
    \<longleftrightarrow> uint l = p \<or> uint r = p \<or> port_listed (out # concat (map (\<lambda>(i, out). [i, out]) prs)) l r" by (simp add: x)
  then show ?case unfolding Cons.IH x by auto
qed auto

text \<open>C39. Media from a port that was not announced is lost. In every state the program reaches, a UDP packet that is neither
  from nor to one of the remote ports of the calls so far is dropped, also when it goes to the port on which the own
  phone waits for media: the loop over the ports never looks at the local ones.\<close>

theorem unannounced_source_lost:
  assumes "reachable r1 r2 e h s0 s" "sip_ports s0 = [5060]" "udp_head a" "28 \<le> n"
    and "rtp_ports s = 5000 # concat (map (\<lambda>(i, out). [i, out]) prs)"
    and "{uint (src_port a), uint (dst_port a)} \<inter> ({5000, 5060} \<union> snd ` set prs) = {}"
  shows "\<exists>t. process_packet e h recv (a @ d) n s = Some t \<and> raw_sent t = raw_sent s"
proof -
  have "sip_ports s = [5060]" using reachable_grows[OF assms(1)] assms(2) by (auto simp: grows_def view_def)
  then have "\<not> port_listed (sip_ports s) (src_port a) (dst_port a)" using assms(6) by auto
  moreover have "\<not> port_listed (rtp_ports s) (src_port a) (dst_port a)"
    unfolding assms(5) port_listed_pairs using assms(6) by blast
  ultimately show ?thesis using process_packet_udp(1)[OF assms(3,4)] by auto
qed

lemma sample_start: "sip_ports sample_sqrkal = [5060]" "rtp_ports sample_sqrkal = [5000]" "length (rtp_hdr sample_sqrkal) = 40"
  "rtp_hdset sample_sqrkal = 0" "queue sample_sqrkal = []" "raw_sent sample_sqrkal = []"
  by (simp_all add: sample_sqrkal_def sqrkal_start_def srpp.defs)

lemma ttl_digits:
  fixes r1 r2 :: "31 word"
  shows "length (int_digits (65 + uint r1 mod 25 + uint r2 mod 5)) = 2"
proof -
  have "0 \<le> uint r1 mod 25" "uint r1 mod 25 < 25" "0 \<le> uint r2 mod 5" "uint r2 mod 5 < 5" by simp_all
  then obtain n where n: "65 + uint r1 mod 25 + uint r2 mod 5 = int n" "10 ^ 1 \<le> n" "n < 10 ^ 2"
    by (intro that[of "nat (65 + uint r1 mod 25 + uint r2 mod 5)"]) simp_all
  have "1 < length (nat_digits n)" by (rule many_digits[OF n(2)])
  moreover have "length (nat_digits n) \<le> 2" by (rule length_nat_digits[OF n(3)]) simp
  ultimately show ?thesis by (simp add: n(1) int_digits_def)
qed

lemma started:
  assumes "3 \<le> ttl_room h"
  obtains s where "discovery_started r1 r2 e h s0 = Some s" "rtp_ports s = rtp_ports s0"
proof -
  obtain s where s: "discovery_started r1 r2 e h s0 = Some s"
    using assms ttl_digits[of r1 r2] by (simp add: discovery_started_def sprintf_int_def Let_def)
  have "rtp_ports (snd (add_all_rules h True True t)) = rtp_ports t" for t
    by (simp add: add_all_rules_def add_both_def add_firewall_rule_def Let_def split_beta)
  then show ?thesis using that[OF s] init_view[OF s] by (simp add: view_def)
qed

lemma sample_room: "3 \<le> ttl_room sample_host" "ttl_room (sample_host\<lparr>ttl_room := 2\<rparr>) = 2"
  by (simp_all add: sample_host_def)

text \<open>C38. The array \<open>srpp_ttl_s\<close> as it is declared, with two octets, is too small for every ttl that the program can choose:
  the discovery begins with a write behind its end. Only when the memory behind it belongs to no other object does
  the program get further; then it always does.\<close>

theorem ttl_overruns:
  "(discovery_started r1 r2 e h s = None \<longleftrightarrow> ttl_room h \<le> 2) \<and> (ttl_room h \<le> 2 \<longrightarrow> discover_sessions r1 r2 e h s = None)"
  using ttl_digits[of r1 r2] by (auto simp: discover_sessions_def discovery_started_def sprintf_int_def Let_def)

theorem ttl_overruns_witness:
  "discover_sessions 7 8 zero_env (sample_host\<lparr>ttl_room := 2\<rparr>) sample_sqrkal = None"
  using ttl_overruns[of 7 8 zero_env "sample_host\<lparr>ttl_room := 2\<rparr>" sample_sqrkal] sample_room(2) by simp

theorem program_invariant_witness:
  "\<exists>s. discovery_started 7 8 zero_env sample_host sample_sqrkal = Some s \<and> length (rtp_hdr s) = 40 \<and> sip_ports s = [5060]"
proof -
  obtain s where s: "discovery_started 7 8 zero_env sample_host sample_sqrkal = Some s" by (rule started[OF sample_room(1)])
  then show ?thesis using program_invariant[OF reachable.start[OF s] sample_start(1-4)] by blast
qed

theorem discovery_ends_witness:
  "\<exists>t. discover_sessions 7 8 zero_env sample_host sample_sqrkal = Some t
    \<and> (queue t = [] \<or> is_discovering t \<noteq> 1)"
proof -
  obtain s where s: "discovery_started 7 8 zero_env sample_host sample_sqrkal = Some s" by (rule started[OF sample_room(1)])
  have "length (queue s) \<le> length (queue sample_sqrkal)"
    using reachable_grows[OF reachable.start[OF s]] by (auto simp: grows_def view_def)
  then have "discover_sessions 7 8 zero_env sample_host sample_sqrkal = Some s"
    by (simp add: discover_sessions_def s sample_start)
  then show ?thesis using discovery_ends by blast
qed

theorem unannounced_source_lost_witness:
  "\<exists>s t. discovery_started 7 8 zero_env sample_host (sample_sqrkal\<lparr>rtp_ports := [5000, 6000, 8000]\<rparr>) = Some s
    \<and> process_packet zero_env sample_host (\<lambda>_. None) (sample_head @ sample_data) 200 s = Some t"
proof -
  let ?s0 = "sample_sqrkal\<lparr>rtp_ports := [5000, 6000, 8000]\<rparr>"
  obtain s where s: "discovery_started 7 8 zero_env sample_host ?s0 = Some s" "rtp_ports s = rtp_ports ?s0" by (rule started[OF sample_room(1)])
  have "rtp_ports s = 5000 # concat (map (\<lambda>(i, out). [i, out]) [(6000, 8000)])" by (simp add: s(2))
  from unannounced_source_lost[OF reachable.start[OF s(1)] _ sample_head_fields(1) _ this, of 200 "\<lambda>_. None" sample_data] sample_start(1)
  show ?thesis using s(1) by (auto simp: sample_head_fields)
qed

end
