(* ===== verification/Spec2Isabelle.thy ===== *)
theory Spec2Isabelle
  imports Srtp_Rtcp Srtp_Lifecycle Srtp_Random Sqrkal_Program
begin

text \<open>
  \<^bold>\<open>A verification library for SQRKal.\<close>

  SQRKal (\<open>src/\<close>) protects RTP media against traffic analysis: it intercepts the packets of a VoIP client,
  converts them to packets of its own protocol SRPP, which pads, masks and XOR-encrypts them, and converts what
  it receives back. Its own code is \<open>src/src/libSRPP\<close> (messages, padding, timers, signalling, sessions) and the
  interception program \<open>src/src/sqrkal_discovery\<close>; it bundles the C library libSRTP
  (\<open>src/3rd_party/srtp\<close>), whose cryptographic kernel secures the media, and further stacks.

  \<^bold>\<open>Theories and the code they model.\<close> Definitions keep the names of the source.
  \<^item> \<open>C_Prelude\<close>: fixed-width integers, byte order, memory blocks and C strings, generic lemmas.
  \<^item> \<open>Srtp_Err\<close>, \<open>Srtp_Datatypes\<close>: \<open>crypto/include/err.h\<close>, \<open>crypto/math/datatypes.c\<close>: status codes, 128-bit
    vectors, hexadecimal and base 64 text. Shows the hexadecimal round trip, the table of Hamming weights
    against the count of bits, and the overflow of the print buffer.
  \<^item> \<open>Srtp_Replay\<close>: \<open>crypto/replay/rdb.c\<close>, \<open>rdbx.c\<close>: the replay databases refine sliding sets of indices for
    packets in order; what happens to late packets and after gaps.
  \<^item> \<open>Srtp_Key\<close>: \<open>crypto/kernel/key.c\<close>: the lifetime of a key.
  \<^item> \<open>Srtp_Sha1\<close>, \<open>Srtp_Auth\<close>: \<open>crypto/hash\<close>: incremental SHA-1 equals FIPS 180, HMAC through the generic
    layer (the locale of the interface, interpreted on the model of \<open>hmac.c\<close>), the self test.
  \<^item> \<open>Srtp_Gf28\<close>, \<open>Srtp_Aes_Tables\<close>, \<open>Srtp_Aes\<close>: \<open>crypto/math/gf2_8.c\<close>, \<open>crypto/cipher/aes.c\<close>: the tables, AES
    against FIPS 197, decryption as the inverse of encryption.
  \<^item> \<open>Srtp_Cipher\<close>, \<open>Srtp_Cipher_Type\<close>: \<open>crypto/cipher\<close>: counter mode, chaining mode, the null cipher, the generic
    layer and its self test.
  \<^item> \<open>Srtp_Kernel\<close>: \<open>crypto/kernel/crypto_kernel.c\<close>: start, status and shutdown, the lists of types and debug modules;
    in every reachable state an identifier finds exactly the type loaded under it.
  \<^item> \<open>Srtp_Session\<close>: \<open>srtp/srtp.c\<close> and \<open>include/srtp.h\<close>: policies, streams, key derivation, creation and release of
    sessions, on a heap of streams, ciphers, authentication functions and key limits that streams may share.
  \<^item> \<open>Srtp_Packet\<close>: the protection of RTP and RTCP packets in \<open>srtp.c\<close> and its removal, with every status.
  \<^item> \<open>Srtp_Protection\<close>: what a protected packet is, over the locales \<open>packet_cipher\<close> and \<open>packet_auth\<close> (the laws a
    cipher and an authentication function have to obey there; interpreted for both protocols on the model of the generic
    layers); forged packets and replayed packets are refused.
  \<^item> \<open>Srtp_Creation\<close>, \<open>Srtp_Rtcp\<close>: two sessions with one policy exchange any sequence of RTP packets, and of RTCP
    packets up to the last index.
  \<^item> \<open>Srtp_Lifecycle\<close>: the list of streams, its removals, and that a session gives back all its memory.
  \<^item> \<open>Srtp_Stat\<close>: \<open>crypto/math/stat.c\<close>: the statistical tests against FIPS 140-2.
  \<^item> \<open>Srtp_Random\<close>: \<open>crypto/rng\<close>: the generators; the one in counter mode refines a tape of keystream.
  \<^item> \<open>Srpp_Message\<close>: \<open>libSRPP/include/SRPPMessage.hpp\<close>: the wire format and the XOR encryption.
  \<^item> \<open>Srpp_State\<close>: the state of libSRPP (the record \<open>srpp\<close>, one field per global variable or object) and what all
    its parts use: random numbers, creation, encryption and sending of messages.
  \<^item> \<open>Srpp_Padding\<close>: \<open>Padding_functions.cpp\<close>, \<open>Padding_Algorithms.cpp\<close>: the dummy cache with its invariant
    \<open>padding_inv\<close>, which every operation keeps, packet size padding and bursts.
  \<^item> \<open>Srpp_Timer\<close>: \<open>srpp_timer.cpp\<close>: the tick handler; when dummies are sent and when not.
  \<^item> \<open>Srpp_Rtp\<close>: \<open>rtp.hpp\<close> and the conversions of \<open>SRPP_functions.cpp\<close>.
  \<^item> \<open>Srpp_Signaling\<close>: \<open>Signaling_functions.hpp\<close>, \<open>sdp_srpp.hpp\<close>, the sessions and the handling of received
    datagrams of \<open>SRPP_functions.cpp\<close>: the handshake agrees.
  \<^item> \<open>Sqrkal_Packet\<close>: \<open>sqrkal_discovery.cpp\<close>: the state of the interception program, which extends the record of
    libSRPP by its global variables, and what it does with packets as a whole: checksums against the sum of RFC 791,
    fragments that give the packet again up to four octets, the messages it sends for libSRPP, the commands to the firewall.
  \<^item> \<open>Sqrkal_Sip\<close>: \<open>parse_sip\<close>: it raises an exception on the shortest messages only, and an invitation with its answer
    and acknowledgement set up a call, unless a number overruns the array it is printed to.
  \<^item> \<open>Sqrkal_Discovery\<close>: \<open>process_packet\<close>, \<open>receive_rtp_message\<close> and the main loop \<open>discover_sessions\<close>.
  \<^item> \<open>Sqrkal_Media\<close>: media packets of a call through the programs at both ends: SRTP gets from one phone to the other, RTP
    does not, because the receiving program overruns an array.
  \<^item> \<open>Sqrkal_Program\<close>: the program as a state machine of packets, timer ticks and interrupts, and what it keeps in all
    reachable states. The locale \<open>receive_relation\<close> is the interface through which libSRPP calls the program while it
    waits: what the receive operation keeps of the program's variables, every operation of libSRPP keeps. Its extension
    \<open>program_receiver\<close> does the same for the operations of the program, and is interpreted on \<open>receive_rtp_message\<close>.
  \<^item> This theory: an RTP packet on its whole way from one endpoint of libSRPP to the other.

  \<^bold>\<open>Conventions.\<close> The data model is LP64 and little-endian. A result \<^const>\<open>None\<close> is that the program does not go on
  in a defined way: an access outside an array, a loop without end, a wait without answer; each theory says
  which. What the program gets from outside is a parameter: memory allocation and random octets in libSRTP; the
  clock, the C generator, the contents of uninitialised memory and the status of sending in the record \<open>env\<close> of
  libSRPP, all of them arbitrary in the theorems; what commands, interfaces and the name service answer in the record
  \<open>host\<close> of the interception program. Datagrams sent and to be received, and the reads from the packet queue, are lists
  of the state. The operations of libSRPP work on every extension of its record. libSRPP calls the send functor of the
  program while it sends; nothing of the program runs in between, so \<open>flush\<close> carries these calls out, in order, when
  control is back. The global array \<open>srpp_ttl_s\<close> has the room that the linker leaves it, \<open>ttl_room\<close>: with the two octets
  of its declaration the program has no defined behaviour at all, as \<open>ttl_overruns\<close> shows. The signed product
  \<open>octets_in_msg * 8\<close> of \<open>sha1_update\<close>, which overflows for a piece of \<open>2 ^ 28\<close> octets or more, wraps around.

  \<^bold>\<open>Fuel.\<close> \<open>receive_message\<close> has fuel, since handlers and receiving call each other; the theorem
  \<open>receive_fuel_enough\<close> shows that more fuel than pending datagrams never makes a difference. \<open>receive_rtp_message\<close> has
  fuel for the same reason, and the main loop gives it one more than there are reads: every level takes one. The main
  loop has as many rounds as there are reads, and \<open>discovery_ends\<close> shows that it stops for lack of packets only. The loop of
  \<open>generate_dummy_data\<close>, which may not end, is a partial function.

  \<^bold>\<open>Not modelled\<close>, and listed with the reasons in the manifest: console output, sockets and the set-up of
  interval timers (effects of the operating system only); the interruption of other code by the timer signal (a
  tick is one step); processor variants of the AES code other than the table-driven one; the demonstration endpoint
  \<open>SQRKal_functions.cpp\<close>, whose test messages are read through a pointer to an object that is gone; \<open>md5.cpp\<close>, a digest that nothing in the program uses; in libSRTP the wrappers of
  \<open>malloc\<close> and \<open>printf\<close>, the test drivers and the unused transforms; the bundled stacks libzrtp, zfoned, zfone and
  ccrtp, which the program's own code does not call.
\<close>

section \<open>An RTP packet from end to end\<close>

text \<open>The datagram that leaves for an RTP packet under the default options.\<close>

lemma rtp_sent:
  fixes s :: "'d srpp_scheme" and h buff len
  defines "k \<equiv> encryption_key (session s)"
  assumes "padding_inv s" "algos s = no_padding_options" "0 \<le> sint k" "rh_cc h = 0" "0 < len" "len < 1366" "len \<le> length buff"
  obtains q t st u buf where
    "rtp_to_srpp e h buff len s = Some (srpp_encrypt k (media_plain e h (take len buff) q s), t)"
    "send_message e (srpp_encrypt k (media_plain e h (take len buff) q s)) t = Some (st, u)" "sent u = sent s @ [buf]"
    "length buf = 92 + len + length q" "0 < length q" "length q \<le> 1366"
    "srpp_to_network (\<lambda>t. ucast (rand_after e t)) (srpp_encrypt k (media_plain e h (take len buff) q s))
       (map (heap e) [0..<92 + len + length q]) (sint k) = Some (srpp_encrypt k (media_plain e h (take len buff) q s), buf)"
proof -
  let ?s = "snd (construct_message e s)"
  have full: "len \<le> 1366 \<or> is_full_bandwidth (algos s) = 0" using assms by simp
  obtain q t where t: "rtp_to_srpp e h buff len s = Some (srpp_encrypt k (media_plain e h (take len buff) q s), t)"
    "int (length q) = fst (psp_extra_size e (int len) ?s)" "session t = session s" "sent t = sent s"
    using rtp_to_srpp_ok[OF assms(2,5,6,8) full, of e] unfolding k_def by metis
  have "1 \<le> fst (psp_extra_size e (int len) ?s)" "fst (psp_extra_size e (int len) ?s) \<le> 1366 - int len"
    using psp_extra_size_random(1)[of ?s "int len" e] psp_extra_size_random(2)[of ?s "int len" e] assms(3,7)
    by (simp_all add: no_padding_options_def)
  then have q: "0 < length q" "length q \<le> 1366" using t(2) by linarith+
  let ?m = "srpp_encrypt k (media_plain e h (take len buff) q s)"
  have m: "length (original_payload (encrypted_part ?m)) = len" "length (srpp_padding (encrypted_part ?m)) = length q"
    "sh_cc (srpp_header ?m) = 0" "pad_count (encrypted_part ?m) XOR encryption_key (session t) = of_nat (length q)"
    "isSignalingMessage ?m \<noteq> 1" "encryption_key (session t) = k"
    using assms(8) t(3) by (simp_all add: srpp_encrypt_def media_plain_def Let_def isSignalingMessage_def signalling_kind_def k_def)
  show ?thesis
  proof (rule send_message_ok[of ?m t e])
    show "original_payload (encrypted_part ?m) \<noteq> []" using m(1) assms(6) by auto
    show "0 \<le> sint (encryption_key (session t))" using m(6) assms(4) by simp
    fix buf
    assume "send_message e ?m t = Some (send_status e buf, t\<lparr>sent := sent t @ [buf], sent_at := sent_at t @ [lastSequenceNo t], packet_to_send := 0\<rparr>)"
      "length buf = 92 + length (original_payload (encrypted_part ?m)) + length (srpp_padding (encrypted_part ?m))"
      "srpp_to_network (\<lambda>t. ucast (rand_after e t)) ?m (map (heap e) [0..<92 + length (original_payload (encrypted_part ?m))
          + length (srpp_padding (encrypted_part ?m))])
       (if isSignalingMessage ?m = 1 then 0 else sint (encryption_key (session t))) = Some (?m, buf)"
    then show ?thesis by (intro that[OF t(1), of "send_status e buf" "t\<lparr>sent := sent t @ [buf], sent_at := sent_at t @ [lastSequenceNo t], packet_to_send := 0\<rparr>" buf]) (use m t(4) q in simp_all)
  qed (use m q in simp_all)
qed

text \<open>C1. An RTP packet from one endpoint of libSRPP to the other. The packet has no CSRC entries and 1 to 1365 octets of
  payload; the endpoints are past a signalling through SIP, with a common key that is not negative and the default padding
  options. Converted, padded, encrypted and sent by one endpoint, the packet is read, decrypted, unpadded and converted back
  by the other to the same header, its numbers in host order and its CSRC entries uninitialised, and to the payload,
  followed by a zero, provided that no octet of it equals the low octet of the key. Otherwise the payload is right up to
  the first such octet, and behind it are octets of the sender's heap.\<close>

theorem rtp_end_to_end:
  assumes "padding_inv s" "algos s = no_padding_options" "0 \<le> sint (encryption_key (session s))"
    and "rh_cc h = 0" "0 < len" "len < 1366" "len \<le> length buff"
    and "signaling_by_srpp r = 0" "signaling_complete (signals r) = 1"
    and "encryption_key (session r) = encryption_key (session s)"
  shows "\<exists>m t st u wire. rtp_to_srpp e h buff len s = Some (m, t) \<and> send_message e m t = Some (st, u)
    \<and> sent u = sent s @ [wire]
    \<and> (\<exists>m2 r2 rtp r3. processReceivedData e' recv wire (int (length wire)) r = Some (Returns_message m2, r2)
        \<and> srpp_to_rtp e' m2 r2 = Some (rtp, r3)
        \<and> take (len + 1) (rtp_payload rtp) = arrives (heap e) (ucast (encryption_key (session s))) (take len buff) @ [0]
        \<and> (ucast (encryption_key (session s)) \<notin> set (take len buff) \<longrightarrow> take (len + 1) (rtp_payload rtp) = take len buff @ [0])
        \<and> rtp_header rtp = h\<lparr>rh_seq := ntohs (rh_seq h), rh_ts := ntohl (rh_ts h), rh_ssrc := ntohl (rh_ssrc h),
            rh_csrc := map (junk e') [0..<15]\<rparr>)"
proof -
  let ?k = "encryption_key (session s)" and ?f = "\<lambda>t. ucast (rand_after e t) :: u32"
  obtain q t st u buf where t: "rtp_to_srpp e h buff len s = Some (srpp_encrypt ?k (media_plain e h (take len buff) q s), t)"
    "send_message e (srpp_encrypt ?k (media_plain e h (take len buff) q s)) t = Some (st, u)" "sent u = sent s @ [buf]"
    "length buf = 92 + len + length q" "0 < length q" "length q \<le> 1366"
    "srpp_to_network ?f (srpp_encrypt ?k (media_plain e h (take len buff) q s)) (map (heap e) [0..<92 + len + length q]) (sint ?k)
       = Some (srpp_encrypt ?k (media_plain e h (take len buff) q s), buf)"
    using rtp_sent[OF assms(1-7), of e] by metis
  let ?p = "media_plain e h (take len buff) q s"
  have p: "original_payload (encrypted_part ?p) = take len buff" "srpp_padding (encrypted_part ?p) = q"
    "sh_cc (srpp_header ?p) = 0" "sh_srpp_signalling (srpp_header ?p) = 0"
    "pad_count (encrypted_part ?p) = of_nat (length q)" "dummy_flag (encrypted_part ?p) = 0"
    by (simp_all add: media_plain_def Let_def)
  have len: "length (take len buff) = len" using assms(7) by simp
  let ?c = "fst (create_srpp_message e' [] r)" and ?r = "snd (create_srpp_message e' [] r)"
  obtain m2 where m2: "network_to_srpp ?c buf (int (length buf)) (sint ?k) = Some (Returns 0 m2)"
    "srpp_decrypt ?k m2 = ?p
        \<lparr>srpp_header := (srpp_header ?p)\<lparr>sh_csrc := wire_csrc ?f (srpp_header ?p)\<rparr>,
         encrypted_part := (encrypted_part ?p)
           \<lparr>original_payload := arrives (heap e) (ucast ?k) (take len buff), srpp_padding := srpp_padding (encrypted_part (srpp_decrypt ?k ?c))\<rparr>\<rparr>"
    using media_trip[of ?p ?k "map (heap e) [0..<92 + len + length q]" ?f ?c] assms(3) p t(4-7) len
      delivered_fresh[of "take len buff" "92 + len + length q" "ucast ?k" "heap e"] by auto
  have r: "?r = snd (construct_message e' r)" by (simp add: create_srpp_message_def split_beta)
  have recv: "processReceivedData e' recv buf (int (length buf)) r = Some (Returns_message m2, ?r)"
    using m2(1) assms(8-10) by (simp add: processReceivedData_def split_beta r read_message_def)
  let ?d = "srpp_decrypt ?k m2"
  have d: "srpp_decrypt (encryption_key (session ?r)) m2 = ?d" using assms(10) by (simp add: r)
  obtain rtp r3 where rtp: "srpp_to_rtp e' m2 ?r = Some (rtp, r3)"
    "take (length (original_payload (encrypted_part ?d)) + 1) (rtp_payload rtp) = original_payload (encrypted_part ?d) @ [0]"
    "rtp_header rtp = \<lparr>rh_version = sh_version (srpp_header ?d), rh_p = original_padding_bit (encrypted_part ?d),
       rh_x = sh_x (srpp_header ?d), rh_cc = 0, rh_m = sh_m (srpp_header ?d), rh_pt = sh_pt (srpp_header ?d),
       rh_seq = original_seq_number (encrypted_part ?d), rh_ts = sh_ts (srpp_header ?d),
       rh_ssrc = sh_ssrc (srpp_header ?d), rh_csrc = map (junk e') [0..<15]\<rparr>"
    using srpp_to_rtp_media[OF d, of e'] assms(6) len p by (auto simp: m2(2))
  then show ?thesis using t(1-3) recv assms(4) len unfolding m2(2)
    by (cases h) (auto simp: p media_plain_def Let_def arrives_all)
qed

theorem rtp_end_to_end_witness:
  "\<exists>m t st u wire m2 r2 rtp r3. rtp_to_srpp zero_env sample_rtp [1, 2, 3] 3 sample_state = Some (m, t)
    \<and> send_message zero_env m t = Some (st, u) \<and> sent u = [wire]
    \<and> processReceivedData zero_env (receive_message 0 zero_env) wire (int (length wire))
         (sample_state\<lparr>signaling_by_srpp := 0, signals := no_signals\<lparr>signaling_complete := 1\<rparr>\<rparr>)
        = Some (Returns_message m2, r2)
    \<and> srpp_to_rtp zero_env m2 r2 = Some (rtp, r3) \<and> take 4 (rtp_payload rtp) = [1, 2, 3, 0]"
  using rtp_end_to_end[OF sample_state_inv, of sample_rtp 3 "[1, 2, 3]"
      "sample_state\<lparr>signaling_by_srpp := 0, signals := no_signals\<lparr>signaling_complete := 1\<rparr>\<rparr>" zero_env zero_env
      "receive_message 0 zero_env"]
  by (simp add: sample_state_def sample_rtp_def arrives_all) blast

end
